(* ===== verification/Iscsi_Prelude.thy ===== *)
theory Iscsi_Prelude
  imports Main "HOL-Library.Word"
begin

unbundle bit_operations_syntax

section \<open>Prelude: C strings, buffers and shared lemmas\<close>

text \<open>
  What every component of the model shares.

  \<^item> A NUL-terminated C string is a \<^typ>\<open>string\<close> that holds no NUL character; where the
    program works on a raw buffer the model uses a list of characters or bytes in which NUL may
    occur, and \<open>cstr\<close> reads the C string that starts at a pointer (the suffix of the buffer).
  \<^item> \<open>overlay\<close> is \<open>memcpy\<close> into a buffer at an offset.
  \<^item> The collections \<open>buffer_simps\<close> and \<open>acl_frame\<close> gather the simplification and frame facts the
    component proofs rely on.
\<close>

named_theorems buffer_simps
named_theorems acl_frame

type_synonym byte = "8 word"

abbreviation NUL :: char where
  "NUL \<equiv> CHR 0x00"

definition cstr :: "string \<Rightarrow> string" where
  "cstr xs = takeWhile (\<lambda>c. c \<noteq> NUL) xs"

definition is_cstr :: "string \<Rightarrow> bool" where
  "is_cstr s \<longleftrightarrow> NUL \<notin> set s"

definition overlay :: "'a list \<Rightarrow> nat \<Rightarrow> 'a list \<Rightarrow> 'a list" where
  "overlay buf off xs = take off buf @ xs @ drop (off + length xs) buf"

lemma is_cstr_Nil [simp]: "is_cstr []"
  by (simp add: is_cstr_def)

lemma is_cstr_Cons [simp]: "is_cstr (c # s) \<longleftrightarrow> c \<noteq> NUL \<and> is_cstr s"
  by (auto simp: is_cstr_def)

lemma is_cstr_append [simp]: "is_cstr (s @ t) \<longleftrightarrow> is_cstr s \<and> is_cstr t"
  by (auto simp: is_cstr_def)

lemma is_cstr_take [intro]: "is_cstr s \<Longrightarrow> is_cstr (take n s)"
  by (auto simp: is_cstr_def dest: in_set_takeD)

lemma is_cstr_drop [intro]: "is_cstr s \<Longrightarrow> is_cstr (drop n s)"
  by (auto simp: is_cstr_def dest: in_set_dropD)

lemma is_cstr_takeWhile [intro]: "is_cstr s \<Longrightarrow> is_cstr (takeWhile P s)"
  by (auto simp: is_cstr_def dest: set_takeWhileD)

lemma is_cstr_dropWhile [intro]: "is_cstr s \<Longrightarrow> is_cstr (dropWhile P s)"
  by (auto simp: is_cstr_def dest: set_dropWhileD)

lemma is_cstr_cstr [simp, intro]: "is_cstr (cstr s)"
  by (auto simp: is_cstr_def cstr_def dest: set_takeWhileD)

lemma cstr_id [simp]: "is_cstr s \<Longrightarrow> cstr s = s"
  by (auto simp: is_cstr_def cstr_def takeWhile_eq_all_conv)

lemma cstr_terminated [simp]: "is_cstr s \<Longrightarrow> cstr (s @ NUL # t) = s"
  by (induction s) (auto simp: cstr_def)

lemma length_overlay [buffer_simps]:
  "off + length xs \<le> length buf \<Longrightarrow> length (overlay buf off xs) = length buf"
  by (simp add: overlay_def)

lemma take_overlay_before [buffer_simps]:
  "n \<le> off \<Longrightarrow> off \<le> length buf \<Longrightarrow> take n (overlay buf off xs) = take n buf"
  by (simp add: overlay_def min_def)

lemma drop_overlay [buffer_simps]:
  "off \<le> length buf \<Longrightarrow> drop off (overlay buf off xs) = xs @ drop (off + length xs) buf"
  by (simp add: overlay_def)

lemma nth_overlay_before [buffer_simps]:
  "i < off \<Longrightarrow> off \<le> length buf \<Longrightarrow> overlay buf off xs ! i = buf ! i"
  by (simp add: overlay_def nth_append)

lemma overlay_Nil [simp]: "overlay buf off [] = buf"
  by (simp add: overlay_def)

lemma nth_update_cases:
  "(xs[k := v]) ! j = (if j = k \<and> k < length xs then v else xs ! j)"
  by (cases "k < length xs") (auto simp: nth_list_update list_update_beyond)

end
