(* ===== verification/Iscsi_Codes.thy ===== *)
theory Iscsi_Codes
  imports Iscsi_Prelude
begin

text \<open>
  The codes the components share: the return codes of the tools and the daemon
  (\<open>include/iscsi_err.h\<close>) and the login status of the protocol (\<open>include/iscsi_proto.h\<close>).
\<close>

definition ISCSI_SUCCESS :: int where "ISCSI_SUCCESS = 0"
definition ISCSI_ERR :: int where "ISCSI_ERR = 1"
definition ISCSI_ERR_SESS_NOT_FOUND :: int where "ISCSI_ERR_SESS_NOT_FOUND = 2"
definition ISCSI_ERR_NOMEM :: int where "ISCSI_ERR_NOMEM = 3"
definition ISCSI_ERR_TRANS :: int where "ISCSI_ERR_TRANS = 4"
definition ISCSI_ERR_LOGIN :: int where "ISCSI_ERR_LOGIN = 5"
definition ISCSI_ERR_INVAL :: int where "ISCSI_ERR_INVAL = 7"
definition ISCSI_ERR_TRANS_TIMEOUT :: int where "ISCSI_ERR_TRANS_TIMEOUT = 8"
definition ISCSI_ERR_INTERNAL :: int where "ISCSI_ERR_INTERNAL = 9"
definition ISCSI_ERR_PDU_TIMEOUT :: int where "ISCSI_ERR_PDU_TIMEOUT = 11"
definition ISCSI_ERR_TRANS_NOT_FOUND :: int where "ISCSI_ERR_TRANS_NOT_FOUND = 12"
definition ISCSI_ERR_ACCESS :: int where "ISCSI_ERR_ACCESS = 13"
definition ISCSI_ERR_TRANS_CAPS :: int where "ISCSI_ERR_TRANS_CAPS = 14"
definition ISCSI_ERR_SESS_EXISTS :: int where "ISCSI_ERR_SESS_EXISTS = 15"
definition ISCSI_ERR_INVALID_MGMT_REQ :: int where "ISCSI_ERR_INVALID_MGMT_REQ = 16"
definition ISCSI_ERR_FATAL_LOGIN :: int where "ISCSI_ERR_FATAL_LOGIN = 19"
definition ISCSI_ERR_HOST_NOT_FOUND :: int where "ISCSI_ERR_HOST_NOT_FOUND = 23"
definition ISCSI_ERR_LOGIN_AUTH_FAILED :: int where "ISCSI_ERR_LOGIN_AUTH_FAILED = 24"
definition ISCSI_ERR_BUSY :: int where "ISCSI_ERR_BUSY = 28"
definition ISCSI_ERR_AGAIN :: int where "ISCSI_ERR_AGAIN = 29"
definition ISCSI_ERR_SESSION_NOT_CONNECTED :: int where "ISCSI_ERR_SESSION_NOT_CONNECTED = 32"

lemmas iscsi_err_defs =
  ISCSI_SUCCESS_def ISCSI_ERR_def ISCSI_ERR_SESS_NOT_FOUND_def ISCSI_ERR_NOMEM_def
  ISCSI_ERR_TRANS_def ISCSI_ERR_LOGIN_def ISCSI_ERR_INVAL_def ISCSI_ERR_TRANS_TIMEOUT_def
  ISCSI_ERR_INTERNAL_def ISCSI_ERR_PDU_TIMEOUT_def ISCSI_ERR_TRANS_NOT_FOUND_def ISCSI_ERR_ACCESS_def
  ISCSI_ERR_TRANS_CAPS_def ISCSI_ERR_SESS_EXISTS_def ISCSI_ERR_INVALID_MGMT_REQ_def ISCSI_ERR_FATAL_LOGIN_def
  ISCSI_ERR_HOST_NOT_FOUND_def ISCSI_ERR_LOGIN_AUTH_FAILED_def ISCSI_ERR_BUSY_def ISCSI_ERR_AGAIN_def
  ISCSI_ERR_SESSION_NOT_CONNECTED_def

definition ISCSI_STATUS_CLS_TARGET_ERR :: byte where "ISCSI_STATUS_CLS_TARGET_ERR = 3"
definition ISCSI_LOGIN_STATUS_TGT_MOVED_TEMP :: byte where "ISCSI_LOGIN_STATUS_TGT_MOVED_TEMP = 1"
definition ISCSI_LOGIN_STATUS_TGT_MOVED_PERM :: byte where "ISCSI_LOGIN_STATUS_TGT_MOVED_PERM = 2"
definition ISCSI_LOGIN_STATUS_AUTH_FAILED :: byte where "ISCSI_LOGIN_STATUS_AUTH_FAILED = 1"
definition ISCSI_LOGIN_STATUS_TGT_FORBIDDEN :: byte where "ISCSI_LOGIN_STATUS_TGT_FORBIDDEN = 2"
definition ISCSI_LOGIN_STATUS_TGT_NOT_FOUND :: byte where "ISCSI_LOGIN_STATUS_TGT_NOT_FOUND = 3"
definition ISCSI_LOGIN_STATUS_NO_VERSION :: byte where "ISCSI_LOGIN_STATUS_NO_VERSION = 5"

end
