(* ===== verification/Sys_Strings.thy ===== *)
theory Sys_Strings
  imports Iscsi_Prelude
begin

section \<open>String routines the program is built on\<close>

text \<open>
  \<open>strlcpy\<close> and \<open>strlcat\<close> are the program's own (\<open>utils/sysdeps/sysdeps.c\<close>). Both are loops over
  the source string; the model keeps the loop (\<open>strl_loop\<close>: the characters stored so far, the byte
  counter, the guard \<open>bytes + 1 < size\<close>) and returns the new contents of the destination together
  with the return value. A destination is given by the C string it holds; \<open>None\<close> means that
  nothing was stored (\<open>size = 0\<close>).

  \<open>strtoul\<close>, \<open>strchr\<close> and the \<open>%lu\<close>/\<open>%d\<close> conversions are the C library's, modelled for the 64-bit
  \<open>unsigned long\<close> of the platforms the daemon runs on.
\<close>

subsection \<open>strlcpy and strlcat\<close>

fun strl_loop :: "string \<Rightarrow> nat \<Rightarrow> string \<Rightarrow> nat \<Rightarrow> string \<times> nat" where
  "strl_loop [] sz q bytes = (q, bytes)"
| "strl_loop (ch # p) sz q bytes =
     strl_loop p sz (if bytes + 1 < sz then q @ [ch] else q) (bytes + 1)"

definition strlcpy :: "string \<Rightarrow> nat \<Rightarrow> string option \<times> nat" where
  "strlcpy src sz =
     (let (q, bytes) = strl_loop src sz [] 0
      in (if sz \<noteq> 0 then Some q else None, bytes))"

definition strlcat :: "string \<Rightarrow> string \<Rightarrow> nat \<Rightarrow> string \<times> nat" where
  "strlcat dst src sz =
     (if sz \<le> length dst then (dst, sz + length src)
      else strl_loop src sz dst (length dst))"

lemma strl_loop_eq:
  "bytes = length q \<or> sz \<le> bytes + 1 \<Longrightarrow>
   strl_loop src sz q bytes = (q @ take (sz - 1 - bytes) src, bytes + length src)"
  by (induction src sz q bytes rule: strl_loop.induct) (auto simp: take_Cons')

lemma strlcpy_eq:
  "strlcpy src sz = (if sz = 0 then None else Some (take (sz - 1) src), length src)"
  by (simp add: strlcpy_def strl_loop_eq)

lemma strlcat_eq:
  "length dst < sz \<Longrightarrow>
   strlcat dst src sz = (dst @ take (sz - 1 - length dst) src, length dst + length src)"
  by (simp add: strlcat_def strl_loop_eq)

lemma strlcat_length:
  "length dst < sz \<Longrightarrow> length (fst (strlcat dst src sz)) < sz"
  by (simp add: strlcat_eq)

lemma is_cstr_strlcat [intro]:
  "is_cstr dst \<Longrightarrow> is_cstr src \<Longrightarrow> is_cstr (fst (strlcat dst src sz))"
  by (cases "length dst < sz") (auto simp: strlcat_eq, simp add: strlcat_def)

subsection \<open>Decimal conversion\<close>

definition dec_digit :: "nat \<Rightarrow> char" where
  "dec_digit n = char_of (48 + n)"

fun udec :: "nat \<Rightarrow> string" where
  "udec n = (if n < 10 then [dec_digit n] else udec (n div 10) @ [dec_digit (n mod 10)])"

declare udec.simps [simp del]

definition sdec :: "int \<Rightarrow> string" where
  "sdec i = (if i < 0 then CHR ''-'' # udec (nat (- i)) else udec (nat i))"

definition ULONG_MAX :: nat where
  "ULONG_MAX = 2 ^ 64 - 1"

text \<open>\<open>(unsigned long)\<close> and \<open>(int)\<close> conversions of the values the program prints and parses.\<close>

definition ulong_of :: "int \<Rightarrow> nat" where
  "ulong_of i = nat (i mod 2 ^ 64)"

definition int_of_ulong :: "nat \<Rightarrow> int" where
  "int_of_ulong n = (let m = n mod 2 ^ 32 in if m < 2 ^ 31 then int m else int m - 2 ^ 32)"

subsection \<open>strchr and strtoul\<close>

fun strchr_from :: "string \<Rightarrow> char \<Rightarrow> nat \<Rightarrow> nat option" where
  "strchr_from [] c i = (if c = NUL then Some i else None)"
| "strchr_from (x # xs) c i = (if x = c then Some i else strchr_from xs c (Suc i))"

definition isspace :: "char \<Rightarrow> bool" where
  "isspace c = (let n = (of_char c :: nat) in n = 32 \<or> (9 \<le> n \<and> n \<le> 13))"

definition digit_val :: "char \<Rightarrow> nat option" where
  "digit_val c =
     (let n = (of_char c :: nat) in
      if 48 \<le> n \<and> n \<le> 57 then Some (n - 48)
      else if 97 \<le> n \<and> n \<le> 122 then Some (n - 97 + 10)
      else if 65 \<le> n \<and> n \<le> 90 then Some (n - 65 + 10)
      else None)"

definition is_digit :: "nat \<Rightarrow> char \<Rightarrow> bool" where
  "is_digit base c = (case digit_val c of None \<Rightarrow> False | Some d \<Rightarrow> d < base)"

fun scan_digits :: "nat \<Rightarrow> nat \<Rightarrow> string \<Rightarrow> nat \<times> string" where
  "scan_digits base acc [] = (acc, [])"
| "scan_digits base acc (c # cs) =
     (if is_digit base c then scan_digits base (acc * base + the (digit_val c)) cs
      else (acc, c # cs))"

definition starts_hex :: "string \<Rightarrow> bool" where
  "starts_hex s =
     (case s of c0 # c1 # c2 # _ \<Rightarrow>
        c0 = CHR ''0'' \<and> (c1 = CHR ''x'' \<or> c1 = CHR ''X'') \<and> is_digit 16 c2
      | _ \<Rightarrow> False)"

definition strtoul_base :: "nat \<Rightarrow> string \<Rightarrow> nat" where
  "strtoul_base base s =
     (if base = 0
      then if starts_hex s then 16
           else (case s of c # _ \<Rightarrow> if c = CHR ''0'' then 8 else 10 | [] \<Rightarrow> 10)
      else base)"

definition strtoul :: "nat \<Rightarrow> string \<Rightarrow> nat \<times> string" where
  "strtoul base nptr =
     (let s1 = dropWhile isspace nptr;
          neg = (case s1 of c # _ \<Rightarrow> c = CHR ''-'' | [] \<Rightarrow> False);
          s2 = (case s1 of c # r \<Rightarrow> if c = CHR ''-'' \<or> c = CHR ''+'' then r else s1 | [] \<Rightarrow> s1);
          b = strtoul_base base s2;
          s3 = (if b = 16 \<and> starts_hex s2 then drop 2 s2 else s2)
      in case s3 of
           [] \<Rightarrow> (0, nptr)
         | c # _ \<Rightarrow>
             if \<not> is_digit b c then (0, nptr)
             else let (n, rest) = scan_digits b 0 s3
                  in (if ULONG_MAX < n then ULONG_MAX
                      else if neg then (2 ^ 64 - n) mod 2 ^ 64 else n, rest))"

subsection \<open>Parsing inverts printing\<close>

lemma of_char_dec_digit: "n < 10 \<Longrightarrow> (of_char (dec_digit n) :: nat) = 48 + n"
  by (simp add: dec_digit_def)

lemma digit_val_dec_digit [simp]: "n < 10 \<Longrightarrow> digit_val (dec_digit n) = Some n"
  by (simp add: digit_val_def of_char_dec_digit)

lemma is_digit_dec_digit [simp]: "n < 10 \<Longrightarrow> is_digit 10 (dec_digit n)"
  by (simp add: is_digit_def)

lemma dec_digit_not_special:
  assumes "n < 10"
  shows "dec_digit n \<noteq> NUL" "\<not> isspace (dec_digit n)" "dec_digit n \<noteq> CHR ''-''"
    "dec_digit n \<noteq> CHR ''+''" "dec_digit n \<noteq> CHR '',''" "dec_digit n \<noteq> CHR ''x''"
    "dec_digit n \<noteq> CHR ''X''" "dec_digit n \<noteq> CHR ''=''"
proof -
  have eq: "(of_char (dec_digit n) :: nat) = 48 + n"
    using assms by (rule of_char_dec_digit)
  have ne: "(of_char (dec_digit n) :: nat) \<noteq> of_char c \<Longrightarrow> dec_digit n \<noteq> c" for c
    by auto
  show "dec_digit n \<noteq> NUL" "dec_digit n \<noteq> CHR ''-''" "dec_digit n \<noteq> CHR ''+''"
    "dec_digit n \<noteq> CHR '',''" "dec_digit n \<noteq> CHR ''x''" "dec_digit n \<noteq> CHR ''X''"
    "dec_digit n \<noteq> CHR ''=''"
    using assms by (auto intro!: ne simp: eq)
  show "\<not> isspace (dec_digit n)"
    using assms by (simp add: isspace_def eq)
qed

lemma scan_digits_append:
  "\<forall>c \<in> set s. is_digit base c \<Longrightarrow>
   scan_digits base acc (s @ t) = scan_digits base (fst (scan_digits base acc s)) t"
  by (induction s arbitrary: acc) auto

lemma udec_digits: "\<forall>c \<in> set (udec n). \<exists>d < 10. c = dec_digit d"
proof (induction n rule: udec.induct)
  case (1 n)
  then show ?case
    by (subst udec.simps) (auto intro: exI [of _ "n mod 10"])
qed

lemma udec_not_Nil [simp]: "udec n \<noteq> []"
  by (subst udec.simps) simp

lemma udec_is_digit: "c \<in> set (udec n) \<Longrightarrow> is_digit 10 c"
  using udec_digits [of n] by auto

lemma is_cstr_udec [simp]: "is_cstr (udec n)"
  unfolding is_cstr_def using udec_digits [of n] dec_digit_not_special(1) by metis

lemma comma_notin_udec [simp]: "CHR '','' \<notin> set (udec n)"
  using udec_digits [of n] dec_digit_not_special(5) by metis

lemma scan_udec: "scan_digits 10 0 (udec n) = (n, [])"
proof (induction n rule: udec.induct)
  case (1 n)
  show ?case
  proof (cases "n < 10")
    case True
    then show ?thesis by (subst udec.simps) simp
  next
    case False
    then have "scan_digits 10 0 (udec (n div 10)) = (n div 10, [])"
      using "1.IH" by simp
    with False show ?thesis
      by (subst udec.simps) (simp add: scan_digits_append udec_is_digit)
  qed
qed

lemma udec_hd: "\<exists>d < 10. \<exists>r. udec n = dec_digit d # r"
  using udec_digits [of n] by (cases "udec n") auto

lemma strtoul_udec:
  assumes "n \<le> ULONG_MAX"
  shows "strtoul 10 (udec n) = (n, [])"
proof -
  obtain d r where d: "d < 10" and eq: "udec n = dec_digit d # r"
    using udec_hd by blast
  note ns = dec_digit_not_special [OF d]
  have drop: "dropWhile isspace (udec n) = udec n"
    by (simp add: eq ns)
  show ?thesis
    unfolding strtoul_def Let_def drop
    using assms scan_udec [of n] d
    by (simp add: eq ns strtoul_base_def)
qed

lemma length_udec: "n < 10 ^ k \<Longrightarrow> 0 < k \<Longrightarrow> length (udec n) \<le> k"
proof (induction n arbitrary: k rule: udec.induct)
  case (1 n)
  show ?case
  proof (cases "n < 10")
    case True
    with "1.prems" show ?thesis by (subst udec.simps) simp
  next
    case False
    with "1.prems" obtain k' where k: "k = Suc k'" and "0 < k'"
      by (cases k; cases "k - 1") auto
    with "1.prems" have "n div 10 < 10 ^ k'"
      by (simp add: less_mult_imp_div_less mult.commute)
    with False \<open>0 < k'\<close> "1.IH" [of k'] have "length (udec (n div 10)) \<le> k'"
      by simp
    with False k show ?thesis by (subst udec.simps) simp
  qed
qed

end
