(* ===== verification/Auth_Text.thy ===== *)
theory Auth_Text
  imports Sys_Strings
begin

section \<open>Text encodings of the CHAP keys\<close>

text \<open>
  The conversions of \<open>usr/auth.c\<close> between numbers or binary values and the text of a login key:
  \<open>acl_text_to_number\<close>, \<open>acl_chk_string\<close>, \<open>acl_str_index\<close>, \<open>acl_data_to_text\<close>, \<open>acl_hex_to_data\<close>,
  \<open>acl_base64_to_data\<close> and \<open>acl_text_to_data\<close>.

  A decoder is given the text (a C string) and the capacity \<open>*data_lenp\<close> of the output buffer; it
  returns the C status (0 or 1) and the bytes it stored before it returned. On status 0 the new
  \<open>*data_lenp\<close> is the number of bytes stored. Intermediate values keep the width of
  \<open>unsigned int\<close>.
\<close>

subsection \<open>Definitions\<close>

definition AUTH_STR_MAX_LEN :: nat where "AUTH_STR_MAX_LEN = 256"
definition AUTH_STR_BLOCK_MAX_LEN :: nat where "AUTH_STR_BLOCK_MAX_LEN = 1024"
definition AUTH_LARGE_BINARY_MAX_LEN :: nat where "AUTH_LARGE_BINARY_MAX_LEN = 1024"

definition acl_hexstring :: string where
  "acl_hexstring = ''0123456789abcdefABCDEF''"

definition acl_base64_string :: string where
  "acl_base64_string = ''ABCDEFGHIJKLMNOPQRSTUVWXYZabcdefghijklmnopqrstuvwxyz0123456789+/''"

definition acl_text_to_number :: "string \<Rightarrow> nat option" where
  "acl_text_to_number text =
     (let (number, rest) =
        (case text of
           c0 # c1 # r \<Rightarrow>
             if c0 = CHR ''0'' \<and> (c1 = CHR ''x'' \<or> c1 = CHR ''X'') then strtoul 16 r
             else strtoul 10 text
         | _ \<Rightarrow> strtoul 10 text)
      in if text \<noteq> [] \<and> rest = [] then Some number else None)"

fun chk_string_loop :: "string \<Rightarrow> nat \<Rightarrow> nat \<Rightarrow> nat option" where
  "chk_string_loop s len max_len =
     (if len < max_len
      then (case s of [] \<Rightarrow> Some len | _ # s' \<Rightarrow> chk_string_loop s' (Suc len) max_len)
      else None)"

declare chk_string_loop.simps [simp del]

definition acl_chk_string :: "string option \<Rightarrow> nat \<Rightarrow> nat option" where
  "acl_chk_string s max_len = (case s of None \<Rightarrow> None | Some t \<Rightarrow> chk_string_loop t 0 max_len)"

definition acl_str_index :: "string \<Rightarrow> char \<Rightarrow> int" where
  "acl_str_index s c = (case strchr_from s c 0 of Some i \<Rightarrow> int i | None \<Rightarrow> - 1)"

fun data_to_text_loop :: "byte list \<Rightarrow> nat \<Rightarrow> string \<Rightarrow> int \<times> string" where
  "data_to_text_loop [] text_length text = (0, text)"
| "data_to_text_loop (n # data) text_length text =
     (if text_length < 3 then (1, text)
      else data_to_text_loop data (text_length - 2)
             (text @ [acl_hexstring ! unat (drop_bit 4 n AND 0xF), acl_hexstring ! unat (n AND 0xF)]))"

text \<open>The text is \<open>None\<close> when nothing is stored (\<open>text_length = 0\<close>).\<close>

definition acl_data_to_text :: "byte list \<Rightarrow> nat \<Rightarrow> int \<times> string option" where
  "acl_data_to_text data text_length =
     (if text_length = 0 then (1, None)
      else if data = [] then (1, Some [])
      else if text_length < 3 then (1, Some [])
      else let (status, text) = data_to_text_loop data (text_length - 2) ''0x''
           in (status, Some text))"

definition hex_nibble :: "char \<Rightarrow> 32 word option" where
  "hex_nibble c =
     (let i = acl_str_index acl_hexstring c
      in if i < 0 then None else Some (word_of_int (if i > 15 then i - 6 else i)))"

fun hex_to_data_loop :: "string \<Rightarrow> nat \<Rightarrow> byte list \<Rightarrow> int \<times> nat \<times> byte list" where
  "hex_to_data_loop [] data_length data = (0, data_length, data)"
| "hex_to_data_loop [c1] data_length data = (1, data_length, data)"
| "hex_to_data_loop (c1 # c2 # text) data_length data =
     (case hex_nibble c1 of
        None \<Rightarrow> (1, data_length, data)
      | Some n1 \<Rightarrow>
         (case hex_nibble c2 of
            None \<Rightarrow> (1, data_length, data)
          | Some n2 \<Rightarrow>
              if data_length < 1 then (1, data_length, data)
              else hex_to_data_loop text (data_length - 1) (data @ [ucast (push_bit 4 n1 OR n2)])))"

definition hex_to_data_end :: "nat \<Rightarrow> int \<times> nat \<times> byte list \<Rightarrow> int \<times> byte list" where
  "hex_to_data_end data_len r =
     (case r of (status, data_length, data) \<Rightarrow>
        if status \<noteq> 0 then (status, data)
        else if data_len \<le> data_length then (1, data)
        else (0, data))"

definition hex_to_data_body :: "string \<Rightarrow> nat \<Rightarrow> nat \<Rightarrow> int \<times> nat \<times> byte list" where
  "hex_to_data_body text text_length data_len =
     (if text_length mod 2 = 1 then
        (case text of
           [] \<Rightarrow> (1, data_len, [])
         | c # text' \<Rightarrow>
            (case hex_nibble c of
               None \<Rightarrow> (1, data_len, [])
             | Some n2 \<Rightarrow>
                 if data_len < 1 then (1, data_len, [])
                 else hex_to_data_loop text' (data_len - 1) [ucast n2]))
      else hex_to_data_loop text data_len [])"

definition acl_hex_to_data :: "string \<Rightarrow> nat \<Rightarrow> nat \<Rightarrow> int \<times> byte list" where
  "acl_hex_to_data text text_length data_len =
     hex_to_data_end data_len (hex_to_data_body text text_length data_len)"

fun base64_loop ::
  "string \<Rightarrow> 32 word \<Rightarrow> nat \<Rightarrow> nat \<Rightarrow> byte list \<Rightarrow> int \<times> string \<times> 32 word \<times> nat \<times> nat \<times> byte list"
where
  "base64_loop [] n count data_length data = (0, [], n, count, data_length, data)"
| "base64_loop (c # text) n count data_length data =
     (if c = CHR ''='' then (0, c # text, n, count, data_length, data)
      else let i = acl_str_index acl_base64_string c
      in if i < 0 then (1, text, n, count, data_length, data)
      else let n' = push_bit 6 n OR word_of_int i; count' = count + 1
      in if 4 \<le> count'
         then if data_length < 3 then (1, text, n', count', data_length, data)
              else base64_loop text 0 0 (data_length - 3)
                     (data @ [ucast (drop_bit 16 n'), ucast (drop_bit 8 n'), ucast n'])
         else base64_loop text n' count' data_length data)"

definition base64_tail :: "32 word \<Rightarrow> nat \<Rightarrow> nat \<Rightarrow> byte list \<Rightarrow> int \<times> nat \<times> byte list" where
  "base64_tail n count data_length data =
     (if count = 0 then (0, data_length, data)
      else if count = 2 then
        if data_length < 1 then (1, data_length, data)
        else (0, data_length - 1, data @ [ucast (drop_bit 4 n)])
      else if count = 3 then
        if data_length < 2 then (1, data_length, data)
        else let n' = drop_bit 2 n
             in (0, data_length - 2, data @ [ucast (drop_bit 8 n'), ucast n'])
      else (1, data_length, data))"

definition acl_base64_to_data :: "string \<Rightarrow> nat \<Rightarrow> int \<times> byte list" where
  "acl_base64_to_data text data_len =
     (case base64_loop text 0 0 data_len [] of
        (status, rest, n, count, data_length, data) \<Rightarrow>
          if status \<noteq> 0 then (status, data)
          else if list_ex (\<lambda>c. c \<noteq> CHR ''='') rest then (1, data)
          else hex_to_data_end data_len (base64_tail n count data_length data))"

definition acl_text_to_data :: "string \<Rightarrow> nat \<Rightarrow> int \<times> byte list" where
  "acl_text_to_data text data_length =
     (case acl_chk_string (Some text) (2 + 2 * AUTH_LARGE_BINARY_MAX_LEN + 1) of
        None \<Rightarrow> (1, [])
      | Some text_length \<Rightarrow>
         (case text of
            c0 # c1 # t \<Rightarrow>
              if c0 = CHR ''0'' \<and> (c1 = CHR ''x'' \<or> c1 = CHR ''X'')
              then acl_hex_to_data t (text_length - 2) data_length
              else if c0 = CHR ''0'' \<and> (c1 = CHR ''b'' \<or> c1 = CHR ''B'')
              then acl_base64_to_data t data_length
              else (1, [])
          | _ \<Rightarrow> (1, [])))"

subsection \<open>Lengths and bounds\<close>

lemma chk_string_loop_eq:
  "chk_string_loop s len max_len = (if len + length s < max_len then Some (len + length s) else None)"
proof (induction s arbitrary: len)
  case Nil
  then show ?case by (subst chk_string_loop.simps) simp
next
  case (Cons c s)
  then show ?case by (subst chk_string_loop.simps) simp
qed

lemma acl_chk_string_eq [simp]:
  "acl_chk_string (Some s) max_len = (if length s < max_len then Some (length s) else None)"
  "acl_chk_string None max_len = None"
  by (simp_all add: acl_chk_string_def chk_string_loop_eq)

lemma hex_to_data_loop_room:
  "hex_to_data_loop s room data = (status, room', data') \<Longrightarrow>
   room' + length data' = room + length data"
proof (induction s room data rule: hex_to_data_loop.induct)
  case (3 c1 c2 s room data)
  then show ?case by (fastforce split: option.splits if_splits)
qed auto

lemma hex_to_data_body_room:
  "hex_to_data_body s n data_len = (status, room, data) \<Longrightarrow> room + length data = data_len"
  by (auto simp: hex_to_data_body_def dest!: hex_to_data_loop_room
      split: if_splits list.splits option.splits)

lemma base64_loop_room:
  "base64_loop s n count room data = (status, rest, n', count', room', data') \<Longrightarrow>
   room' + length data' = room + length data"
proof (induction s n count room data rule: base64_loop.induct)
  case (2 c s n count room data)
  then show ?case by (auto simp: Let_def split: if_splits)
qed auto

lemma base64_tail_room:
  "base64_tail n count room data = (status, room', data') \<Longrightarrow> room' + length data' = room + length data"
  by (auto simp: base64_tail_def Let_def split: if_splits)

lemma hex_to_data_end_bound:
  assumes "hex_to_data_end data_len (st, room, data) = (status, out)"
    and "room + length data = data_len"
  shows "length out \<le> data_len \<and> (status = 0 \<longrightarrow> out \<noteq> [])"
  using assms by (auto simp: hex_to_data_end_def split: if_splits)

lemma acl_hex_to_data_bound:
  assumes "acl_hex_to_data s n data_len = (status, out)"
  shows "length out \<le> data_len \<and> (status = 0 \<longrightarrow> out \<noteq> [])"
proof -
  obtain st room data where body: "hex_to_data_body s n data_len = (st, room, data)"
    by (metis prod_cases3)
  from hex_to_data_end_bound [OF _ hex_to_data_body_room [OF body]] assms body
  show ?thesis by (auto simp: acl_hex_to_data_def)
qed

lemma acl_base64_to_data_bound:
  assumes "acl_base64_to_data s data_len = (status, out)"
  shows "length out \<le> data_len \<and> (status = 0 \<longrightarrow> out \<noteq> [])"
proof -
  obtain st rest n count room data
    where loop: "base64_loop s 0 0 data_len [] = (st, rest, n, count, room, data)"
    by (metis prod_cases6)
  obtain st' room' data' where tl: "base64_tail n count room data = (st', room', data')"
    by (metis prod_cases3)
  have len: "room + length data = data_len" "room' + length data' = data_len"
    using base64_loop_room [OF loop] base64_tail_room [OF tl] by auto
  from hex_to_data_end_bound [OF _ len(2)] assms loop tl len(1)
  show ?thesis by (auto simp: acl_base64_to_data_def split: if_splits)
qed

lemma acl_text_to_data_bound:
  assumes "acl_text_to_data s data_len = (status, out)"
  shows "length out \<le> data_len \<and> (status = 0 \<longrightarrow> out \<noteq> [])"
  using assms acl_hex_to_data_bound acl_base64_to_data_bound
  by (auto simp: acl_text_to_data_def split: if_splits list.splits)

subsection \<open>The hexadecimal digits\<close>

definition is_hex :: "char \<Rightarrow> bool" where
  "is_hex c \<longleftrightarrow> hex_nibble c \<noteq> None"

lemma hex_nibble_hexstring:
  "i < 16 \<Longrightarrow> hex_nibble (acl_hexstring ! i) = Some (of_nat i)"
proof -
  have "\<forall>i \<in> set [0..<16]. hex_nibble (acl_hexstring ! i) = Some (of_nat i)"
    by code_simp
  then show "i < 16 \<Longrightarrow> ?thesis" by simp
qed

lemma hexstring_not_NUL: "i < 16 \<Longrightarrow> acl_hexstring ! i \<noteq> NUL \<and> acl_hexstring ! i \<noteq> CHR '',''"
proof -
  have "\<forall>i \<in> set [0..<16]. acl_hexstring ! i \<noteq> NUL \<and> acl_hexstring ! i \<noteq> CHR '',''"
    by code_simp
  then show "i < 16 \<Longrightarrow> ?thesis" by simp
qed

lemma unat_nibble: "unat ((b :: byte) AND 0xF) < 16"
proof -
  have "unat (b AND 0xF) \<le> unat (0xF :: byte)"
    by (rule word_and_le1 [THEN word_le_nat_alt [THEN iffD1]])
  then show ?thesis by simp
qed

lemma nibbles_join:
  fixes b :: byte
  shows "ucast (push_bit 4 (ucast (drop_bit 4 b AND 0xF) :: 32 word) OR ucast (b AND 0xF)) = b"
proof (rule bit_word_eqI)
  fix n assume "n < LENGTH(8)"
  then have "n \<in> {0, 1, 2, 3, 4, 5, 6, 7}" by auto
  then show "bit (ucast (push_bit 4 (ucast (drop_bit 4 b AND 0xF) :: 32 word) OR ucast (b AND 0xF)) :: byte) n
      = bit b n"
    by (auto simp: bit_simps)
qed

lemma of_nat_unat_ucast: "(of_nat (unat (b :: byte)) :: 32 word) = ucast b"
  by (simp add: unsigned_of_nat)

subsection \<open>Hexadecimal round trip\<close>

definition hex_text :: "byte list \<Rightarrow> string" where
  "hex_text data =
     concat (map (\<lambda>n. [acl_hexstring ! unat (drop_bit 4 n AND 0xF), acl_hexstring ! unat (n AND 0xF)]) data)"

lemma hex_text_Nil [simp]: "hex_text [] = []"
  by (simp add: hex_text_def)

lemma hex_text_Cons [simp]:
  "hex_text (n # data) =
     acl_hexstring ! unat (drop_bit 4 n AND 0xF) # acl_hexstring ! unat (n AND 0xF) # hex_text data"
  by (simp add: hex_text_def)

lemma length_hex_text [simp]: "length (hex_text data) = 2 * length data"
  by (induction data) auto

lemma hex_text_clean: "is_cstr (hex_text data) \<and> CHR '','' \<notin> set (hex_text data)"
proof (induction data)
  case (Cons b data)
  then show ?case
    using hexstring_not_NUL [OF unat_nibble [of b]] hexstring_not_NUL [OF unat_nibble [of "drop_bit 4 b"]]
    by auto
qed simp

lemma data_to_text_loop_eq:
  "2 * length data + 1 \<le> n \<Longrightarrow> data_to_text_loop data n t = (0, t @ hex_text data)"
  by (induction data n t rule: data_to_text_loop.induct) auto

lemma data_to_text_loop_short:
  "n < 2 * length data + 1 \<Longrightarrow> data \<noteq> [] \<Longrightarrow> fst (data_to_text_loop data n t) = 1"
proof (induction data n t rule: data_to_text_loop.induct)
  case (2 b data n t)
  then show ?case by (cases data) auto
qed simp

lemma acl_data_to_text_eq:
  assumes "data \<noteq> []" and "2 * length data + 3 \<le> n"
  shows "acl_data_to_text data n = (0, Some (''0x'' @ hex_text data))"
proof -
  from assms(2) have "2 * length data + 1 \<le> n - 2" by arith
  with assms show ?thesis
    by (simp add: acl_data_to_text_def data_to_text_loop_eq)
qed

lemma hex_to_data_loop_hex_text:
  "length data \<le> room \<Longrightarrow>
   hex_to_data_loop (hex_text data) room acc = (0, room - length data, acc @ data)"
proof (induction data arbitrary: room acc)
  case Nil
  then show ?case by simp
next
  case (Cons b data)
  then show ?case
    by (simp add: hex_nibble_hexstring unat_nibble of_nat_unat_ucast nibbles_join)
qed

lemma acl_hex_to_data_hex_text:
  "data \<noteq> [] \<Longrightarrow> length data \<le> room \<Longrightarrow>
   acl_hex_to_data (hex_text data) (2 * length data) room = (0, data)"
  by (cases data)
     (auto simp: acl_hex_to_data_def hex_to_data_body_def hex_to_data_end_def
        hex_to_data_loop_hex_text simp del: hex_text_Cons)

lemma acl_text_to_data_hex_text:
  assumes "data \<noteq> []" "length data \<le> AUTH_LARGE_BINARY_MAX_LEN" "length data \<le> room"
  shows "acl_text_to_data (''0x'' @ hex_text data) room = (0, data)"
  using assms by (simp add: acl_text_to_data_def acl_hex_to_data_hex_text)

subsection \<open>Base64\<close>

text \<open>The reference: the encoding of RFC 4648, which RFC 3720 prescribes for \<open>0b\<close> values.\<close>

definition low6 :: "32 word \<Rightarrow> 32 word" where
  "low6 w = w AND 0x3F"

text \<open>The alphabet of RFC 4648: the capital letters, the small letters, the digits, plus and slash.\<close>

definition b64_alphabet :: string where
  "b64_alphabet = map char_of ([65..<91] @ [97..<123] @ [48..<58] @ [43, 47 :: nat])"

definition b64_char :: "32 word \<Rightarrow> char" where
  "b64_char w = b64_alphabet ! unat (low6 w)"

definition b64_join :: "byte \<Rightarrow> byte \<Rightarrow> byte \<Rightarrow> 32 word" where
  "b64_join a b c = push_bit 16 (ucast a) OR push_bit 8 (ucast b) OR ucast c"

fun b64_encode :: "byte list \<Rightarrow> string" where
  "b64_encode [] = []"
| "b64_encode [a] =
     (let n = b64_join a 0 0 in [b64_char (drop_bit 18 n), b64_char (drop_bit 12 n), CHR ''='', CHR ''=''])"
| "b64_encode [a, b] =
     (let n = b64_join a b 0
      in [b64_char (drop_bit 18 n), b64_char (drop_bit 12 n), b64_char (drop_bit 6 n), CHR ''=''])"
| "b64_encode (a # b # c # rest) =
     (let n = b64_join a b c
      in [b64_char (drop_bit 18 n), b64_char (drop_bit 12 n), b64_char (drop_bit 6 n), b64_char n]
           @ b64_encode rest)"

lemma acl_base64_string_alphabet: "acl_base64_string = b64_alphabet"
  by code_simp

lemma b64_index:
  "i < 64 \<Longrightarrow> acl_str_index acl_base64_string (acl_base64_string ! i) = int i \<and>
     acl_base64_string ! i \<noteq> CHR ''=''"
proof -
  have "\<forall>i \<in> set [0..<64]. acl_str_index acl_base64_string (acl_base64_string ! i) = int i \<and>
     acl_base64_string ! i \<noteq> CHR ''=''"
    by code_simp
  then show "i < 64 \<Longrightarrow> ?thesis" by simp
qed

lemma unat_low6: "unat (low6 w) < 64"
proof -
  have "unat (w AND 0x3F) \<le> unat (0x3F :: 32 word)"
    by (rule word_and_le1 [THEN word_le_nat_alt [THEN iffD1]])
  then show ?thesis by (simp add: low6_def)
qed

lemma b64_char_index [simp]:
  "acl_str_index acl_base64_string (b64_char w) = int (unat (low6 w))"
  "b64_char w \<noteq> CHR ''=''"
  using b64_index [OF unat_low6 [of w]] by (auto simp: b64_char_def acl_base64_string_alphabet)

lemma bit_low6: "bit (low6 w) i \<longleftrightarrow> i < 6 \<and> bit w i"
proof -
  have "(0x3F :: 32 word) = mask 6" by (simp add: mask_eq_exp_minus_1)
  then have "low6 w = take_bit 6 w" by (simp add: take_bit_eq_mask low6_def)
  then show ?thesis by (auto simp: bit_simps)
qed

lemma bit_byte: "8 \<le> i \<Longrightarrow> \<not> bit (a::byte) i" by (auto dest: bit_imp_le_length)

lemma bit_b64_join:
  "bit (b64_join a b c) i \<longleftrightarrow> (16 \<le> i \<and> bit a (i - 16)) \<or> (8 \<le> i \<and> bit b (i - 8)) \<or> bit c i"
  unfolding b64_join_def
  by (auto simp: bit_simps dest: bit_imp_le_length)

lemma low6_shift:
  "k \<le> 18 \<Longrightarrow> drop_bit (k + 6) n = m \<Longrightarrow> push_bit 6 m OR low6 (drop_bit k n) = drop_bit k n"
proof (rule bit_word_eqI)
  fix i assume "k \<le> 18" "drop_bit (k + 6) n = m" "i < LENGTH(32)"
  then show "bit (push_bit 6 m OR low6 (drop_bit k n)) i = bit (drop_bit k n) i"
    by (cases "i < 6") (auto simp: bit_simps bit_low6)
qed

lemma b64_join_top: "drop_bit 24 (b64_join a b c) = 0"
  by (rule bit_word_eqI) (auto simp: bit_simps bit_b64_join bit_byte)

lemma low6_top: "low6 (drop_bit 18 (b64_join a b c)) = drop_bit 18 (b64_join a b c)"
  using low6_shift [of 18 "b64_join a b c" 0] by (simp add: b64_join_top)

lemma b64_split: 
  "ucast (drop_bit 16 (b64_join a b c)) = a" "ucast (drop_bit 8 (b64_join a b c)) = b" "ucast (b64_join a b c) = c" 
  by (rule bit_word_eqI; auto simp: bit_simps bit_b64_join bit_byte)+

definition b64_step :: "32 word \<Rightarrow> 32 word \<Rightarrow> 32 word" where
  "b64_step n w = push_bit 6 n OR low6 w"

lemma b64_step_chain:
  fixes a b c :: byte
  defines "n \<equiv> b64_join a b c"
  shows "b64_step 0 (drop_bit 18 n) = drop_bit 18 n"
    "b64_step (drop_bit 18 n) (drop_bit 12 n) = drop_bit 12 n"
    "b64_step (drop_bit 12 n) (drop_bit 6 n) = drop_bit 6 n"
    "b64_step (drop_bit 6 n) n = n"
  using low6_top low6_shift [of 12 n] low6_shift [of 6 n] low6_shift [of 0 n]
  by (simp_all add: n_def b64_step_def)

lemma base64_loop_char:
  "base64_loop (b64_char w # s) n count room data =
     (let n' = b64_step n w
      in if 3 \<le> count
         then if room < 3 then (1, s, n', count + 1, room, data)
              else base64_loop s 0 0 (room - 3)
                     (data @ [ucast (drop_bit 16 n'), ucast (drop_bit 8 n'), ucast n'])
         else base64_loop s n' (count + 1) room data)"
  by (simp add: Let_def b64_step_def)

lemma base64_loop_quad:
  assumes "3 \<le> room"
  shows "base64_loop (b64_encode (a # b # c # rest)) 0 0 room data =
         base64_loop (b64_encode rest) 0 0 (room - 3) (data @ [a, b, c])"
  using assms
  by (simp add: Let_def base64_loop_char b64_step_chain b64_split del: base64_loop.simps)

definition b64_finish :: "nat \<Rightarrow> int \<times> string \<times> 32 word \<times> nat \<times> nat \<times> byte list \<Rightarrow> int \<times> byte list" where
  "b64_finish data_len r =
     (case r of (status, rest, n, count, data_length, data) \<Rightarrow>
        if status \<noteq> 0 then (status, data)
        else if list_ex (\<lambda>c. c \<noteq> CHR ''='') rest then (1, data)
        else hex_to_data_end data_len (base64_tail n count data_length data))"

lemma base64_to_data_finish:
  "acl_base64_to_data s data_len = b64_finish data_len (base64_loop s 0 0 data_len [])"
  by (simp add: acl_base64_to_data_def b64_finish_def)

lemma base64_loop_encode:
  "length d \<le> room \<Longrightarrow> length acc + room = data_len \<Longrightarrow> acc @ d \<noteq> [] \<Longrightarrow>
   b64_finish data_len (base64_loop (b64_encode d) 0 0 room acc) = (0, acc @ d)"
proof (induction d arbitrary: room acc rule: b64_encode.induct)
  case 1
  then show ?case
    by (auto simp: b64_finish_def base64_tail_def hex_to_data_end_def)
next
  case (2 a)
  have "base64_loop (b64_encode [a]) 0 0 room acc =
      (0, ''=='', drop_bit 12 (b64_join a 0 0), 2, room, acc)"
    by (simp add: Let_def base64_loop_char b64_step_chain del: base64_loop.simps)
       (simp add: base64_loop.simps)
  with "2.prems" show ?case
    by (auto simp: b64_finish_def base64_tail_def hex_to_data_end_def b64_split)
next
  case (3 a b)
  have "base64_loop (b64_encode [a, b]) 0 0 room acc =
      (0, ''='', drop_bit 6 (b64_join a b 0), 3, room, acc)"
    by (simp add: Let_def base64_loop_char b64_step_chain del: base64_loop.simps)
       (simp add: base64_loop.simps)
  with "3.prems" show ?case
    by (auto simp: b64_finish_def base64_tail_def hex_to_data_end_def b64_split Let_def)
next
  case (4 a b c rest)
  then have room: "3 \<le> room" by simp
  show ?case
    unfolding base64_loop_quad [OF room]
    using "4.IH" [OF refl, of "room - 3" "acc @ [a, b, c]"] "4.prems" by simp
qed

lemma length_b64_encode: "3 * length (b64_encode d) \<le> 4 * length d + 8"
  by (induction d rule: b64_encode.induct) (auto simp: Let_def)

lemma acl_base64_to_data_encode:
  "d \<noteq> [] \<Longrightarrow> length d \<le> room \<Longrightarrow> acl_base64_to_data (b64_encode d) room = (0, d)"
  using base64_loop_encode [of d room "[]" room] by (simp add: base64_to_data_finish)

subsection \<open>Which texts the hexadecimal decoder accepts\<close>

lemma hex_to_data_loop_status:
  "even (length s) \<Longrightarrow>
   fst (hex_to_data_loop s room data) = (if list_all is_hex s \<and> length s \<le> 2 * room then 0 else 1)"
proof (induction s room data rule: hex_to_data_loop.induct)
  case (3 c1 c2 s room data)
  then show ?case
    by (cases "hex_nibble c1"; cases "hex_nibble c2"; cases room) (auto simp: is_hex_def)
qed auto

lemma fst_hex_to_data_end:
  "room + length data = data_len \<Longrightarrow> st = 0 \<or> st = 1 \<Longrightarrow>
   fst (hex_to_data_end data_len (st, room, data)) = (if st = 0 \<and> data \<noteq> [] then 0 else 1)"
  by (auto simp: hex_to_data_end_def)

lemma hex_to_data_loop_length:
  "hex_to_data_loop s room data = (0, room', data') \<Longrightarrow> 2 * length data' = 2 * length data + length s"
proof (induction s room data rule: hex_to_data_loop.induct)
  case (3 c1 c2 s room data)
  then show ?case by (fastforce split: option.splits if_splits)
qed auto

lemma hex_to_data_body_status:
  "fst (hex_to_data_body s (length s) room) =
     (if list_all is_hex s \<and> (length s + 1) div 2 \<le> room then 0 else 1)"
proof (cases "odd (length s)")
  case True
  then obtain c t where s: "s = c # t" and ev: "even (length t)" by (cases s) auto
  have md: "length s mod 2 = 1" using True by presburger
  have half: "(length s + 1) div 2 \<le> room \<longleftrightarrow> 0 < room \<and> length t \<le> 2 * (room - 1)"
    using ev unfolding s by (auto elim!: evenE)
  show ?thesis
    unfolding hex_to_data_body_def md half
    by (cases "hex_nibble c") (auto simp: s is_hex_def hex_to_data_loop_status [OF ev])
next
  case False
  then have "length s mod 2 \<noteq> 1" by presburger
  with False show ?thesis
    by (auto simp: hex_to_data_body_def hex_to_data_loop_status)
qed

lemma hex_to_data_body_length:
  assumes "hex_to_data_body s (length s) room = (0, rm, data)"
  shows "length data = (length s + 1) div 2"
proof (cases "length s mod 2 = 1")
  case True
  with assms obtain c t and n :: "32 word" where "s = c # t" "hex_to_data_loop t (room - 1) [ucast n] = (0, rm, data)"
    by (auto simp: hex_to_data_body_def split: list.splits option.splits if_splits)
  then show ?thesis by (auto dest: hex_to_data_loop_length)
next
  case False
  with assms have "hex_to_data_loop s room [] = (0, rm, data)"
    by (simp add: hex_to_data_body_def)
  then show ?thesis by (auto dest: hex_to_data_loop_length)
qed

lemma acl_text_to_number_udec:
  assumes "n \<le> ULONG_MAX"
  shows "acl_text_to_number (udec n) = Some n"
proof -
  obtain d r where eq: "udec n = dec_digit d # r" and "d < 10"
    using udec_hd by blast
  have "c \<noteq> CHR ''x'' \<and> c \<noteq> CHR ''X''" if "c \<in> set r" for c
    using udec_digits [of n] that dec_digit_not_special(6,7) by (fastforce simp: eq)
  then show ?thesis
    using strtoul_udec [OF assms]
    by (cases r) (auto simp: acl_text_to_number_def eq)
qed

subsection \<open>Properties\<close>

text \<open>C26. Hexadecimal round trip: whatever non-empty value of at most \<open>AUTH_LARGE_BINARY_MAX_LEN\<close>
  bytes \<open>acl_data_to_text\<close> prints into a buffer that is large enough, \<open>acl_text_to_data\<close> reads back
  exactly, into any buffer that can hold it.\<close>

theorem hex_round_trip:
  assumes "data \<noteq> []" and "length data \<le> AUTH_LARGE_BINARY_MAX_LEN"
    and "2 * length data + 3 \<le> text_length" and "length data \<le> room"
  shows "\<exists>t. acl_data_to_text data text_length = (0, Some t) \<and> is_cstr t \<and>
           length t < text_length \<and> acl_text_to_data t room = (0, data)"
  using acl_data_to_text_eq [OF assms(1,3)] acl_text_to_data_hex_text [OF assms(1,2,4)] assms(3)
    hex_text_clean
  by simp

theorem hex_round_trip_witness:
  "\<exists>t. acl_data_to_text [0xAB, 0x01] 256 = (0, Some t) \<and> is_cstr t \<and>
     length t < 256 \<and> acl_text_to_data t 1024 = (0, [0xAB, 0x01])"
  by (rule hex_round_trip) (simp_all add: AUTH_LARGE_BINARY_MAX_LEN_def)

text \<open>C27. The base64 decoder inverts the RFC 4648 encoding: the \<open>0b\<close> text of any non-empty value
  is decoded to that value when it fits the output buffer.\<close>

theorem base64_decodes_reference:
  assumes "data \<noteq> []" and "length data \<le> AUTH_LARGE_BINARY_MAX_LEN" and "length data \<le> room"
  shows "acl_text_to_data (''0b'' @ b64_encode data) room = (0, data)"
  using assms length_b64_encode [of data]
  by (simp add: acl_text_to_data_def acl_base64_to_data_encode AUTH_LARGE_BINARY_MAX_LEN_def)

theorem base64_decodes_reference_witness:
  "acl_text_to_data (''0b'' @ b64_encode [1, 2, 3, 4]) 16 = (0, [1, 2, 3, 4])"
  by (rule base64_decodes_reference) (simp_all add: AUTH_LARGE_BINARY_MAX_LEN_def)

text \<open>C28. No decoder stores more bytes than the output buffer holds, whatever the text and whether
  or not it is accepted, and an accepted text yields at least one byte.\<close>

theorem text_to_data_within_buffer:
  assumes "acl_text_to_data s room = (status, out)"
  shows "length out \<le> room \<and> (status = 0 \<longrightarrow> out \<noteq> [])"
  using assms by (rule acl_text_to_data_bound)

theorem text_to_data_within_buffer_witness:
  "acl_text_to_data ''0x0102'' 2 = (0, [1, 2]) \<and> length [1 :: byte, 2] \<le> 2"
proof -
  have eq: "acl_text_to_data ''0x0102'' 2 = (0, [1, 2])" by code_simp
  from text_to_data_within_buffer [OF eq] eq show ?thesis by simp
qed

text \<open>The hexadecimal decoder accepts a text exactly when it is a non-empty sequence of
  hexadecimal digits, of either case and of either parity, whose value fits the buffer.\<close>

theorem hex_to_data_accepts_iff:
  "fst (acl_hex_to_data s (length s) room) = 0 \<longleftrightarrow>
     s \<noteq> [] \<and> list_all is_hex s \<and> (length s + 1) div 2 \<le> room"
proof -
  obtain st rm data where body: "hex_to_data_body s (length s) room = (st, rm, data)"
    by (metis prod_cases3)
  have st: "st = (if list_all is_hex s \<and> (length s + 1) div 2 \<le> room then 0 else 1)"
    using hex_to_data_body_status [of s room] body by simp
  have fst_eq: "fst (acl_hex_to_data s (length s) room) = (if st = 0 \<and> data \<noteq> [] then 0 else 1)"
    unfolding acl_hex_to_data_def body
    by (rule fst_hex_to_data_end [OF hex_to_data_body_room [OF body]]) (simp add: st)
  show ?thesis
  proof (cases "st = 0")
    case True
    then have "length data = (length s + 1) div 2"
      using body by (intro hex_to_data_body_length) simp
    then have "data \<noteq> [] \<longleftrightarrow> s \<noteq> []" by (cases data; cases s) auto
    with True st fst_eq show ?thesis by (simp split: if_splits)
  next
    case False
    with st fst_eq show ?thesis by (simp split: if_splits)
  qed
qed

text \<open>Numbers survive the trip through the text of a key: \<open>acl_text_to_number\<close> reads back
  every \<open>unsigned long\<close> printed with \<open>%lu\<close>, as the CHAP identifier and algorithm keys are.\<close>

theorem number_round_trip:
  assumes "n \<le> ULONG_MAX"
  shows "acl_text_to_number (udec n) = Some n"
  using assms by (rule acl_text_to_number_udec)


end
