(* ===== verification/Auth_Keys.thy ===== *)
theory Auth_Keys
  imports Auth_Text
begin

section \<open>Key blocks\<close>

text \<open>
  A key block (\<open>struct auth_key_block\<close>, \<open>usr/auth.h\<close>) collects the keys of one login message: the
  values are copied one after the other into a string block of \<open>AUTH_STR_BLOCK_MAX_LEN\<close> bytes and
  each key keeps a pointer into the block. The model keeps the block as the list of its bytes and a
  pointer as an offset, so that the non-overlap of the stored strings is proved and not assumed.
  The 16-bit field \<open>blk_length\<close> wraps explicitly.

  Contents: the record types, \<open>acl_init_key_blk\<close>, \<open>acl_set_key_value\<close>, \<open>acl_get_key_val\<close>,
  \<open>acl_get_key_name\<close>, \<open>acl_get_next_key_type\<close>; the well-formedness invariant \<open>key_blk_ok\<close>; the
  contract of a key store as the locale \<open>key_store\<close> with the lemmas its clients use, and its
  interpretation on the operations of the source.
\<close>

subsection \<open>Definitions\<close>

definition AUTH_KEY_TYPE_NONE :: int where "AUTH_KEY_TYPE_NONE = - 1"
definition AUTH_KEY_TYPE_FIRST :: int where "AUTH_KEY_TYPE_FIRST = 0"
definition AUTH_KEY_TYPE_AUTH_METHOD :: nat where "AUTH_KEY_TYPE_AUTH_METHOD = 0"
definition AUTH_KEY_TYPE_CHAP_ALG :: nat where "AUTH_KEY_TYPE_CHAP_ALG = 1"
definition AUTH_KEY_TYPE_CHAP_USERNAME :: nat where "AUTH_KEY_TYPE_CHAP_USERNAME = 2"
definition AUTH_KEY_TYPE_CHAP_RSP :: nat where "AUTH_KEY_TYPE_CHAP_RSP = 3"
definition AUTH_KEY_TYPE_CHAP_IDENTIFIER :: nat where "AUTH_KEY_TYPE_CHAP_IDENTIFIER = 4"
definition AUTH_KEY_TYPE_CHAP_CHALLENGE :: nat where "AUTH_KEY_TYPE_CHAP_CHALLENGE = 5"
definition AUTH_KEY_TYPE_MAX_COUNT :: nat where "AUTH_KEY_TYPE_MAX_COUNT = 6"
definition AUTH_KEY_TYPE_LAST :: int where "AUTH_KEY_TYPE_LAST = 5"

lemmas key_type_defs =
  AUTH_KEY_TYPE_AUTH_METHOD_def AUTH_KEY_TYPE_CHAP_ALG_def AUTH_KEY_TYPE_CHAP_USERNAME_def
  AUTH_KEY_TYPE_CHAP_RSP_def AUTH_KEY_TYPE_CHAP_IDENTIFIER_def AUTH_KEY_TYPE_CHAP_CHALLENGE_def
  AUTH_KEY_TYPE_MAX_COUNT_def

record auth_key =
  present :: bool
  processed :: bool
  value_set :: bool
  key_string :: "nat option"

record auth_key_block =
  transit_bit :: bool
  dup_set :: bool
  str_too_long :: bool
  too_much_data :: bool
  blk_length :: nat
  str_block :: string
  key :: "auth_key list"

definition auth_key_zero :: auth_key where
  "auth_key_zero = \<lparr>present = False, processed = False, value_set = False, key_string = None\<rparr>"

definition acl_init_key_blk :: "auth_key_block \<Rightarrow> auth_key_block" where
  "acl_init_key_blk key_blk =
     \<lparr>transit_bit = False, dup_set = False, str_too_long = False, too_much_data = False,
      blk_length = 0, str_block = str_block key_blk,
      key = replicate AUTH_KEY_TYPE_MAX_COUNT auth_key_zero\<rparr>"

definition acl_set_key_value :: "auth_key_block \<Rightarrow> nat \<Rightarrow> string option \<Rightarrow> auth_key_block" where
  "acl_set_key_value key_blk key_type key_val =
     (if value_set (key key_blk ! key_type) then key_blk\<lparr>dup_set := True\<rparr>
      else
        let k = (key key_blk ! key_type)\<lparr>value_set := True\<rparr>;
            blk1 = key_blk\<lparr>key := (key key_blk)[key_type := k]\<rparr>
        in case key_val of
             None \<Rightarrow> blk1
           | Some v \<Rightarrow>
              (case acl_chk_string key_val AUTH_STR_MAX_LEN of
                 None \<Rightarrow> blk1\<lparr>str_too_long := True\<rparr>
               | Some len \<Rightarrow>
                   let length' = len + 1
                   in if blk_length key_blk + length' > AUTH_STR_BLOCK_MAX_LEN
                      then blk1\<lparr>too_much_data := True\<rparr>
                      else
                        let (dst, n) = strlcpy v length';
                            blk2 = blk1\<lparr>str_block :=
                              overlay (str_block key_blk) (blk_length key_blk) (the dst @ [NUL])\<rparr>
                        in if length' \<le> n then blk2\<lparr>too_much_data := True\<rparr>
                           else blk2\<lparr>blk_length := (blk_length key_blk + length') mod 2 ^ 16,
                                     key := (key key_blk)[key_type :=
                                       k\<lparr>key_string := Some (blk_length key_blk), present := True\<rparr>]\<rparr>))"

definition acl_get_key_val :: "auth_key_block \<Rightarrow> nat \<Rightarrow> auth_key_block \<times> string option" where
  "acl_get_key_val key_blk key_type =
     (key_blk\<lparr>key := (key key_blk)[key_type := (key key_blk ! key_type)\<lparr>processed := True\<rparr>]\<rparr>,
      if \<not> present (key key_blk ! key_type) then None
      else case key_string (key key_blk ! key_type) of
             None \<Rightarrow> None
           | Some off \<Rightarrow> Some (cstr (drop off (str_block key_blk))))"

definition acl_get_key_name :: "int \<Rightarrow> string option" where
  "acl_get_key_name key_type =
     (if key_type < AUTH_KEY_TYPE_FIRST \<or> key_type > AUTH_KEY_TYPE_LAST then None
      else Some ([''AuthMethod'', ''CHAP_A'', ''CHAP_N'', ''CHAP_R'', ''CHAP_I'', ''CHAP_C''] ! nat key_type))"

text \<open>\<open>None\<close> is \<open>AUTH_STATUS_ERROR\<close>: there is no further key type.\<close>

definition acl_get_next_key_type :: "int \<Rightarrow> int option" where
  "acl_get_next_key_type key_type =
     (if key_type \<ge> AUTH_KEY_TYPE_LAST then None
      else if key_type < AUTH_KEY_TYPE_FIRST then Some AUTH_KEY_TYPE_FIRST
      else Some (key_type + 1))"

subsection \<open>The well-formedness invariant\<close>

text \<open>The value a key holds, read without marking the key as processed.\<close>

definition key_value :: "auth_key_block \<Rightarrow> nat \<Rightarrow> string option" where
  "key_value blk k = snd (acl_get_key_val blk k)"

text \<open>\<open>stored blk off s\<close>: the string block holds \<open>s\<close> and its terminator at \<open>off\<close>, inside the part
  that is in use.\<close>

definition stored :: "auth_key_block \<Rightarrow> nat \<Rightarrow> string \<Rightarrow> bool" where
  "stored blk off s \<longleftrightarrow>
     is_cstr s \<and> length s < AUTH_STR_MAX_LEN \<and> off + length s + 1 \<le> blk_length blk \<and>
     take (length s + 1) (drop off (str_block blk)) = s @ [NUL]"

definition key_blk_ok :: "auth_key_block \<Rightarrow> bool" where
  "key_blk_ok blk \<longleftrightarrow>
     length (key blk) = AUTH_KEY_TYPE_MAX_COUNT \<and>
     length (str_block blk) = AUTH_STR_BLOCK_MAX_LEN \<and>
     blk_length blk \<le> AUTH_STR_BLOCK_MAX_LEN \<and>
     (\<forall>k < AUTH_KEY_TYPE_MAX_COUNT. present (key blk ! k) \<longrightarrow>
        value_set (key blk ! k) \<and> (\<exists>off s. key_string (key blk ! k) = Some off \<and> stored blk off s))"

lemma key_blk_okI:
  assumes "length (key blk) = AUTH_KEY_TYPE_MAX_COUNT"
    and "length (str_block blk) = AUTH_STR_BLOCK_MAX_LEN"
    and "blk_length blk \<le> AUTH_STR_BLOCK_MAX_LEN"
    and "\<And>k. k < AUTH_KEY_TYPE_MAX_COUNT \<Longrightarrow> present (key blk ! k) \<Longrightarrow>
       value_set (key blk ! k) \<and> (\<exists>off s. key_string (key blk ! k) = Some off \<and> stored blk off s)"
  shows "key_blk_ok blk"
  using assms by (auto simp: key_blk_ok_def)

lemma key_blk_okD:
  assumes "key_blk_ok blk"
  shows "length (key blk) = AUTH_KEY_TYPE_MAX_COUNT"
    and "length (str_block blk) = AUTH_STR_BLOCK_MAX_LEN"
    and "blk_length blk \<le> AUTH_STR_BLOCK_MAX_LEN"
    and "k < AUTH_KEY_TYPE_MAX_COUNT \<Longrightarrow> present (key blk ! k) \<Longrightarrow> value_set (key blk ! k)"
    and "k < AUTH_KEY_TYPE_MAX_COUNT \<Longrightarrow> present (key blk ! k) \<Longrightarrow>
       \<exists>off s. key_string (key blk ! k) = Some off \<and> stored blk off s"
  using assms by (auto simp: key_blk_ok_def)

lemma stored_cstr:
  assumes "stored blk off s"
  shows "cstr (drop off (str_block blk)) = s"
proof -
  from assms have "drop off (str_block blk) = s @ NUL # drop (length s + 1) (drop off (str_block blk))"
    unfolding stored_def
    by (metis append_Cons append_Nil append_assoc append_take_drop_id)
  with assms show ?thesis
    by (metis cstr_terminated stored_def)
qed

lemma key_value_eq:
  "key_value blk k =
     (if present (key blk ! k)
      then map_option (\<lambda>off. cstr (drop off (str_block blk))) (key_string (key blk ! k)) else None)"
  by (simp add: key_value_def acl_get_key_val_def split: option.splits)

lemma key_value_Some:
  assumes "key_blk_ok blk" and "k < AUTH_KEY_TYPE_MAX_COUNT" and "key_value blk k = Some v"
  shows "is_cstr v \<and> length v < AUTH_STR_MAX_LEN"
proof -
  from assms(3) have "present (key blk ! k)" by (simp add: key_value_eq split: if_splits)
  with key_blk_okD(5) [OF assms(1,2)] obtain off s
    where "key_string (key blk ! k) = Some off" and st: "stored blk off s" by blast
  with assms(3) stored_cstr [OF st] show ?thesis
    by (auto simp: key_value_eq stored_def split: if_splits)
qed

lemma key_value_present: "key_blk_ok blk \<Longrightarrow> k < AUTH_KEY_TYPE_MAX_COUNT \<Longrightarrow>
  (key_value blk k \<noteq> None) = present (key blk ! k)"
  using key_blk_okD(5) [of blk k] by (auto simp: key_value_eq)

subsection \<open>Every operation keeps the invariant\<close>

lemma key_blk_ok_init [simp, intro]:
  assumes "length (str_block blk) = AUTH_STR_BLOCK_MAX_LEN"
  shows "key_blk_ok (acl_init_key_blk blk)"
  using assms by (auto simp: key_blk_ok_def acl_init_key_blk_def auth_key_zero_def)

lemma key_value_init [simp]:
  "k < AUTH_KEY_TYPE_MAX_COUNT \<Longrightarrow> key_value (acl_init_key_blk blk) k = None"
  by (simp add: key_value_eq acl_init_key_blk_def auth_key_zero_def)

text \<open>The four outcomes of \<open>acl_set_key_value\<close>.\<close>

definition mark_set :: "auth_key_block \<Rightarrow> nat \<Rightarrow> auth_key_block" where
  "mark_set blk k = blk\<lparr>key := (key blk)[k := (key blk ! k)\<lparr>value_set := True\<rparr>]\<rparr>"

definition store_value :: "auth_key_block \<Rightarrow> nat \<Rightarrow> string \<Rightarrow> auth_key_block" where
  "store_value blk k v =
     blk\<lparr>str_block := overlay (str_block blk) (blk_length blk) (v @ [NUL]),
         blk_length := blk_length blk + length v + 1,
         key := (key blk)[k := (key blk ! k)\<lparr>value_set := True,
                            key_string := Some (blk_length blk), present := True\<rparr>]\<rparr>"

definition set_accepts :: "auth_key_block \<Rightarrow> nat \<Rightarrow> string \<Rightarrow> bool" where
  "set_accepts blk k v \<longleftrightarrow> \<not> value_set (key blk ! k) \<and> length v < AUTH_STR_MAX_LEN \<and>
     blk_length blk + length v + 1 \<le> AUTH_STR_BLOCK_MAX_LEN"

lemma acl_set_key_value_cases:
  "acl_set_key_value blk k v =
     (if value_set (key blk ! k) then blk\<lparr>dup_set := True\<rparr>
      else case v of
        None \<Rightarrow> mark_set blk k
      | Some s \<Rightarrow>
          if AUTH_STR_MAX_LEN \<le> length s then (mark_set blk k)\<lparr>str_too_long := True\<rparr>
          else if AUTH_STR_BLOCK_MAX_LEN < blk_length blk + length s + 1
          then (mark_set blk k)\<lparr>too_much_data := True\<rparr>
          else store_value blk k s)"
  by (auto simp: acl_set_key_value_def mark_set_def store_value_def Let_def strlcpy_eq
      AUTH_STR_BLOCK_MAX_LEN_def not_less split: option.splits)

lemma stored_grow:
  assumes st: "stored blk off s" and len: "blk_length blk \<le> length (str_block blk)"
  shows "stored (store_value blk k v) off s"
proof -
  let ?n = "length s + 1" and ?off' = "blk_length blk"
  from st have le: "off + ?n \<le> ?off'" by (simp add: stored_def)
  have "take ?n (drop off (str_block (store_value blk k v)))
      = drop off (take (off + ?n) (overlay (str_block blk) ?off' (v @ [NUL])))"
    by (simp add: store_value_def take_drop add.commute)
  also have "\<dots> = drop off (take (off + ?n) (str_block blk))"
    using le len by (simp add: take_overlay_before)
  also have "\<dots> = s @ [NUL]"
    using st by (simp add: stored_def take_drop add.commute)
  finally show ?thesis
    using st by (simp add: stored_def store_value_def)
qed

lemma stored_new:
  assumes "is_cstr v" "length v < AUTH_STR_MAX_LEN" "blk_length blk \<le> length (str_block blk)"
  shows "stored (store_value blk k v) (blk_length blk) v"
  using assms by (simp add: stored_def store_value_def drop_overlay)

lemma stored_cong:
  "str_block blk' = str_block blk \<Longrightarrow> blk_length blk' = blk_length blk \<Longrightarrow>
   stored blk' off s = stored blk off s"
  by (simp add: stored_def)

lemma key_blk_ok_same_store:
  assumes "key_blk_ok blk" and "str_block blk' = str_block blk" and "blk_length blk' = blk_length blk"
    and "length (key blk') = length (key blk)"
    and "\<And>k. k < AUTH_KEY_TYPE_MAX_COUNT \<Longrightarrow> present (key blk' ! k) \<Longrightarrow>
      present (key blk ! k) \<and> key_string (key blk' ! k) = key_string (key blk ! k) \<and>
      (value_set (key blk ! k) \<longrightarrow> value_set (key blk' ! k))"
  shows "key_blk_ok blk'"
  using assms stored_cong [OF assms(2,3)] by (fastforce simp: key_blk_ok_def)

lemma key_blk_ok_mark_set [intro]: "key_blk_ok blk \<Longrightarrow> key_blk_ok (mark_set blk k)"
  by (rule key_blk_ok_same_store [of blk])
     (auto simp: mark_set_def nth_update_cases split: if_splits)

lemma key_blk_ok_flags [simp]:
  "key_blk_ok (blk\<lparr>dup_set := b\<rparr>) = key_blk_ok blk"
  "key_blk_ok (blk\<lparr>str_too_long := b\<rparr>) = key_blk_ok blk"
  "key_blk_ok (blk\<lparr>too_much_data := b\<rparr>) = key_blk_ok blk"
  "key_blk_ok (blk\<lparr>transit_bit := b\<rparr>) = key_blk_ok blk"
  by (simp_all add: key_blk_ok_def stored_def)

lemma key_value_flags [simp]:
  "key_value (blk\<lparr>dup_set := b\<rparr>) = key_value blk"
  "key_value (blk\<lparr>str_too_long := b\<rparr>) = key_value blk"
  "key_value (blk\<lparr>too_much_data := b\<rparr>) = key_value blk"
  "key_value (blk\<lparr>transit_bit := b\<rparr>) = key_value blk"
  by (auto simp: key_value_eq)

lemma key_value_mark_set [simp]:
  "key_blk_ok blk \<Longrightarrow> k < AUTH_KEY_TYPE_MAX_COUNT \<Longrightarrow> j < AUTH_KEY_TYPE_MAX_COUNT \<Longrightarrow>
   key_value (mark_set blk k) j = key_value blk j"
  by (auto simp: key_value_eq mark_set_def key_blk_ok_def nth_list_update)

lemma key_blk_ok_store_value:
  assumes ok: "key_blk_ok blk" and k: "k < AUTH_KEY_TYPE_MAX_COUNT"
    and acc: "set_accepts blk k v" and "is_cstr v"
  shows "key_blk_ok (store_value blk k v)"
proof (rule key_blk_okI)
  note len = key_blk_okD(1,2,3) [OF ok]
  show "length (key (store_value blk k v)) = AUTH_KEY_TYPE_MAX_COUNT"
    using len by (simp add: store_value_def)
  show "length (str_block (store_value blk k v)) = AUTH_STR_BLOCK_MAX_LEN"
    using len acc by (simp add: store_value_def length_overlay set_accepts_def)
  show "blk_length (store_value blk k v) \<le> AUTH_STR_BLOCK_MAX_LEN"
    using acc by (simp add: store_value_def set_accepts_def)
  fix j assume j: "j < AUTH_KEY_TYPE_MAX_COUNT" and pr: "present (key (store_value blk k v) ! j)"
  show "value_set (key (store_value blk k v) ! j) \<and>
    (\<exists>off s. key_string (key (store_value blk k v) ! j) = Some off \<and> stored (store_value blk k v) off s)"
  proof (cases "j = k")
    case True
    have "stored (store_value blk k v) (blk_length blk) v"
      using assms len by (intro stored_new) (auto simp: set_accepts_def)
    with True k len show ?thesis by (auto simp: store_value_def)
  next
    case False
    then have "key (store_value blk k v) ! j = key blk ! j" by (simp add: store_value_def)
    with pr key_blk_okD(4,5) [OF ok j] len stored_grow show ?thesis by fastforce
  qed
qed

lemma key_value_store_value:
  assumes ok: "key_blk_ok blk" and k: "k < AUTH_KEY_TYPE_MAX_COUNT" and j: "j < AUTH_KEY_TYPE_MAX_COUNT"
    and acc: "set_accepts blk k v" and "is_cstr v"
  shows "key_value (store_value blk k v) j = (if j = k then Some v else key_value blk j)"
proof -
  note len = key_blk_okD(1,2,3) [OF ok]
  show ?thesis
  proof (cases "j = k")
    case True
    have "stored (store_value blk k v) (blk_length blk) v"
      using assms len by (intro stored_new) (auto simp: set_accepts_def)
    then have "cstr (drop (blk_length blk) (str_block (store_value blk k v))) = v"
      by (rule stored_cstr)
    with True k len show ?thesis by (simp add: key_value_eq) (simp add: store_value_def)
  next
    case False
    then have same: "key (store_value blk k v) ! j = key blk ! j" by (simp add: store_value_def)
    show ?thesis
    proof (cases "present (key blk ! j)")
      case True
      with key_blk_okD(5) [OF ok j] obtain off s
        where off: "key_string (key blk ! j) = Some off" and st: "stored blk off s" by blast
      have "cstr (drop off (str_block (store_value blk k v))) = cstr (drop off (str_block blk))"
        using stored_cstr [OF st] stored_cstr [OF stored_grow [OF st]] len by simp
      with False same off show ?thesis by (simp add: key_value_eq)
    next
      case False
      with \<open>j \<noteq> k\<close> same show ?thesis by (simp add: key_value_eq)
    qed
  qed
qed

lemma key_blk_ok_set [simp, intro]:
  assumes "key_blk_ok blk" and "k < AUTH_KEY_TYPE_MAX_COUNT"
  shows "is_cstr s \<Longrightarrow> key_blk_ok (acl_set_key_value blk k (Some s))"
    and "key_blk_ok (acl_set_key_value blk k None)"
  using assms
  by (auto simp: acl_set_key_value_cases set_accepts_def not_le not_less
      intro!: key_blk_ok_store_value)

lemma key_value_set:
  assumes "key_blk_ok blk" and "k < AUTH_KEY_TYPE_MAX_COUNT" and "j < AUTH_KEY_TYPE_MAX_COUNT"
  shows "is_cstr s \<Longrightarrow> key_value (acl_set_key_value blk k (Some s)) j =
      (if j = k \<and> set_accepts blk k s then Some s else key_value blk j)"
    and "key_value (acl_set_key_value blk k None) j = key_value blk j"
  using assms key_value_store_value [OF assms]
  by (auto simp: acl_set_key_value_cases set_accepts_def not_le not_less)

lemma value_set_set [simp]:
  assumes "key_blk_ok blk" and "k < AUTH_KEY_TYPE_MAX_COUNT" and "j < AUTH_KEY_TYPE_MAX_COUNT"
  shows "value_set (key (acl_set_key_value blk k v) ! j) \<longleftrightarrow> j = k \<or> value_set (key blk ! j)"
  using assms key_blk_okD(1) [OF assms(1)]
  by (auto simp: acl_set_key_value_cases mark_set_def store_value_def nth_list_update
      split: option.splits)

lemma key_blk_ok_get [simp, intro]: "key_blk_ok blk \<Longrightarrow> key_blk_ok (fst (acl_get_key_val blk k))"
  by (rule key_blk_ok_same_store [of blk])
     (auto simp: acl_get_key_val_def nth_update_cases split: if_splits)

lemma key_value_get [simp]:
  "key_blk_ok blk \<Longrightarrow> j < AUTH_KEY_TYPE_MAX_COUNT \<Longrightarrow>
   key_value (fst (acl_get_key_val blk k)) j = key_value blk j"
  by (auto simp: key_value_eq acl_get_key_val_def nth_update_cases)

subsection \<open>The contract of a key store\<close>

text \<open>
  What the negotiation code relies on: a store that is reset for every message, takes each key at
  most once, refuses what does not fit, and gives every accepted value back. \<open>fresh\<close> says that the
  key has not been set yet; \<open>room\<close> counts the bytes that are left.
\<close>

locale key_store =
  fixes reset :: "'b \<Rightarrow> 'b"
    and put :: "'b \<Rightarrow> nat \<Rightarrow> string option \<Rightarrow> 'b"
    and get :: "'b \<Rightarrow> nat \<Rightarrow> 'b \<times> string option"
    and lookup :: "'b \<Rightarrow> nat \<Rightarrow> string option"
    and fresh :: "'b \<Rightarrow> nat \<Rightarrow> bool"
    and room :: "'b \<Rightarrow> nat"
    and valid_key :: "nat \<Rightarrow> bool"
    and valid_val :: "string \<Rightarrow> bool"
    and capacity :: nat
    and inv :: "'b \<Rightarrow> bool"
  assumes inv_reset: "inv b \<Longrightarrow> inv (reset b)"
    and inv_put: "inv b \<Longrightarrow> valid_key k \<Longrightarrow> valid_val v \<Longrightarrow> inv (put b k (Some v))"
    and inv_get: "inv b \<Longrightarrow> inv (fst (get b k))"
    and lookup_reset: "valid_key k \<Longrightarrow> lookup (reset b) k = None"
    and fresh_reset: "valid_key k \<Longrightarrow> fresh (reset b) k"
    and room_reset: "room (reset b) = capacity"
    and get_lookup: "snd (get b k) = lookup b k"
    and lookup_get: "inv b \<Longrightarrow> valid_key j \<Longrightarrow> lookup (fst (get b k)) j = lookup b j"
    and lookup_put: "inv b \<Longrightarrow> valid_key k \<Longrightarrow> valid_key j \<Longrightarrow> valid_val v \<Longrightarrow> fresh b k \<Longrightarrow>
          length v + 1 \<le> room b \<Longrightarrow> lookup (put b k (Some v)) j = (if j = k then Some v else lookup b j)"
    and room_put: "inv b \<Longrightarrow> valid_key k \<Longrightarrow> valid_val v \<Longrightarrow> fresh b k \<Longrightarrow>
          length v + 1 \<le> room b \<Longrightarrow> room (put b k (Some v)) = room b - (length v + 1)"
    and fresh_put: "inv b \<Longrightarrow> valid_key k \<Longrightarrow> valid_key j \<Longrightarrow>
          fresh (put b k (Some v)) j \<longleftrightarrow> fresh b j \<and> j \<noteq> k"
begin

text \<open>Loading the keys of a message one after the other, and what is found afterwards.\<close>

lemma load_lookup:
  assumes "inv b" and "distinct (map fst kvs)"
    and "\<And>k v. (k, v) \<in> set kvs \<Longrightarrow> valid_key k \<and> valid_val v \<and> fresh b k"
    and "(\<Sum>(k, v) \<leftarrow> kvs. length v + 1) \<le> room b" and "valid_key j"
  shows "lookup (fold (\<lambda>(k, v) b. put b k (Some v)) kvs b) j =
           (case map_of kvs j of None \<Rightarrow> lookup b j | Some v \<Rightarrow> Some v)"
  using assms
proof (induction kvs arbitrary: b)
  case Nil
  then show ?case by simp
next
  case (Cons kv kvs)
  obtain k v where kv: "kv = (k, v)" by (cases kv)
  let ?b = "put b k (Some v)"
  from Cons.prems(3) have kv': "valid_key k" "valid_val v" "fresh b k" by (auto simp: kv)
  from Cons.prems(4) have fits: "length v + 1 \<le> room b" by (simp add: kv)
  have j: "map_of kvs k = None" using Cons.prems(2) by (simp add: kv map_of_eq_None_iff)
  have "lookup (fold (\<lambda>(k, v) b. put b k (Some v)) kvs ?b) j =
      (case map_of kvs j of None \<Rightarrow> lookup ?b j | Some v \<Rightarrow> Some v)"
  proof (rule Cons.IH)
    show "inv ?b" using Cons.prems(1) kv' by (intro inv_put)
    show "distinct (map fst kvs)" using Cons.prems(2) by simp
    show "valid_key k' \<and> valid_val v' \<and> fresh ?b k'" if "(k', v') \<in> set kvs" for k' v'
      using that Cons.prems(1,2) Cons.prems(3) [of k' v'] kv'
      by (force simp: kv fresh_put)
    show "(\<Sum>(k, v) \<leftarrow> kvs. length v + 1) \<le> room ?b"
      using Cons.prems(4) room_put [OF Cons.prems(1) kv' fits] by (simp add: kv)
    show "valid_key j" by fact
  qed
  then show ?case
    using lookup_put [OF Cons.prems(1) kv'(1) Cons.prems(5) kv'(2,3) fits] j
    by (auto simp: kv split: option.splits)
qed

lemma load_message:
  assumes "inv b" and "distinct (map fst kvs)"
    and "\<And>k v. (k, v) \<in> set kvs \<Longrightarrow> valid_key k \<and> valid_val v"
    and "(\<Sum>(k, v) \<leftarrow> kvs. length v + 1) \<le> capacity" and "valid_key j"
  shows "snd (get (fold (\<lambda>(k, v) b. put b k (Some v)) kvs (reset b)) j) = map_of kvs j"
  using load_lookup [OF inv_reset [OF assms(1)] assms(2) _ _ assms(5)] assms(3-5)
  by (auto simp: get_lookup lookup_reset fresh_reset room_reset split: option.splits)

end

definition valid_key_val :: "string \<Rightarrow> bool" where
  "valid_key_val v \<longleftrightarrow> is_cstr v \<and> length v < AUTH_STR_MAX_LEN"

definition blk_room :: "auth_key_block \<Rightarrow> nat" where
  "blk_room blk = AUTH_STR_BLOCK_MAX_LEN - blk_length blk"

lemma blk_length_set:
  "set_accepts blk k v \<Longrightarrow> blk_length (acl_set_key_value blk k (Some v)) = blk_length blk + length v + 1"
  by (simp add: acl_set_key_value_cases set_accepts_def store_value_def)

interpretation kb: key_store acl_init_key_blk acl_set_key_value acl_get_key_val key_value
  "\<lambda>blk k. \<not> value_set (key blk ! k)" blk_room "\<lambda>k. k < AUTH_KEY_TYPE_MAX_COUNT" valid_key_val
  AUTH_STR_BLOCK_MAX_LEN key_blk_ok
proof unfold_locales
  fix b k v
  assume prems: "key_blk_ok b" "k < AUTH_KEY_TYPE_MAX_COUNT" "valid_key_val v"
    "\<not> value_set (key b ! k)" "length v + 1 \<le> blk_room b"
  then have acc: "set_accepts b k v"
    by (auto simp: set_accepts_def valid_key_val_def blk_room_def)
  show "blk_room (acl_set_key_value b k (Some v)) = blk_room b - (length v + 1)"
    using blk_length_set [OF acc] by (simp add: blk_room_def)
  fix j assume "j < AUTH_KEY_TYPE_MAX_COUNT"
  then show "key_value (acl_set_key_value b k (Some v)) j = (if j = k then Some v else key_value b j)"
    using prems acc by (simp add: key_value_set valid_key_val_def)
next
  fix b :: auth_key_block and k assume "k < AUTH_KEY_TYPE_MAX_COUNT"
  then show "\<not> value_set (key (acl_init_key_blk b) ! k)"
    by (simp add: acl_init_key_blk_def auth_key_zero_def)
next
  show "blk_room (acl_init_key_blk b) = AUTH_STR_BLOCK_MAX_LEN" for b
    by (simp add: blk_room_def acl_init_key_blk_def)
next
  show "snd (acl_get_key_val b k) = key_value b k" for b k
    by (simp add: key_value_def)
qed (auto simp: valid_key_val_def key_blk_okD(2))

subsection \<open>Properties\<close>

text \<open>C25. A message whose keys are distinct, each shorter than \<open>AUTH_STR_MAX_LEN\<close> and together no
  larger than the string block is stored without loss: after loading it into a key block that has
  just been initialised, \<open>acl_get_key_val\<close> returns for every key type exactly the value the message
  has for it, and nothing for the keys it does not have, in whatever order the keys came.\<close>

theorem message_keys_retrieved:
  assumes "key_blk_ok blk" and "distinct (map fst kvs)"
    and "\<And>k v. (k, v) \<in> set kvs \<Longrightarrow> k < AUTH_KEY_TYPE_MAX_COUNT \<and> valid_key_val v"
    and "(\<Sum>(k, v) \<leftarrow> kvs. length v + 1) \<le> AUTH_STR_BLOCK_MAX_LEN"
    and "j < AUTH_KEY_TYPE_MAX_COUNT"
  shows "snd (acl_get_key_val (fold (\<lambda>(k, v) b. acl_set_key_value b k (Some v)) kvs (acl_init_key_blk blk)) j)
         = map_of kvs j"
  using assms by (rule kb.load_message)

definition blank_key_blk :: auth_key_block where
  "blank_key_blk =
     \<lparr>transit_bit = False, dup_set = False, str_too_long = False, too_much_data = False,
      blk_length = 0, str_block = replicate AUTH_STR_BLOCK_MAX_LEN NUL,
      key = replicate AUTH_KEY_TYPE_MAX_COUNT auth_key_zero\<rparr>"

lemma key_blk_ok_blank [simp]: "key_blk_ok blank_key_blk"
  by (auto simp: key_blk_ok_def blank_key_blk_def auth_key_zero_def)

theorem message_keys_retrieved_witness:
  "snd (acl_get_key_val (fold (\<lambda>(k, v) b. acl_set_key_value b k (Some v))
      [(4 :: nat, ''7''), (5, ''''), (1, ''5'')] (acl_init_key_blk blank_key_blk)) 1)
   = map_of [(4 :: nat, ''7''), (5, ''''), (1, ''5'')] 1"
  by (rule message_keys_retrieved)
     (auto simp: valid_key_val_def AUTH_KEY_TYPE_MAX_COUNT_def AUTH_STR_MAX_LEN_def
        AUTH_STR_BLOCK_MAX_LEN_def)

text \<open>Setting a key never disturbs another one. Whatever \<open>acl_set_key_value\<close> does, stores the
  value or refuses it because the key is already set, too long or does not fit, the block stays
  well-formed, every other key keeps its value, and the key itself changes only when the value was
  accepted.\<close>

theorem set_key_value_frame:
  assumes "key_blk_ok blk" and "k < AUTH_KEY_TYPE_MAX_COUNT" and "is_cstr v"
  shows "key_blk_ok (acl_set_key_value blk k (Some v)) \<and>
    (\<forall>j < AUTH_KEY_TYPE_MAX_COUNT. key_value (acl_set_key_value blk k (Some v)) j =
       (if j = k \<and> set_accepts blk k v then Some v else key_value blk j))"
  using assms by (auto simp: key_value_set)


fun key_types_from :: "nat \<Rightarrow> int \<Rightarrow> int list" where
  "key_types_from 0 kt = []"
| "key_types_from (Suc n) kt =
     (case acl_get_next_key_type kt of None \<Rightarrow> [] | Some kt' \<Rightarrow> kt' # key_types_from n kt')"

text \<open>The key types are enumerated completely and once: starting from \<open>AUTH_KEY_TYPE_NONE\<close>,
  iterating \<open>acl_get_next_key_type\<close> visits the six key types in order, each with its name, and then
  stops.\<close>

theorem key_types_enumerated:
  "key_types_from (6 + n) AUTH_KEY_TYPE_NONE = [0, 1, 2, 3, 4, 5] \<and>
   map acl_get_key_name [0, 1, 2, 3, 4, 5] =
     map Some [''AuthMethod'', ''CHAP_A'', ''CHAP_N'', ''CHAP_R'', ''CHAP_I'', ''CHAP_C'']"
proof -
  have stop: "key_types_from n AUTH_KEY_TYPE_LAST = []"
    by (cases n) (simp_all add: acl_get_next_key_type_def)
  show ?thesis
    using stop
    by (simp add: numeral_eq_Suc acl_get_next_key_type_def acl_get_key_name_def
        AUTH_KEY_TYPE_NONE_def AUTH_KEY_TYPE_FIRST_def AUTH_KEY_TYPE_LAST_def)
qed

end
