(* ===== verification/Auth_Client.thy ===== *)
theory Auth_Client
  imports Auth_Keys
begin

section \<open>The authentication client\<close>

text \<open>
  The state (\<open>struct iscsi_acl\<close>) and every operation of \<open>usr/auth.c\<close>: negotiation of the method and
  of the CHAP algorithm, the local and the remote half of CHAP, the transit-bit handshake, the
  message interface (\<open>acl_recv_begin\<close> \dots \<open>acl_recv_end\<close>) and the configuration interface.

  \<^item> An enumeration is a datatype. The value 0 that \<open>memset\<close> leaves in an enumeration whose first
    member is 1 has its own constructor.
  \<^item> An array with a separate element count is the list of the counted elements. A character array
    is the C string it holds.
  \<^item> An operation that checks \<open>client->signature\<close> and returns a status is a function from the client
    to the new client and the status; the null pointer is handled by the caller's option type.
  \<^item> OpenSSL is a parameter (\<open>acl_env\<close>): \<open>EVP_digest\<close> is the digest function that
    \<open>EVP_DigestInit_ex\<close> selects for an algorithm number, or \<open>None\<close> when it refuses; \<open>RAND_bytes\<close>
    gives the bytes of the n-th call in a message for a requested length, or \<open>None\<close> when it fails;
    \<open>stack_bytes\<close> is the indeterminate content of an uninitialised local buffer.
\<close>

subsection \<open>Types\<close>

definition ACL_SIGNATURE :: nat where "ACL_SIGNATURE = 0x5984B2E3"
definition AUTH_RECV_END_MAX_COUNT :: int where "AUTH_RECV_END_MAX_COUNT = 10"

definition AUTH_OPTION_REJECT :: int where "AUTH_OPTION_REJECT = - 2"
definition AUTH_OPTION_NOT_PRESENT :: int where "AUTH_OPTION_NOT_PRESENT = - 1"
definition AUTH_OPTION_NONE :: int where "AUTH_OPTION_NONE = 1"
definition AUTH_METHOD_CHAP :: int where "AUTH_METHOD_CHAP = 2"
definition AUTH_METHOD_MAX_COUNT :: nat where "AUTH_METHOD_MAX_COUNT = 2"
definition AUTH_CHAP_ALG_MD5 :: int where "AUTH_CHAP_ALG_MD5 = 5"
definition AUTH_CHAP_ALG_SHA1 :: int where "AUTH_CHAP_ALG_SHA1 = 6"
definition AUTH_CHAP_ALG_SHA256 :: int where "AUTH_CHAP_ALG_SHA256 = 7"
definition AUTH_CHAP_ALG_SHA3_256 :: int where "AUTH_CHAP_ALG_SHA3_256 = 8"
definition AUTH_CHAP_ALG_MAX_COUNT :: nat where "AUTH_CHAP_ALG_MAX_COUNT = 5"

lemmas auth_option_defs =
  AUTH_OPTION_REJECT_def AUTH_OPTION_NOT_PRESENT_def AUTH_OPTION_NONE_def AUTH_METHOD_CHAP_def
  AUTH_CHAP_ALG_MD5_def AUTH_CHAP_ALG_SHA1_def AUTH_CHAP_ALG_SHA256_def AUTH_CHAP_ALG_SHA3_256_def

datatype auth_neg_role = AUTH_NEG_ROLE_0 | AUTH_NEG_ROLE_ORIGINATOR | AUTH_NEG_ROLE_RESPONDER

datatype auth_status =
  AUTH_STATUS_NO_ERROR | AUTH_STATUS_ERROR | AUTH_STATUS_PASS | AUTH_STATUS_FAIL | AUTH_STATUS_CONTINUE

datatype auth_dbg_status =
    AUTH_DBG_STATUS_NOT_SET
  | AUTH_DBG_STATUS_AUTH_PASS
  | AUTH_DBG_STATUS_AUTH_RMT_FALSE
  | AUTH_DBG_STATUS_AUTH_FAIL
  | AUTH_DBG_STATUS_AUTH_METHOD_BAD
  | AUTH_DBG_STATUS_CHAP_ALG_BAD
  | AUTH_DBG_STATUS_PASSWD_DECRYPT_FAILED
  | AUTH_DBG_STATUS_PASSWD_TOO_SHORT_WITH_NO_IPSEC
  | AUTH_DBG_STATUS_AUTH_SERVER_ERROR
  | AUTH_DBG_STATUS_AUTH_STATUS_BAD
  | AUTH_DBG_STATUS_AUTHPASS_NOT_VALID
  | AUTH_DBG_STATUS_SEND_DUP_SET_KEY_VALUE
  | AUTH_DBG_STATUS_SEND_STR_TOO_LONG
  | AUTH_DBG_STATUS_SEND_TOO_MUCH_DATA
  | AUTH_DBG_STATUS_AUTH_METHOD_EXPECTED
  | AUTH_DBG_STATUS_CHAP_ALG_EXPECTED
  | AUTH_DBG_STATUS_CHAP_IDENTIFIER_EXPECTED
  | AUTH_DBG_STATUS_CHAP_CHALLENGE_EXPECTED
  | AUTH_DBG_STATUS_CHAP_RSP_EXPECTED
  | AUTH_DBG_STATUS_CHAP_USERNAME_EXPECTED
  | AUTH_DBG_STATUS_AUTH_METHOD_NOT_PRESENT
  | AUTH_DBG_STATUS_AUTH_METHOD_REJECT
  | AUTH_DBG_STATUS_AUTH_METHOD_NONE
  | AUTH_DBG_STATUS_CHAP_ALG_REJECT
  | AUTH_DBG_STATUS_CHAP_CHALLENGE_REFLECTED
  | AUTH_DBG_STATUS_PASSWD_IDENTICAL
  | AUTH_DBG_STATUS_LOCAL_PASSWD_NOT_SET
  | AUTH_DBG_STATUS_CHAP_IDENTIFIER_BAD
  | AUTH_DBG_STATUS_CHALLENGE_BAD
  | AUTH_DBG_STATUS_CHAP_RSP_BAD
  | AUTH_DBG_STATUS_UNEXPECTED_KEY_PRESENT
  | AUTH_DBG_STATUS_T_BIT_SET_ILLEGAL
  | AUTH_DBG_STATUS_T_BIT_SET_PREMATURE
  | AUTH_DBG_STATUS_RECV_MSG_COUNT_LIMIT
  | AUTH_DBG_STATUS_RECV_DUP_SET_KEY_VALUE
  | AUTH_DBG_STATUS_RECV_STR_TOO_LONG
  | AUTH_DBG_STATUS_RECV_TOO_MUCH_DATA

datatype auth_node_type = AUTH_NODE_TYPE_0 | TYPE_INITIATOR | TYPE_TARGET

datatype auth_phase =
    AUTH_PHASE_0
  | AUTH_PHASE_CONFIGURE
  | AUTH_PHASE_NEGOTIATE
  | AUTH_PHASE_AUTHENTICATE
  | AUTH_PHASE_DONE
  | AUTH_PHASE_ERROR

datatype auth_local_state =
    AUTH_LOCAL_STATE_0
  | AUTH_LOCAL_STATE_SEND_ALG
  | AUTH_LOCAL_STATE_RECV_ALG
  | AUTH_LOCAL_STATE_RECV_CHALLENGE
  | AUTH_LOCAL_STATE_DONE
  | AUTH_LOCAL_STATE_ERROR

datatype auth_rmt_state =
    AUTH_RMT_STATE_0
  | AUTH_RMT_STATE_SEND_ALG
  | AUTH_RMT_STATE_SEND_CHALLENGE
  | AUTH_RMT_STATE_RECV_RSP
  | AUTH_RMT_STATE_DONE
  | AUTH_RMT_STATE_ERROR

record auth_large_binary_key =
  lb_length :: nat
  large_binary :: "byte list"

text \<open>The credentials the initiator expects of a target, kept in the session.\<close>

record auth_session =
  username_in :: string
  password_in :: "byte list"

record iscsi_acl =
  signature :: nat
  node_type :: auth_node_type
  auth_method_list :: "int list"
  auth_method_neg_role :: auth_neg_role
  chap_alg_list :: "int list"
  auth_rmt :: bool
  username :: string
  passwd_present :: bool
  passwd_data :: "byte list"
  chap_challenge_len :: nat
  ip_sec :: bool
  auth_method_valid_list :: "int list"
  auth_method_valid_neg_role :: auth_neg_role
  recv_in_progress_flag :: bool
  recv_end_count :: int
  session_handle :: "auth_session option"
  phase :: auth_phase
  local_state :: auth_local_state
  rmt_state :: auth_rmt_state
  rmt_auth_status :: auth_status
  dbg_status :: auth_dbg_status
  negotiated_auth_method :: int
  negotiated_chap_alg :: int
  auth_rsp_flag :: bool
  auth_server_error_flag :: bool
  transit_bit_sent_flag :: bool
  send_chap_identifier :: nat
  send_chap_challenge :: auth_large_binary_key
  chap_username :: string
  recv_chap_challenge_status :: int
  recv_chap_challenge :: auth_large_binary_key
  scratch_key_value :: string
  recv_key_block :: auth_key_block
  send_key_block :: auth_key_block

record acl_env =
  EVP_digest :: "int \<Rightarrow> (byte list \<Rightarrow> byte list) option"
  RAND_bytes :: "nat \<Rightarrow> nat \<Rightarrow> byte list option"
  stack_bytes :: "byte list"

subsection \<open>CHAP responses\<close>

type_synonym md_ctx = "(byte list \<Rightarrow> byte list) \<times> byte list"

definition auth_hash_init :: "acl_env \<Rightarrow> int \<Rightarrow> md_ctx option" where
  "auth_hash_init env chap_alg =
     (if chap_alg = AUTH_CHAP_ALG_MD5 \<or> chap_alg = AUTH_CHAP_ALG_SHA1 \<or>
         chap_alg = AUTH_CHAP_ALG_SHA256 \<or> chap_alg = AUTH_CHAP_ALG_SHA3_256
      then map_option (\<lambda>digest. (digest, [])) (EVP_digest env chap_alg)
      else None)"

definition auth_hash_update :: "md_ctx \<Rightarrow> byte list \<Rightarrow> md_ctx" where
  "auth_hash_update context data = (fst context, snd context @ data)"

definition auth_hash_final :: "md_ctx \<Rightarrow> byte list" where
  "auth_hash_final context = fst context (snd context)"

definition acl_data :: "nat \<Rightarrow> byte list \<Rightarrow> byte list option" where
  "acl_data out_length in_data = (if out_length < length in_data then None else Some in_data)"

text \<open>The response is meaningful only with status \<open>AUTH_DBG_STATUS_NOT_SET\<close>.\<close>

definition acl_chap_compute_rsp ::
  "acl_env \<Rightarrow> iscsi_acl \<Rightarrow> bool \<Rightarrow> nat \<Rightarrow> byte list \<Rightarrow> auth_dbg_status \<times> byte list"
where
  "acl_chap_compute_rsp env client rmt ident challenge_data =
     (if \<not> passwd_present client then (AUTH_DBG_STATUS_LOCAL_PASSWD_NOT_SET, [])
      else case auth_hash_init env (negotiated_chap_alg client) of
        None \<Rightarrow> (AUTH_DBG_STATUS_AUTH_FAIL, [])
      | Some context \<Rightarrow>
          let context = auth_hash_update context [of_nat ident]
          in case acl_data AUTH_STR_MAX_LEN (passwd_data client) of
               None \<Rightarrow> (AUTH_DBG_STATUS_PASSWD_DECRYPT_FAILED, [])
             | Some out_data \<Rightarrow>
                 if \<not> rmt \<and> \<not> ip_sec client \<and> length out_data < 12
                 then (AUTH_DBG_STATUS_PASSWD_TOO_SHORT_WITH_NO_IPSEC, [])
                 else let context = auth_hash_update context out_data;
                          context = auth_hash_update context challenge_data
                      in (AUTH_DBG_STATUS_NOT_SET, auth_hash_final context))"

text \<open>\<open>memcmp\<close> compares the \<open>chap_challenge_len\<close> bytes of \<open>verify_data\<close>, whose bytes beyond the
  digest are indeterminate.\<close>

definition acl_chap_auth_request ::
  "acl_env \<Rightarrow> iscsi_acl \<Rightarrow> string \<Rightarrow> nat \<Rightarrow> byte list \<Rightarrow> byte list \<Rightarrow> auth_status"
where
  "acl_chap_auth_request env client uname ident challenge_data response_data =
     (case session_handle client of
        None \<Rightarrow> AUTH_STATUS_FAIL
      | Some session \<Rightarrow>
          if username_in session = [] then AUTH_STATUS_FAIL
          else if uname \<noteq> username_in session then AUTH_STATUS_FAIL
          else if password_in session = [] \<or> hd (password_in session) = 0 then AUTH_STATUS_FAIL
          else if length response_data \<noteq> chap_challenge_len client then AUTH_STATUS_FAIL
          else case auth_hash_init env (negotiated_chap_alg client) of
            None \<Rightarrow> AUTH_STATUS_FAIL
          | Some context \<Rightarrow>
              let context = auth_hash_update context [of_nat ident];
                  context = auth_hash_update context (password_in session);
                  context = auth_hash_update context challenge_data;
                  verify_data = take (chap_challenge_len client) (auth_hash_final context @ stack_bytes env)
              in if response_data = verify_data then AUTH_STATUS_PASS else AUTH_STATUS_FAIL)"

subsection \<open>Options and their texts\<close>

definition acl_none_option_name :: string where "acl_none_option_name = ''None''"
definition acl_reject_option_name :: string where "acl_reject_option_name = ''Reject''"
definition acl_authmethod_set_chap_alg_list :: string where "acl_authmethod_set_chap_alg_list = ''CHAP''"

definition acl_chk_auth_mthd_optn :: "int \<Rightarrow> bool" where
  "acl_chk_auth_mthd_optn val \<longleftrightarrow> \<not> (val = AUTH_OPTION_NONE \<or> val = AUTH_METHOD_CHAP)"

definition acl_authmethod_optn_to_text :: "int \<Rightarrow> string option" where
  "acl_authmethod_optn_to_text val =
     (if val = AUTH_OPTION_REJECT then Some acl_reject_option_name
      else if val = AUTH_OPTION_NONE then Some acl_none_option_name
      else if val = AUTH_METHOD_CHAP then Some acl_authmethod_set_chap_alg_list
      else None)"

definition acl_chk_chap_alg_optn :: "int \<Rightarrow> bool" where
  "acl_chk_chap_alg_optn alg \<longleftrightarrow>
     \<not> (alg = AUTH_OPTION_NONE \<or> alg = AUTH_CHAP_ALG_SHA3_256 \<or> alg = AUTH_CHAP_ALG_SHA256 \<or>
        alg = AUTH_CHAP_ALG_SHA1 \<or> alg = AUTH_CHAP_ALG_MD5)"

text \<open>The scan of a comma-separated value that \<open>acl_chk_key\<close> and \<open>acl_chk_chap_alg_key\<close> share: each
  item is copied to the scratch buffer and looked up; the first item that is found ends the scan.
  The result is the last scratch content and the option found.\<close>

function scan_key :: "(string \<Rightarrow> int option) \<Rightarrow> string \<Rightarrow> string \<Rightarrow> string \<times> int option" where
  "scan_key lookup key_val scratch =
     (if key_val = [] then (scratch, None)
      else let item = takeWhile (\<lambda>c. c \<noteq> CHR '','') key_val;
               rest = drop 1 (dropWhile (\<lambda>c. c \<noteq> CHR '','') key_val)
           in case lookup item of
                Some opt \<Rightarrow> (item, Some opt)
              | None \<Rightarrow> scan_key lookup rest item)"
  by pat_completeness auto
termination
proof (relation "measure (\<lambda>(lookup, key_val, scratch). length key_val)")
  fix lookup :: "string \<Rightarrow> int option" and key_val scratch item rest :: string
  assume ne: "key_val \<noteq> []" and rest: "rest = drop 1 (dropWhile (\<lambda>c. c \<noteq> CHR '','') key_val)"
  have "length (dropWhile (\<lambda>c. c \<noteq> CHR '','') key_val) \<le> length key_val"
    by (rule length_dropWhile_le)
  with ne show "((lookup, rest, item), lookup, key_val, scratch)
      \<in> measure (\<lambda>(lookup, key_val, scratch). length key_val)"
    by (cases key_val) (auto simp: rest)
qed simp

declare scan_key.simps [simp del]

fun find_text_option :: "(int \<Rightarrow> string option) \<Rightarrow> int list \<Rightarrow> string \<Rightarrow> int option" where
  "find_text_option value_to_text [] item = None"
| "find_text_option value_to_text (opt # opts) item =
     (case value_to_text opt of
        None \<Rightarrow> find_text_option value_to_text opts item
      | Some s \<Rightarrow> if item = s then Some opt else find_text_option value_to_text opts item)"

definition acl_chk_key ::
  "iscsi_acl \<Rightarrow> nat \<Rightarrow> int list \<Rightarrow> (int \<Rightarrow> string option) \<Rightarrow> iscsi_acl \<times> int"
where
  "acl_chk_key client key_type option_list value_to_text =
     (let (blk, key_val) = acl_get_key_val (recv_key_block client) key_type;
          client = client\<lparr>recv_key_block := blk\<rparr>
      in case key_val of
           None \<Rightarrow> (client, AUTH_OPTION_NOT_PRESENT)
         | Some v \<Rightarrow>
            (case scan_key (find_text_option value_to_text option_list) v (scratch_key_value client) of
               (scratch, Some opt) \<Rightarrow> (client\<lparr>scratch_key_value := scratch\<rparr>, opt)
             | (scratch, None) \<Rightarrow> (client\<lparr>scratch_key_value := scratch\<rparr>, AUTH_OPTION_REJECT)))"

definition set_send_key :: "iscsi_acl \<Rightarrow> nat \<Rightarrow> string option \<Rightarrow> iscsi_acl" where
  "set_send_key client key_type v =
     client\<lparr>send_key_block := acl_set_key_value (send_key_block client) key_type v\<rparr>"

text \<open>The loop that joins the option texts in the scratch buffer.\<close>

fun join_options :: "(int \<Rightarrow> string option) \<Rightarrow> nat \<Rightarrow> int list \<Rightarrow> string \<Rightarrow> string" where
  "join_options value_to_text i [] scratch = scratch"
| "join_options value_to_text i (opt # opts) scratch =
     (case value_to_text opt of
        None \<Rightarrow> join_options value_to_text (Suc i) opts scratch
      | Some s \<Rightarrow>
          join_options value_to_text (Suc i) opts
            (if i = 0 then the (fst (strlcpy s AUTH_STR_MAX_LEN))
             else fst (strlcat (fst (strlcat scratch '','' AUTH_STR_MAX_LEN)) s AUTH_STR_MAX_LEN)))"

definition acl_set_key :: "iscsi_acl \<Rightarrow> nat \<Rightarrow> int list \<Rightarrow> (int \<Rightarrow> string option) \<Rightarrow> iscsi_acl" where
  "acl_set_key client key_type option_list value_to_text =
     (if option_list = [] then set_send_key client key_type (Some acl_none_option_name)
      else if option_list = [AUTH_OPTION_NOT_PRESENT] then set_send_key client key_type None
      else let scratch = join_options value_to_text 0 option_list (scratch_key_value client)
           in set_send_key (client\<lparr>scratch_key_value := scratch\<rparr>) key_type (Some scratch))"

definition acl_chk_auth_method_key :: "iscsi_acl \<Rightarrow> iscsi_acl" where
  "acl_chk_auth_method_key client =
     (let (client, opt) = acl_chk_key client AUTH_KEY_TYPE_AUTH_METHOD (auth_method_valid_list client)
                            acl_authmethod_optn_to_text
      in client\<lparr>negotiated_auth_method := opt\<rparr>)"

definition acl_set_auth_method_key :: "iscsi_acl \<Rightarrow> int list \<Rightarrow> iscsi_acl" where
  "acl_set_auth_method_key client auth_methods =
     acl_set_key client AUTH_KEY_TYPE_AUTH_METHOD auth_methods acl_authmethod_optn_to_text"

fun find_number_option :: "int list \<Rightarrow> nat \<Rightarrow> int option" where
  "find_number_option [] number = None"
| "find_number_option (alg # algs) number =
     (if number = ulong_of alg then Some (int_of_ulong number) else find_number_option algs number)"

definition find_chap_alg :: "int list \<Rightarrow> string \<Rightarrow> int option" where
  "find_chap_alg algs item =
     (case acl_text_to_number item of None \<Rightarrow> None | Some number \<Rightarrow> find_number_option algs number)"

definition chap_rsp_len :: "int \<Rightarrow> nat option" where
  "chap_rsp_len alg =
     (if alg = AUTH_CHAP_ALG_MD5 then Some 16
      else if alg = AUTH_CHAP_ALG_SHA1 then Some 20
      else if alg = AUTH_CHAP_ALG_SHA256 then Some 32
      else if alg = AUTH_CHAP_ALG_SHA3_256 then Some 32
      else None)"

definition acl_chk_chap_alg_key :: "iscsi_acl \<Rightarrow> iscsi_acl" where
  "acl_chk_chap_alg_key client =
     (let (blk, key_val) = acl_get_key_val (recv_key_block client) AUTH_KEY_TYPE_CHAP_ALG;
          client = client\<lparr>recv_key_block := blk\<rparr>
      in case key_val of
           None \<Rightarrow> client\<lparr>negotiated_chap_alg := AUTH_OPTION_NOT_PRESENT\<rparr>
         | Some v \<Rightarrow>
            (case scan_key (find_chap_alg (chap_alg_list client)) v (scratch_key_value client) of
               (scratch, Some number) \<Rightarrow>
                 client\<lparr>scratch_key_value := scratch, negotiated_chap_alg := number,
                        chap_challenge_len :=
                          (case chap_rsp_len number of Some n \<Rightarrow> n | None \<Rightarrow> chap_challenge_len client)\<rparr>
             | (scratch, None) \<Rightarrow>
                 client\<lparr>scratch_key_value := scratch, negotiated_chap_alg := AUTH_OPTION_REJECT\<rparr>))"

text \<open>\<open>snprintf(s, 20, "%lu", \<dots>)\<close> keeps at most 19 digits.\<close>

definition chap_alg_text :: "int \<Rightarrow> string option" where
  "chap_alg_text alg = Some (take 19 (udec (ulong_of alg)))"

definition acl_set_chap_alg_key :: "iscsi_acl \<Rightarrow> int list \<Rightarrow> iscsi_acl" where
  "acl_set_chap_alg_key client algs =
     (if algs = [] then set_send_key client AUTH_KEY_TYPE_CHAP_ALG None
      else if algs = [AUTH_OPTION_NOT_PRESENT] then set_send_key client AUTH_KEY_TYPE_CHAP_ALG None
      else if algs = [AUTH_OPTION_REJECT]
      then set_send_key client AUTH_KEY_TYPE_CHAP_ALG (Some acl_reject_option_name)
      else let scratch = join_options chap_alg_text 0 algs (scratch_key_value client)
           in set_send_key (client\<lparr>scratch_key_value := scratch\<rparr>) AUTH_KEY_TYPE_CHAP_ALG (Some scratch))"

subsection \<open>Phases\<close>

definition acl_next_phase :: "iscsi_acl \<Rightarrow> iscsi_acl" where
  "acl_next_phase client =
     (case phase client of
        AUTH_PHASE_CONFIGURE \<Rightarrow> client\<lparr>phase := AUTH_PHASE_NEGOTIATE\<rparr>
      | AUTH_PHASE_NEGOTIATE \<Rightarrow>
          let client = client\<lparr>phase := AUTH_PHASE_AUTHENTICATE\<rparr>;
              method = negotiated_auth_method client
          in if method = AUTH_OPTION_REJECT \<or> method = AUTH_OPTION_NOT_PRESENT \<or> method = AUTH_OPTION_NONE
             then
               let client = client\<lparr>local_state := AUTH_LOCAL_STATE_DONE, rmt_state := AUTH_RMT_STATE_DONE\<rparr>;
                   client = (if auth_rmt client
                             then client\<lparr>rmt_auth_status := AUTH_STATUS_FAIL, phase := AUTH_PHASE_DONE\<rparr>
                             else client\<lparr>rmt_auth_status := AUTH_STATUS_PASS\<rparr>)
               in client\<lparr>dbg_status :=
                    (if method = AUTH_OPTION_REJECT then AUTH_DBG_STATUS_AUTH_METHOD_REJECT
                     else if method = AUTH_OPTION_NOT_PRESENT then AUTH_DBG_STATUS_AUTH_METHOD_NOT_PRESENT
                     else AUTH_DBG_STATUS_AUTH_METHOD_NONE)\<rparr>
             else if method = AUTH_METHOD_CHAP
             then client\<lparr>local_state := AUTH_LOCAL_STATE_SEND_ALG, rmt_state := AUTH_RMT_STATE_SEND_ALG\<rparr>
             else client\<lparr>local_state := AUTH_LOCAL_STATE_DONE, rmt_state := AUTH_RMT_STATE_DONE,
                         rmt_auth_status := AUTH_STATUS_FAIL,
                         dbg_status := AUTH_DBG_STATUS_AUTH_METHOD_BAD\<rparr>
      | AUTH_PHASE_AUTHENTICATE \<Rightarrow> client\<lparr>phase := AUTH_PHASE_DONE\<rparr>
      | _ \<Rightarrow> client\<lparr>phase := AUTH_PHASE_ERROR\<rparr>)"

subsection \<open>The local half: answering the peer's challenge\<close>

text \<open>One definition per label of the \<open>switch\<close> in \<open>acl_local_auth\<close>; a label that falls through calls
  the next one.\<close>

definition local_error :: "iscsi_acl \<Rightarrow> auth_dbg_status \<Rightarrow> iscsi_acl" where
  "local_error client dbg = client\<lparr>local_state := AUTH_LOCAL_STATE_ERROR, dbg_status := dbg\<rparr>"

definition rmt_error :: "iscsi_acl \<Rightarrow> auth_dbg_status \<Rightarrow> iscsi_acl" where
  "rmt_error client dbg = client\<lparr>rmt_state := AUTH_RMT_STATE_ERROR, dbg_status := dbg\<rparr>"

definition get_recv_key :: "iscsi_acl \<Rightarrow> nat \<Rightarrow> iscsi_acl \<times> string option" where
  "get_recv_key client key_type =
     (let (blk, v) = acl_get_key_val (recv_key_block client) key_type
      in (client\<lparr>recv_key_block := blk\<rparr>, v))"

definition challenge_bytes :: "auth_large_binary_key \<Rightarrow> byte list" where
  "challenge_bytes c = take (lb_length c) (large_binary c)"

definition local_send_response :: "acl_env \<Rightarrow> iscsi_acl \<Rightarrow> nat \<Rightarrow> iscsi_acl" where
  "local_send_response env client chap_identifier =
     (case acl_chap_compute_rsp env client False chap_identifier
             (challenge_bytes (recv_chap_challenge client)) of (dbg, response_data) \<Rightarrow>
        if dbg \<noteq> AUTH_DBG_STATUS_NOT_SET then local_error client dbg
        else
          let (_, t) = acl_data_to_text
                 (take (chap_challenge_len client) (response_data @ stack_bytes env)) AUTH_STR_MAX_LEN;
              client = client\<lparr>scratch_key_value := the t\<rparr>;
              client = set_send_key client AUTH_KEY_TYPE_CHAP_RSP (Some (scratch_key_value client));
              client = set_send_key client AUTH_KEY_TYPE_CHAP_USERNAME (Some (username client))
          in client\<lparr>local_state := AUTH_LOCAL_STATE_DONE\<rparr>)"

definition local_challenge_reply ::
  "acl_env \<Rightarrow> iscsi_acl \<Rightarrow> string option \<Rightarrow> string option \<Rightarrow> iscsi_acl"
where
  "local_challenge_reply env client identifier_val challenge_val =
     (if node_type client = TYPE_TARGET \<and> identifier_val = None \<and> challenge_val = None
      then client\<lparr>local_state := AUTH_LOCAL_STATE_DONE\<rparr>
      else case identifier_val of
        None \<Rightarrow> local_error client AUTH_DBG_STATUS_CHAP_IDENTIFIER_EXPECTED
      | Some idv \<Rightarrow>
          if challenge_val = None then local_error client AUTH_DBG_STATUS_CHAP_CHALLENGE_EXPECTED
          else case acl_text_to_number idv of
            None \<Rightarrow> local_error client AUTH_DBG_STATUS_CHAP_IDENTIFIER_BAD
          | Some number \<Rightarrow>
              if 255 < number then local_error client AUTH_DBG_STATUS_CHAP_IDENTIFIER_BAD
              else if recv_chap_challenge_status client \<noteq> 0
              then local_error client AUTH_DBG_STATUS_CHALLENGE_BAD
              else if node_type client = TYPE_TARGET \<and>
                      lb_length (recv_chap_challenge client) = lb_length (send_chap_challenge client) \<and>
                      challenge_bytes (recv_chap_challenge client) =
                        challenge_bytes (send_chap_challenge client)
              then local_error client AUTH_DBG_STATUS_CHAP_CHALLENGE_REFLECTED
              else local_send_response env client number)"

definition local_recv_challenge :: "acl_env \<Rightarrow> iscsi_acl \<Rightarrow> iscsi_acl" where
  "local_recv_challenge env client =
     (let (client, identifier_val) = get_recv_key client AUTH_KEY_TYPE_CHAP_IDENTIFIER;
          (client, challenge_val) = get_recv_key client AUTH_KEY_TYPE_CHAP_CHALLENGE
      in local_challenge_reply env client identifier_val challenge_val)"

text \<open>Only a supported algorithm is used.\<close>

definition local_check_alg :: "acl_env \<Rightarrow> iscsi_acl \<Rightarrow> iscsi_acl" where
  "local_check_alg env client =
     (let alg = negotiated_chap_alg client
      in if alg = AUTH_OPTION_NOT_PRESENT then local_error client AUTH_DBG_STATUS_CHAP_ALG_EXPECTED
         else if alg = AUTH_OPTION_REJECT then local_error client AUTH_DBG_STATUS_CHAP_ALG_REJECT
         else if alg \<noteq> AUTH_CHAP_ALG_SHA3_256 \<and> alg \<noteq> AUTH_CHAP_ALG_SHA256 \<and>
                 alg \<noteq> AUTH_CHAP_ALG_SHA1 \<and> alg \<noteq> AUTH_CHAP_ALG_MD5
         then local_error client AUTH_DBG_STATUS_CHAP_ALG_BAD
         else if node_type client = TYPE_TARGET
         then client\<lparr>local_state := AUTH_LOCAL_STATE_RECV_CHALLENGE\<rparr>
         else local_recv_challenge env client)"

definition local_recv_alg :: "acl_env \<Rightarrow> iscsi_acl \<Rightarrow> iscsi_acl" where
  "local_recv_alg env client =
     (let client = acl_chk_chap_alg_key client;
          client = (if node_type client = TYPE_TARGET
                    then acl_set_chap_alg_key client [negotiated_chap_alg client] else client)
      in local_check_alg env client)"

definition acl_local_auth :: "acl_env \<Rightarrow> iscsi_acl \<Rightarrow> iscsi_acl" where
  "acl_local_auth env client =
     (case local_state client of
        AUTH_LOCAL_STATE_SEND_ALG \<Rightarrow>
          if node_type client = TYPE_INITIATOR
          then (acl_set_chap_alg_key client (chap_alg_list client))\<lparr>local_state := AUTH_LOCAL_STATE_RECV_ALG\<rparr>
          else local_recv_alg env client
      | AUTH_LOCAL_STATE_RECV_ALG \<Rightarrow> local_recv_alg env client
      | AUTH_LOCAL_STATE_RECV_CHALLENGE \<Rightarrow> local_recv_challenge env client
      | AUTH_LOCAL_STATE_DONE \<Rightarrow> client
      | _ \<Rightarrow> client\<lparr>phase := AUTH_PHASE_ERROR\<rparr>)"

subsection \<open>The remote half: challenging the peer\<close>

definition rmt_send_challenge :: "acl_env \<Rightarrow> iscsi_acl \<Rightarrow> iscsi_acl" where
  "rmt_send_challenge env client =
     (if \<not> auth_rmt client
      then client\<lparr>rmt_auth_status := AUTH_STATUS_PASS, dbg_status := AUTH_DBG_STATUS_AUTH_RMT_FALSE,
                  rmt_state := AUTH_RMT_STATE_DONE\<rparr>
      else case RAND_bytes env 0 1 of
        None \<Rightarrow> rmt_error client AUTH_DBG_STATUS_AUTH_FAIL
      | Some id_data \<Rightarrow>
          let client = client\<lparr>send_chap_identifier := unat (hd id_data)\<rparr>;
              client = client\<lparr>scratch_key_value := udec (send_chap_identifier client)\<rparr>;
              client = set_send_key client AUTH_KEY_TYPE_CHAP_IDENTIFIER (Some (scratch_key_value client));
              len = chap_challenge_len client
          in case RAND_bytes env 1 len of
               None \<Rightarrow>
                 rmt_error (client\<lparr>send_chap_challenge := (send_chap_challenge client)\<lparr>lb_length := len\<rparr>\<rparr>)
                   AUTH_DBG_STATUS_AUTH_FAIL
             | Some bytes \<Rightarrow>
                 let client = client\<lparr>send_chap_challenge :=
                       \<lparr>lb_length = len,
                        large_binary = overlay (large_binary (send_chap_challenge client)) 0 bytes\<rparr>\<rparr>;
                     client = set_send_key client AUTH_KEY_TYPE_CHAP_CHALLENGE (Some [])
                 in client\<lparr>rmt_state := AUTH_RMT_STATE_RECV_RSP\<rparr>)"

definition rmt_check_response :: "acl_env \<Rightarrow> iscsi_acl \<Rightarrow> string \<Rightarrow> byte list \<Rightarrow> iscsi_acl" where
  "rmt_check_response env client username_val response_data =
     (let client = client\<lparr>chap_username := the (fst (strlcpy username_val AUTH_STR_MAX_LEN))\<rparr>;
          status = acl_chap_auth_request env client (chap_username client) (send_chap_identifier client)
                     (challenge_bytes (send_chap_challenge client)) response_data;
          client = client\<lparr>rmt_auth_status := status, auth_rsp_flag := True\<rparr>;
          client =
            (if auth_server_error_flag client
             then client\<lparr>rmt_auth_status := AUTH_STATUS_FAIL, dbg_status := AUTH_DBG_STATUS_AUTH_SERVER_ERROR\<rparr>
             else if rmt_auth_status client = AUTH_STATUS_PASS
             then client\<lparr>dbg_status := AUTH_DBG_STATUS_AUTH_PASS\<rparr>
             else if rmt_auth_status client = AUTH_STATUS_FAIL
             then client\<lparr>dbg_status := AUTH_DBG_STATUS_AUTH_FAIL\<rparr>
             else client\<lparr>rmt_auth_status := AUTH_STATUS_FAIL, dbg_status := AUTH_DBG_STATUS_AUTH_STATUS_BAD\<rparr>)
      in client\<lparr>rmt_state := AUTH_RMT_STATE_DONE\<rparr>)"

text \<open>The response the client itself would give to its own challenge: the peer must not answer
  with it.\<close>

definition own_response :: "acl_env \<Rightarrow> iscsi_acl \<Rightarrow> byte list \<Rightarrow> bool" where
  "own_response env client response_data \<longleftrightarrow>
     length response_data = chap_challenge_len client \<and>
     (case acl_chap_compute_rsp env client True (send_chap_identifier client)
             (challenge_bytes (send_chap_challenge client)) of (dbg, my_rsp_data) \<Rightarrow>
        dbg = AUTH_DBG_STATUS_NOT_SET \<and>
        take (chap_challenge_len client) (my_rsp_data @ stack_bytes env) = response_data)"

definition rmt_response_reply ::
  "acl_env \<Rightarrow> iscsi_acl \<Rightarrow> string option \<Rightarrow> string option \<Rightarrow> iscsi_acl"
where
  "rmt_response_reply env client rsp_val username_val =
     (case rsp_val of
        None \<Rightarrow> rmt_error client AUTH_DBG_STATUS_CHAP_RSP_EXPECTED
      | Some rv \<Rightarrow>
         (case username_val of
            None \<Rightarrow> rmt_error client AUTH_DBG_STATUS_CHAP_USERNAME_EXPECTED
          | Some uv \<Rightarrow>
             (case acl_text_to_data rv AUTH_STR_MAX_LEN of (status, response_data) \<Rightarrow>
                if status \<noteq> 0 then rmt_error client AUTH_DBG_STATUS_CHAP_RSP_BAD
                else if own_response env client response_data
                then rmt_error client AUTH_DBG_STATUS_PASSWD_IDENTICAL
                else rmt_check_response env client uv response_data)))"

definition rmt_recv_rsp :: "acl_env \<Rightarrow> iscsi_acl \<Rightarrow> iscsi_acl" where
  "rmt_recv_rsp env client =
     (let (client, rsp_val) = get_recv_key client AUTH_KEY_TYPE_CHAP_RSP;
          (client, username_val) = get_recv_key client AUTH_KEY_TYPE_CHAP_USERNAME
      in rmt_response_reply env client rsp_val username_val)"

definition acl_rmt_auth :: "acl_env \<Rightarrow> iscsi_acl \<Rightarrow> iscsi_acl" where
  "acl_rmt_auth env client =
     (case rmt_state client of
        AUTH_RMT_STATE_SEND_ALG \<Rightarrow>
          if node_type client = TYPE_INITIATOR
          then client\<lparr>rmt_state := AUTH_RMT_STATE_SEND_CHALLENGE\<rparr>
          else rmt_send_challenge env client
      | AUTH_RMT_STATE_SEND_CHALLENGE \<Rightarrow> rmt_send_challenge env client
      | AUTH_RMT_STATE_RECV_RSP \<Rightarrow> rmt_recv_rsp env client
      | AUTH_RMT_STATE_DONE \<Rightarrow> client
      | _ \<Rightarrow> client\<lparr>phase := AUTH_PHASE_ERROR\<rparr>)"

subsection \<open>The transit-bit handshake and the end of a message\<close>

definition fail_done :: "iscsi_acl \<Rightarrow> auth_dbg_status \<Rightarrow> iscsi_acl" where
  "fail_done client dbg =
     client\<lparr>rmt_auth_status := AUTH_STATUS_FAIL, phase := AUTH_PHASE_DONE, dbg_status := dbg\<rparr>"

definition set_transit :: "bool \<Rightarrow> auth_key_block \<Rightarrow> auth_key_block" where
  "set_transit b blk = blk\<lparr>transit_bit := b\<rparr>"

definition send_t_bit :: "iscsi_acl \<Rightarrow> iscsi_acl" where
  "send_t_bit client = client\<lparr>send_key_block := set_transit True (send_key_block client)\<rparr>"

definition acl_hand_shake :: "iscsi_acl \<Rightarrow> iscsi_acl" where
  "acl_hand_shake client =
     (if phase client = AUTH_PHASE_DONE then client
      else if node_type client = TYPE_INITIATOR \<and>
              transit_bit (recv_key_block client) \<and> \<not> transit_bit_sent_flag client
      then fail_done client AUTH_DBG_STATUS_T_BIT_SET_ILLEGAL
      else if phase client = AUTH_PHASE_NEGOTIATE
      then (if node_type client = TYPE_INITIATOR then send_t_bit client else client)
      else if rmt_state client = AUTH_RMT_STATE_RECV_RSP \<or> rmt_state client = AUTH_RMT_STATE_DONE
      then
        (if node_type client = TYPE_INITIATOR
         then (if transit_bit (recv_key_block client)
               then (if rmt_state client \<noteq> AUTH_RMT_STATE_DONE
                     then fail_done client AUTH_DBG_STATUS_T_BIT_SET_PREMATURE
                     else acl_next_phase client)
               else send_t_bit client)
         else if rmt_state client = AUTH_RMT_STATE_DONE \<and> rmt_auth_status client \<noteq> AUTH_STATUS_PASS
         then acl_next_phase client
         else if transit_bit (recv_key_block client)
         then acl_next_phase (send_t_bit client)
         else client)
      else if node_type client = TYPE_INITIATOR \<and> transit_bit (recv_key_block client)
      then fail_done client AUTH_DBG_STATUS_T_BIT_SET_PREMATURE
      else client)"

text \<open>\<open>acl_rcv_end_status\<close> in three steps, as the source has them: the sanity checks, the
  suppression of send keys on error, and the reset of the in-progress flag.\<close>

definition unprocessed_key :: "auth_key_block \<Rightarrow> bool" where
  "unprocessed_key blk = list_ex (\<lambda>k. present k \<and> \<not> processed k) (key blk)"

definition rcv_end_sanity :: "iscsi_acl \<Rightarrow> iscsi_acl \<times> auth_status" where
  "rcv_end_sanity client =
     (let client =
        (if phase client = AUTH_PHASE_DONE \<and> auth_rmt client \<and> \<not> auth_rsp_flag client \<and>
            rmt_auth_status client = AUTH_STATUS_PASS
         then client\<lparr>rmt_auth_status := AUTH_STATUS_FAIL, dbg_status := AUTH_DBG_STATUS_AUTHPASS_NOT_VALID\<rparr>
         else client)
      in (client, if phase client = AUTH_PHASE_DONE then rmt_auth_status client else AUTH_STATUS_CONTINUE))"

definition rcv_end_blocks :: "iscsi_acl \<times> auth_status \<Rightarrow> iscsi_acl \<times> auth_status" where
  "rcv_end_blocks = (\<lambda>(client, status).
     if status = AUTH_STATUS_CONTINUE \<or> status = AUTH_STATUS_PASS
     then
       (if dup_set (send_key_block client)
        then (fail_done client AUTH_DBG_STATUS_SEND_DUP_SET_KEY_VALUE, AUTH_STATUS_FAIL)
        else if str_too_long (send_key_block client)
        then (fail_done client AUTH_DBG_STATUS_SEND_STR_TOO_LONG, AUTH_STATUS_FAIL)
        else if too_much_data (send_key_block client)
        then (fail_done client AUTH_DBG_STATUS_SEND_TOO_MUCH_DATA, AUTH_STATUS_FAIL)
        else if unprocessed_key (recv_key_block client)
        then (fail_done client AUTH_DBG_STATUS_UNEXPECTED_KEY_PRESENT, AUTH_STATUS_FAIL)
        else (client, status))
     else (client, status))"

definition suppress_send_keys :: "iscsi_acl \<Rightarrow> iscsi_acl" where
  "suppress_send_keys client =
     (let target = (node_type client = TYPE_TARGET);
          (blk, auth_method_val) = acl_get_key_val (send_key_block client) AUTH_KEY_TYPE_AUTH_METHOD;
          auth_method_key_present = (target \<and> auth_method_val \<noteq> None);
          (_, chap_alg_val) = acl_get_key_val blk AUTH_KEY_TYPE_CHAP_ALG;
          chap_alg_key_present = (target \<and> \<not> auth_method_key_present \<and> chap_alg_val \<noteq> None);
          client = client\<lparr>send_key_block := acl_init_key_blk (send_key_block client)\<rparr>
      in if target
         then (if auth_method_key_present \<and> negotiated_auth_method client = AUTH_OPTION_REJECT
               then set_send_key client AUTH_KEY_TYPE_AUTH_METHOD (Some acl_reject_option_name)
               else if chap_alg_key_present \<and> negotiated_chap_alg client = AUTH_OPTION_REJECT
               then set_send_key client AUTH_KEY_TYPE_CHAP_ALG (Some acl_reject_option_name)
               else client)
         else client)"

definition acl_rcv_end_status :: "iscsi_acl \<Rightarrow> iscsi_acl \<times> auth_status" where
  "acl_rcv_end_status client =
     (if phase client = AUTH_PHASE_ERROR then (client, AUTH_STATUS_ERROR)
      else
        let (client, status) = rcv_end_blocks (rcv_end_sanity client);
            client = (if status \<noteq> AUTH_STATUS_PASS \<and> status \<noteq> AUTH_STATUS_CONTINUE
                      then suppress_send_keys client else client)
        in (client\<lparr>recv_in_progress_flag := False\<rparr>, status))"

subsection \<open>The message interface\<close>

definition acl_error :: "iscsi_acl \<Rightarrow> iscsi_acl \<times> auth_status" where
  "acl_error client = (client\<lparr>phase := AUTH_PHASE_ERROR\<rparr>, AUTH_STATUS_ERROR)"

definition recv_begin_reset :: "iscsi_acl \<Rightarrow> iscsi_acl" where
  "recv_begin_reset client =
     client\<lparr>transit_bit_sent_flag := transit_bit (send_key_block client),
            recv_key_block := acl_init_key_blk (recv_key_block client),
            send_key_block := acl_init_key_blk (send_key_block client)\<rparr>"

definition acl_recv_begin :: "iscsi_acl \<Rightarrow> iscsi_acl \<times> auth_status" where
  "acl_recv_begin client =
     (if signature client \<noteq> ACL_SIGNATURE then (client, AUTH_STATUS_ERROR)
      else if phase client = AUTH_PHASE_ERROR then (client, AUTH_STATUS_ERROR)
      else if phase client = AUTH_PHASE_DONE then acl_error client
      else if recv_in_progress_flag client then acl_error client
      else
        let client = client\<lparr>recv_in_progress_flag := True\<rparr>;
            client = (if phase client = AUTH_PHASE_CONFIGURE then acl_next_phase client else client)
        in (recv_begin_reset client, AUTH_STATUS_NO_ERROR))"

definition recv_end_limits :: "iscsi_acl \<Rightarrow> iscsi_acl" where
  "recv_end_limits client =
     (if recv_end_count client > AUTH_RECV_END_MAX_COUNT
      then fail_done client AUTH_DBG_STATUS_RECV_MSG_COUNT_LIMIT
      else if dup_set (recv_key_block client)
      then fail_done client AUTH_DBG_STATUS_RECV_DUP_SET_KEY_VALUE
      else if str_too_long (recv_key_block client)
      then fail_done client AUTH_DBG_STATUS_RECV_STR_TOO_LONG
      else if too_much_data (recv_key_block client)
      then fail_done client AUTH_DBG_STATUS_RECV_TOO_MUCH_DATA
      else client)"

text \<open>The negotiation of the method; the second component is \<open>next_phase_flag\<close>.\<close>

definition recv_end_negotiate :: "iscsi_acl \<Rightarrow> iscsi_acl \<times> bool" where
  "recv_end_negotiate client =
     (let client = acl_chk_auth_method_key client
      in if auth_method_valid_neg_role client = AUTH_NEG_ROLE_RESPONDER
         then
           (if negotiated_auth_method client = AUTH_OPTION_NOT_PRESENT \<and>
               (auth_rmt client \<or> \<not> transit_bit (recv_key_block client))
            then (acl_set_auth_method_key (client\<lparr>auth_method_valid_neg_role := AUTH_NEG_ROLE_ORIGINATOR\<rparr>)
                    (auth_method_valid_list client), False)
            else
              let client = (if negotiated_auth_method client = AUTH_OPTION_NOT_PRESENT then client
                            else acl_set_auth_method_key client [negotiated_auth_method client])
              in if node_type client = TYPE_INITIATOR then (acl_next_phase client, False) else (client, True))
         else if negotiated_auth_method client = AUTH_OPTION_NOT_PRESENT
         then (fail_done client AUTH_DBG_STATUS_AUTH_METHOD_EXPECTED, False)
         else (acl_next_phase client, False))"

definition recv_end_authenticate :: "acl_env \<Rightarrow> iscsi_acl \<Rightarrow> iscsi_acl" where
  "recv_end_authenticate env client =
     (let client = acl_local_auth env client;
          client = (if local_state client \<noteq> AUTH_LOCAL_STATE_ERROR then acl_rmt_auth env client else client)
      in if local_state client = AUTH_LOCAL_STATE_ERROR \<or> rmt_state client = AUTH_RMT_STATE_ERROR
         then client\<lparr>rmt_auth_status := AUTH_STATUS_FAIL, phase := AUTH_PHASE_DONE\<rparr>
         else client)"

text \<open>The two \<open>switch\<close> statements of \<open>acl_recv_end\<close>; the second component is false in their default
  branches.\<close>

definition recv_end_start :: "iscsi_acl \<Rightarrow> auth_session option \<Rightarrow> iscsi_acl" where
  "recv_end_start client session =
     (let client = recv_end_limits client
      in client\<lparr>recv_end_count := recv_end_count client + 1, session_handle := session\<rparr>)"

definition recv_end_process :: "acl_env \<Rightarrow> iscsi_acl \<Rightarrow> iscsi_acl \<times> bool" where
  "recv_end_process env client =
     (let (client, next_phase_flag) =
        (if phase client = AUTH_PHASE_NEGOTIATE then recv_end_negotiate client else (client, False))
      in case phase client of
           AUTH_PHASE_NEGOTIATE \<Rightarrow> (if next_phase_flag then acl_next_phase client else client, True)
         | AUTH_PHASE_AUTHENTICATE \<Rightarrow> (recv_end_authenticate env client, True)
         | AUTH_PHASE_DONE \<Rightarrow> (client, True)
         | _ \<Rightarrow> (client, False))"

definition acl_recv_end ::
  "acl_env \<Rightarrow> iscsi_acl \<Rightarrow> auth_session option \<Rightarrow> iscsi_acl \<times> auth_status"
where
  "acl_recv_end env client session =
     (if signature client \<noteq> ACL_SIGNATURE then (client, AUTH_STATUS_ERROR)
      else if phase client = AUTH_PHASE_ERROR then (client, AUTH_STATUS_ERROR)
      else if \<not> recv_in_progress_flag client then acl_error client
      else case recv_end_process env (recv_end_start client session) of (client, known) \<Rightarrow>
        if known then acl_rcv_end_status (acl_hand_shake client) else acl_error client)"

definition key_type_ok :: "int \<Rightarrow> bool" where
  "key_type_ok key_type \<longleftrightarrow> \<not> (key_type < AUTH_KEY_TYPE_FIRST \<or> key_type > AUTH_KEY_TYPE_LAST)"

definition acl_recv_key_value :: "iscsi_acl \<Rightarrow> int \<Rightarrow> string \<Rightarrow> iscsi_acl \<times> auth_status" where
  "acl_recv_key_value client key_type user_key_val =
     (if signature client \<noteq> ACL_SIGNATURE then (client, AUTH_STATUS_ERROR)
      else if phase client \<noteq> AUTH_PHASE_NEGOTIATE \<and> phase client \<noteq> AUTH_PHASE_AUTHENTICATE
      then acl_error client
      else if \<not> key_type_ok key_type then acl_error client
      else
        let (client, user_key_val) =
              (if key_type = int AUTH_KEY_TYPE_CHAP_CHALLENGE
               then case acl_text_to_data user_key_val AUTH_LARGE_BINARY_MAX_LEN of (status, data) \<Rightarrow>
                 (client\<lparr>recv_chap_challenge_status := status,
                         recv_chap_challenge :=
                           \<lparr>lb_length = (if status = 0 then length data else AUTH_LARGE_BINARY_MAX_LEN),
                            large_binary = overlay (large_binary (recv_chap_challenge client)) 0 data\<rparr>\<rparr>, [])
               else (client, user_key_val))
        in (client\<lparr>recv_key_block :=
                     acl_set_key_value (recv_key_block client) (nat key_type) (Some user_key_val)\<rparr>,
            AUTH_STATUS_NO_ERROR))"

text \<open>The third component is the value stored in \<open>user_key_val\<close>, \<open>None\<close> where \<open>*key_present\<close> is
  set to 0 or an error is returned.\<close>

definition acl_send_key_val ::
  "iscsi_acl \<Rightarrow> int \<Rightarrow> nat \<Rightarrow> iscsi_acl \<times> auth_status \<times> string option"
where
  "acl_send_key_val client key_type max_length =
     (let err = (\<lambda>client. (client\<lparr>phase := AUTH_PHASE_ERROR\<rparr>, AUTH_STATUS_ERROR, None))
      in if signature client \<noteq> ACL_SIGNATURE then (client, AUTH_STATUS_ERROR, None)
         else if phase client = AUTH_PHASE_0 \<or> phase client = AUTH_PHASE_ERROR then err client
         else if \<not> key_type_ok key_type then err client
         else
           let (blk, key_val) = acl_get_key_val (send_key_block client) (nat key_type);
               client = client\<lparr>send_key_block := blk\<rparr>
           in case key_val of
                None \<Rightarrow> (client, AUTH_STATUS_NO_ERROR, None)
              | Some v \<Rightarrow>
                  if key_type = int AUTH_KEY_TYPE_CHAP_CHALLENGE
                  then (case acl_data_to_text (challenge_bytes (send_chap_challenge client)) max_length of
                          (status, t) \<Rightarrow> if status \<noteq> 0 then err client else (client, AUTH_STATUS_NO_ERROR, t))
                  else (case strlcpy v max_length of
                          (t, len) \<Rightarrow> if len \<ge> max_length then err client else (client, AUTH_STATUS_NO_ERROR, t)))"

definition acl_recv_transit_bit :: "iscsi_acl \<Rightarrow> bool \<Rightarrow> iscsi_acl \<times> auth_status" where
  "acl_recv_transit_bit client b =
     (if signature client \<noteq> ACL_SIGNATURE then (client, AUTH_STATUS_ERROR)
      else if phase client \<noteq> AUTH_PHASE_NEGOTIATE \<and> phase client \<noteq> AUTH_PHASE_AUTHENTICATE
      then acl_error client
      else (client\<lparr>recv_key_block := set_transit b (recv_key_block client)\<rparr>, AUTH_STATUS_NO_ERROR))"

definition acl_send_transit_bit :: "iscsi_acl \<Rightarrow> iscsi_acl \<times> auth_status \<times> bool option" where
  "acl_send_transit_bit client =
     (if signature client \<noteq> ACL_SIGNATURE then (client, AUTH_STATUS_ERROR, None)
      else if phase client = AUTH_PHASE_0 \<or> phase client = AUTH_PHASE_ERROR
      then (client\<lparr>phase := AUTH_PHASE_ERROR\<rparr>, AUTH_STATUS_ERROR, None)
      else (client, AUTH_STATUS_NO_ERROR, Some (transit_bit (send_key_block client))))"

subsection \<open>The configuration interface\<close>

definition has_duplicate :: "int list \<Rightarrow> bool" where
  "has_duplicate opts =
     list_ex (\<lambda>i. list_ex (\<lambda>j. j \<noteq> i \<and> opts ! i = opts ! j) [0..<length opts]) [0..<length opts]"

text \<open>The stored list is written by \<open>store\<close>, which stands for the two output pointers of the
  source.\<close>

definition acl_set_option_list ::
  "iscsi_acl \<Rightarrow> int list \<Rightarrow> (int list \<Rightarrow> iscsi_acl \<Rightarrow> iscsi_acl) \<Rightarrow> nat \<Rightarrow> (int \<Rightarrow> bool) \<Rightarrow>
   (int list \<Rightarrow> bool) \<Rightarrow> iscsi_acl \<times> auth_status"
where
  "acl_set_option_list client opt_list store optn_max_count chk_option chk_list =
     (if signature client \<noteq> ACL_SIGNATURE then (client, AUTH_STATUS_ERROR)
      else if phase client \<noteq> AUTH_PHASE_CONFIGURE \<or> length opt_list > optn_max_count then acl_error client
      else if list_ex chk_option opt_list then acl_error client
      else if has_duplicate opt_list then acl_error client
      else if chk_list opt_list then acl_error client
      else (store opt_list client, AUTH_STATUS_NO_ERROR))"

definition acl_chk_auth_method_list :: "int list \<Rightarrow> bool" where
  "acl_chk_auth_method_list option_list \<longleftrightarrow>
     (if length option_list < 2 then True else last option_list \<noteq> AUTH_OPTION_NONE)"

text \<open>\<open>opt\<close> is the local variable \<open>option\<close> of \<open>acl_set_auth_method_valid\<close>: 1 leaves out the option
  none, 2 keeps only the option none.\<close>

definition auth_method_valid :: "iscsi_acl \<Rightarrow> int list" where
  "auth_method_valid client =
     (let opt = (if node_type client = TYPE_INITIATOR
                 then (if auth_rmt client then 1 else if \<not> passwd_present client then 2 else 0)
                 else if node_type client = TYPE_TARGET
                 then (if auth_rmt client then 1 else 2)
                 else 0 :: nat)
      in filter (\<lambda>m. \<not> (opt = 1 \<and> m = AUTH_OPTION_NONE) \<and> \<not> (opt = 2 \<and> m \<noteq> AUTH_OPTION_NONE))
           (auth_method_list client))"

definition auth_method_role :: "iscsi_acl \<Rightarrow> auth_neg_role" where
  "auth_method_role client =
     (if node_type client = TYPE_INITIATOR
      then (if auth_rmt client then AUTH_NEG_ROLE_ORIGINATOR else auth_method_neg_role client)
      else AUTH_NEG_ROLE_RESPONDER)"

definition acl_set_auth_method_valid :: "iscsi_acl \<Rightarrow> iscsi_acl" where
  "acl_set_auth_method_valid client =
     (let t_bit = (node_type client = TYPE_INITIATOR \<and> \<not> auth_rmt client);
          client = client\<lparr>auth_method_valid_list := auth_method_valid client,
                          send_key_block := set_transit t_bit (acl_init_key_blk (send_key_block client)),
                          auth_method_valid_neg_role := auth_method_role client\<rparr>
      in if auth_method_valid_neg_role client = AUTH_NEG_ROLE_ORIGINATOR
         then acl_set_auth_method_key client (auth_method_valid_list client)
         else acl_set_auth_method_key client [AUTH_OPTION_NOT_PRESENT])"

definition acl_set_auth_method_list :: "iscsi_acl \<Rightarrow> int list \<Rightarrow> iscsi_acl \<times> auth_status" where
  "acl_set_auth_method_list client option_list =
     (case acl_set_option_list client option_list (\<lambda>l c. c\<lparr>auth_method_list := l\<rparr>) AUTH_METHOD_MAX_COUNT
             acl_chk_auth_mthd_optn acl_chk_auth_method_list of (client, status) \<Rightarrow>
        if status \<noteq> AUTH_STATUS_NO_ERROR then (client, status)
        else (acl_set_auth_method_valid client, AUTH_STATUS_NO_ERROR))"

definition acl_chk_chap_alg_list :: "int list \<Rightarrow> bool" where
  "acl_chk_chap_alg_list option_list \<longleftrightarrow> length option_list < 1"

definition acl_set_chap_alg_list :: "iscsi_acl \<Rightarrow> int list \<Rightarrow> iscsi_acl \<times> auth_status" where
  "acl_set_chap_alg_list client option_list =
     acl_set_option_list client option_list (\<lambda>l c. c\<lparr>chap_alg_list := l\<rparr>) AUTH_CHAP_ALG_MAX_COUNT
       acl_chk_chap_alg_optn acl_chk_chap_alg_list"

fun acl_init_chap_digests :: "acl_env \<Rightarrow> nat list \<Rightarrow> int list" where
  "acl_init_chap_digests env [] = []"
| "acl_init_chap_digests env (alg # chap_algs) =
     (if alg = 5 then
        (if EVP_digest env AUTH_CHAP_ALG_MD5 \<noteq> None then [AUTH_CHAP_ALG_MD5] else [])
      else if alg = 6 then
        (if EVP_digest env AUTH_CHAP_ALG_SHA1 \<noteq> None then [AUTH_CHAP_ALG_SHA1] else [])
      else if alg = 7 then
        (if EVP_digest env AUTH_CHAP_ALG_SHA256 \<noteq> None then [AUTH_CHAP_ALG_SHA256] else [])
      else if alg = 8 then
        (if EVP_digest env AUTH_CHAP_ALG_SHA3_256 \<noteq> None then [AUTH_CHAP_ALG_SHA3_256] else [])
      else []) @ acl_init_chap_digests env chap_algs"

text \<open>The client after \<open>memset(client, 0, sizeof(*client))\<close>: the buffer pointers are null, so the
  buffers are empty lists.\<close>

definition key_block_zero :: auth_key_block where
  "key_block_zero =
     \<lparr>transit_bit = False, dup_set = False, str_too_long = False, too_much_data = False,
      blk_length = 0, str_block = [], key = replicate AUTH_KEY_TYPE_MAX_COUNT auth_key_zero\<rparr>"

definition acl_zero :: iscsi_acl where
  "acl_zero =
     \<lparr>signature = 0, node_type = AUTH_NODE_TYPE_0, auth_method_list = [],
      auth_method_neg_role = AUTH_NEG_ROLE_0, chap_alg_list = [], auth_rmt = False, username = [],
      passwd_present = False, passwd_data = [], chap_challenge_len = 0, ip_sec = False,
      auth_method_valid_list = [], auth_method_valid_neg_role = AUTH_NEG_ROLE_0,
      recv_in_progress_flag = False, recv_end_count = 0, session_handle = None,
      phase = AUTH_PHASE_0, local_state = AUTH_LOCAL_STATE_0, rmt_state = AUTH_RMT_STATE_0,
      rmt_auth_status = AUTH_STATUS_NO_ERROR, dbg_status = AUTH_DBG_STATUS_NOT_SET,
      negotiated_auth_method = 0, negotiated_chap_alg = 0, auth_rsp_flag = False,
      auth_server_error_flag = False, transit_bit_sent_flag = False, send_chap_identifier = 0,
      send_chap_challenge = \<lparr>lb_length = 0, large_binary = []\<rparr>, chap_username = [],
      recv_chap_challenge_status = 0, recv_chap_challenge = \<lparr>lb_length = 0, large_binary = []\<rparr>,
      scratch_key_value = [], recv_key_block = key_block_zero, send_key_block = key_block_zero\<rparr>"

text \<open>A buffer descriptor: the length the caller claims and whether the address is non-null.\<close>

record auth_buffer_desc =
  desc_length :: nat
  desc_address :: bool

definition buf_desc_ok :: "nat \<Rightarrow> auth_buffer_desc list \<Rightarrow> bool" where
  "buf_desc_ok sizeof_client buff_desc \<longleftrightarrow>
     length buff_desc = 5 \<and>
     list_all2 (\<lambda>d sz. desc_address d \<and> desc_length d = sz) buff_desc
       [sizeof_client, AUTH_STR_BLOCK_MAX_LEN, AUTH_STR_BLOCK_MAX_LEN,
        AUTH_LARGE_BINARY_MAX_LEN, AUTH_LARGE_BINARY_MAX_LEN]"

definition acl_init_base :: "iscsi_acl" where
  "acl_init_base =
     (let bin = \<lparr>lb_length = 0, large_binary = replicate AUTH_LARGE_BINARY_MAX_LEN 0\<rparr>;
          blk = key_block_zero\<lparr>str_block := replicate AUTH_STR_BLOCK_MAX_LEN NUL\<rparr>
      in acl_zero\<lparr>recv_key_block := blk, send_key_block := blk,
                  recv_chap_challenge := bin, send_chap_challenge := bin\<rparr>)"

definition acl_init_client :: "auth_node_type \<Rightarrow> iscsi_acl" where
  "acl_init_client nt =
     acl_init_base\<lparr>signature := ACL_SIGNATURE, node_type := nt, auth_rmt := True,
       passwd_present := False, ip_sec := False, phase := AUTH_PHASE_CONFIGURE,
       negotiated_auth_method := AUTH_OPTION_NOT_PRESENT,
       negotiated_chap_alg := AUTH_OPTION_NOT_PRESENT,
       auth_method_neg_role :=
         (if nt = TYPE_INITIATOR then AUTH_NEG_ROLE_ORIGINATOR else AUTH_NEG_ROLE_RESPONDER)\<rparr>"

text \<open>The client is \<open>None\<close> where the caller's memory is left untouched. \<open>sizeof_client\<close> is the size the
  compiler gives to \<open>struct iscsi_acl\<close>.\<close>

definition acl_init ::
  "nat \<Rightarrow> int \<Rightarrow> auth_buffer_desc list option \<Rightarrow> iscsi_acl option \<times> auth_status"
where
  "acl_init sizeof_client node buff_desc =
     (case buff_desc of
        None \<Rightarrow> (None, AUTH_STATUS_ERROR)
      | Some descs \<Rightarrow>
          if \<not> buf_desc_ok sizeof_client descs then (None, AUTH_STATUS_ERROR)
          else if node \<noteq> 1 \<and> node \<noteq> 2
          then (Some (acl_init_base\<lparr>phase := AUTH_PHASE_ERROR\<rparr>), AUTH_STATUS_ERROR)
          else
            (case acl_set_auth_method_list
                    (acl_init_client (if node = 1 then TYPE_INITIATOR else TYPE_TARGET))
                    [AUTH_METHOD_CHAP, AUTH_OPTION_NONE] of (client, status) \<Rightarrow>
               if status \<noteq> AUTH_STATUS_NO_ERROR
               then (Some (client\<lparr>phase := AUTH_PHASE_ERROR\<rparr>), AUTH_STATUS_ERROR)
               else (Some client, AUTH_STATUS_NO_ERROR)))"

definition acl_finish :: "iscsi_acl \<Rightarrow> iscsi_acl \<times> auth_status" where
  "acl_finish client =
     (if signature client \<noteq> ACL_SIGNATURE then (client, AUTH_STATUS_ERROR)
      else (acl_zero, AUTH_STATUS_NO_ERROR))"

definition acl_set_user_name :: "iscsi_acl \<Rightarrow> string option \<Rightarrow> iscsi_acl \<times> auth_status" where
  "acl_set_user_name client uname =
     (if signature client \<noteq> ACL_SIGNATURE then (client, AUTH_STATUS_ERROR)
      else if phase client \<noteq> AUTH_PHASE_CONFIGURE \<or> acl_chk_string uname AUTH_STR_MAX_LEN = None
      then acl_error client
      else case uname of
        None \<Rightarrow> (client\<lparr>username := []\<rparr>, AUTH_STATUS_NO_ERROR)
      | Some u \<Rightarrow>
         (case strlcpy u AUTH_STR_MAX_LEN of (dst, n) \<Rightarrow>
            let client = client\<lparr>username := the dst\<rparr>
            in if n \<ge> AUTH_STR_MAX_LEN then acl_error client else (client, AUTH_STATUS_NO_ERROR)))"

definition acl_set_passwd :: "iscsi_acl \<Rightarrow> byte list \<Rightarrow> iscsi_acl \<times> auth_status" where
  "acl_set_passwd client data =
     (if signature client \<noteq> ACL_SIGNATURE then (client, AUTH_STATUS_ERROR)
      else if phase client \<noteq> AUTH_PHASE_CONFIGURE \<or> length data > AUTH_STR_MAX_LEN then acl_error client
      else (acl_set_auth_method_valid (client\<lparr>passwd_data := data, passwd_present := True\<rparr>),
            AUTH_STATUS_NO_ERROR))"

definition acl_set_auth_rmt :: "iscsi_acl \<Rightarrow> bool \<Rightarrow> iscsi_acl \<times> auth_status" where
  "acl_set_auth_rmt client b =
     (if signature client \<noteq> ACL_SIGNATURE then (client, AUTH_STATUS_ERROR)
      else if phase client \<noteq> AUTH_PHASE_CONFIGURE then acl_error client
      else (acl_set_auth_method_valid (client\<lparr>auth_rmt := b\<rparr>), AUTH_STATUS_NO_ERROR))"

definition acl_set_ip_sec :: "iscsi_acl \<Rightarrow> bool \<Rightarrow> iscsi_acl \<times> auth_status" where
  "acl_set_ip_sec client b =
     (if signature client \<noteq> ACL_SIGNATURE then (client, AUTH_STATUS_ERROR)
      else if phase client \<noteq> AUTH_PHASE_CONFIGURE then acl_error client
      else (client\<lparr>ip_sec := b\<rparr>, AUTH_STATUS_NO_ERROR))"

definition acl_get_dbg_status :: "iscsi_acl \<Rightarrow> iscsi_acl \<times> auth_status \<times> auth_dbg_status option" where
  "acl_get_dbg_status client =
     (if signature client \<noteq> ACL_SIGNATURE then (client, AUTH_STATUS_ERROR, None)
      else if phase client \<noteq> AUTH_PHASE_DONE
      then (client\<lparr>phase := AUTH_PHASE_ERROR\<rparr>, AUTH_STATUS_ERROR, None)
      else (client, AUTH_STATUS_NO_ERROR, Some (dbg_status client)))"

definition dbg_text :: "string list" where
  "dbg_text =
    [''Debug status not set'', ''Authentication request passed'', ''Authentication not enabled'',
     ''Authentication request failed'', ''AuthMethod bad'', ''CHAP algorithm bad'',
     ''Decrypt password failed'', ''Local password too short with no IPSec'',
     ''Unexpected error from authentication server'', ''Authentication request status bad'',
     ''Authentication pass status not valid'', ''Same key set more than once on send'',
     ''Key value too long on send'', ''Too much data on send'', ''AuthMethod key expected'',
     ''CHAP algorithm key expected'', ''CHAP identifier expected'', ''CHAP challenge expected'',
     ''CHAP response expected'', ''CHAP username expected'', ''AuthMethod key not present'',
     ''AuthMethod negotiation failed'', ''AuthMethod negotiated to none'',
     ''CHAP algorithm negotiation failed'', ''CHAP challenge reflected'',
     ''Local password same as remote'', ''Local password not set'', ''CHAP identifier bad'',
     ''CHAP challenge bad'', ''CHAP response bad'', ''Unexpected key present'',
     ''T bit set on response, but not on previous message'',
     ''T bit set on response, but authenticaton not complete'',
     ''Message count limit reached on receive'', ''Same key set more than once on receive'',
     ''Key value too long on receive'', ''Too much data on receive'']"

definition acl_dbg_status_to_text :: "int \<Rightarrow> string" where
  "acl_dbg_status_to_text code =
     (if code < 0 \<or> code \<ge> 37 then ''Unknown error'' else dbg_text ! nat code)"

end
