(* ===== verification/Auth_Steps.thy ===== *)
theory Auth_Steps
  imports Auth_Client
begin

section \<open>What the two halves of CHAP do in one message\<close>

text \<open>
  Frame and outcome lemmas for \<open>acl_local_auth\<close> and \<open>acl_rmt_auth\<close> of \<open>usr/auth.c\<close>. \<open>local_rest\<close> and
  \<open>rmt_rest\<close> blank out the fields a half may write, so that one equation states that every other
  field is kept. \<open>local_step\<close> and \<open>rmt_step\<close> relate the client before and after a half; the outcomes
  of reading a challenge and of reading a response are given as elimination rules.
\<close>

subsection \<open>The local half\<close>

lemmas KEYS = AUTH_KEY_TYPE_MAX_COUNT_def key_type_defs

definition local_rest :: "iscsi_acl \<Rightarrow> iscsi_acl" where
  "local_rest c = c\<lparr>local_state := AUTH_LOCAL_STATE_0, dbg_status := AUTH_DBG_STATUS_NOT_SET,
     scratch_key_value := [], recv_key_block := key_block_zero, send_key_block := key_block_zero,
     negotiated_chap_alg := 0, chap_challenge_len := 0\<rparr>"

definition same_recv :: "auth_key_block \<Rightarrow> auth_key_block \<Rightarrow> bool" where
  "same_recv b b' \<longleftrightarrow> (key_blk_ok b \<longrightarrow> key_blk_ok b' \<and>
     (\<forall>k < AUTH_KEY_TYPE_MAX_COUNT. key_value b' k = key_value b k)) \<and> transit_bit b' = transit_bit b"

lemma same_recv_refl [simp]: "same_recv b b"
  by (simp add: same_recv_def)

lemma same_recv_trans [trans]: "same_recv a b \<Longrightarrow> same_recv b c \<Longrightarrow> same_recv a c"
  by (auto simp: same_recv_def)

lemma same_recv_get [simp]: "same_recv b (fst (acl_get_key_val b k))"
  by (auto simp: same_recv_def) (simp_all add: acl_get_key_val_def)

lemma get_recv_key_eq:
  "get_recv_key c k =
     (c\<lparr>recv_key_block := fst (acl_get_key_val (recv_key_block c) k)\<rparr>, key_value (recv_key_block c) k)"
  by (simp add: get_recv_key_def key_value_def split: prod.splits)

lemma local_rest_simps [simp]:
  "local_rest (c\<lparr>local_state := a\<rparr>) = local_rest c"
  "local_rest (c\<lparr>dbg_status := d\<rparr>) = local_rest c"
  "local_rest (c\<lparr>scratch_key_value := e\<rparr>) = local_rest c"
  "local_rest (c\<lparr>recv_key_block := f\<rparr>) = local_rest c"
  "local_rest (c\<lparr>send_key_block := f\<rparr>) = local_rest c"
  "local_rest (c\<lparr>negotiated_chap_alg := g\<rparr>) = local_rest c"
  "local_rest (c\<lparr>chap_challenge_len := h\<rparr>) = local_rest c"
  by (simp_all add: local_rest_def)

lemma local_rest_set_send_key [simp]: "local_rest (set_send_key c k v) = local_rest c"
  by (simp add: set_send_key_def)

lemma local_rest_send_response [simp]: "local_rest (local_send_response env c i) = local_rest c"
  by (simp add: local_send_response_def local_error_def Let_def split: prod.splits)

lemma local_rest_recv_challenge [simp]: "local_rest (local_recv_challenge env c) = local_rest c"
  by (simp add: local_recv_challenge_def local_challenge_reply_def local_error_def get_recv_key_eq
      split: option.splits)

lemma local_rest_chk_chap_alg [simp]: "local_rest (acl_chk_chap_alg_key c) = local_rest c"
  by (simp add: acl_chk_chap_alg_key_def Let_def split: prod.splits option.splits)

lemma local_rest_set_chap_alg [simp]: "local_rest (acl_set_chap_alg_key c algs) = local_rest c"
  by (simp add: acl_set_chap_alg_key_def Let_def)

lemma local_rest_check_alg [simp]: "local_rest (local_check_alg env c) = local_rest c"
  by (simp add: local_check_alg_def local_error_def Let_def)

lemma local_rest_recv_alg [simp]: "local_rest (local_recv_alg env c) = local_rest c"
  by (simp add: local_recv_alg_def Let_def)

lemma local_restD:
  assumes "local_rest c = local_rest d"
  shows "signature c = signature d" "node_type c = node_type d" "phase c = phase d"
    "rmt_state c = rmt_state d" "auth_rmt c = auth_rmt d" "username c = username d"
    "passwd_present c = passwd_present d" "passwd_data c = passwd_data d"
    "recv_chap_challenge c = recv_chap_challenge d"
    "recv_chap_challenge_status c = recv_chap_challenge_status d"
    "auth_method_valid_neg_role c = auth_method_valid_neg_role d" "session_handle c = session_handle d"
    "recv_in_progress_flag c = recv_in_progress_flag d" "recv_end_count c = recv_end_count d"
    "transit_bit_sent_flag c = transit_bit_sent_flag d" "ip_sec c = ip_sec d"
    "rmt_auth_status c = rmt_auth_status d" "auth_rsp_flag c = auth_rsp_flag d"
    "send_chap_identifier c = send_chap_identifier d" "send_chap_challenge c = send_chap_challenge d"
  using arg_cong [OF assms, of signature] arg_cong [OF assms, of node_type]
    arg_cong [OF assms, of phase] arg_cong [OF assms, of rmt_state] arg_cong [OF assms, of auth_rmt]
    arg_cong [OF assms, of username] arg_cong [OF assms, of passwd_present]
    arg_cong [OF assms, of passwd_data] arg_cong [OF assms, of recv_chap_challenge]
    arg_cong [OF assms, of recv_chap_challenge_status]
    arg_cong [OF assms, of auth_method_valid_neg_role] arg_cong [OF assms, of session_handle]
    arg_cong [OF assms, of recv_in_progress_flag] arg_cong [OF assms, of recv_end_count]
    arg_cong [OF assms, of transit_bit_sent_flag] arg_cong [OF assms, of ip_sec]
    arg_cong [OF assms, of rmt_auth_status] arg_cong [OF assms, of auth_rsp_flag]
    arg_cong [OF assms, of send_chap_identifier] arg_cong [OF assms, of send_chap_challenge]
  by (simp_all add: local_rest_def)

lemma local_rest_local_auth:
  assumes "local_state c \<noteq> AUTH_LOCAL_STATE_0" "local_state c \<noteq> AUTH_LOCAL_STATE_ERROR"
  shows "local_rest (acl_local_auth env c) = local_rest c"
  using assms by (simp add: acl_local_auth_def split: auth_local_state.splits)

lemma data_to_text_loop_cstr: "is_cstr t \<Longrightarrow> is_cstr (snd (data_to_text_loop data n t))"
proof (induction data n t rule: data_to_text_loop.induct)
  case (2 b data n t)
  then show ?case
    using hexstring_not_NUL [OF unat_nibble [of b]] hexstring_not_NUL [OF unat_nibble [of "drop_bit 4 b"]]
    by simp
qed simp

lemma acl_data_to_text_cstr:
  "0 < n \<Longrightarrow> \<exists>t. snd (acl_data_to_text data n) = Some t \<and> is_cstr t"
  using data_to_text_loop_cstr [of "''0x''" data "n - 2"]
  by (auto simp: acl_data_to_text_def split: prod.splits)

definition strings_ok :: "iscsi_acl \<Rightarrow> bool" where
  "strings_ok c \<longleftrightarrow> key_blk_ok (recv_key_block c) \<and> key_blk_ok (send_key_block c) \<and>
     is_cstr (scratch_key_value c) \<and> is_cstr (username c)"

lemma is_cstr_the_strlcpy [simp, intro]: "is_cstr s \<Longrightarrow> is_cstr (the (fst (strlcpy s AUTH_STR_MAX_LEN)))"
  by (auto simp: strlcpy_eq AUTH_STR_MAX_LEN_def)

lemma scan_key_scratch:
  "is_cstr v \<Longrightarrow> is_cstr s \<Longrightarrow> is_cstr (fst (scan_key lookup v s))"
proof (induction lookup v s rule: scan_key.induct)
  case (1 lookup v s)
  then show ?case
    by (subst scan_key.simps)
       (auto simp: Let_def split: option.splits intro!: is_cstr_takeWhile is_cstr_dropWhile is_cstr_drop)
qed

lemma join_options_cstr:
  "is_cstr s \<Longrightarrow> (\<And>opt t. value_to_text opt = Some t \<Longrightarrow> is_cstr t) \<Longrightarrow>
   is_cstr (join_options value_to_text i opts s)"
proof (induction value_to_text i opts s rule: join_options.induct)
  case (2 value_to_text i opt opts s)
  then show ?case by (cases "value_to_text opt") (auto simp: is_cstr_strlcat)
qed simp

lemma chap_alg_text_cstr: "chap_alg_text alg = Some t \<Longrightarrow> is_cstr t"
  using is_cstr_udec by (auto simp: chap_alg_text_def)

lemma auth_method_text_cstr: "acl_authmethod_optn_to_text m = Some t \<Longrightarrow> is_cstr t"
  by (auto simp: acl_authmethod_optn_to_text_def acl_reject_option_name_def acl_none_option_name_def
      acl_authmethod_set_chap_alg_list_def split: if_splits)

lemma strings_ok_simps [simp]:
  "strings_ok (c\<lparr>local_state := a\<rparr>) = strings_ok c"
  "strings_ok (c\<lparr>rmt_state := a2\<rparr>) = strings_ok c"
  "strings_ok (c\<lparr>phase := a3\<rparr>) = strings_ok c"
  "strings_ok (c\<lparr>rmt_auth_status := a4\<rparr>) = strings_ok c"
  "strings_ok (c\<lparr>dbg_status := d\<rparr>) = strings_ok c"
  "strings_ok (c\<lparr>negotiated_chap_alg := g\<rparr>) = strings_ok c"
  "strings_ok (c\<lparr>negotiated_auth_method := g\<rparr>) = strings_ok c"
  "strings_ok (c\<lparr>chap_challenge_len := h\<rparr>) = strings_ok c"
  "strings_ok (c\<lparr>auth_method_valid_neg_role := r\<rparr>) = strings_ok c"
  "strings_ok (c\<lparr>auth_rsp_flag := b\<rparr>) = strings_ok c"
  "strings_ok (c\<lparr>send_chap_identifier := n\<rparr>) = strings_ok c"
  "strings_ok (c\<lparr>send_chap_challenge := ch\<rparr>) = strings_ok c"
  "strings_ok (c\<lparr>chap_username := u\<rparr>) = strings_ok c"
  "strings_ok (c\<lparr>recv_in_progress_flag := b\<rparr>) = strings_ok c"
  "strings_ok (c\<lparr>transit_bit_sent_flag := b\<rparr>) = strings_ok c"
  "strings_ok (c\<lparr>recv_end_count := i\<rparr>) = strings_ok c"
  "strings_ok (c\<lparr>session_handle := s\<rparr>) = strings_ok c"
  "strings_ok (c\<lparr>auth_rmt := b\<rparr>) = strings_ok c"
  "strings_ok (c\<lparr>ip_sec := b\<rparr>) = strings_ok c"
  "strings_ok (c\<lparr>passwd_data := pw\<rparr>) = strings_ok c"
  "strings_ok (c\<lparr>passwd_present := b\<rparr>) = strings_ok c"
  "strings_ok (c\<lparr>chap_alg_list := l\<rparr>) = strings_ok c"
  "strings_ok (c\<lparr>auth_method_list := l\<rparr>) = strings_ok c"
  "strings_ok (c\<lparr>auth_method_valid_list := l\<rparr>) = strings_ok c"
  "strings_ok (c\<lparr>recv_chap_challenge_status := i\<rparr>) = strings_ok c"
  "strings_ok (c\<lparr>recv_chap_challenge := ch\<rparr>) = strings_ok c"
  by (simp_all add: strings_ok_def)

lemma strings_ok_set_send_key [intro]:
  "strings_ok c \<Longrightarrow> k < AUTH_KEY_TYPE_MAX_COUNT \<Longrightarrow> is_cstr v \<Longrightarrow> strings_ok (set_send_key c k (Some v))"
  "strings_ok c \<Longrightarrow> k < AUTH_KEY_TYPE_MAX_COUNT \<Longrightarrow> strings_ok (set_send_key c k None)"
  by (auto simp: strings_ok_def set_send_key_def)

lemma strings_ok_scratch [intro]:
  "strings_ok c \<Longrightarrow> is_cstr s \<Longrightarrow> strings_ok (c\<lparr>scratch_key_value := s\<rparr>)"
  by (simp add: strings_ok_def)

lemma strings_ok_get_recv [intro]:
  "strings_ok c \<Longrightarrow>
   strings_ok (c\<lparr>recv_key_block := fst (acl_get_key_val (recv_key_block c) k)\<rparr>)"
  by (auto simp: strings_ok_def)

lemma strings_okD [dest]:
  "strings_ok c \<Longrightarrow> is_cstr (scratch_key_value c)"
  "strings_ok c \<Longrightarrow> is_cstr (username c)"
  "strings_ok c \<Longrightarrow> key_blk_ok (recv_key_block c)"
  "strings_ok c \<Longrightarrow> key_blk_ok (send_key_block c)"
  by (simp_all add: strings_ok_def)

lemma key_lt [simp]:
  "AUTH_KEY_TYPE_AUTH_METHOD < AUTH_KEY_TYPE_MAX_COUNT"
  "AUTH_KEY_TYPE_CHAP_ALG < AUTH_KEY_TYPE_MAX_COUNT"
  "AUTH_KEY_TYPE_CHAP_USERNAME < AUTH_KEY_TYPE_MAX_COUNT"
  "AUTH_KEY_TYPE_CHAP_RSP < AUTH_KEY_TYPE_MAX_COUNT"
  "AUTH_KEY_TYPE_CHAP_IDENTIFIER < AUTH_KEY_TYPE_MAX_COUNT"
  "AUTH_KEY_TYPE_CHAP_CHALLENGE < AUTH_KEY_TYPE_MAX_COUNT"
  by (simp_all add: KEYS)

lemma strings_ok_send_response:
  assumes "strings_ok c"
  shows "strings_ok (local_send_response env c i)"
proof -
  obtain dbg rsp where r: "acl_chap_compute_rsp env c False i (challenge_bytes (recv_chap_challenge c)) = (dbg, rsp)"
    by force
  obtain t where "snd (acl_data_to_text (take (chap_challenge_len c) (rsp @ stack_bytes env)) AUTH_STR_MAX_LEN) = Some t"
    and "is_cstr t"
    using acl_data_to_text_cstr AUTH_STR_MAX_LEN_def by (metis zero_less_numeral)
  with assms r show ?thesis
    by (auto simp: local_send_response_def local_error_def Let_def set_send_key_def strings_ok_def
        split: prod.splits intro!: key_blk_ok_set)
qed

text \<open>The possible outcomes of reading a challenge: the two key reads only mark keys as processed.\<close>

lemma local_challenge_reply_cases:
  "(node_type c = TYPE_TARGET \<and>
      local_challenge_reply env c iv cv = c\<lparr>local_state := AUTH_LOCAL_STATE_DONE\<rparr>) \<or>
   (\<exists>dbg. local_challenge_reply env c iv cv = local_error c dbg) \<or>
   (\<exists>idv number. iv = Some idv \<and> cv \<noteq> None \<and> acl_text_to_number idv = Some number \<and> number \<le> 255 \<and>
      recv_chap_challenge_status c = 0 \<and>
      \<not> (node_type c = TYPE_TARGET \<and>
         lb_length (recv_chap_challenge c) = lb_length (send_chap_challenge c) \<and>
         challenge_bytes (recv_chap_challenge c) = challenge_bytes (send_chap_challenge c)) \<and>
      local_challenge_reply env c iv cv = local_send_response env c number)"
proof (cases iv)
  case None
  then show ?thesis by (auto simp: local_challenge_reply_def)
next
  case (Some idv)
  then show ?thesis
    by (cases "acl_text_to_number idv") (auto simp: local_challenge_reply_def)
qed

lemma local_recv_challenge_cases:
  assumes "key_blk_ok (recv_key_block c)"
  obtains (finished) blk where "same_recv (recv_key_block c) blk" and "node_type c = TYPE_TARGET"
      and "local_recv_challenge env c = c\<lparr>recv_key_block := blk, local_state := AUTH_LOCAL_STATE_DONE\<rparr>"
  | (error) blk dbg where "same_recv (recv_key_block c) blk"
      and "local_recv_challenge env c = local_error (c\<lparr>recv_key_block := blk\<rparr>) dbg"
  | (send) blk idv number where "same_recv (recv_key_block c) blk"
      and "key_value (recv_key_block c) AUTH_KEY_TYPE_CHAP_IDENTIFIER = Some idv"
      and "acl_text_to_number idv = Some number" and "number \<le> 255"
      and "key_value (recv_key_block c) AUTH_KEY_TYPE_CHAP_CHALLENGE \<noteq> None"
      and "recv_chap_challenge_status c = 0"
      and "\<not> (node_type c = TYPE_TARGET \<and>
        lb_length (recv_chap_challenge c) = lb_length (send_chap_challenge c) \<and>
        challenge_bytes (recv_chap_challenge c) = challenge_bytes (send_chap_challenge c))"
      and "local_recv_challenge env c = local_send_response env (c\<lparr>recv_key_block := blk\<rparr>) number"
proof -
  let ?b1 = "fst (acl_get_key_val (recv_key_block c) AUTH_KEY_TYPE_CHAP_IDENTIFIER)"
  define blk where "blk = fst (acl_get_key_val ?b1 AUTH_KEY_TYPE_CHAP_CHALLENGE)"
  have sr: "same_recv (recv_key_block c) blk"
    unfolding blk_def using same_recv_trans same_recv_get by blast
  have eq: "local_recv_challenge env c = local_challenge_reply env (c\<lparr>recv_key_block := blk\<rparr>)
      (key_value (recv_key_block c) AUTH_KEY_TYPE_CHAP_IDENTIFIER)
      (key_value (recv_key_block c) AUTH_KEY_TYPE_CHAP_CHALLENGE)"
    using assms by (simp add: local_recv_challenge_def get_recv_key_eq blk_def)
  show thesis
    using local_challenge_reply_cases [of "c\<lparr>recv_key_block := blk\<rparr>" env
      "key_value (recv_key_block c) AUTH_KEY_TYPE_CHAP_IDENTIFIER"
      "key_value (recv_key_block c) AUTH_KEY_TYPE_CHAP_CHALLENGE", folded eq]
      finished [OF sr] error [OF sr] send [OF sr] by fastforce
qed

lemma strings_ok_same_recv: "strings_ok c \<Longrightarrow> same_recv (recv_key_block c) blk \<Longrightarrow>
  strings_ok (c\<lparr>recv_key_block := blk\<rparr>)"
  by (simp add: strings_ok_def same_recv_def)

lemma local_recv_challenge_ok:
  assumes "strings_ok c"
  shows "strings_ok (local_recv_challenge env c) \<and>
    same_recv (recv_key_block c) (recv_key_block (local_recv_challenge env c)) \<and>
    local_state (local_recv_challenge env c) \<in> {AUTH_LOCAL_STATE_DONE, AUTH_LOCAL_STATE_ERROR} \<and>
    negotiated_chap_alg (local_recv_challenge env c) = negotiated_chap_alg c \<and>
    chap_challenge_len (local_recv_challenge env c) = chap_challenge_len c"
proof -
  have send: "recv_key_block (local_send_response env d n) = recv_key_block d \<and>
    local_state (local_send_response env d n) \<in> {AUTH_LOCAL_STATE_DONE, AUTH_LOCAL_STATE_ERROR} \<and>
    negotiated_chap_alg (local_send_response env d n) = negotiated_chap_alg d \<and>
    chap_challenge_len (local_send_response env d n) = chap_challenge_len d" for d n
    by (simp add: local_send_response_def local_error_def set_send_key_def Let_def split: prod.splits)
  from assms have "key_blk_ok (recv_key_block c)" by blast
  then show ?thesis
    by (cases rule: local_recv_challenge_cases [of c env])
       (use assms send strings_ok_send_response in \<open>auto simp: local_error_def strings_ok_same_recv\<close>)
qed

lemma chk_chap_alg_ok:
  assumes "strings_ok c"
  shows "strings_ok (acl_chk_chap_alg_key c) \<and>
    same_recv (recv_key_block c) (recv_key_block (acl_chk_chap_alg_key c)) \<and>
    local_state (acl_chk_chap_alg_key c) = local_state c \<and>
    send_key_block (acl_chk_chap_alg_key c) = send_key_block c \<and>
    (chap_rsp_len (negotiated_chap_alg (acl_chk_chap_alg_key c)) \<noteq> None \<longrightarrow>
       chap_rsp_len (negotiated_chap_alg (acl_chk_chap_alg_key c)) =
         Some (chap_challenge_len (acl_chk_chap_alg_key c)))"
proof -
  let ?r = "recv_key_block c" and ?k = AUTH_KEY_TYPE_CHAP_ALG
  from assms have ok: "key_blk_ok ?r" and sc: "is_cstr (scratch_key_value c)" by blast+
  have opt: "chap_rsp_len AUTH_OPTION_NOT_PRESENT = None" "chap_rsp_len AUTH_OPTION_REJECT = None"
    by (simp_all add: chap_rsp_len_def auth_option_defs)
  obtain blk v where g: "acl_get_key_val ?r ?k = (blk, v)" by force
  then have v: "v = key_value ?r ?k" and blk: "blk = fst (acl_get_key_val ?r ?k)"
    by (simp_all add: key_value_def)
  have sr: "same_recv ?r blk" by (simp add: blk)
  show ?thesis
  proof (cases v)
    case None
    with g sr assms opt show ?thesis
      by (simp add: acl_chk_chap_alg_key_def strings_ok_same_recv)
  next
    case (Some w)
    with v have "is_cstr w" using key_value_Some [OF ok key_lt(2)] by simp
    with sc have "is_cstr (fst (scan_key (find_chap_alg (chap_alg_list c)) w (scratch_key_value c)))"
      by (rule scan_key_scratch [rotated])
    with g sr assms opt Some show ?thesis
      by (auto simp: acl_chk_chap_alg_key_def strings_ok_same_recv Let_def
          intro!: strings_ok_scratch split: prod.splits option.splits)
  qed
qed

lemma set_chap_alg_ok:
  assumes "strings_ok c"
  shows "strings_ok (acl_set_chap_alg_key c algs) \<and>
    recv_key_block (acl_set_chap_alg_key c algs) = recv_key_block c \<and>
    local_state (acl_set_chap_alg_key c algs) = local_state c \<and>
    negotiated_chap_alg (acl_set_chap_alg_key c algs) = negotiated_chap_alg c \<and>
    chap_challenge_len (acl_set_chap_alg_key c algs) = chap_challenge_len c"
proof -
  have "is_cstr (join_options chap_alg_text 0 algs (scratch_key_value c))"
    using assms chap_alg_text_cstr by (intro join_options_cstr) blast+
  moreover have "is_cstr acl_reject_option_name" by (simp add: acl_reject_option_name_def)
  ultimately have "strings_ok (acl_set_chap_alg_key c algs)"
    using assms
    by (auto simp: acl_set_chap_alg_key_def Let_def intro!: strings_ok_set_send_key strings_ok_scratch)
  then show ?thesis
    by (simp add: acl_set_chap_alg_key_def set_send_key_def Let_def)
qed

lemma local_check_alg_cases:
  "(\<exists>dbg. local_check_alg env c = local_error c dbg) \<or>
   chap_rsp_len (negotiated_chap_alg c) \<noteq> None \<and>
   local_check_alg env c =
     (if node_type c = TYPE_TARGET then c\<lparr>local_state := AUTH_LOCAL_STATE_RECV_CHALLENGE\<rparr>
      else local_recv_challenge env c)"
proof (cases "chap_rsp_len (negotiated_chap_alg c)")
  case None
  then show ?thesis by (auto simp: local_check_alg_def chap_rsp_len_def Let_def split: if_splits)
next
  case (Some n)
  then show ?thesis
    by (auto simp: local_check_alg_def chap_rsp_len_def auth_option_defs Let_def split: if_splits)
qed

lemma local_check_alg_ok:
  assumes "strings_ok c"
    and "chap_rsp_len (negotiated_chap_alg c) \<noteq> None \<Longrightarrow>
      chap_rsp_len (negotiated_chap_alg c) = Some (chap_challenge_len c)"
  shows "strings_ok (local_check_alg env c) \<and>
    same_recv (recv_key_block c) (recv_key_block (local_check_alg env c)) \<and>
    local_state (local_check_alg env c) \<in>
      {AUTH_LOCAL_STATE_RECV_CHALLENGE, AUTH_LOCAL_STATE_DONE, AUTH_LOCAL_STATE_ERROR} \<and>
    (local_state (local_check_alg env c) \<noteq> AUTH_LOCAL_STATE_ERROR \<longrightarrow>
       chap_rsp_len (negotiated_chap_alg (local_check_alg env c)) =
         Some (chap_challenge_len (local_check_alg env c)))"
  using local_check_alg_cases [of env c] assms local_recv_challenge_ok [of c env]
  by (auto simp: local_error_def split: if_splits)

lemma local_recv_alg_ok:
  assumes "strings_ok c"
  shows "strings_ok (local_recv_alg env c) \<and>
    same_recv (recv_key_block c) (recv_key_block (local_recv_alg env c)) \<and>
    local_state (local_recv_alg env c) \<in>
      {AUTH_LOCAL_STATE_RECV_CHALLENGE, AUTH_LOCAL_STATE_DONE, AUTH_LOCAL_STATE_ERROR} \<and>
    (local_state (local_recv_alg env c) \<noteq> AUTH_LOCAL_STATE_ERROR \<longrightarrow>
       chap_rsp_len (negotiated_chap_alg (local_recv_alg env c)) =
         Some (chap_challenge_len (local_recv_alg env c)))"
proof -
  define d where "d = acl_chk_chap_alg_key c"
  define e where "e = (if node_type d = TYPE_TARGET then acl_set_chap_alg_key d [negotiated_chap_alg d] else d)"
  note d = chk_chap_alg_ok [OF assms, folded d_def]
  then have "strings_ok e" "recv_key_block e = recv_key_block d"
    "negotiated_chap_alg e = negotiated_chap_alg d" "chap_challenge_len e = chap_challenge_len d"
    using set_chap_alg_ok [of d] by (simp_all add: e_def)
  with d have "strings_ok (local_check_alg env e) \<and>
    same_recv (recv_key_block e) (recv_key_block (local_check_alg env e)) \<and>
    local_state (local_check_alg env e) \<in>
      {AUTH_LOCAL_STATE_RECV_CHALLENGE, AUTH_LOCAL_STATE_DONE, AUTH_LOCAL_STATE_ERROR} \<and>
    (local_state (local_check_alg env e) \<noteq> AUTH_LOCAL_STATE_ERROR \<longrightarrow>
       chap_rsp_len (negotiated_chap_alg (local_check_alg env e)) =
         Some (chap_challenge_len (local_check_alg env e)))"
    by (intro local_check_alg_ok) simp_all
  moreover have "local_recv_alg env c = local_check_alg env e"
    by (simp add: local_recv_alg_def d_def e_def Let_def)
  ultimately show ?thesis
    using d same_recv_trans \<open>recv_key_block e = recv_key_block d\<close> by metis
qed

text \<open>What one call of \<open>acl_local_auth\<close> does in the authenticate phase.\<close>

definition local_step :: "iscsi_acl \<Rightarrow> iscsi_acl \<Rightarrow> bool" where
  "local_step c c' \<longleftrightarrow>
     local_rest c' = local_rest c \<and> strings_ok c' \<and> same_recv (recv_key_block c) (recv_key_block c') \<and>
     local_state c' \<notin> {AUTH_LOCAL_STATE_0, AUTH_LOCAL_STATE_SEND_ALG} \<and>
     (local_state c' = AUTH_LOCAL_STATE_RECV_ALG \<longrightarrow>
        local_state c = AUTH_LOCAL_STATE_SEND_ALG \<and> node_type c = TYPE_INITIATOR) \<and>
     (local_state c = AUTH_LOCAL_STATE_DONE \<longrightarrow> local_state c' = AUTH_LOCAL_STATE_DONE) \<and>
     (local_state c' \<in> {AUTH_LOCAL_STATE_RECV_CHALLENGE, AUTH_LOCAL_STATE_DONE} \<longrightarrow>
        (if local_state c \<in> {AUTH_LOCAL_STATE_RECV_CHALLENGE, AUTH_LOCAL_STATE_DONE}
         then negotiated_chap_alg c' = negotiated_chap_alg c \<and> chap_challenge_len c' = chap_challenge_len c
         else chap_rsp_len (negotiated_chap_alg c') = Some (chap_challenge_len c')))"

lemma acl_local_auth_step:
  assumes ok: "strings_ok c" and st: "local_state c \<notin> {AUTH_LOCAL_STATE_0, AUTH_LOCAL_STATE_ERROR}"
  shows "local_step c (acl_local_auth env c)"
proof (cases "local_state c")
  case AUTH_LOCAL_STATE_SEND_ALG
  then show ?thesis
    using local_recv_alg_ok [OF ok, of env] set_chap_alg_ok [OF ok, of "chap_alg_list c"]
    by (cases "node_type c = TYPE_INITIATOR") (auto simp: local_step_def acl_local_auth_def)
next
  case AUTH_LOCAL_STATE_RECV_ALG
  then show ?thesis
    using local_recv_alg_ok [OF ok, of env] by (auto simp: local_step_def acl_local_auth_def)
next
  case AUTH_LOCAL_STATE_RECV_CHALLENGE
  then show ?thesis
    using local_recv_challenge_ok [OF ok, of env] by (auto simp: local_step_def acl_local_auth_def)
qed (use ok st in \<open>simp_all add: local_step_def acl_local_auth_def\<close>)

subsection \<open>The remote half\<close>

definition rmt_rest :: "iscsi_acl \<Rightarrow> iscsi_acl" where
  "rmt_rest c = c\<lparr>rmt_state := AUTH_RMT_STATE_0, rmt_auth_status := AUTH_STATUS_NO_ERROR,
     auth_rsp_flag := False, dbg_status := AUTH_DBG_STATUS_NOT_SET, send_chap_identifier := 0,
     send_chap_challenge := \<lparr>lb_length = 0, large_binary = []\<rparr>, chap_username := [],
     scratch_key_value := [], recv_key_block := key_block_zero, send_key_block := key_block_zero\<rparr>"

lemma rmt_rest_simps [simp]:
  "rmt_rest (c\<lparr>rmt_state := a\<rparr>) = rmt_rest c"
  "rmt_rest (c\<lparr>rmt_auth_status := b\<rparr>) = rmt_rest c"
  "rmt_rest (c\<lparr>auth_rsp_flag := e\<rparr>) = rmt_rest c"
  "rmt_rest (c\<lparr>dbg_status := d\<rparr>) = rmt_rest c"
  "rmt_rest (c\<lparr>send_chap_identifier := n\<rparr>) = rmt_rest c"
  "rmt_rest (c\<lparr>send_chap_challenge := ch\<rparr>) = rmt_rest c"
  "rmt_rest (c\<lparr>chap_username := u\<rparr>) = rmt_rest c"
  "rmt_rest (c\<lparr>scratch_key_value := u\<rparr>) = rmt_rest c"
  "rmt_rest (c\<lparr>recv_key_block := f\<rparr>) = rmt_rest c"
  "rmt_rest (c\<lparr>send_key_block := f\<rparr>) = rmt_rest c"
  by (simp_all add: rmt_rest_def)

lemma rmt_restD:
  assumes "rmt_rest c = rmt_rest d"
  shows "signature c = signature d" "node_type c = node_type d" "phase c = phase d"
    "local_state c = local_state d" "auth_rmt c = auth_rmt d" "username c = username d"
    "passwd_present c = passwd_present d" "passwd_data c = passwd_data d"
    "recv_chap_challenge c = recv_chap_challenge d"
    "recv_chap_challenge_status c = recv_chap_challenge_status d"
    "auth_method_valid_neg_role c = auth_method_valid_neg_role d" "session_handle c = session_handle d"
    "recv_in_progress_flag c = recv_in_progress_flag d" "recv_end_count c = recv_end_count d"
    "transit_bit_sent_flag c = transit_bit_sent_flag d" "ip_sec c = ip_sec d"
    "negotiated_chap_alg c = negotiated_chap_alg d" "chap_challenge_len c = chap_challenge_len d"
  using arg_cong [OF assms, of signature] arg_cong [OF assms, of node_type]
    arg_cong [OF assms, of phase] arg_cong [OF assms, of local_state]
    arg_cong [OF assms, of auth_rmt] arg_cong [OF assms, of username]
    arg_cong [OF assms, of passwd_present] arg_cong [OF assms, of passwd_data]
    arg_cong [OF assms, of recv_chap_challenge] arg_cong [OF assms, of recv_chap_challenge_status]
    arg_cong [OF assms, of auth_method_valid_neg_role] arg_cong [OF assms, of session_handle]
    arg_cong [OF assms, of recv_in_progress_flag] arg_cong [OF assms, of recv_end_count]
    arg_cong [OF assms, of transit_bit_sent_flag] arg_cong [OF assms, of ip_sec]
    arg_cong [OF assms, of negotiated_chap_alg] arg_cong [OF assms, of chap_challenge_len]
  by (simp_all add: rmt_rest_def)

type_synonym digests = "int \<Rightarrow> (byte list \<Rightarrow> byte list) option"

text \<open>What OpenSSL documents of its digests: MD5 has 16 bytes, SHA1 20, SHA256 and SHA3-256 32.\<close>

definition digest_lengths :: "digests \<Rightarrow> bool" where
  "digest_lengths D \<longleftrightarrow> (\<forall>alg H n x. D alg = Some H \<longrightarrow> chap_rsp_len alg = Some n \<longrightarrow> length (H x) = n)"

definition chap_response :: "(byte list \<Rightarrow> byte list) \<Rightarrow> nat \<Rightarrow> byte list \<Rightarrow> byte list \<Rightarrow> byte list" where
  "chap_response H ident secret challenge = H ([of_nat ident] @ secret @ challenge)"

text \<open>The peer's values \<open>r\<close> (\<open>CHAP_R\<close>) and \<open>u\<close> (\<open>CHAP_N\<close>) authenticate it as the session's peer.\<close>

definition response_ok :: "digests \<Rightarrow> auth_session \<Rightarrow> iscsi_acl \<Rightarrow> string \<Rightarrow> string \<Rightarrow> bool" where
  "response_ok D sess c r u \<longleftrightarrow>
     u = username_in sess \<and> u \<noteq> [] \<and> password_in sess \<noteq> [] \<and>
     (\<exists>H rsp. D (negotiated_chap_alg c) = Some H \<and>
        rsp = chap_response H (send_chap_identifier c) (password_in sess) (challenge_bytes (send_chap_challenge c)) \<and>
        acl_text_to_data r AUTH_STR_MAX_LEN = (0, rsp) \<and>
        (passwd_present c \<longrightarrow>
           rsp \<noteq> chap_response H (send_chap_identifier c) (passwd_data c) (challenge_bytes (send_chap_challenge c))))"

lemma auth_hash_init_eq:
  "auth_hash_init env alg =
     (if chap_rsp_len alg = None then None else map_option (\<lambda>H. (H, [])) (EVP_digest env alg))"
  by (simp add: auth_hash_init_def chap_rsp_len_def)

lemma auth_request_status: "acl_chap_auth_request env c u i ch rsp \<in> {AUTH_STATUS_PASS, AUTH_STATUS_FAIL}"
  by (simp add: acl_chap_auth_request_def Let_def split: option.splits)

lemma auth_request_PASS:
  assumes "acl_chap_auth_request env c u i ch rsp = AUTH_STATUS_PASS"
  shows "\<exists>sess H. session_handle c = Some sess \<and> u = username_in sess \<and> u \<noteq> [] \<and>
     password_in sess \<noteq> [] \<and> EVP_digest env (negotiated_chap_alg c) = Some H \<and>
     length rsp = chap_challenge_len c \<and> chap_rsp_len (negotiated_chap_alg c) \<noteq> None \<and>
     rsp = take (chap_challenge_len c) (chap_response H i (password_in sess) ch @ stack_bytes env)"
proof -
  from assms obtain sess where s: "session_handle c = Some sess"
    by (auto simp: acl_chap_auth_request_def split: option.splits)
  from assms s obtain ctx where ctx: "auth_hash_init env (negotiated_chap_alg c) = Some ctx"
    by (auto simp: acl_chap_auth_request_def split: option.splits if_splits)
  then obtain H where
    H: "EVP_digest env (negotiated_chap_alg c) = Some H" "ctx = (H, [])"
      "chap_rsp_len (negotiated_chap_alg c) \<noteq> None"
    by (auto simp: auth_hash_init_eq split: if_splits)
  with assms s ctx show ?thesis
    by (auto simp: acl_chap_auth_request_def auth_hash_update_def auth_hash_final_def
        chap_response_def Let_def split: if_splits)
qed

lemma own_response_iff:
  assumes "passwd_present c" and "length (passwd_data c) \<le> AUTH_STR_MAX_LEN"
    and "EVP_digest env (negotiated_chap_alg c) = Some H"
    and "chap_rsp_len (negotiated_chap_alg c) = Some (chap_challenge_len c)"
    and "digest_lengths (EVP_digest env)"
  shows "own_response env c rsp \<longleftrightarrow>
    rsp = chap_response H (send_chap_identifier c) (passwd_data c) (challenge_bytes (send_chap_challenge c))"
proof -
  have len: "length (H x) = chap_challenge_len c" for x
    using assms(3-5) by (auto simp: digest_lengths_def)
  show ?thesis
    using assms(1-4) len
    by (auto simp: own_response_def acl_chap_compute_rsp_def auth_hash_init_eq acl_data_def chap_response_def
        auth_hash_update_def auth_hash_final_def Let_def)
qed

lemma rmt_check_response_ok:
  assumes "strings_ok c"
  shows "rmt_rest (rmt_check_response env c u rsp) = rmt_rest c"
    and "strings_ok (rmt_check_response env c u rsp)"
    and "recv_key_block (rmt_check_response env c u rsp) = recv_key_block c"
    and "rmt_state (rmt_check_response env c u rsp) = AUTH_RMT_STATE_DONE"
    and "auth_rsp_flag (rmt_check_response env c u rsp)"
    and "rmt_auth_status (rmt_check_response env c u rsp) \<in> {AUTH_STATUS_PASS, AUTH_STATUS_FAIL}"
    and "send_chap_identifier (rmt_check_response env c u rsp) = send_chap_identifier c"
    and "send_chap_challenge (rmt_check_response env c u rsp) = send_chap_challenge c"
    and "rmt_auth_status (rmt_check_response env c u rsp) = AUTH_STATUS_PASS \<Longrightarrow>
      length u < AUTH_STR_MAX_LEN \<Longrightarrow>
      acl_chap_auth_request env (c\<lparr>chap_username := u\<rparr>) u (send_chap_identifier c)
        (challenge_bytes (send_chap_challenge c)) rsp = AUTH_STATUS_PASS"
  using assms
  by (auto simp: rmt_check_response_def Let_def strlcpy_eq AUTH_STR_MAX_LEN_def split: if_splits)

text \<open>The possible outcomes of reading a response.\<close>

lemma rmt_recv_rsp_cases:
  assumes "key_blk_ok (recv_key_block c)"
  obtains (error) blk dbg where "same_recv (recv_key_block c) blk"
      and "rmt_recv_rsp env c = rmt_error (c\<lparr>recv_key_block := blk\<rparr>) dbg"
  | (checked) blk r u rsp where "same_recv (recv_key_block c) blk"
      and "key_value (recv_key_block c) AUTH_KEY_TYPE_CHAP_RSP = Some r"
      and "key_value (recv_key_block c) AUTH_KEY_TYPE_CHAP_USERNAME = Some u"
      and "acl_text_to_data r AUTH_STR_MAX_LEN = (0, rsp)"
      and "\<not> own_response env (c\<lparr>recv_key_block := blk\<rparr>) rsp"
      and "rmt_recv_rsp env c = rmt_check_response env (c\<lparr>recv_key_block := blk\<rparr>) u rsp"
proof -
  let ?b1 = "fst (acl_get_key_val (recv_key_block c) AUTH_KEY_TYPE_CHAP_RSP)"
  define blk where "blk = fst (acl_get_key_val ?b1 AUTH_KEY_TYPE_CHAP_USERNAME)"
  let ?r = "key_value (recv_key_block c) AUTH_KEY_TYPE_CHAP_RSP"
  let ?u = "key_value (recv_key_block c) AUTH_KEY_TYPE_CHAP_USERNAME"
  have sr: "same_recv (recv_key_block c) blk"
    unfolding blk_def using same_recv_trans same_recv_get by blast
  have eq: "rmt_recv_rsp env c = rmt_response_reply env (c\<lparr>recv_key_block := blk\<rparr>) ?r ?u"
    using assms by (simp add: rmt_recv_rsp_def get_recv_key_eq blk_def)
  show thesis
  proof (cases "?r = None \<or> ?u = None")
    case True
    then show thesis using error [OF sr] eq by (auto simp: rmt_response_reply_def split: option.splits)
  next
    case False
    then obtain r u where ru: "?r = Some r" "?u = Some u" by auto
    obtain st rsp where d: "acl_text_to_data r AUTH_STR_MAX_LEN = (st, rsp)" by force
    show thesis
      using error [OF sr] checked [OF sr ru] eq ru d
      by (cases "st \<noteq> 0"; cases "own_response env (c\<lparr>recv_key_block := blk\<rparr>) rsp")
         (simp_all add: rmt_response_reply_def)
  qed
qed

lemma own_response_recv [simp]: "own_response env (c\<lparr>recv_key_block := blk\<rparr>) rsp = own_response env c rsp"
  by (simp add: own_response_def acl_chap_compute_rsp_def cong: if_cong option.case_cong)

lemma auth_request_recv [simp]:
  "acl_chap_auth_request env (c\<lparr>recv_key_block := blk, chap_username := u\<rparr>) = acl_chap_auth_request env c"
  by (intro ext) (simp add: acl_chap_auth_request_def cong: if_cong option.case_cong)

text \<open>A response is only accepted when it is the digest of the identifier, the peer's secret and the
  challenge sent.\<close>

lemma rmt_recv_rsp_PASS:
  assumes ok: "strings_ok c" and pass: "rmt_auth_status (rmt_recv_rsp env c) = AUTH_STATUS_PASS"
    and done_: "rmt_state (rmt_recv_rsp env c) = AUTH_RMT_STATE_DONE"
    and len: "chap_rsp_len (negotiated_chap_alg c) = Some (chap_challenge_len c)"
    and dl: "digest_lengths (EVP_digest env)" and pw: "length (passwd_data c) \<le> AUTH_STR_MAX_LEN"
  shows "\<exists>sess r u. session_handle c = Some sess \<and>
     key_value (recv_key_block c) AUTH_KEY_TYPE_CHAP_RSP = Some r \<and>
     key_value (recv_key_block c) AUTH_KEY_TYPE_CHAP_USERNAME = Some u \<and>
     response_ok (EVP_digest env) sess c r u"
proof -
  from ok have kb: "key_blk_ok (recv_key_block c)" by blast
  then show ?thesis
  proof (cases rule: rmt_recv_rsp_cases [of c env])
    case (error blk dbg)
    with done_ show ?thesis by (simp add: rmt_error_def)
  next
    case (checked blk r u rsp)
    let ?c = "c\<lparr>recv_key_block := blk\<rparr>"
    from checked(1) ok have ok': "strings_ok ?c" by (simp add: strings_ok_same_recv)
    have "length u < AUTH_STR_MAX_LEN" using key_value_Some [OF kb key_lt(3) checked(3)] by simp
    then have "acl_chap_auth_request env c u (send_chap_identifier c)
        (challenge_bytes (send_chap_challenge c)) rsp = AUTH_STATUS_PASS"
      using rmt_check_response_ok(9) [OF ok'] pass checked(6) by simp
    from auth_request_PASS [OF this] obtain sess H where s: "session_handle c = Some sess"
      and u: "u = username_in sess" "u \<noteq> []" "password_in sess \<noteq> []"
      and H: "EVP_digest env (negotiated_chap_alg c) = Some H"
      and rsp: "rsp = take (chap_challenge_len c)
        (chap_response H (send_chap_identifier c) (password_in sess)
           (challenge_bytes (send_chap_challenge c)) @ stack_bytes env)"
      by blast
    have "length (H x) = chap_challenge_len c" for x
      using dl H len by (auto simp: digest_lengths_def)
    with rsp have rsp': "rsp = chap_response H (send_chap_identifier c) (password_in sess)
           (challenge_bytes (send_chap_challenge c))"
      by (simp add: chap_response_def)
    moreover have "passwd_present c \<longrightarrow> rsp \<noteq> chap_response H (send_chap_identifier c) (passwd_data c)
           (challenge_bytes (send_chap_challenge c))"
      using own_response_iff [OF _ pw H len dl] checked(5) by auto
    ultimately have "response_ok (EVP_digest env) sess c r u"
      using u H checked(4) by (auto simp: response_ok_def)
    with s checked(2,3) show ?thesis by blast
  qed
qed

definition rmt_step :: "iscsi_acl \<Rightarrow> iscsi_acl \<Rightarrow> bool" where
  "rmt_step c c' \<longleftrightarrow>
     rmt_rest c' = rmt_rest c \<and> strings_ok c' \<and> same_recv (recv_key_block c) (recv_key_block c') \<and>
     rmt_state c' \<notin> {AUTH_RMT_STATE_0, AUTH_RMT_STATE_SEND_ALG} \<and>
     (rmt_state c' = AUTH_RMT_STATE_SEND_CHALLENGE \<longrightarrow>
        rmt_state c = AUTH_RMT_STATE_SEND_ALG \<and> node_type c = TYPE_INITIATOR) \<and>
     (rmt_state c' \<in> {AUTH_RMT_STATE_SEND_CHALLENGE, AUTH_RMT_STATE_RECV_RSP} \<longrightarrow>
        auth_rsp_flag c' = auth_rsp_flag c) \<and>
     (rmt_state c = AUTH_RMT_STATE_DONE \<longrightarrow> c' = c) \<and>
     (rmt_state c = AUTH_RMT_STATE_SEND_ALG \<longrightarrow> node_type c = TYPE_INITIATOR \<longrightarrow>
        rmt_state c' = AUTH_RMT_STATE_SEND_CHALLENGE) \<and>
     (rmt_state c' = AUTH_RMT_STATE_DONE \<longrightarrow> rmt_state c \<noteq> AUTH_RMT_STATE_DONE \<longrightarrow>
        rmt_auth_status c' \<in> {AUTH_STATUS_PASS, AUTH_STATUS_FAIL} \<and>
        (rmt_state c \<noteq> AUTH_RMT_STATE_RECV_RSP \<longrightarrow> \<not> auth_rmt c \<and> auth_rsp_flag c' = auth_rsp_flag c))"

lemma rmt_recv_rsp_step:
  assumes "strings_ok c" and "rmt_state c = AUTH_RMT_STATE_RECV_RSP"
  shows "rmt_step c (rmt_recv_rsp env c) \<and>
    (rmt_state (rmt_recv_rsp env c) = AUTH_RMT_STATE_DONE \<longrightarrow>
       send_chap_identifier (rmt_recv_rsp env c) = send_chap_identifier c \<and>
       send_chap_challenge (rmt_recv_rsp env c) = send_chap_challenge c)"
proof -
  from assms have "key_blk_ok (recv_key_block c)" by blast
  then show ?thesis
  proof (cases rule: rmt_recv_rsp_cases [of c env])
    case (error blk dbg)
    with assms show ?thesis by (simp add: rmt_step_def rmt_error_def strings_ok_same_recv)
  next
    case (checked blk r u rsp)
    from checked(1) assms have "strings_ok (c\<lparr>recv_key_block := blk\<rparr>)" by (simp add: strings_ok_same_recv)
    from rmt_check_response_ok(1-8) [OF this, of env u rsp] checked(1,6) assms(2) show ?thesis
      by (simp add: rmt_step_def)
  qed
qed

lemma rmt_send_challenge_cases:
  assumes "strings_ok c" and "auth_rmt c"
  obtains d dbg where "rmt_rest d = rmt_rest c" and "strings_ok d" and "recv_key_block d = recv_key_block c"
      and "rmt_send_challenge env c = rmt_error d dbg"
  | d where "rmt_rest d = rmt_rest c" and "strings_ok d" and "recv_key_block d = recv_key_block c"
      and "auth_rsp_flag d = auth_rsp_flag c"
      and "rmt_send_challenge env c = d\<lparr>rmt_state := AUTH_RMT_STATE_RECV_RSP\<rparr>"
proof (cases "RAND_bytes env 0 1")
  case None
  then show thesis using assms that(1) [of c] by (simp add: rmt_send_challenge_def)
next
  case (Some b)
  define n where "n = unat (hd b)"
  define d where "d = set_send_key (c\<lparr>send_chap_identifier := n, scratch_key_value := udec n\<rparr>)
    AUTH_KEY_TYPE_CHAP_IDENTIFIER (Some (udec n))"
  have d: "strings_ok d" "rmt_rest d = rmt_rest c" "recv_key_block d = recv_key_block c"
      "auth_rsp_flag d = auth_rsp_flag c" "chap_challenge_len d = chap_challenge_len c"
    using assms is_cstr_udec [of n] unfolding d_def
    by (auto simp: set_send_key_def strings_ok_def)
  show thesis
  proof (cases "RAND_bytes env 1 (chap_challenge_len c)")
    case None
    then show thesis
      using assms Some d
        that(1) [of "d\<lparr>send_chap_challenge := (send_chap_challenge d)\<lparr>lb_length := chap_challenge_len d\<rparr>\<rparr>"]
      by (simp add: rmt_send_challenge_def Let_def n_def d_def)
  next
    case (Some ch)
    let ?e = "d\<lparr>send_chap_challenge := \<lparr>lb_length = chap_challenge_len d,
      large_binary = overlay (large_binary (send_chap_challenge d)) 0 ch\<rparr>\<rparr>"
    let ?f = "set_send_key ?e AUTH_KEY_TYPE_CHAP_CHALLENGE (Some [])"
    have "strings_ok ?f" using d(1) by (intro strings_ok_set_send_key) simp_all
    then show thesis
      using assms Some \<open>RAND_bytes env 0 1 = Some b\<close> d that(2) [of ?f]
      by (simp add: rmt_send_challenge_def Let_def n_def d_def set_send_key_def)
  qed
qed

lemma rmt_send_challenge_step:
  assumes ok: "strings_ok c"
    and st: "rmt_state c = AUTH_RMT_STATE_SEND_ALG \<and> node_type c \<noteq> TYPE_INITIATOR \<or>
      rmt_state c = AUTH_RMT_STATE_SEND_CHALLENGE"
  shows "rmt_step c (rmt_send_challenge env c)"
proof (cases "auth_rmt c")
  case False
  with assms show ?thesis by (auto simp: rmt_step_def rmt_send_challenge_def)
next
  case True
  from ok True show ?thesis
    by (cases rule: rmt_send_challenge_cases [of c env])
       (use st in \<open>auto simp: rmt_step_def rmt_error_def\<close>)
qed

lemma acl_rmt_auth_step:
  assumes "strings_ok c" and "rmt_state c \<notin> {AUTH_RMT_STATE_0, AUTH_RMT_STATE_ERROR}"
  shows "rmt_step c (acl_rmt_auth env c)"
proof (cases "rmt_state c")
  case AUTH_RMT_STATE_SEND_ALG
  with assms rmt_send_challenge_step [of c env] show ?thesis
    by (cases "node_type c = TYPE_INITIATOR") (auto simp: acl_rmt_auth_def, simp add: rmt_step_def)
next
  case AUTH_RMT_STATE_SEND_CHALLENGE
  with assms rmt_send_challenge_step [of c env] show ?thesis by (simp add: acl_rmt_auth_def)
next
  case AUTH_RMT_STATE_RECV_RSP
  with assms rmt_recv_rsp_step [of c env] show ?thesis by (simp add: acl_rmt_auth_def)
qed (use assms in \<open>simp_all add: acl_rmt_auth_def rmt_step_def\<close>)

end
