(* ===== verification/Auth_Invariant.thy ===== *)
theory Auth_Invariant
  imports Auth_Steps
begin

section \<open>Runs of the authentication client and their invariant\<close>

text \<open>
  \<open>acl_run\<close> is every sequence of calls of the interface of \<open>usr/auth.h\<close> on a client that \<open>acl_init\<close> set
  up, with the list of key values the peer sent. \<open>acl_inv\<close> is the invariant of these runs: the
  buffers are well formed (\<open>cfg_ok\<close>), what the receive block holds came from the peer (\<open>keys_ok\<close>),
  the two state machines move in step (\<open>states_ok\<close>), and a pass status after a checked response
  means that the peer's response was verified (\<open>verified\<close>). Every operation keeps it
  (\<open>acl_run_inv\<close>).
\<close>

subsection \<open>Runs\<close>

text \<open>Every sequence of calls of the interface, on a client \<open>acl_init\<close> set up. \<open>tr\<close> collects the key
  values the peer's messages gave to \<open>acl_recv_key_value\<close>. Each message may use its own random
  bytes and its own stack contents; the digests and the session stay the same.\<close>

inductive acl_run :: "digests \<Rightarrow> auth_session \<Rightarrow> (int \<times> string) list \<Rightarrow> iscsi_acl \<Rightarrow> bool"
  for D :: digests and sess :: auth_session
where
  init: "acl_init sz node descs = (Some c, AUTH_STATUS_NO_ERROR) \<Longrightarrow> acl_run D sess [] c"
| user: "acl_run D sess tr c \<Longrightarrow> (\<And>s. u = Some s \<Longrightarrow> is_cstr s) \<Longrightarrow>
    acl_run D sess tr (fst (acl_set_user_name c u))"
| passwd: "acl_run D sess tr c \<Longrightarrow> acl_run D sess tr (fst (acl_set_passwd c pw))"
| rmt: "acl_run D sess tr c \<Longrightarrow> acl_run D sess tr (fst (acl_set_auth_rmt c b))"
| sec: "acl_run D sess tr c \<Longrightarrow> acl_run D sess tr (fst (acl_set_ip_sec c b))"
| alg: "acl_run D sess tr c \<Longrightarrow> acl_run D sess tr (fst (acl_set_chap_alg_list c algs))"
| recv_begin: "acl_run D sess tr c \<Longrightarrow> acl_run D sess tr (fst (acl_recv_begin c))"
| recv_key: "acl_run D sess tr c \<Longrightarrow> is_cstr v \<Longrightarrow>
    acl_run D sess ((k, v) # tr) (fst (acl_recv_key_value c k v))"
| recv_t: "acl_run D sess tr c \<Longrightarrow> acl_run D sess tr (fst (acl_recv_transit_bit c b))"
| recv_end: "acl_run D sess tr c \<Longrightarrow> EVP_digest env = D \<Longrightarrow>
    acl_run D sess tr (fst (acl_recv_end env c (Some sess)))"
| send_key: "acl_run D sess tr c \<Longrightarrow> acl_run D sess tr (fst (acl_send_key_val c k n))"
| send_t: "acl_run D sess tr c \<Longrightarrow> acl_run D sess tr (fst (acl_send_transit_bit c))"
| dbg: "acl_run D sess tr c \<Longrightarrow> acl_run D sess tr (fst (acl_get_dbg_status c))"

subsection \<open>The invariant\<close>

definition cfg_ok :: "iscsi_acl \<Rightarrow> bool" where
  "cfg_ok c \<longleftrightarrow>
     signature c = ACL_SIGNATURE \<and> phase c \<noteq> AUTH_PHASE_0 \<and> strings_ok c \<and>
     length (username c) < AUTH_STR_MAX_LEN \<and> length (passwd_data c) \<le> AUTH_STR_MAX_LEN \<and>
     length (large_binary (recv_chap_challenge c)) = AUTH_LARGE_BINARY_MAX_LEN \<and>
     (node_type c = TYPE_INITIATOR \<and> auth_rmt c \<longrightarrow>
        auth_method_valid_neg_role c = AUTH_NEG_ROLE_ORIGINATOR)"

text \<open>Every value in the receive block came from the peer, and the decoded challenge is the peer's
  \<open>CHAP_C\<close>.\<close>

definition keys_ok :: "(int \<times> string) list \<Rightarrow> iscsi_acl \<Rightarrow> bool" where
  "keys_ok tr c \<longleftrightarrow>
     (\<forall>k < AUTH_KEY_TYPE_MAX_COUNT. k \<noteq> AUTH_KEY_TYPE_CHAP_CHALLENGE \<longrightarrow>
        (\<forall>v. key_value (recv_key_block c) k = Some v \<longrightarrow> (int k, v) \<in> set tr)) \<and>
     (key_value (recv_key_block c) AUTH_KEY_TYPE_CHAP_CHALLENGE \<noteq> None \<and> recv_chap_challenge_status c = 0 \<longrightarrow>
        (\<exists>t. (int AUTH_KEY_TYPE_CHAP_CHALLENGE, t) \<in> set tr \<and>
           acl_text_to_data t AUTH_LARGE_BINARY_MAX_LEN = (0, challenge_bytes (recv_chap_challenge c))))"

definition verified :: "digests \<Rightarrow> auth_session \<Rightarrow> (int \<times> string) list \<Rightarrow> iscsi_acl \<Rightarrow> bool" where
  "verified D sess tr c \<longleftrightarrow>
     (\<exists>r. (int AUTH_KEY_TYPE_CHAP_RSP, r) \<in> set tr \<and>
          (int AUTH_KEY_TYPE_CHAP_USERNAME, username_in sess) \<in> set tr \<and>
          response_ok D sess c r (username_in sess))"

definition states_ok :: "iscsi_acl \<Rightarrow> bool" where
  "states_ok c \<longleftrightarrow>
     (phase c \<in> {AUTH_PHASE_CONFIGURE, AUTH_PHASE_NEGOTIATE} \<longrightarrow> \<not> auth_rsp_flag c) \<and>
     (phase c = AUTH_PHASE_AUTHENTICATE \<longrightarrow>
        local_state c \<notin> {AUTH_LOCAL_STATE_0, AUTH_LOCAL_STATE_ERROR} \<and>
        rmt_state c \<notin> {AUTH_RMT_STATE_0, AUTH_RMT_STATE_ERROR} \<and>
        (rmt_state c \<noteq> AUTH_RMT_STATE_SEND_ALG \<longrightarrow> local_state c \<noteq> AUTH_LOCAL_STATE_SEND_ALG) \<and>
        (rmt_state c \<in> {AUTH_RMT_STATE_RECV_RSP, AUTH_RMT_STATE_DONE} \<longrightarrow>
           local_state c \<in> {AUTH_LOCAL_STATE_RECV_CHALLENGE, AUTH_LOCAL_STATE_DONE}) \<and>
        (local_state c = AUTH_LOCAL_STATE_RECV_CHALLENGE \<or> auth_rmt c \<and> local_state c = AUTH_LOCAL_STATE_DONE \<longrightarrow>
           chap_rsp_len (negotiated_chap_alg c) = Some (chap_challenge_len c)) \<and>
        (auth_rsp_flag c \<longrightarrow> rmt_state c = AUTH_RMT_STATE_DONE) \<and>
        (rmt_state c = AUTH_RMT_STATE_DONE \<longrightarrow> rmt_auth_status c \<in> {AUTH_STATUS_PASS, AUTH_STATUS_FAIL})) \<and>
     (phase c = AUTH_PHASE_DONE \<and> node_type c = TYPE_INITIATOR \<longrightarrow>
        rmt_auth_status c \<in> {AUTH_STATUS_PASS, AUTH_STATUS_FAIL})"

definition acl_inv :: "digests \<Rightarrow> auth_session \<Rightarrow> (int \<times> string) list \<Rightarrow> iscsi_acl \<Rightarrow> bool" where
  "acl_inv D sess tr c \<longleftrightarrow> cfg_ok c \<and> keys_ok tr c \<and> states_ok c \<and>
     (auth_rmt c \<and> auth_rsp_flag c \<and> rmt_auth_status c = AUTH_STATUS_PASS \<longrightarrow> verified D sess tr c)"

lemmas inv_defs = acl_inv_def cfg_ok_def keys_ok_def states_ok_def

text \<open>Fields the invariant does not mention.\<close>

lemma verified_simps [simp]:
  "verified D sess tr (c\<lparr>phase := p\<rparr>) = verified D sess tr c"
  "verified D sess tr (c\<lparr>dbg_status := d\<rparr>) = verified D sess tr c"
  "verified D sess tr (c\<lparr>recv_in_progress_flag := b\<rparr>) = verified D sess tr c"
  "verified D sess tr (c\<lparr>transit_bit_sent_flag := b\<rparr>) = verified D sess tr c"
  "verified D sess tr (c\<lparr>recv_end_count := n\<rparr>) = verified D sess tr c"
  "verified D sess tr (c\<lparr>session_handle := s\<rparr>) = verified D sess tr c"
  "verified D sess tr (c\<lparr>send_key_block := blk\<rparr>) = verified D sess tr c"
  "verified D sess tr (c\<lparr>recv_key_block := blk\<rparr>) = verified D sess tr c"
  "verified D sess tr (c\<lparr>recv_chap_challenge_status := st\<rparr>) = verified D sess tr c"
  "verified D sess tr (c\<lparr>recv_chap_challenge := ch\<rparr>) = verified D sess tr c"
  by (simp_all add: verified_def response_ok_def)

lemma acl_inv_simps [simp]:
  "acl_inv D sess tr (c\<lparr>dbg_status := d\<rparr>) = acl_inv D sess tr c"
  "acl_inv D sess tr (c\<lparr>recv_in_progress_flag := b\<rparr>) = acl_inv D sess tr c"
  "acl_inv D sess tr (c\<lparr>transit_bit_sent_flag := b\<rparr>) = acl_inv D sess tr c"
  "acl_inv D sess tr (c\<lparr>recv_end_count := n\<rparr>) = acl_inv D sess tr c"
  "acl_inv D sess tr (c\<lparr>session_handle := s\<rparr>) = acl_inv D sess tr c"
  by (simp_all add: inv_defs)

lemma verified_mono: "verified D sess tr c \<Longrightarrow> verified D sess (kv # tr) c"
  by (auto simp: verified_def)

lemma keys_ok_mono:
  assumes "keys_ok tr c"
  shows "keys_ok (kv # tr) c"
  unfolding keys_ok_def
proof (intro conjI impI)
  assume "key_value (recv_key_block c) AUTH_KEY_TYPE_CHAP_CHALLENGE \<noteq> None \<and> recv_chap_challenge_status c = 0"
  with assms show "\<exists>t. (int AUTH_KEY_TYPE_CHAP_CHALLENGE, t) \<in> set (kv # tr) \<and>
      acl_text_to_data t AUTH_LARGE_BINARY_MAX_LEN = (0, challenge_bytes (recv_chap_challenge c))"
    unfolding keys_ok_def by (meson list.set_intros(2))
qed (use assms in \<open>simp add: keys_ok_def\<close>)

lemma acl_inv_mono: "acl_inv D sess tr c \<Longrightarrow> acl_inv D sess (kv # tr) c"
  by (simp add: acl_inv_def keys_ok_mono verified_mono)

lemma acl_inv_send:
  "acl_inv D sess tr c \<Longrightarrow> key_blk_ok blk \<Longrightarrow> acl_inv D sess tr (c\<lparr>send_key_block := blk\<rparr>)"
  by (simp add: inv_defs strings_ok_def)

lemma acl_inv_same_recv:
  "acl_inv D sess tr c \<Longrightarrow> same_recv (recv_key_block c) blk \<Longrightarrow> acl_inv D sess tr (c\<lparr>recv_key_block := blk\<rparr>)"
  by (simp add: inv_defs strings_ok_def same_recv_def)

lemma acl_inv_phase_error: "acl_inv D sess tr c \<Longrightarrow> acl_inv D sess tr (c\<lparr>phase := AUTH_PHASE_ERROR\<rparr>)"
  by (simp add: inv_defs)

lemma acl_inv_error: "acl_inv D sess tr c \<Longrightarrow> acl_inv D sess tr (fst (acl_error c))"
  by (simp add: acl_error_def acl_inv_phase_error)

lemma acl_inv_fail_done: "acl_inv D sess tr c \<Longrightarrow> acl_inv D sess tr (fail_done c dbg)"
  by (simp add: fail_done_def inv_defs)

lemma acl_inv_fail: "acl_inv D sess tr c \<Longrightarrow> acl_inv D sess tr (c\<lparr>rmt_auth_status := AUTH_STATUS_FAIL\<rparr>)"
  by (simp add: inv_defs)

subsection \<open>Every operation keeps the invariant\<close>

lemma acl_invD:
  assumes "acl_inv D sess tr c"
  shows "cfg_ok c" "keys_ok tr c" "states_ok c" "strings_ok c" "signature c = ACL_SIGNATURE"
    "phase c \<noteq> AUTH_PHASE_0" "length (passwd_data c) \<le> AUTH_STR_MAX_LEN"
    "length (username c) < AUTH_STR_MAX_LEN"
    "auth_rmt c \<Longrightarrow> auth_rsp_flag c \<Longrightarrow> rmt_auth_status c = AUTH_STATUS_PASS \<Longrightarrow> verified D sess tr c"
  using assms by (auto simp: acl_inv_def cfg_ok_def)

lemma keys_okD:
  "keys_ok tr c \<Longrightarrow> k < AUTH_KEY_TYPE_MAX_COUNT \<Longrightarrow> k \<noteq> AUTH_KEY_TYPE_CHAP_CHALLENGE \<Longrightarrow>
   key_value (recv_key_block c) k = Some v \<Longrightarrow> (int k, v) \<in> set tr"
  by (simp add: keys_ok_def)

lemma keys_ok_same_recv:
  "keys_ok tr c \<Longrightarrow> strings_ok c \<Longrightarrow> same_recv (recv_key_block c) (recv_key_block c') \<Longrightarrow>
   recv_chap_challenge c' = recv_chap_challenge c \<Longrightarrow>
   recv_chap_challenge_status c' = recv_chap_challenge_status c \<Longrightarrow> keys_ok tr c'"
  by (simp add: keys_ok_def same_recv_def strings_ok_def)

lemma verified_cong:
  "negotiated_chap_alg c' = negotiated_chap_alg c \<Longrightarrow> send_chap_identifier c' = send_chap_identifier c \<Longrightarrow>
   send_chap_challenge c' = send_chap_challenge c \<Longrightarrow> passwd_present c' = passwd_present c \<Longrightarrow>
   passwd_data c' = passwd_data c \<Longrightarrow> verified D sess tr c' = verified D sess tr c"
  by (simp add: verified_def response_ok_def)

lemma acl_inv_limits: "acl_inv D sess tr c \<Longrightarrow> acl_inv D sess tr (recv_end_limits c)"
  by (simp add: recv_end_limits_def acl_inv_fail_done)

subsubsection \<open>The authenticate phase\<close>

lemma rmt_stepD:
  assumes "rmt_step c c'"
  shows "rmt_rest c' = rmt_rest c" and "strings_ok c'"
    and "same_recv (recv_key_block c) (recv_key_block c')"
    and "rmt_state c' \<noteq> AUTH_RMT_STATE_0" and "rmt_state c' \<noteq> AUTH_RMT_STATE_SEND_ALG"
    and "rmt_state c' \<in> {AUTH_RMT_STATE_SEND_CHALLENGE, AUTH_RMT_STATE_RECV_RSP} \<Longrightarrow>
      auth_rsp_flag c' = auth_rsp_flag c"
    and "rmt_state c = AUTH_RMT_STATE_DONE \<Longrightarrow> c' = c"
    and "rmt_state c = AUTH_RMT_STATE_SEND_ALG \<Longrightarrow> node_type c = TYPE_INITIATOR \<Longrightarrow>
      rmt_state c' = AUTH_RMT_STATE_SEND_CHALLENGE"
    and "rmt_state c' = AUTH_RMT_STATE_DONE \<Longrightarrow> rmt_state c \<noteq> AUTH_RMT_STATE_DONE \<Longrightarrow>
      rmt_auth_status c' \<in> {AUTH_STATUS_PASS, AUTH_STATUS_FAIL}"
    and "rmt_state c' = AUTH_RMT_STATE_DONE \<Longrightarrow> rmt_state c \<noteq> AUTH_RMT_STATE_DONE \<Longrightarrow>
      rmt_state c \<noteq> AUTH_RMT_STATE_RECV_RSP \<Longrightarrow> auth_rsp_flag c' = auth_rsp_flag c"
  using assms unfolding rmt_step_def by blast+

lemma states_ok_authenticate:
  assumes st: "states_ok c" and ph: "phase c = AUTH_PHASE_AUTHENTICATE"
    and l: "local_step c d" and r: "rmt_step d e"
    and ne: "local_state d \<noteq> AUTH_LOCAL_STATE_ERROR" "rmt_state e \<noteq> AUTH_RMT_STATE_ERROR"
  shows "states_ok e"
proof -
  from l have ld: "local_rest d = local_rest c" by (simp add: local_step_def)
  from r have re: "rmt_rest e = rmt_rest d" by (rule rmt_stepD(1))
  note ld = local_restD [OF ld] and re = rmt_restD [OF re]
  have 1: "local_state e \<notin> {AUTH_LOCAL_STATE_0, AUTH_LOCAL_STATE_ERROR, AUTH_LOCAL_STATE_SEND_ALG}"
    using l ne re(4) by (auto simp: local_step_def)
  have 2: "rmt_state e \<notin> {AUTH_RMT_STATE_0, AUTH_RMT_STATE_ERROR, AUTH_RMT_STATE_SEND_ALG}"
    using rmt_stepD(4,5) [OF r] ne by blast
  have 3: "local_state e \<in> {AUTH_LOCAL_STATE_RECV_CHALLENGE, AUTH_LOCAL_STATE_DONE}"
    if "rmt_state e \<in> {AUTH_RMT_STATE_RECV_RSP, AUTH_RMT_STATE_DONE}"
  proof (rule ccontr)
    assume "\<not> ?thesis"
    with 1 have "local_state d = AUTH_LOCAL_STATE_RECV_ALG"
      using re(4) by (cases "local_state e") auto
    with l have "local_state c = AUTH_LOCAL_STATE_SEND_ALG" "node_type c = TYPE_INITIATOR"
      by (auto simp: local_step_def)
    moreover from this st ph have "rmt_state c = AUTH_RMT_STATE_SEND_ALG"
      by (auto simp: states_ok_def)
    ultimately have "rmt_state e = AUTH_RMT_STATE_SEND_CHALLENGE"
      using rmt_stepD(8) [OF r] ld(2,4) by simp
    with that show False by simp
  qed
  have 4: "chap_rsp_len (negotiated_chap_alg e) = Some (chap_challenge_len e)"
    if "local_state e = AUTH_LOCAL_STATE_RECV_CHALLENGE \<or> auth_rmt e \<and> local_state e = AUTH_LOCAL_STATE_DONE"
  proof (cases "local_state c \<in> {AUTH_LOCAL_STATE_RECV_CHALLENGE, AUTH_LOCAL_STATE_DONE}")
    case True
    then have "negotiated_chap_alg e = negotiated_chap_alg c" "chap_challenge_len e = chap_challenge_len c"
      using l that re by (auto simp: local_step_def)
    moreover have "local_state c = AUTH_LOCAL_STATE_DONE \<Longrightarrow> auth_rmt c"
      using l that re(4,5) ld(5) by (auto simp: local_step_def)
    ultimately show ?thesis using True st ph by (auto simp: states_ok_def)
  next
    case False
    then show ?thesis using l that re by (auto simp: local_step_def)
  qed
  have flag: "auth_rsp_flag c \<Longrightarrow> rmt_state c = AUTH_RMT_STATE_DONE"
    using st ph by (simp add: states_ok_def)
  have 5: "rmt_state e = AUTH_RMT_STATE_DONE" if "auth_rsp_flag e"
  proof (rule ccontr)
    assume "rmt_state e \<noteq> AUTH_RMT_STATE_DONE"
    with 2 have "rmt_state e \<in> {AUTH_RMT_STATE_SEND_CHALLENGE, AUTH_RMT_STATE_RECV_RSP}"
      by (cases "rmt_state e") auto
    with rmt_stepD(6) [OF r] that have "auth_rsp_flag d" by blast
    with flag ld have "rmt_state d = AUTH_RMT_STATE_DONE" by simp
    with rmt_stepD(7) [OF r] have "e = d" by blast
    with \<open>rmt_state d = AUTH_RMT_STATE_DONE\<close> \<open>rmt_state e \<noteq> AUTH_RMT_STATE_DONE\<close> show False by simp
  qed
  have 6: "rmt_auth_status e \<in> {AUTH_STATUS_PASS, AUTH_STATUS_FAIL}" if "rmt_state e = AUTH_RMT_STATE_DONE"
  proof (cases "rmt_state d = AUTH_RMT_STATE_DONE")
    case True
    with rmt_stepD(7) [OF r] have "e = d" by blast
    with True st ph ld show ?thesis by (simp add: states_ok_def)
  qed (use that rmt_stepD(9) [OF r] in blast)
  from 1 2 3 4 5 6 ph ld(3) re(3) show ?thesis
    by (simp add: states_ok_def)
qed

lemma verified_authenticate:
  assumes inv: "acl_inv D sess tr c" and ph: "phase c = AUTH_PHASE_AUTHENTICATE"
    and dl: "digest_lengths D" and D: "EVP_digest env = D" and s: "session_handle c = Some sess"
    and l: "local_step c d" and ne: "local_state d \<noteq> AUTH_LOCAL_STATE_ERROR"
    and e: "e = acl_rmt_auth env d" and ne': "rmt_state e \<noteq> AUTH_RMT_STATE_ERROR"
    and pass: "auth_rmt e" "auth_rsp_flag e" "rmt_auth_status e = AUTH_STATUS_PASS"
  shows "verified D sess tr e"
proof -
  note st = acl_invD(3) [OF inv]
  from l have ok: "strings_ok d" and ldr: "local_rest d = local_rest c"
    and sr: "same_recv (recv_key_block c) (recv_key_block d)"
    by (auto simp: local_step_def)
  note ld = local_restD [OF ldr]
  have "rmt_state d \<notin> {AUTH_RMT_STATE_0, AUTH_RMT_STATE_ERROR}"
    using st ph ld by (auto simp: states_ok_def)
  with ok have r: "rmt_step d e" unfolding e by (rule acl_rmt_auth_step)
  then have rer: "rmt_rest e = rmt_rest d" by (rule rmt_stepD(1))
  note re = rmt_restD [OF rer]
  have ste: "states_ok e" using states_ok_authenticate [OF st ph l r ne ne'] .
  show ?thesis
  proof (cases "rmt_state d = AUTH_RMT_STATE_DONE")
    case True
    with rmt_stepD(7) [OF r] have "e = d" by blast
    moreover have "local_state c \<in> {AUTH_LOCAL_STATE_RECV_CHALLENGE, AUTH_LOCAL_STATE_DONE}"
      using True st ph ld by (auto simp: states_ok_def)
    then have "negotiated_chap_alg d = negotiated_chap_alg c"
      using l ne by (cases "local_state d") (auto simp: local_step_def)
    moreover have "verified D sess tr c"
      using acl_invD(9) [OF inv] pass \<open>e = d\<close> ld by simp
    ultimately show ?thesis using verified_cong [of d c] ld by simp
  next
    case False
    have done_: "rmt_state e = AUTH_RMT_STATE_DONE"
      using ste pass ph ld re by (simp add: states_ok_def)
    have "\<not> auth_rsp_flag d" using st ph False ld by (auto simp: states_ok_def)
    with rmt_stepD(10) [OF r done_ False] pass have rr: "rmt_state d = AUTH_RMT_STATE_RECV_RSP"
      by blast
    then have e': "e = rmt_recv_rsp env d" by (simp add: e acl_rmt_auth_def)
    have "local_state d \<in> {AUTH_LOCAL_STATE_RECV_CHALLENGE, AUTH_LOCAL_STATE_DONE}"
      using ste done_ ph ld re by (auto simp: states_ok_def)
    then have len: "chap_rsp_len (negotiated_chap_alg d) = Some (chap_challenge_len d)"
      using ste done_ ph ld re pass by (auto simp: states_ok_def)
    have sd: "session_handle d = Some sess" using ld(12) s by simp
    have "length (passwd_data d) \<le> AUTH_STR_MAX_LEN" using acl_invD(7) [OF inv] ld(8) by simp
    from rmt_recv_rsp_PASS [OF ok pass(3) [unfolded e'] done_ [unfolded e'] len _ this] dl D sd
    obtain r u where ru: "key_value (recv_key_block d) AUTH_KEY_TYPE_CHAP_RSP = Some r"
      "key_value (recv_key_block d) AUTH_KEY_TYPE_CHAP_USERNAME = Some u" "response_ok D sess d r u"
      by auto
    have k: "keys_ok tr d"
      using keys_ok_same_recv [OF acl_invD(2) [OF inv] acl_invD(4) [OF inv] sr] ld by simp
    with ru have "(int AUTH_KEY_TYPE_CHAP_RSP, r) \<in> set tr" "(int AUTH_KEY_TYPE_CHAP_USERNAME, u) \<in> set tr"
      using keys_okD [OF k key_lt(4)] keys_okD [OF k key_lt(3)] by (simp_all add: KEYS)
    with ru(3) have "verified D sess tr d" by (auto simp: verified_def response_ok_def)
    with rmt_recv_rsp_step [OF ok rr, of env] done_ e' re show ?thesis
      using verified_cong [of e d] by simp
  qed
qed

lemma acl_inv_authenticate:
  assumes inv: "acl_inv D sess tr c" and ph: "phase c = AUTH_PHASE_AUTHENTICATE"
    and dl: "digest_lengths D" and D: "EVP_digest env = D" and s: "session_handle c = Some sess"
  shows "acl_inv D sess tr (recv_end_authenticate env c) \<and>
    phase (recv_end_authenticate env c) \<in> {AUTH_PHASE_AUTHENTICATE, AUTH_PHASE_DONE}"
proof -
  define d where "d = acl_local_auth env c"
  define e where "e = (if local_state d \<noteq> AUTH_LOCAL_STATE_ERROR then acl_rmt_auth env d else d)"
  have eq0: "recv_end_authenticate env c =
    (if local_state e = AUTH_LOCAL_STATE_ERROR \<or> rmt_state e = AUTH_RMT_STATE_ERROR
     then e\<lparr>rmt_auth_status := AUTH_STATUS_FAIL, phase := AUTH_PHASE_DONE\<rparr> else e)"
    unfolding recv_end_authenticate_def Let_def d_def e_def by (rule refl)
  note st = acl_invD(3) [OF inv]
  have l: "local_step c d"
    unfolding d_def using acl_invD(4) [OF inv] st ph by (intro acl_local_auth_step) (auto simp: states_ok_def)
  then have ldr: "local_rest d = local_rest c" and okd: "strings_ok d"
    and srd: "same_recv (recv_key_block c) (recv_key_block d)"
    by (auto simp: local_step_def)
  note ld = local_restD [OF ldr]
  have cfgd: "cfg_ok d" using acl_invD(1) [OF inv] okd ld by (simp add: cfg_ok_def)
  have keysd: "keys_ok tr d" using keys_ok_same_recv [OF acl_invD(2) [OF inv] acl_invD(4) [OF inv] srd] ld by simp
  have "rmt_state d \<notin> {AUTH_RMT_STATE_0, AUTH_RMT_STATE_ERROR}"
    using st ph ld(4) by (auto simp: states_ok_def)
  then have rs: "rmt_step d e" if "local_state d \<noteq> AUTH_LOCAL_STATE_ERROR"
    using that acl_rmt_auth_step [OF okd] by (simp add: e_def)
  have base: "cfg_ok e \<and> keys_ok tr e"
  proof (cases "local_state d = AUTH_LOCAL_STATE_ERROR")
    case True
    then show ?thesis using cfgd keysd by (simp add: e_def)
  next
    case False
    note r = rs [OF False]
    note re = rmt_restD [OF rmt_stepD(1) [OF r]]
    have "keys_ok tr e" using keys_ok_same_recv [OF keysd okd rmt_stepD(3) [OF r]] re by simp
    with cfgd rmt_stepD(2) [OF r] re show ?thesis by (simp add: cfg_ok_def)
  qed
  show ?thesis
  proof (cases "local_state e = AUTH_LOCAL_STATE_ERROR \<or> rmt_state e = AUTH_RMT_STATE_ERROR")
    case True
    with eq0 base show ?thesis by (simp add: inv_defs)
  next
    case False
    with eq0 have eq: "recv_end_authenticate env c = e" by simp
    from False have ne: "local_state d \<noteq> AUTH_LOCAL_STATE_ERROR" by (auto simp: e_def)
    note r = rs [OF ne]
    from ne have e': "e = acl_rmt_auth env d" by (simp add: e_def)
    from False have ne': "rmt_state e \<noteq> AUTH_RMT_STATE_ERROR" by simp
    have "states_ok e" by (rule states_ok_authenticate [OF st ph l r ne ne'])
    moreover have "auth_rmt e \<Longrightarrow> auth_rsp_flag e \<Longrightarrow> rmt_auth_status e = AUTH_STATUS_PASS \<Longrightarrow> verified D sess tr e"
      by (rule verified_authenticate [OF inv ph dl D s l ne e' ne'])
    ultimately show ?thesis
      using base eq ph ld(3) rmt_restD(3) [OF rmt_stepD(1) [OF r]] by (simp add: acl_inv_def)
  qed
qed

subsubsection \<open>Negotiation\<close>

lemma find_text_option_Some:
  "find_text_option f opts item = Some opt \<Longrightarrow> opt \<in> set opts \<and> f opt = Some item"
  by (induction f opts item rule: find_text_option.induct) (auto split: option.splits if_splits)

lemma scan_key_Some:
  "scan_key lookup v s = (s', Some opt) \<Longrightarrow> \<exists>item. lookup item = Some opt"
proof (induction lookup v s rule: scan_key.induct)
  case (1 lookup v s)
  show ?case
    using "1.prems" "1.IH" [OF _ refl refl]
    by (subst (asm) scan_key.simps) (auto simp: Let_def split: if_splits option.splits)
qed

definition neg_rest :: "iscsi_acl \<Rightarrow> iscsi_acl" where
  "neg_rest c = c\<lparr>negotiated_auth_method := 0, scratch_key_value := [],
     recv_key_block := key_block_zero, send_key_block := key_block_zero\<rparr>"

lemma chk_auth_method_ok:
  assumes "strings_ok c"
  shows "strings_ok (acl_chk_auth_method_key c)"
    and "same_recv (recv_key_block c) (recv_key_block (acl_chk_auth_method_key c))"
    and "send_key_block (acl_chk_auth_method_key c) = send_key_block c"
    and "neg_rest (acl_chk_auth_method_key c) = neg_rest c"
    and "negotiated_auth_method (acl_chk_auth_method_key c) \<in>
      {AUTH_OPTION_REJECT, AUTH_OPTION_NOT_PRESENT, AUTH_OPTION_NONE, AUTH_METHOD_CHAP}"
proof -
  let ?r = "recv_key_block c" and ?k = AUTH_KEY_TYPE_AUTH_METHOD
  let ?f = "find_text_option acl_authmethod_optn_to_text (auth_method_valid_list c)"
  from assms have ok: "key_blk_ok ?r" and sc: "is_cstr (scratch_key_value c)" by blast+
  define blk where "blk = fst (acl_get_key_val ?r ?k)"
  then have g: "acl_get_key_val ?r ?k = (blk, key_value ?r ?k)" by (simp add: key_value_def)
  have sr: "same_recv ?r blk" by (simp add: blk_def)
  obtain m s' where eq: "acl_chk_auth_method_key c =
      c\<lparr>recv_key_block := blk, scratch_key_value := s', negotiated_auth_method := m\<rparr>"
    and s': "is_cstr s'"
    and m: "m \<in> {AUTH_OPTION_REJECT, AUTH_OPTION_NOT_PRESENT, AUTH_OPTION_NONE, AUTH_METHOD_CHAP}"
  proof (cases "key_value ?r ?k")
    case None
    then show thesis
      using that [of AUTH_OPTION_NOT_PRESENT "scratch_key_value c"] g sc
      by (simp add: acl_chk_auth_method_key_def acl_chk_key_def)
  next
    case (Some v)
    then have "is_cstr v" using key_value_Some [OF ok key_lt(1)] by simp
    obtain s' opt where sk: "scan_key ?f v (scratch_key_value c) = (s', opt)" by force
    have "is_cstr s'" using scan_key_scratch [OF \<open>is_cstr v\<close> sc, of ?f] sk by simp
    show thesis
    proof (cases opt)
      case None
      then show thesis
        using that [of AUTH_OPTION_REJECT s'] g Some sk \<open>is_cstr s'\<close>
        by (simp add: acl_chk_auth_method_key_def acl_chk_key_def)
    next
      case (Some m)
      with sk obtain item where "acl_authmethod_optn_to_text m = Some item"
        using scan_key_Some find_text_option_Some by metis
      then have "m \<in> {AUTH_OPTION_REJECT, AUTH_OPTION_NONE, AUTH_METHOD_CHAP}"
        by (auto simp: acl_authmethod_optn_to_text_def split: if_splits)
      then show thesis
        using that [of m s'] g Some sk \<open>key_value ?r ?k = Some v\<close> \<open>is_cstr s'\<close>
        by (auto simp: acl_chk_auth_method_key_def acl_chk_key_def)
    qed
  qed
  show "strings_ok (acl_chk_auth_method_key c)"
    using eq s' assms sr by (simp add: strings_ok_def same_recv_def)
  show "same_recv ?r (recv_key_block (acl_chk_auth_method_key c))"
    "send_key_block (acl_chk_auth_method_key c) = send_key_block c"
    "neg_rest (acl_chk_auth_method_key c) = neg_rest c"
    "negotiated_auth_method (acl_chk_auth_method_key c) \<in>
      {AUTH_OPTION_REJECT, AUTH_OPTION_NOT_PRESENT, AUTH_OPTION_NONE, AUTH_METHOD_CHAP}"
    using eq sr m by (simp_all add: neg_rest_def)
qed

lemma acl_inv_next_phase_negotiate:
  assumes inv: "acl_inv D sess tr c" and ph: "phase c = AUTH_PHASE_NEGOTIATE"
    and m: "negotiated_auth_method c \<in>
      {AUTH_OPTION_REJECT, AUTH_OPTION_NOT_PRESENT, AUTH_OPTION_NONE, AUTH_METHOD_CHAP}"
  shows "acl_inv D sess tr (acl_next_phase c)"
proof -
  have nf: "\<not> auth_rsp_flag c" using acl_invD(3) [OF inv] ph by (simp add: states_ok_def)
  show ?thesis
  proof (cases "negotiated_auth_method c = AUTH_METHOD_CHAP")
    case True
    then have "acl_next_phase c = c\<lparr>phase := AUTH_PHASE_AUTHENTICATE,
        local_state := AUTH_LOCAL_STATE_SEND_ALG, rmt_state := AUTH_RMT_STATE_SEND_ALG\<rparr>"
      using ph by (simp add: acl_next_phase_def Let_def auth_option_defs)
    with inv nf show ?thesis by (simp add: inv_defs)
  next
    case False
    with m have "negotiated_auth_method c = AUTH_OPTION_REJECT \<or>
        negotiated_auth_method c = AUTH_OPTION_NOT_PRESENT \<or> negotiated_auth_method c = AUTH_OPTION_NONE"
      by blast
    with ph inv nf show ?thesis
      by (cases "auth_rmt c") (simp_all add: acl_next_phase_def Let_def inv_defs)
  qed
qed

lemma acl_inv_next_phase_authenticate:
  assumes "acl_inv D sess tr c" and "phase c = AUTH_PHASE_AUTHENTICATE"
    and "node_type c = TYPE_INITIATOR \<Longrightarrow> rmt_state c = AUTH_RMT_STATE_DONE"
  shows "acl_inv D sess tr (acl_next_phase c)"
  using assms by (simp add: acl_next_phase_def inv_defs)

lemma acl_inv_begin_negotiate:
  assumes "acl_inv D sess tr c" and "phase c = AUTH_PHASE_CONFIGURE"
  shows "acl_inv D sess tr (acl_next_phase c)"
  using assms by (simp add: acl_next_phase_def inv_defs)

lemma acl_inv_set_key:
  assumes inv: "acl_inv D sess tr c" and "k < AUTH_KEY_TYPE_MAX_COUNT"
  shows "acl_inv D sess tr (set_send_key c k None)"
    and "is_cstr v \<Longrightarrow> acl_inv D sess tr (set_send_key c k (Some v))"
  using assms acl_invD(4) [OF inv] by (auto simp: set_send_key_def intro!: acl_inv_send)

lemma acl_inv_scratch:
  "acl_inv D sess tr c \<Longrightarrow> is_cstr s \<Longrightarrow> acl_inv D sess tr (c\<lparr>scratch_key_value := s\<rparr>)"
  by (simp add: inv_defs strings_ok_def verified_def response_ok_def)

lemma acl_inv_set_auth_method:
  assumes inv: "acl_inv D sess tr c"
  shows "acl_inv D sess tr (acl_set_auth_method_key c ms)"
proof -
  have "is_cstr (join_options acl_authmethod_optn_to_text 0 ms (scratch_key_value c))"
    using acl_invD(4) [OF inv] auth_method_text_cstr by (intro join_options_cstr) blast+
  moreover have "is_cstr acl_none_option_name" by (simp add: acl_none_option_name_def)
  ultimately show ?thesis
    using inv
    by (auto simp: acl_set_auth_method_key_def acl_set_key_def Let_def intro!: acl_inv_set_key acl_inv_scratch)
qed

lemma set_auth_method_frame [simp]:
  "phase (acl_set_auth_method_key c ms) = phase c"
  "node_type (acl_set_auth_method_key c ms) = node_type c"
  "negotiated_auth_method (acl_set_auth_method_key c ms) = negotiated_auth_method c"
  "session_handle (acl_set_auth_method_key c ms) = session_handle c"
  "recv_key_block (acl_set_auth_method_key c ms) = recv_key_block c"
  "auth_rmt (acl_set_auth_method_key c ms) = auth_rmt c"
  "auth_method_valid_neg_role (acl_set_auth_method_key c ms) = auth_method_valid_neg_role c"
  by (simp_all add: acl_set_auth_method_key_def acl_set_key_def set_send_key_def Let_def)

lemma neg_restD:
  assumes "neg_rest c = neg_rest d"
  shows "phase c = phase d" "node_type c = node_type d" "auth_rmt c = auth_rmt d"
    "auth_method_valid_neg_role c = auth_method_valid_neg_role d" "session_handle c = session_handle d"
    "auth_method_valid_list c = auth_method_valid_list d"
  using arg_cong [OF assms, of phase] arg_cong [OF assms, of node_type] arg_cong [OF assms, of auth_rmt]
    arg_cong [OF assms, of auth_method_valid_neg_role] arg_cong [OF assms, of session_handle]
    arg_cong [OF assms, of auth_method_valid_list]
  by (simp_all add: neg_rest_def)

lemma acl_inv_neg_rest:
  assumes inv: "acl_inv D sess tr c" and "neg_rest d = neg_rest c"
    and sr: "same_recv (recv_key_block c) (recv_key_block d)" and ok: "strings_ok d"
  shows "acl_inv D sess tr d"
proof -
  have d: "d = c\<lparr>negotiated_auth_method := negotiated_auth_method d, scratch_key_value := scratch_key_value d,
      recv_key_block := recv_key_block d, send_key_block := send_key_block d\<rparr>"
    using assms(2) by (cases c, cases d) (simp add: neg_rest_def)
  let ?c1 = "c\<lparr>negotiated_auth_method := negotiated_auth_method d\<rparr>"
  let ?c2 = "?c1\<lparr>scratch_key_value := scratch_key_value d\<rparr>"
  let ?c3 = "?c2\<lparr>recv_key_block := recv_key_block d\<rparr>"
  have "acl_inv D sess tr ?c1" using inv by (simp add: inv_defs verified_def response_ok_def)
  then have "acl_inv D sess tr ?c2" using ok by (intro acl_inv_scratch) blast+
  then have "acl_inv D sess tr ?c3" using sr by (intro acl_inv_same_recv) simp_all
  then have "acl_inv D sess tr (?c3\<lparr>send_key_block := send_key_block d\<rparr>)"
    using ok by (intro acl_inv_send) blast+
  then show ?thesis by (subst d)
qed

lemma acl_inv_chk_auth_method:
  "acl_inv D sess tr c \<Longrightarrow> acl_inv D sess tr (acl_chk_auth_method_key c)"
  using acl_inv_neg_rest chk_auth_method_ok acl_invD(4) by metis

text \<open>The negotiation keeps the invariant; when it asks for the next phase, the method is one that
  \<open>acl_next_phase\<close> knows.\<close>

lemma acl_inv_negotiate:
  assumes inv: "acl_inv D sess tr c" and ph: "phase c = AUTH_PHASE_NEGOTIATE"
    and eq: "recv_end_negotiate c = (d, flag)"
  shows "acl_inv D sess tr d"
    and "flag \<Longrightarrow> phase d = AUTH_PHASE_NEGOTIATE \<and> negotiated_auth_method d \<in>
      {AUTH_OPTION_REJECT, AUTH_OPTION_NOT_PRESENT, AUTH_OPTION_NONE, AUTH_METHOD_CHAP}"
proof -
  define b where "b = acl_chk_auth_method_key c"
  have b: "acl_inv D sess tr b" unfolding b_def by (rule acl_inv_chk_auth_method [OF inv])
  note chk = chk_auth_method_ok [OF acl_invD(4) [OF inv], folded b_def]
  note fr = neg_restD [OF chk(4)]
  define b' where "b' = (if negotiated_auth_method b = AUTH_OPTION_NOT_PRESENT then b
                         else acl_set_auth_method_key b [negotiated_auth_method b])"
  have b': "acl_inv D sess tr b'" "phase b' = phase b" "negotiated_auth_method b' = negotiated_auth_method b"
      "node_type b' = node_type b"
    using b by (simp_all add: b'_def acl_inv_set_auth_method)
  have role: "acl_inv D sess tr (b\<lparr>auth_method_valid_neg_role := AUTH_NEG_ROLE_ORIGINATOR\<rparr>)"
    using b by (simp add: inv_defs verified_def response_ok_def)
  have np: "acl_inv D sess tr (acl_next_phase b)" "acl_inv D sess tr (acl_next_phase b')"
    using acl_inv_next_phase_negotiate [OF b] acl_inv_next_phase_negotiate [OF b'(1)] chk(5) ph fr b' by simp_all
  have e: "(d, flag) =
    (if auth_method_valid_neg_role b = AUTH_NEG_ROLE_RESPONDER
     then (if negotiated_auth_method b = AUTH_OPTION_NOT_PRESENT \<and>
              (auth_rmt b \<or> \<not> transit_bit (recv_key_block b))
           then (acl_set_auth_method_key (b\<lparr>auth_method_valid_neg_role := AUTH_NEG_ROLE_ORIGINATOR\<rparr>)
                   (auth_method_valid_list b), False)
           else if node_type b' = TYPE_INITIATOR then (acl_next_phase b', False) else (b', True))
     else if negotiated_auth_method b = AUTH_OPTION_NOT_PRESENT
     then (fail_done b AUTH_DBG_STATUS_AUTH_METHOD_EXPECTED, False)
     else (acl_next_phase b, False))"
    unfolding eq [symmetric] recv_end_negotiate_def Let_def b_def b'_def by (rule refl)
  show "acl_inv D sess tr d"
    using e b b'(1) np acl_inv_fail_done [OF b] acl_inv_set_auth_method [OF role]
    by (auto split: if_splits)
  show "flag \<Longrightarrow> phase d = AUTH_PHASE_NEGOTIATE \<and> negotiated_auth_method d \<in>
      {AUTH_OPTION_REJECT, AUTH_OPTION_NOT_PRESENT, AUTH_OPTION_NONE, AUTH_METHOD_CHAP}"
    using e b' chk(5) fr(1) ph by (auto split: if_splits)
qed

subsubsection \<open>The end of a message\<close>

lemma acl_inv_send_t_bit: "acl_inv D sess tr c \<Longrightarrow> acl_inv D sess tr (send_t_bit c)"
  using acl_invD(4) [of D sess tr c]
  by (auto simp: send_t_bit_def set_transit_def intro!: acl_inv_send)

lemma acl_inv_hand_shake:
  assumes inv: "acl_inv D sess tr c"
    and ph: "phase c \<in> {AUTH_PHASE_NEGOTIATE, AUTH_PHASE_AUTHENTICATE, AUTH_PHASE_DONE}"
  shows "acl_inv D sess tr (acl_hand_shake c)"
proof (cases "phase c = AUTH_PHASE_AUTHENTICATE")
  case True
  have "acl_inv D sess tr (acl_next_phase c)" if "node_type c = TYPE_INITIATOR \<Longrightarrow> rmt_state c = AUTH_RMT_STATE_DONE"
    using acl_inv_next_phase_authenticate [OF inv True that] .
  moreover have "acl_inv D sess tr (acl_next_phase (send_t_bit c))" if "node_type c \<noteq> TYPE_INITIATOR"
    using acl_inv_next_phase_authenticate [OF acl_inv_send_t_bit [OF inv]] True that
    by (simp add: send_t_bit_def)
  ultimately show ?thesis
    using inv True acl_inv_fail_done [OF inv] acl_inv_send_t_bit [OF inv]
    by (simp add: acl_hand_shake_def)
next
  case False
  with ph have "phase c = AUTH_PHASE_NEGOTIATE \<or> phase c = AUTH_PHASE_DONE" by simp
  then show ?thesis
    using inv acl_inv_fail_done [OF inv] acl_inv_send_t_bit [OF inv]
    by (auto simp: acl_hand_shake_def)
qed


lemma rcv_end_sanity_inv:
  assumes "acl_inv D sess tr c" and "rcv_end_sanity c = (d, st)"
  shows "acl_inv D sess tr d" and "phase d = phase c"
    and "st = (if phase c = AUTH_PHASE_DONE then rmt_auth_status d else AUTH_STATUS_CONTINUE)"
    and "st = AUTH_STATUS_PASS \<Longrightarrow> auth_rmt d \<Longrightarrow> auth_rsp_flag d"
  using assms acl_inv_fail [OF assms(1)] by (auto simp: rcv_end_sanity_def Let_def split: if_splits)

lemma rcv_end_blocks_inv:
  assumes "acl_inv D sess tr c" and "rcv_end_blocks (c, st) = (d, st')"
  shows "acl_inv D sess tr d"
    and "st' \<in> {AUTH_STATUS_PASS, AUTH_STATUS_CONTINUE} \<Longrightarrow> d = c \<and> st' = st"
  using assms acl_inv_fail_done [OF assms(1)] by (auto simp: rcv_end_blocks_def split: if_splits)

lemma suppress_send_keys_inv:
  assumes inv: "acl_inv D sess tr c"
  shows "acl_inv D sess tr (suppress_send_keys c)"
proof -
  have "length (str_block (send_key_block c)) = AUTH_STR_BLOCK_MAX_LEN"
    using acl_invD(4) [OF inv] by (simp add: strings_ok_def key_blk_ok_def)
  then have "acl_inv D sess tr (c\<lparr>send_key_block := acl_init_key_blk (send_key_block c)\<rparr>)"
    by (intro acl_inv_send [OF inv]) simp
  moreover have "is_cstr acl_reject_option_name" by (simp add: acl_reject_option_name_def)
  ultimately show ?thesis
    by (auto simp: suppress_send_keys_def Let_def split: prod.splits intro!: acl_inv_set_key)
qed

text \<open>The status a message ends with, on a client that keeps the invariant.\<close>

lemma rcv_end_status_inv:
  assumes inv: "acl_inv D sess tr c" and eq: "acl_rcv_end_status c = (d, st)"
  shows "acl_inv D sess tr d \<and> (phase c = AUTH_PHASE_ERROR \<longrightarrow> st = AUTH_STATUS_ERROR) \<and>
      (st = AUTH_STATUS_PASS \<longrightarrow> phase c = AUTH_PHASE_DONE \<and> (auth_rmt d \<longrightarrow> verified D sess tr d)) \<and>
      (st = AUTH_STATUS_CONTINUE \<longrightarrow> phase c \<noteq> AUTH_PHASE_ERROR \<and>
        (phase c = AUTH_PHASE_DONE \<longrightarrow> rmt_auth_status c = AUTH_STATUS_CONTINUE))"
proof (cases "phase c = AUTH_PHASE_ERROR")
  case True
  with eq inv show ?thesis by (simp add: acl_rcv_end_status_def)
next
  case False
  obtain a s1 where a: "rcv_end_sanity c = (a, s1)" by force
  obtain b s2 where b: "rcv_end_blocks (a, s1) = (b, s2)" by force
  note sa = rcv_end_sanity_inv [OF inv a]
  note sb = rcv_end_blocks_inv [OF sa(1) b]
  have d: "d = (if s2 \<noteq> AUTH_STATUS_PASS \<and> s2 \<noteq> AUTH_STATUS_CONTINUE then suppress_send_keys b else b)
      \<lparr>recv_in_progress_flag := False\<rparr>" and st: "st = s2"
    using eq False a b by (auto simp: acl_rcv_end_status_def Let_def)
  have "acl_inv D sess tr d" using d sb(1) suppress_send_keys_inv [OF sb(1)] by simp
  moreover have "phase c = AUTH_PHASE_DONE \<and> (auth_rmt d \<longrightarrow> verified D sess tr d)" if "s2 = AUTH_STATUS_PASS"
    using that sb(2) sa d acl_invD(9) [OF sb(1)] by (auto split: if_splits)
  moreover have "rmt_auth_status c = AUTH_STATUS_CONTINUE" if "s2 = AUTH_STATUS_CONTINUE" "phase c = AUTH_PHASE_DONE"
    using that sb(2) a by (auto simp: rcv_end_sanity_def Let_def split: if_splits)
  ultimately show ?thesis
    using False st by blast
qed

lemma recv_end_start_frame [simp]:
  "session_handle (recv_end_start c s) = s"
  "recv_end_count (recv_end_start c s) = recv_end_count c + 1"
  "node_type (recv_end_start c s) = node_type c"
  "auth_rmt (recv_end_start c s) = auth_rmt c"
  "recv_key_block (recv_end_start c s) = recv_key_block c"
  "send_key_block (recv_end_start c s) = send_key_block c"
  "transit_bit_sent_flag (recv_end_start c s) = transit_bit_sent_flag c"
  "auth_method_valid_neg_role (recv_end_start c s) = auth_method_valid_neg_role c"
  "phase (recv_end_start c s) = phase c \<or> phase (recv_end_start c s) = AUTH_PHASE_DONE"
  by (simp_all add: recv_end_start_def recv_end_limits_def fail_done_def Let_def)

lemma recv_end_start_inv: "acl_inv D sess tr c \<Longrightarrow> acl_inv D sess tr (recv_end_start c s)"
  by (simp add: recv_end_start_def Let_def acl_inv_limits)

lemma negotiate_session: "recv_end_negotiate c = (d, flag) \<Longrightarrow> strings_ok c \<Longrightarrow> session_handle d = session_handle c"
proof -
  assume eq: "recv_end_negotiate c = (d, flag)" and ok: "strings_ok c"
  have "session_handle (acl_chk_auth_method_key c) = session_handle c"
    by (rule neg_restD(5) [OF chk_auth_method_ok(4) [OF ok]])
  moreover have "session_handle (acl_next_phase e) = session_handle e" for e
    by (simp add: acl_next_phase_def Let_def split: auth_phase.splits)
  ultimately show ?thesis
    using eq by (auto simp: recv_end_negotiate_def Let_def fail_done_def split: if_splits)
qed

lemma next_phase_negotiate_phase:
  "phase c = AUTH_PHASE_NEGOTIATE \<Longrightarrow>
   phase (acl_next_phase c) = AUTH_PHASE_AUTHENTICATE \<or> phase (acl_next_phase c) = AUTH_PHASE_DONE"
  by (simp add: acl_next_phase_def Let_def)

lemma recv_end_process_inv:
  assumes inv: "acl_inv D sess tr c" and dl: "digest_lengths D" and D: "EVP_digest env = D"
    and s: "session_handle c = Some sess" and eq: "recv_end_process env c = (d, known)"
  shows "acl_inv D sess tr d \<and>
    (known \<longrightarrow> phase d \<in> {AUTH_PHASE_NEGOTIATE, AUTH_PHASE_AUTHENTICATE, AUTH_PHASE_DONE})"
proof -
  obtain b flag where b: "(if phase c = AUTH_PHASE_NEGOTIATE then recv_end_negotiate c else (c, False)) = (b, flag)"
    by force
  have b1: "acl_inv D sess tr b" and b2: "session_handle b = Some sess"
    and b3: "flag \<Longrightarrow> acl_inv D sess tr (acl_next_phase b)"
    using b inv s acl_inv_negotiate [OF inv] negotiate_session acl_invD(4) [OF inv]
      acl_inv_next_phase_negotiate [of D sess tr b]
    by (auto split: if_splits)
  note auth = acl_inv_authenticate [OF b1 _ dl D b2]
  show ?thesis
  proof (cases "phase b")
    case AUTH_PHASE_NEGOTIATE
    with eq b b1 b3 next_phase_negotiate_phase [of b] show ?thesis
      by (auto simp: recv_end_process_def split: if_splits)
  next
    case AUTH_PHASE_AUTHENTICATE
    with eq b auth show ?thesis by (auto simp: recv_end_process_def)
  qed (use eq b b1 in \<open>auto simp: recv_end_process_def\<close>)
qed

text \<open>One call of \<open>acl_recv_end\<close>: either an error, or the handshake and the final checks on a client
  that keeps the invariant.\<close>

lemma acl_recv_end_cases:
  assumes inv: "acl_inv D sess tr c" and dl: "digest_lengths D" and D: "EVP_digest env = D"
    and eq: "acl_recv_end env c (Some sess) = (c', st)"
  obtains (error) "st = AUTH_STATUS_ERROR" and "acl_inv D sess tr c'"
  | (handshake) d where "recv_end_process env (recv_end_start c (Some sess)) = (d, True)"
      and "acl_inv D sess tr d"
      and "phase d \<in> {AUTH_PHASE_NEGOTIATE, AUTH_PHASE_AUTHENTICATE, AUTH_PHASE_DONE}"
      and "acl_rcv_end_status (acl_hand_shake d) = (c', st)"
      and "recv_in_progress_flag c" and "phase c \<noteq> AUTH_PHASE_ERROR"
proof (cases "phase c = AUTH_PHASE_ERROR \<or> \<not> recv_in_progress_flag c")
  case True
  with eq inv acl_inv_error [OF inv] acl_invD(5) [OF inv] show thesis
    by (intro error) (auto simp: acl_recv_end_def acl_error_def split: if_splits)
next
  case False
  obtain d known where d: "recv_end_process env (recv_end_start c (Some sess)) = (d, known)" by force
  note i = recv_end_process_inv [OF recv_end_start_inv [OF inv] dl D recv_end_start_frame(1) d]
  show thesis
  proof (cases known)
    case True
    with d i False eq acl_invD(5) [OF inv] show thesis
      by (intro handshake [of d]) (auto simp: acl_recv_end_def)
  next
    case F: False
    with d i False eq acl_invD(5) [OF inv] acl_inv_error show thesis
      by (intro error) (auto simp: acl_recv_end_def acl_error_def acl_inv_phase_error)
  qed
qed

lemma acl_recv_end_inv:
  assumes inv: "acl_inv D sess tr c" and dl: "digest_lengths D" and D: "EVP_digest env = D"
  shows "acl_inv D sess tr (fst (acl_recv_end env c (Some sess)))"
proof -
  obtain c' st where eq: "acl_recv_end env c (Some sess) = (c', st)" by force
  from inv dl D eq show ?thesis
  proof (cases rule: acl_recv_end_cases)
    case error
    then show ?thesis by (simp add: eq)
  next
    case (handshake d)
    from rcv_end_status_inv [OF acl_inv_hand_shake [OF handshake(2,3)] handshake(4)]
    show ?thesis unfolding eq fst_conv by blast
  qed
qed

subsubsection \<open>The other operations\<close>

lemma recv_begin_reset_inv:
  assumes "acl_inv D sess tr c"
  shows "acl_inv D sess tr (recv_begin_reset c)"
  using assms by (simp add: recv_begin_reset_def inv_defs strings_ok_def key_blk_okD(2))

lemma acl_recv_begin_inv:
  assumes inv: "acl_inv D sess tr c"
  shows "acl_inv D sess tr (fst (acl_recv_begin c))"
proof -
  let ?c = "c\<lparr>recv_in_progress_flag := True\<rparr>"
  have "acl_inv D sess tr (acl_next_phase ?c)" if "phase c = AUTH_PHASE_CONFIGURE"
    using inv that by (intro acl_inv_begin_negotiate) simp_all
  with inv acl_inv_error [OF inv] show ?thesis
    by (simp add: acl_recv_begin_def Let_def recv_begin_reset_inv)
qed

lemma acl_recv_key_value_inv:
  assumes inv: "acl_inv D sess tr c" and v: "is_cstr v"
  shows "acl_inv D sess ((k, v) # tr) (fst (acl_recv_key_value c k v))"
proof (cases "signature c \<noteq> ACL_SIGNATURE \<or>
    (phase c \<noteq> AUTH_PHASE_NEGOTIATE \<and> phase c \<noteq> AUTH_PHASE_AUTHENTICATE) \<or> \<not> key_type_ok k")
  case True
  then show ?thesis
    using acl_inv_mono [OF inv] acl_inv_error [OF acl_inv_mono [OF inv]]
    by (auto simp: acl_recv_key_value_def)
next
  case F: False
  then have k: "0 \<le> k" "nat k < AUTH_KEY_TYPE_MAX_COUNT" "int (nat k) = k"
    by (auto simp: key_type_ok_def KEYS AUTH_KEY_TYPE_FIRST_def AUTH_KEY_TYPE_LAST_def)
  have kb: "key_blk_ok (recv_key_block c)" using acl_invD(4) [OF inv] by blast
  note kv = key_value_set(1) [OF kb k(2)]
  show ?thesis
  proof (cases "k = int AUTH_KEY_TYPE_CHAP_CHALLENGE")
    case False
    then have eq: "fst (acl_recv_key_value c k v) =
        c\<lparr>recv_key_block := acl_set_key_value (recv_key_block c) (nat k) (Some v)\<rparr>"
      using F by (auto simp: acl_recv_key_value_def)
    have "keys_ok ((k, v) # tr) (fst (acl_recv_key_value c k v))"
      unfolding eq using keys_ok_mono [OF acl_invD(2) [OF inv], of "(k, v)"] k False v
      by (auto simp: keys_ok_def kv split: if_splits)
    then show ?thesis
      using acl_inv_mono [OF inv, of "(k, v)"] key_blk_ok_set(1) [OF kb k(2) v]
      unfolding eq by (simp add: acl_inv_def cfg_ok_def states_ok_def strings_ok_def)
  next
    case True
    obtain s data where dec: "acl_text_to_data v AUTH_LARGE_BINARY_MAX_LEN = (s, data)" by force
    have len: "length data \<le> AUTH_LARGE_BINARY_MAX_LEN" using acl_text_to_data_bound [OF dec] by blast
    let ?ch = "\<lparr>lb_length = if s = 0 then length data else AUTH_LARGE_BINARY_MAX_LEN,
        large_binary = overlay (large_binary (recv_chap_challenge c)) 0 data\<rparr>"
    have eq: "fst (acl_recv_key_value c k v) = c\<lparr>recv_chap_challenge_status := s, recv_chap_challenge := ?ch,
        recv_key_block := acl_set_key_value (recv_key_block c) (nat k) (Some [])\<rparr>"
      using F True dec by (auto simp: acl_recv_key_value_def)
    have ll: "length (large_binary (recv_chap_challenge c)) = AUTH_LARGE_BINARY_MAX_LEN"
      using acl_invD(1) [OF inv] by (simp add: cfg_ok_def)
    have ch: "s = 0 \<Longrightarrow> challenge_bytes ?ch = data" by (simp add: challenge_bytes_def overlay_def)
    have "keys_ok ((k, v) # tr) (fst (acl_recv_key_value c k v))"
      unfolding eq using keys_ok_mono [OF acl_invD(2) [OF inv], of "(k, v)"] True dec ch
      by (auto simp: keys_ok_def key_value_set(1) [OF kb key_lt(6) _ is_cstr_Nil] split: if_splits)
    moreover have "length (overlay (large_binary (recv_chap_challenge c)) 0 data) = AUTH_LARGE_BINARY_MAX_LEN"
      using len ll by (simp add: length_overlay)
    ultimately show ?thesis
      using acl_inv_mono [OF inv, of "(k, v)"] key_blk_ok_set(1) [OF kb k(2) is_cstr_Nil]
      unfolding eq by (simp add: acl_inv_def cfg_ok_def states_ok_def strings_ok_def)
  qed
qed

lemma acl_recv_transit_bit_inv:
  assumes inv: "acl_inv D sess tr c"
  shows "acl_inv D sess tr (fst (acl_recv_transit_bit c b))"
proof -
  have "acl_inv D sess tr (c\<lparr>recv_key_block := set_transit b (recv_key_block c)\<rparr>)"
    using inv by (simp add: inv_defs strings_ok_def set_transit_def)
  with inv acl_inv_error [OF inv] show ?thesis by (simp add: acl_recv_transit_bit_def)
qed

lemma acl_send_key_val_client:
  fixes c k
  defines "d \<equiv> c\<lparr>send_key_block := fst (acl_get_key_val (send_key_block c) (nat k))\<rparr>"
  shows "fst (acl_send_key_val c k n) \<in>
    {c, c\<lparr>phase := AUTH_PHASE_ERROR\<rparr>, d, d\<lparr>phase := AUTH_PHASE_ERROR\<rparr>}"
proof -
  obtain v where g: "acl_get_key_val (send_key_block c) (nat k) = (send_key_block d, v)"
    by (cases "acl_get_key_val (send_key_block c) (nat k)") (simp add: d_def)
  have d: "c\<lparr>send_key_block := send_key_block d\<rparr> = d" by (simp add: d_def)
  show ?thesis
  proof (cases v)
    case None
    then show ?thesis by (simp add: acl_send_key_val_def g Let_def d)
  next
    case (Some w)
    then show ?thesis
      by (cases "acl_data_to_text (challenge_bytes (send_chap_challenge d)) n"; cases "strlcpy w n")
         (simp add: acl_send_key_val_def g Let_def d)
  qed
qed

lemma acl_send_key_val_inv:
  assumes inv: "acl_inv D sess tr c"
  shows "acl_inv D sess tr (fst (acl_send_key_val c k n))"
proof -
  have "acl_inv D sess tr (c\<lparr>send_key_block := fst (acl_get_key_val (send_key_block c) (nat k))\<rparr>)"
    using acl_invD(4) [OF inv] by (intro acl_inv_send [OF inv]) blast
  with acl_send_key_val_client [of c k n] inv show ?thesis
    using acl_inv_phase_error by (elim insertE) (simp_all only: empty_iff)
qed

lemma acl_set_auth_method_valid_inv:
  assumes inv: "acl_inv D sess tr (c\<lparr>auth_method_valid_neg_role := r\<rparr>)"
    and ph: "phase c = AUTH_PHASE_CONFIGURE"
  shows "acl_inv D sess tr (acl_set_auth_method_valid c)"
proof -
  define blk where "blk = set_transit (node_type c = TYPE_INITIATOR \<and> \<not> auth_rmt c)
    (acl_init_key_blk (send_key_block c))"
  have "key_blk_ok (send_key_block c)" using acl_invD(4) [OF inv] by (simp add: strings_ok_def)
  then have "key_blk_ok blk" by (simp add: blk_def set_transit_def key_blk_okD(2))
  then have "acl_inv D sess tr (c\<lparr>auth_method_valid_list := auth_method_valid c, send_key_block := blk,
      auth_method_valid_neg_role := auth_method_role c\<rparr>)"
    using inv ph by (simp add: inv_defs strings_ok_def auth_method_role_def)
  from acl_inv_set_auth_method [OF this] show ?thesis
    by (cases "auth_method_role c = AUTH_NEG_ROLE_ORIGINATOR")
       (simp_all add: acl_set_auth_method_valid_def Let_def blk_def)
qed

lemma acl_inv_configure:
  assumes "acl_inv D sess tr c" and "phase c = AUTH_PHASE_CONFIGURE"
  shows "\<not> auth_rsp_flag c"
  using assms by (simp add: inv_defs)

lemma acl_set_user_name_inv:
  assumes inv: "acl_inv D sess tr c" and u: "\<And>s. u = Some s \<Longrightarrow> is_cstr s"
  shows "acl_inv D sess tr (fst (acl_set_user_name c u))"
proof -
  have ok: "acl_inv D sess tr (c\<lparr>username := s\<rparr>)" if "is_cstr s" "length s < AUTH_STR_MAX_LEN" for s
    using inv that by (simp add: inv_defs strings_ok_def verified_def response_ok_def)
  have "\<exists>s. fst (acl_set_user_name c u) \<in> {c, c\<lparr>phase := AUTH_PHASE_ERROR\<rparr>, c\<lparr>username := s\<rparr>} \<and>
      is_cstr s \<and> length s < AUTH_STR_MAX_LEN"
  proof (cases u)
    case None
    then show ?thesis
      by (intro exI [of _ "[]"]) (auto simp: acl_set_user_name_def acl_error_def AUTH_STR_MAX_LEN_def)
  next
    case (Some s)
    then show ?thesis
      using u [OF Some]
      by (cases "length s < AUTH_STR_MAX_LEN")
         (auto simp: acl_set_user_name_def acl_error_def strlcpy_eq AUTH_STR_MAX_LEN_def Let_def
           intro: exI [of _ s] exI [of _ "[]"])
  qed
  with inv ok acl_inv_phase_error [OF inv] show ?thesis by fastforce
qed

lemma acl_set_passwd_inv:
  assumes inv: "acl_inv D sess tr c"
  shows "acl_inv D sess tr (fst (acl_set_passwd c pw))"
proof (cases "phase c = AUTH_PHASE_CONFIGURE \<and> length pw \<le> AUTH_STR_MAX_LEN")
  case True
  then have "acl_inv D sess tr (c\<lparr>passwd_data := pw, passwd_present := True\<rparr>)"
    using inv acl_inv_configure [OF inv] by (simp add: inv_defs)
  then have "acl_inv D sess tr (acl_set_auth_method_valid (c\<lparr>passwd_data := pw, passwd_present := True\<rparr>))"
    using True by (intro acl_set_auth_method_valid_inv [where r = "auth_method_valid_neg_role c"]) simp_all
  then show ?thesis using True inv by (simp add: acl_set_passwd_def)
next
  case False
  then show ?thesis using inv acl_inv_error [OF inv] by (auto simp: acl_set_passwd_def)
qed

lemma acl_set_auth_rmt_inv:
  assumes inv: "acl_inv D sess tr c"
  shows "acl_inv D sess tr (fst (acl_set_auth_rmt c b))"
proof (cases "phase c = AUTH_PHASE_CONFIGURE")
  case True
  have "acl_inv D sess tr (c\<lparr>auth_rmt := b, auth_method_valid_neg_role := AUTH_NEG_ROLE_ORIGINATOR\<rparr>)"
    using inv True acl_inv_configure [OF inv True] by (simp add: inv_defs)
  then have "acl_inv D sess tr (acl_set_auth_method_valid (c\<lparr>auth_rmt := b\<rparr>))"
    using True by (intro acl_set_auth_method_valid_inv) simp_all
  then show ?thesis using True inv by (simp add: acl_set_auth_rmt_def)
next
  case False
  then show ?thesis using inv acl_inv_error [OF inv] by (auto simp: acl_set_auth_rmt_def)
qed

lemma acl_set_ip_sec_inv:
  assumes inv: "acl_inv D sess tr c"
  shows "acl_inv D sess tr (fst (acl_set_ip_sec c b))"
proof -
  have "acl_inv D sess tr (c\<lparr>ip_sec := b\<rparr>)" using inv by (simp add: inv_defs verified_def response_ok_def)
  with inv acl_inv_error [OF inv] show ?thesis by (simp add: acl_set_ip_sec_def)
qed

lemma acl_set_chap_alg_list_inv:
  assumes inv: "acl_inv D sess tr c"
  shows "acl_inv D sess tr (fst (acl_set_chap_alg_list c algs))"
proof -
  have "acl_inv D sess tr (c\<lparr>chap_alg_list := algs\<rparr>)"
    using inv by (simp add: inv_defs verified_def response_ok_def)
  with inv acl_inv_error [OF inv] show ?thesis
    by (simp add: acl_set_chap_alg_list_def acl_set_option_list_def)
qed

lemma acl_query_inv:
  assumes inv: "acl_inv D sess tr c"
  shows "acl_inv D sess tr (fst (acl_send_transit_bit c))" and "acl_inv D sess tr (fst (acl_get_dbg_status c))"
  using inv acl_inv_phase_error [OF inv] by (simp_all add: acl_send_transit_bit_def acl_get_dbg_status_def)

lemma acl_init_inv:
  assumes eq: "acl_init sz node descs = (Some c, AUTH_STATUS_NO_ERROR)"
  shows "acl_inv D sess [] c"
proof -
  have "key_blk_ok (key_block_zero\<lparr>str_block := replicate AUTH_STR_BLOCK_MAX_LEN NUL\<rparr>)"
    by (simp add: key_blk_ok_def key_block_zero_def auth_key_zero_def)
  moreover have "key_value (key_block_zero\<lparr>str_block := replicate AUTH_STR_BLOCK_MAX_LEN NUL\<rparr>) k = None"
    if "k < AUTH_KEY_TYPE_MAX_COUNT" for k
    using that by (simp add: key_value_eq key_block_zero_def auth_key_zero_def)
  ultimately have "acl_inv D sess [] ((acl_init_client nt)\<lparr>auth_method_list := ms, auth_method_valid_neg_role := AUTH_NEG_ROLE_ORIGINATOR\<rparr>)"
    for nt ms
    by (simp add: acl_init_client_def acl_init_base_def acl_zero_def inv_defs strings_ok_def AUTH_STR_MAX_LEN_def Let_def)
  then have "acl_inv D sess [] (acl_set_auth_method_valid ((acl_init_client nt)\<lparr>auth_method_list := ms\<rparr>))" for nt ms
    by (rule acl_set_auth_method_valid_inv) (simp add: acl_init_client_def)
  moreover obtain nt ms where "c = acl_set_auth_method_valid ((acl_init_client nt)\<lparr>auth_method_list := ms\<rparr>)"
    using eq
    by (auto simp: acl_init_def acl_set_auth_method_list_def acl_set_option_list_def acl_error_def
        split: option.splits if_splits)
  ultimately show ?thesis by simp
qed

lemma acl_run_inv:
  assumes "acl_run D sess tr c" and "digest_lengths D"
  shows "acl_inv D sess tr c"
  using assms
  by (induction rule: acl_run.induct)
     (simp_all add: acl_init_inv acl_set_user_name_inv acl_set_passwd_inv acl_set_auth_rmt_inv
        acl_set_ip_sec_inv acl_set_chap_alg_list_inv acl_recv_begin_inv acl_recv_key_value_inv
        acl_recv_transit_bit_inv acl_recv_end_inv acl_send_key_val_inv acl_query_inv)

end
