(* ===== verification/Auth_View.thy ===== *)
theory Auth_View
  imports Auth_Invariant
begin

text \<open>
  The abstract view of a key block of \<open>usr/auth.c\<close>: the byte-level string block with its array of
  key descriptors implements a finite map from key types to texts, with a set of processed keys, a
  set of keys already written and the number of bytes in use. \<open>view_of\<close> is the abstraction
  function; initialising a block, \<open>acl_set_key_value\<close>, \<open>acl_get_key_val\<close> and the search for an
  unprocessed key are simulated by \<open>view_init\<close>, \<open>view_set\<close>, \<open>view_get\<close> and a test on sets.
\<close>

record key_view =
  kv_vals :: "nat \<Rightarrow> string option"
  kv_read :: "nat set"
  kv_written :: "nat set"
  kv_used :: nat
  kv_transit :: bool
  kv_dup :: bool
  kv_long :: bool
  kv_full :: bool

definition view_of :: "auth_key_block \<Rightarrow> key_view" where
  "view_of blk =
     \<lparr>kv_vals = (\<lambda>k. if k < AUTH_KEY_TYPE_MAX_COUNT then key_value blk k else None),
      kv_read = {k. k < AUTH_KEY_TYPE_MAX_COUNT \<and> processed (key blk ! k)},
      kv_written = {k. k < AUTH_KEY_TYPE_MAX_COUNT \<and> value_set (key blk ! k)},
      kv_used = blk_length blk, kv_transit = transit_bit blk, kv_dup = dup_set blk,
      kv_long = str_too_long blk, kv_full = too_much_data blk\<rparr>"

definition view_init :: key_view where
  "view_init =
     \<lparr>kv_vals = (\<lambda>k. None), kv_read = {}, kv_written = {}, kv_used = 0, kv_transit = False,
      kv_dup = False, kv_long = False, kv_full = False\<rparr>"

definition view_set :: "key_view \<Rightarrow> nat \<Rightarrow> string option \<Rightarrow> key_view" where
  "view_set v k s =
     (if k \<in> kv_written v then v\<lparr>kv_dup := True\<rparr>
      else
        let w = v\<lparr>kv_written := insert k (kv_written v)\<rparr>
        in case s of
             None \<Rightarrow> w
           | Some t \<Rightarrow>
               if AUTH_STR_MAX_LEN \<le> length t then w\<lparr>kv_long := True\<rparr>
               else if AUTH_STR_BLOCK_MAX_LEN < kv_used v + length t + 1 then w\<lparr>kv_full := True\<rparr>
               else w\<lparr>kv_vals := (kv_vals v)(k \<mapsto> t), kv_used := kv_used v + length t + 1\<rparr>)"

definition view_get :: "key_view \<Rightarrow> nat \<Rightarrow> key_view" where
  "view_get v k = v\<lparr>kv_read := insert k (kv_read v)\<rparr>"

lemma view_of_init:
  "length (str_block blk) = AUTH_STR_BLOCK_MAX_LEN \<Longrightarrow> view_of (acl_init_key_blk blk) = view_init"
  by (auto simp: view_of_def view_init_def)
     (auto simp: acl_init_key_blk_def auth_key_zero_def)

lemma view_of_flags [simp]:
  "view_of (blk\<lparr>dup_set := b\<rparr>) = (view_of blk)\<lparr>kv_dup := b\<rparr>"
  "view_of (blk\<lparr>str_too_long := b\<rparr>) = (view_of blk)\<lparr>kv_long := b\<rparr>"
  "view_of (blk\<lparr>too_much_data := b\<rparr>) = (view_of blk)\<lparr>kv_full := b\<rparr>"
  "view_of (blk\<lparr>transit_bit := b\<rparr>) = (view_of blk)\<lparr>kv_transit := b\<rparr>"
  by (simp_all add: view_of_def cong: if_cong)

lemma view_of_mark_set:
  assumes "key_blk_ok blk" and "k < AUTH_KEY_TYPE_MAX_COUNT"
  shows "view_of (mark_set blk k) = (view_of blk)\<lparr>kv_written := insert k (kv_written (view_of blk))\<rparr>"
proof -
  have "key_value (mark_set blk k) j = key_value blk j" if "j < AUTH_KEY_TYPE_MAX_COUNT" for j
    using assms that by simp
  then have "kv_vals (view_of (mark_set blk k)) = kv_vals (view_of blk)"
    by (simp add: view_of_def fun_eq_iff)
  moreover have "kv_read (view_of (mark_set blk k)) = kv_read (view_of blk)"
    "kv_written (view_of (mark_set blk k)) = insert k (kv_written (view_of blk))"
    using assms key_blk_okD(1) [OF assms(1)]
    by (auto simp: view_of_def mark_set_def nth_list_update split: if_splits)
  ultimately show ?thesis by (simp add: view_of_def mark_set_def)
qed

lemma view_of_store_value:
  assumes "key_blk_ok blk" and "k < AUTH_KEY_TYPE_MAX_COUNT" and "set_accepts blk k t" and "is_cstr t"
  shows "view_of (store_value blk k t) =
    (view_of blk)\<lparr>kv_written := insert k (kv_written (view_of blk)),
      kv_vals := (kv_vals (view_of blk))(k \<mapsto> t), kv_used := kv_used (view_of blk) + length t + 1\<rparr>"
proof -
  have "kv_vals (view_of (store_value blk k t)) = (kv_vals (view_of blk))(k \<mapsto> t)"
    using assms key_value_store_value [OF assms(1,2) _ assms(3,4)] by (simp add: view_of_def fun_eq_iff)
  moreover have "kv_read (view_of (store_value blk k t)) = kv_read (view_of blk)"
    "kv_written (view_of (store_value blk k t)) = insert k (kv_written (view_of blk))"
    using assms key_blk_okD(1) [OF assms(1)]
    by (auto simp: view_of_def store_value_def nth_list_update split: if_splits)
  ultimately show ?thesis by (simp add: view_of_def store_value_def)
qed

lemma view_of_set:
  assumes "key_blk_ok blk" and "k < AUTH_KEY_TYPE_MAX_COUNT" and "\<And>t. s = Some t \<Longrightarrow> is_cstr t"
  shows "view_of (acl_set_key_value blk k s) = view_set (view_of blk) k s"
proof -
  have kw: "k \<in> kv_written (view_of blk) \<longleftrightarrow> value_set (key blk ! k)" and u: "kv_used (view_of blk) = blk_length blk"
    using assms(2) by (simp_all add: view_of_def)
  show ?thesis
  proof (cases s)
    case None
    then show ?thesis
      by (simp add: acl_set_key_value_cases view_set_def kw view_of_mark_set [OF assms(1,2)])
  next
    case (Some t)
    then show ?thesis
      using view_of_store_value [OF assms(1,2), of t] assms(3) view_of_mark_set [OF assms(1,2)]
      by (simp add: acl_set_key_value_cases view_set_def kw u set_accepts_def Let_def)
  qed
qed

lemma view_of_get:
  assumes "key_blk_ok blk" and "k < AUTH_KEY_TYPE_MAX_COUNT"
  shows "view_of (fst (acl_get_key_val blk k)) = view_get (view_of blk) k"
    and "snd (acl_get_key_val blk k) = kv_vals (view_of blk) k"
proof -
  have "kv_vals (view_of (fst (acl_get_key_val blk k))) = kv_vals (view_of blk)"
    using assms by (simp add: view_of_def fun_eq_iff)
  moreover have "kv_read (view_of (fst (acl_get_key_val blk k))) = insert k (kv_read (view_of blk))"
    "kv_written (view_of (fst (acl_get_key_val blk k))) = kv_written (view_of blk)"
    using assms key_blk_okD(1) [OF assms(1)]
    by (auto simp: view_of_def acl_get_key_val_def nth_list_update split: if_splits)
  ultimately show "view_of (fst (acl_get_key_val blk k)) = view_get (view_of blk) k"
    by (simp add: view_of_def view_get_def acl_get_key_val_def)
  show "snd (acl_get_key_val blk k) = kv_vals (view_of blk) k"
    using assms(2) by (simp add: view_of_def key_value_def)
qed

lemma unprocessed_view:
  assumes "key_blk_ok blk"
  shows "unprocessed_key blk \<longleftrightarrow>
    (\<exists>k \<in> {..<AUTH_KEY_TYPE_MAX_COUNT} - kv_read (view_of blk). kv_vals (view_of blk) k \<noteq> None)"
proof -
  have "unprocessed_key blk \<longleftrightarrow> (\<exists>k < AUTH_KEY_TYPE_MAX_COUNT. present (key blk ! k) \<and> \<not> processed (key blk ! k))"
    using key_blk_okD(1) [OF assms] by (simp add: unprocessed_key_def list_ex_length)
  moreover have "present (key blk ! k) \<longleftrightarrow> kv_vals (view_of blk) k \<noteq> None" if "k < AUTH_KEY_TYPE_MAX_COUNT" for k
    using key_value_present [OF assms that] that by (simp add: view_of_def)
  ultimately show ?thesis by (auto simp: view_of_def)
qed


subsection \<open>Refinement of sequences of operations\<close>

text \<open>A sequence of uses of a key block: writing a key, reading a key. The reads return their values.\<close>

datatype key_op = Set_key nat "string option" | Get_key nat

definition key_op_ok :: "key_op \<Rightarrow> bool" where
  "key_op_ok p = (case p of
     Set_key k s \<Rightarrow> k < AUTH_KEY_TYPE_MAX_COUNT \<and> (case s of None \<Rightarrow> True | Some t \<Rightarrow> is_cstr t)
   | Get_key k \<Rightarrow> k < AUTH_KEY_TYPE_MAX_COUNT)"

fun key_run :: "('b \<Rightarrow> nat \<Rightarrow> string option \<Rightarrow> 'b) \<Rightarrow> ('b \<Rightarrow> nat \<Rightarrow> 'b \<times> string option) \<Rightarrow> key_op list \<Rightarrow> 'b \<Rightarrow>
    'b \<times> string option list" where
  "key_run set_key get_key [] b = (b, [])"
| "key_run set_key get_key (Set_key k s # ops) b = key_run set_key get_key ops (set_key b k s)"
| "key_run set_key get_key (Get_key k # ops) b =
     (case get_key b k of (b1, v) \<Rightarrow> case key_run set_key get_key ops b1 of (b2, vs) \<Rightarrow> (b2, v # vs))"

text \<open>What a client of the block relies on: it behaves as the map.\<close>

locale key_map_impl =
  fixes set_key :: "'b \<Rightarrow> nat \<Rightarrow> string option \<Rightarrow> 'b" and get_key :: "'b \<Rightarrow> nat \<Rightarrow> 'b \<times> string option"
    and blk_ok :: "'b \<Rightarrow> bool" and abs :: "'b \<Rightarrow> key_view"
  assumes set_ok: "blk_ok b \<Longrightarrow> key_op_ok (Set_key k s) \<Longrightarrow> blk_ok (set_key b k s)"
    and set_abs: "blk_ok b \<Longrightarrow> key_op_ok (Set_key k s) \<Longrightarrow> abs (set_key b k s) = view_set (abs b) k s"
    and get_ok: "blk_ok b \<Longrightarrow> key_op_ok (Get_key k) \<Longrightarrow> blk_ok (fst (get_key b k))"
    and get_abs: "blk_ok b \<Longrightarrow> key_op_ok (Get_key k) \<Longrightarrow> abs (fst (get_key b k)) = view_get (abs b) k"
    and get_val: "blk_ok b \<Longrightarrow> key_op_ok (Get_key k) \<Longrightarrow> snd (get_key b k) = kv_vals (abs b) k"
begin

lemma run_simulates:
  assumes "blk_ok b" and "list_all key_op_ok ops"
  shows "key_run view_set (\<lambda>v k. (view_get v k, kv_vals v k)) ops (abs b) =
    (abs (fst (key_run set_key get_key ops b)), snd (key_run set_key get_key ops b))"
  using assms
proof (induction ops arbitrary: b)
  case (Cons p ops)
  show ?case
  proof (cases p)
    case (Set_key k s)
    with Cons.prems have ok: "key_op_ok (Set_key k s)" by simp
    from Cons.IH [OF set_ok [OF Cons.prems(1) ok]] Cons.prems set_abs [OF Cons.prems(1) ok]
    show ?thesis by (simp add: Set_key)
  next
    case (Get_key k)
    with Cons.prems have ok: "key_op_ok (Get_key k)" by simp
    from Cons.IH [OF get_ok [OF Cons.prems(1) ok]] Cons.prems
    show ?thesis by (simp add: Get_key get_abs [OF _ ok] get_val [OF _ ok] case_prod_beta)
  qed
qed simp

end

interpretation km: key_map_impl acl_set_key_value acl_get_key_val key_blk_ok view_of
proof
  fix b :: auth_key_block and k :: nat and s :: "string option"
  assume b: "key_blk_ok b"
  show "key_blk_ok (acl_set_key_value b k s)" "view_of (acl_set_key_value b k s) = view_set (view_of b) k s"
    if "key_op_ok (Set_key k s)"
    using that b view_of_set [OF b, of k s] by (auto simp: key_op_ok_def split: option.splits)
  show "key_blk_ok (fst (acl_get_key_val b k))" "view_of (fst (acl_get_key_val b k)) = view_get (view_of b) k"
    "snd (acl_get_key_val b k) = kv_vals (view_of b) k"
    if "key_op_ok (Get_key k)"
    using that b view_of_get [OF b, of k] by (auto simp: key_op_ok_def)
qed

text \<open>C15. A key block refines a finite map: for every sequence of writes and reads of valid keys that
  starts at an initialised block, the byte-level operations \<open>acl_set_key_value\<close> and
  \<open>acl_get_key_val\<close> return exactly the values that the map operations return, and the final block
  stands for the final map, with the same processed keys, duplicates and overflow flags.\<close>

theorem key_block_refines_map:
  assumes "length (str_block blk) = AUTH_STR_BLOCK_MAX_LEN" and "list_all key_op_ok ops"
  shows "key_run view_set (\<lambda>v k. (view_get v k, kv_vals v k)) ops view_init =
    (case key_run acl_set_key_value acl_get_key_val ops (acl_init_key_blk blk) of (b, vals) \<Rightarrow> (view_of b, vals))"
  using km.run_simulates [of "acl_init_key_blk blk" ops] assms
  by (simp add: view_of_init case_prod_beta)

definition sample_ops :: "key_op list" where
  "sample_ops = [Set_key 0 (Some ''CHAP''), Get_key 0, Set_key 0 (Some ''None''), Get_key 0, Get_key 1]"

definition sample_block :: auth_key_block where
  "sample_block = key_block_zero\<lparr>str_block := replicate AUTH_STR_BLOCK_MAX_LEN NUL\<rparr>"

theorem key_block_refines_map_witness:
  "snd (key_run acl_set_key_value acl_get_key_val sample_ops (acl_init_key_blk sample_block)) =
   [Some ''CHAP'', Some ''CHAP'', None]"
proof -
  have "snd (key_run view_set (\<lambda>v k. (view_get v k, kv_vals v k)) sample_ops view_init) =
      [Some ''CHAP'', Some ''CHAP'', None]"
    by (simp add: sample_ops_def view_set_def view_get_def view_init_def AUTH_STR_MAX_LEN_def AUTH_STR_BLOCK_MAX_LEN_def)
  moreover have "list_all key_op_ok sample_ops" by (simp add: sample_ops_def key_op_ok_def AUTH_KEY_TYPE_MAX_COUNT_def)
  ultimately show ?thesis
    using key_block_refines_map [of sample_block sample_ops] by (simp add: sample_block_def case_prod_beta)
qed

end
