(* ===== verification/Auth_Handshake.thy ===== *)
theory Auth_Handshake
  imports Auth_View
begin

text \<open>
  The three messages of a mutual CHAP login as an initiator sees them, evaluated on the model of
  \<open>usr/auth.c\<close>. \<open>acl_recv_message\<close> is the sequence of calls by which \<open>usr/login.c\<close> hands a login
  response to the authentication client. \<open>ready\<close> is an initiator configured with a password and
  algorithms, \<open>stage1\<close> and \<open>stage2\<close> are the client after the first and the second message. Each of
  \<open>first_message_end\<close>, \<open>second_message_end\<close> and \<open>third_message_end\<close> shows the status
  \<open>acl_recv_end\<close> returns and the stage it leaves; \<open>chap_login_steps\<close> puts them together, from
  \<open>acl_init\<close> to the status pass.
\<close>

subsection \<open>Receiving a message\<close>

definition acl_recv_message :: "iscsi_acl \<Rightarrow> (int \<times> string) list \<Rightarrow> bool \<Rightarrow> iscsi_acl" where
  "acl_recv_message c kvs t =
     fst (acl_recv_transit_bit (fold (\<lambda>(k, v) c. fst (acl_recv_key_value c k v)) kvs (fst (acl_recv_begin c))) t)"

lemma block_flags_view:
  "dup_set b = kv_dup (view_of b)" "str_too_long b = kv_long (view_of b)"
  "too_much_data b = kv_full (view_of b)" "transit_bit b = kv_transit (view_of b)"
  by (simp_all add: view_of_def)

lemma key_value_view: "k < AUTH_KEY_TYPE_MAX_COUNT \<Longrightarrow> key_value b k = kv_vals (view_of b) k"
  by (simp add: view_of_def)

lemma view_of_set_Some:
  "key_blk_ok b \<Longrightarrow> k < AUTH_KEY_TYPE_MAX_COUNT \<Longrightarrow> is_cstr t \<Longrightarrow>
   view_of (acl_set_key_value b k (Some t)) = view_set (view_of b) k (Some t)"
  by (rule view_of_set) simp_all

lemma view_of_set_transit: "view_of (set_transit t b) = (view_of b)\<lparr>kv_transit := t\<rparr>"
  by (simp add: set_transit_def)

lemma key_blk_ok_set_transit [simp]: "key_blk_ok (set_transit t b) = key_blk_ok b"
  by (simp add: set_transit_def)

lemmas view_eval = block_flags_view key_value_view view_of_set_Some view_of_set_transit view_of_get
  unprocessed_view view_of_init view_init_def view_set_def view_get_def Let_def

text \<open>A message that arrives in one of the two message phases.\<close>

lemma recv_begin_first:
  assumes "signature c = ACL_SIGNATURE" "\<not> recv_in_progress_flag c" "phase c = AUTH_PHASE_CONFIGURE"
  shows "fst (acl_recv_begin c) =
    recv_begin_reset (c\<lparr>recv_in_progress_flag := True, phase := AUTH_PHASE_NEGOTIATE\<rparr>)"
  using assms by (simp add: acl_recv_begin_def acl_next_phase_def Let_def)

lemma recv_begin_next:
  assumes "signature c = ACL_SIGNATURE" "\<not> recv_in_progress_flag c" "phase c = AUTH_PHASE_AUTHENTICATE"
  shows "fst (acl_recv_begin c) = recv_begin_reset (c\<lparr>recv_in_progress_flag := True\<rparr>)"
  using assms by (simp add: acl_recv_begin_def Let_def)

lemma recv_key_eq:
  assumes "signature c = ACL_SIGNATURE" "phase c = AUTH_PHASE_NEGOTIATE \<or> phase c = AUTH_PHASE_AUTHENTICATE"
    "0 \<le> k" "k < 5"
  shows "fst (acl_recv_key_value c k v) =
    c\<lparr>recv_key_block := acl_set_key_value (recv_key_block c) (nat k) (Some v)\<rparr>"
  using assms
  by (auto simp: acl_recv_key_value_def key_type_ok_def KEYS AUTH_KEY_TYPE_FIRST_def AUTH_KEY_TYPE_LAST_def)

lemma recv_challenge_eq:
  assumes "signature c = ACL_SIGNATURE" "phase c = AUTH_PHASE_NEGOTIATE \<or> phase c = AUTH_PHASE_AUTHENTICATE"
    and "acl_text_to_data v AUTH_LARGE_BINARY_MAX_LEN = (0, ch)"
  shows "fst (acl_recv_key_value c 5 v) =
    c\<lparr>recv_chap_challenge_status := 0,
      recv_chap_challenge := \<lparr>lb_length = length ch,
        large_binary = overlay (large_binary (recv_chap_challenge c)) 0 ch\<rparr>,
      recv_key_block := acl_set_key_value (recv_key_block c) 5 (Some [])\<rparr>"
  using assms
  by (auto simp: acl_recv_key_value_def key_type_ok_def KEYS AUTH_KEY_TYPE_FIRST_def AUTH_KEY_TYPE_LAST_def)

lemma recv_transit_eq:
  assumes "signature c = ACL_SIGNATURE" "phase c = AUTH_PHASE_NEGOTIATE \<or> phase c = AUTH_PHASE_AUTHENTICATE"
  shows "fst (acl_recv_transit_bit c t) = c\<lparr>recv_key_block := set_transit t (recv_key_block c)\<rparr>"
  using assms by (auto simp: acl_recv_transit_bit_def)

subsection \<open>First message: the method\<close>

definition ready :: "iscsi_acl \<Rightarrow> bool" where
  "ready c \<longleftrightarrow>
     cfg_ok c \<and> node_type c = TYPE_INITIATOR \<and> auth_rmt c \<and> \<not> recv_in_progress_flag c \<and>
     passwd_present c \<and> 12 \<le> length (passwd_data c) \<and> \<not> auth_server_error_flag c \<and>
     length (large_binary (send_chap_challenge c)) = AUTH_LARGE_BINARY_MAX_LEN \<and>
     chap_alg_list c \<noteq> [] \<and> set (chap_alg_list c) \<subseteq> {5, 6, 7, 8}"

definition stage1 :: "iscsi_acl \<Rightarrow> bool" where
  "stage1 c \<longleftrightarrow> ready c \<and> phase c = AUTH_PHASE_AUTHENTICATE \<and> recv_end_count c = 1 \<and>
     local_state c = AUTH_LOCAL_STATE_RECV_ALG \<and> rmt_state c = AUTH_RMT_STATE_SEND_CHALLENGE \<and>
     \<not> auth_rsp_flag c \<and> key_value (send_key_block c) AUTH_KEY_TYPE_CHAP_CHALLENGE = None"

lemma scan_single:
  assumes "CHR '','' \<notin> set v" "v \<noteq> []" "lookup v = Some opt"
  shows "scan_key lookup v s = (v, Some opt)"
proof -
  have eq: "takeWhile (\<lambda>c. c \<noteq> CHR '','') v = v" using assms(1) by (auto simp: takeWhile_eq_all_conv)
  show ?thesis using assms(2,3) by (subst scan_key.simps) (simp only: eq Let_def, simp)
qed

lemma join_options_length:
  "length s < AUTH_STR_MAX_LEN \<Longrightarrow> length (join_options f i opts s) < AUTH_STR_MAX_LEN"
proof (induction f i opts s rule: join_options.induct)
  case (2 f i opt opts s)
  then show ?case
    by (cases "f opt") (auto simp: strlcpy_eq strlcat_length AUTH_STR_MAX_LEN_def)
qed simp

lemma join_options_fresh:
  assumes "opts \<noteq> []" and "\<And>opt. f opt \<noteq> None"
  shows "length (join_options f 0 opts s) < AUTH_STR_MAX_LEN"
proof (cases opts)
  case (Cons opt rest)
  obtain t where "f opt = Some t" using assms(2) by blast
  then show ?thesis
    by (simp add: Cons join_options_length strlcpy_eq AUTH_STR_MAX_LEN_def)
       (rule join_options_length [unfolded AUTH_STR_MAX_LEN_def], simp)
qed (use assms in simp)

lemma recv_message_first:
  assumes "ready c" and "phase c = AUTH_PHASE_CONFIGURE"
  defines "d \<equiv> c\<lparr>recv_in_progress_flag := True, phase := AUTH_PHASE_NEGOTIATE,
      transit_bit_sent_flag := transit_bit (send_key_block c),
      recv_key_block := set_transit False (acl_set_key_value (acl_init_key_blk (recv_key_block c)) 0 (Some ''CHAP'')),
      send_key_block := acl_init_key_blk (send_key_block c)\<rparr>"
  shows "acl_recv_message c [(0, ''CHAP'')] False = d"
    and "view_of (recv_key_block d) = view_init\<lparr>kv_vals := [0 \<mapsto> ''CHAP''], kv_written := {0}, kv_used := 5\<rparr>"
    and "key_blk_ok (recv_key_block d)" and "key_blk_ok (send_key_block d)"
    and "view_of (send_key_block d) = view_init"
proof -
  from assms(1) have sig: "signature c = ACL_SIGNATURE" and np: "\<not> recv_in_progress_flag c"
    and kb: "key_blk_ok (recv_key_block c)" "key_blk_ok (send_key_block c)"
    by (auto simp: ready_def cfg_ok_def strings_ok_def)
  note len = key_blk_okD(2) [OF kb(1)] key_blk_okD(2) [OF kb(2)]
  show "acl_recv_message c [(0, ''CHAP'')] False = d"
    unfolding d_def
    by (simp add: acl_recv_message_def recv_begin_first [OF sig np assms(2)] recv_begin_reset_def
        recv_key_eq recv_transit_eq sig)
  show ok: "key_blk_ok (recv_key_block d)" "key_blk_ok (send_key_block d)"
    using len by (simp_all add: d_def KEYS)
  show "view_of (recv_key_block d) = view_init\<lparr>kv_vals := [0 \<mapsto> ''CHAP''], kv_written := {0}, kv_used := 5\<rparr>"
    using len by (simp add: d_def view_eval KEYS AUTH_STR_MAX_LEN_def AUTH_STR_BLOCK_MAX_LEN_def)
  show "view_of (send_key_block d) = view_init" using len by (simp add: d_def view_of_init)
qed

subsection \<open>The first message\<close>

definition same_setup :: "iscsi_acl \<Rightarrow> iscsi_acl \<Rightarrow> bool" where
  "same_setup c d \<longleftrightarrow> node_type d = node_type c \<and> auth_rmt d = auth_rmt c \<and> username d = username c \<and>
     passwd_present d = passwd_present c \<and> passwd_data d = passwd_data c \<and> ip_sec d = ip_sec c \<and>
     chap_alg_list d = chap_alg_list c \<and> auth_server_error_flag d = auth_server_error_flag c \<and>
     send_chap_challenge d = send_chap_challenge c"

lemma find_chap_method: "find_text_option acl_authmethod_optn_to_text [AUTH_METHOD_CHAP] ''CHAP'' = Some AUTH_METHOD_CHAP"
  by (simp add: acl_authmethod_optn_to_text_def auth_option_defs acl_authmethod_set_chap_alg_list_def)

text \<open>The method \<open>CHAP\<close> is accepted, and the authenticate phase starts with the list of algorithms.\<close>

lemma chap_negotiated:
  assumes g: "acl_get_key_val (recv_key_block s) AUTH_KEY_TYPE_AUTH_METHOD = (R, Some ''CHAP'')"
    and vl: "auth_method_valid_list s = [AUTH_METHOD_CHAP]" "auth_method_valid_neg_role s = AUTH_NEG_ROLE_ORIGINATOR"
    and ph: "phase s = AUTH_PHASE_NEGOTIATE" and ini: "auth_rmt s" "node_type s = TYPE_INITIATOR"
  shows "recv_end_negotiate s = (s\<lparr>recv_key_block := R, scratch_key_value := ''CHAP'',
    negotiated_auth_method := AUTH_METHOD_CHAP, phase := AUTH_PHASE_AUTHENTICATE,
    local_state := AUTH_LOCAL_STATE_SEND_ALG, rmt_state := AUTH_RMT_STATE_SEND_ALG\<rparr>, False)"
proof -
  have sc: "scan_key (find_text_option acl_authmethod_optn_to_text [AUTH_METHOD_CHAP]) ''CHAP'' x =
      (''CHAP'', Some AUTH_METHOD_CHAP)" for x
    by (rule scan_single) (simp_all add: find_chap_method del: find_text_option.simps)
  have chk: "acl_chk_auth_method_key s =
      s\<lparr>recv_key_block := R, scratch_key_value := ''CHAP'', negotiated_auth_method := AUTH_METHOD_CHAP\<rparr>"
    by (simp add: acl_chk_auth_method_key_def acl_chk_key_def vl g sc Let_def del: find_text_option.simps)
  show ?thesis
    by (simp add: recv_end_negotiate_def chk) (simp add: vl ph ini acl_next_phase_def auth_option_defs Let_def)
qed

lemma algorithms_offered:
  assumes n: "node_type n = TYPE_INITIATOR" "local_state n = AUTH_LOCAL_STATE_SEND_ALG"
      "rmt_state n = AUTH_RMT_STATE_SEND_ALG" "scratch_key_value n = ''CHAP''"
    and algs: "chap_alg_list n \<noteq> []" "set (chap_alg_list n) \<subseteq> {5, 6, 7, 8}"
  defines "J \<equiv> join_options chap_alg_text 0 (chap_alg_list n) ''CHAP''"
  shows "recv_end_authenticate env n = n\<lparr>scratch_key_value := J,
      send_key_block := acl_set_key_value (send_key_block n) AUTH_KEY_TYPE_CHAP_ALG (Some J),
      local_state := AUTH_LOCAL_STATE_RECV_ALG, rmt_state := AUTH_RMT_STATE_SEND_CHALLENGE\<rparr>" (is "_ = ?l")
    and "length J < AUTH_STR_MAX_LEN" and "is_cstr J"
proof -
  have special: "chap_alg_list n \<noteq> [AUTH_OPTION_NOT_PRESENT]" "chap_alg_list n \<noteq> [AUTH_OPTION_REJECT]"
    using algs(2) by (auto simp: auth_option_defs)
  have "acl_local_auth env n = ?l\<lparr>rmt_state := AUTH_RMT_STATE_SEND_ALG\<rparr>"
    using algs(1) special n
    by (simp add: acl_local_auth_def acl_set_chap_alg_key_def set_send_key_def Let_def J_def)
  moreover have "acl_rmt_auth env (?l\<lparr>rmt_state := AUTH_RMT_STATE_SEND_ALG\<rparr>) = ?l"
    by (simp add: acl_rmt_auth_def n)
  ultimately show "recv_end_authenticate env n = ?l" by (simp add: recv_end_authenticate_def Let_def)
  show "is_cstr J" unfolding J_def by (rule join_options_cstr) (simp, rule chap_alg_text_cstr)
  show "length J < AUTH_STR_MAX_LEN"
    unfolding J_def by (rule join_options_fresh [OF algs(1)]) (simp add: chap_alg_text_def)
qed

lemma first_message_end:
  assumes r: "ready c" and ph: "phase c = AUTH_PHASE_CONFIGURE" and cnt: "recv_end_count c = 0"
    and vl: "auth_method_valid_list c = [AUTH_METHOD_CHAP]" and nf: "\<not> auth_rsp_flag c"
  obtains e where "acl_recv_end env (acl_recv_message c [(0, ''CHAP'')] False) (Some sess) = (e, AUTH_STATUS_CONTINUE)"
    and "same_setup c e" and "stage1 e"
proof -
  from recv_message_first [OF r ph] obtain R S where
    d: "acl_recv_message c [(0, ''CHAP'')] False =
      c\<lparr>recv_in_progress_flag := True, phase := AUTH_PHASE_NEGOTIATE,
        transit_bit_sent_flag := transit_bit (send_key_block c), recv_key_block := R, send_key_block := S\<rparr>"
      (is "?m = ?d")
    and R: "key_blk_ok R" "view_of R = view_init\<lparr>kv_vals := [0 \<mapsto> ''CHAP''], kv_written := {0}, kv_used := 5\<rparr>"
    and S: "key_blk_ok S" "view_of S = view_init"
    by simp
  from r have cfg: "signature c = ACL_SIGNATURE" "node_type c = TYPE_INITIATOR" "auth_rmt c"
      "auth_method_valid_neg_role c = AUTH_NEG_ROLE_ORIGINATOR"
    and algs: "chap_alg_list c \<noteq> []" "set (chap_alg_list c) \<subseteq> {5, 6, 7, 8}"
    by (auto simp: ready_def cfg_ok_def)
  define s where "s = ?d\<lparr>recv_end_count := 1, session_handle := Some sess\<rparr>"
  have start: "recv_end_start ?d (Some sess) = s"
    using R(2) by (simp add: s_def recv_end_start_def recv_end_limits_def cnt AUTH_RECV_END_MAX_COUNT_def view_eval Let_def)
  define R1 where "R1 = fst (acl_get_key_val R AUTH_KEY_TYPE_AUTH_METHOD)"
  have R1: "key_blk_ok R1" "view_of R1 = view_get (view_of R) 0"
      "acl_get_key_val R AUTH_KEY_TYPE_AUTH_METHOD = (R1, Some ''CHAP'')"
    using R view_of_get [OF R(1) key_lt(1)] by (simp_all add: R1_def KEYS prod_eq_iff)
  define n where "n = fst (recv_end_negotiate s)"
  have neg: "recv_end_negotiate s = (n, False)" and n: "n = s\<lparr>recv_key_block := R1, scratch_key_value := ''CHAP'',
    negotiated_auth_method := AUTH_METHOD_CHAP, phase := AUTH_PHASE_AUTHENTICATE,
    local_state := AUTH_LOCAL_STATE_SEND_ALG, rmt_state := AUTH_RMT_STATE_SEND_ALG\<rparr>"
    using chap_negotiated [of s R1] R1(3) vl cfg by (simp_all add: n_def s_def)
  define l where "l = recv_end_authenticate env n"
  define J where "J = join_options chap_alg_text 0 (chap_alg_list c) ''CHAP''"
  have l: "l = n\<lparr>scratch_key_value := J, send_key_block := acl_set_key_value S AUTH_KEY_TYPE_CHAP_ALG (Some J),
      local_state := AUTH_LOCAL_STATE_RECV_ALG, rmt_state := AUTH_RMT_STATE_SEND_CHALLENGE\<rparr>"
    and J: "length J < AUTH_STR_MAX_LEN" "is_cstr J"
    using algorithms_offered(1) [of n env] algorithms_offered(2,3) [of n] algs cfg by (simp_all add: l_def n s_def J_def)
  have S1: "key_blk_ok (send_key_block l)" "view_of (send_key_block l) = view_set view_init 1 (Some J)"
    using S J by (simp_all add: l view_of_set_Some KEYS)
  have lf: "phase l = AUTH_PHASE_AUTHENTICATE" "node_type l = TYPE_INITIATOR" "recv_key_block l = R1"
      "rmt_state l = AUTH_RMT_STATE_SEND_CHALLENGE"
    by (simp_all add: l n s_def cfg)
  have proc: "recv_end_process env s = (l, True)"
    by (simp add: recv_end_process_def neg l_def [symmetric]) (simp add: n s_def l_def)
  have flags: "\<not> transit_bit R1" "\<not> unprocessed_key R1" "\<not> dup_set (send_key_block l)"
    "\<not> str_too_long (send_key_block l)" "\<not> too_much_data (send_key_block l)"
    using R1 R(2) S1 J(1)
    by (auto simp: unprocessed_view block_flags_view view_set_def view_get_def view_init_def Let_def KEYS
        AUTH_STR_MAX_LEN_def AUTH_STR_BLOCK_MAX_LEN_def)
  have hs: "acl_hand_shake l = l" by (simp add: acl_hand_shake_def lf flags)
  let ?e = "l\<lparr>recv_in_progress_flag := False\<rparr>"
  have status: "acl_rcv_end_status l = (?e, AUTH_STATUS_CONTINUE)"
    by (simp add: acl_rcv_end_status_def rcv_end_sanity_def rcv_end_blocks_def lf flags Let_def)
  show thesis
  proof (rule that [of ?e])
    show "acl_recv_end env ?m (Some sess) = (?e, AUTH_STATUS_CONTINUE)"
      unfolding d acl_recv_end_def start proc by (simp add: hs status cfg)
    show "same_setup c ?e" by (simp add: same_setup_def l n s_def)
    have "key_value (send_key_block l) AUTH_KEY_TYPE_CHAP_CHALLENGE = None"
      using S1(2) by (simp add: key_value_view view_set_def view_init_def KEYS Let_def)
    then show "stage1 ?e"
      using r nf R1(1) S1(1) J(2) by (simp add: stage1_def ready_def cfg_ok_def strings_ok_def l n s_def)
  qed
qed

subsection \<open>Evaluation of the end of a message\<close>

lemma status_continue:
  assumes "phase l = AUTH_PHASE_AUTHENTICATE"
    and "\<not> dup_set (send_key_block l)" "\<not> str_too_long (send_key_block l)" "\<not> too_much_data (send_key_block l)"
    and "\<not> unprocessed_key (recv_key_block l)"
  shows "acl_rcv_end_status l = (l\<lparr>recv_in_progress_flag := False\<rparr>, AUTH_STATUS_CONTINUE)"
  using assms by (simp add: acl_rcv_end_status_def rcv_end_sanity_def rcv_end_blocks_def Let_def)

lemma status_pass:
  assumes "phase l = AUTH_PHASE_DONE" and "rmt_auth_status l = AUTH_STATUS_PASS" and "auth_rsp_flag l"
    and "\<not> dup_set (send_key_block l)" "\<not> str_too_long (send_key_block l)" "\<not> too_much_data (send_key_block l)"
    and "\<not> unprocessed_key (recv_key_block l)"
  shows "acl_rcv_end_status l = (l\<lparr>recv_in_progress_flag := False\<rparr>, AUTH_STATUS_PASS)"
  using assms by (simp add: acl_rcv_end_status_def rcv_end_sanity_def rcv_end_blocks_def Let_def)

lemma recv_end_start_ok:
  assumes "recv_end_count c \<le> 10" "\<not> dup_set (recv_key_block c)" "\<not> str_too_long (recv_key_block c)"
    "\<not> too_much_data (recv_key_block c)"
  shows "recv_end_start c s = c\<lparr>recv_end_count := recv_end_count c + 1, session_handle := s\<rparr>"
  using assms by (simp add: recv_end_start_def recv_end_limits_def AUTH_RECV_END_MAX_COUNT_def)

lemma recv_end_in_authenticate:
  assumes "signature c = ACL_SIGNATURE" "recv_in_progress_flag c" "phase c = AUTH_PHASE_AUTHENTICATE"
    and "recv_end_start c s = d" and "phase d = AUTH_PHASE_AUTHENTICATE"
    and "acl_local_auth env d = l" and "local_state l \<noteq> AUTH_LOCAL_STATE_ERROR"
    and "acl_rmt_auth env l = r" and "local_state r \<noteq> AUTH_LOCAL_STATE_ERROR"
    and "rmt_state r \<noteq> AUTH_RMT_STATE_ERROR"
  shows "acl_recv_end env c s = acl_rcv_end_status (acl_hand_shake r)"
  using assms
  by (simp add: acl_recv_end_def recv_end_process_def recv_end_authenticate_def Let_def)

subsection \<open>Evaluation of the two halves\<close>

lemma local_send_response_eq:
  fixes ident
  assumes "passwd_present c" "12 \<le> length (passwd_data c)" "length (passwd_data c) \<le> AUTH_STR_MAX_LEN"
    and H: "EVP_digest env (negotiated_chap_alg c) = Some H"
    and len: "chap_rsp_len (negotiated_chap_alg c) = Some (chap_challenge_len c)"
    and dl: "digest_lengths (EVP_digest env)"
  defines "t \<equiv> ''0x'' @ hex_text (chap_response H ident (passwd_data c) (challenge_bytes (recv_chap_challenge c)))"
  shows "local_send_response env c ident =
    c\<lparr>scratch_key_value := t,
      send_key_block := acl_set_key_value (acl_set_key_value (send_key_block c) AUTH_KEY_TYPE_CHAP_RSP (Some t))
        AUTH_KEY_TYPE_CHAP_USERNAME (Some (username c)),
      local_state := AUTH_LOCAL_STATE_DONE\<rparr>"
    and "length t \<le> 66" and "is_cstr t"
proof -
  let ?x = "[of_nat ident] @ passwd_data c @ challenge_bytes (recv_chap_challenge c)"
  have hl: "length (H x) = chap_challenge_len c" for x
    using dl H len by (auto simp: digest_lengths_def)
  have bound: "0 < chap_challenge_len c" "chap_challenge_len c \<le> 32"
    using len by (auto simp: chap_rsp_len_def split: if_splits)
  have "H ?x \<noteq> []" using hl [of ?x] bound by auto
  then have tx: "acl_data_to_text (H ?x) AUTH_STR_MAX_LEN = (0, Some t)"
    using hl [of ?x] bound unfolding t_def chap_response_def
    by (intro acl_data_to_text_eq) (simp_all add: AUTH_STR_MAX_LEN_def)
  have "acl_chap_compute_rsp env c False ident (challenge_bytes (recv_chap_challenge c)) =
      (AUTH_DBG_STATUS_NOT_SET, H ?x)"
    using assms(1-3) H len
    by (simp add: acl_chap_compute_rsp_def auth_hash_init_eq acl_data_def auth_hash_update_def auth_hash_final_def Let_def)
  with tx hl show "local_send_response env c ident =
    c\<lparr>scratch_key_value := t,
      send_key_block := acl_set_key_value (acl_set_key_value (send_key_block c) AUTH_KEY_TYPE_CHAP_RSP (Some t))
        AUTH_KEY_TYPE_CHAP_USERNAME (Some (username c)),
      local_state := AUTH_LOCAL_STATE_DONE\<rparr>"
    by (simp add: local_send_response_def set_send_key_def Let_def)
  show "length t \<le> 66" "is_cstr t"
    using hl [of ?x] bound hex_text_clean by (simp_all add: t_def chap_response_def)
qed

lemma rmt_send_challenge_eq:
  assumes "auth_rmt c" and "RAND_bytes env 0 1 = Some [ib]"
    and "RAND_bytes env 1 (chap_challenge_len c) = Some rb"
  shows "rmt_send_challenge env c =
    c\<lparr>send_chap_identifier := unat ib, scratch_key_value := udec (unat ib),
      send_chap_challenge := \<lparr>lb_length = chap_challenge_len c,
        large_binary = overlay (large_binary (send_chap_challenge c)) 0 rb\<rparr>,
      send_key_block := acl_set_key_value (acl_set_key_value (send_key_block c)
        AUTH_KEY_TYPE_CHAP_IDENTIFIER (Some (udec (unat ib)))) AUTH_KEY_TYPE_CHAP_CHALLENGE (Some []),
      rmt_state := AUTH_RMT_STATE_RECV_RSP\<rparr>"
  using assms by (simp add: rmt_send_challenge_def set_send_key_def Let_def)

lemma find_number_small:
  assumes "set algs \<subseteq> {5, 6, 7, 8}" and "int a \<in> set algs"
  shows "find_number_option algs a = Some (int a)"
proof -
  have u: "a = ulong_of x \<longleftrightarrow> x = int a" if "x \<in> {5, 6, 7, 8}" for x
    using that by (auto simp: ulong_of_def)
  have "a < 9" using assms by auto
  then have i: "int_of_ulong a = int a" by (simp add: int_of_ulong_def)
  show ?thesis using assms
  proof (induction algs)
    case (Cons x algs)
    then have "a = ulong_of x \<longleftrightarrow> x = int a" by (intro u) simp
    with Cons i show ?case by (cases "x = int a") simp_all
  qed simp
qed

lemma chk_chap_alg_eq:
  assumes "acl_get_key_val (recv_key_block c) AUTH_KEY_TYPE_CHAP_ALG = (R, Some (udec a))"
    and "set (chap_alg_list c) \<subseteq> {5, 6, 7, 8}" and "int a \<in> set (chap_alg_list c)"
    and "chap_rsp_len (int a) = Some n"
  shows "acl_chk_chap_alg_key c =
    c\<lparr>recv_key_block := R, scratch_key_value := udec a, negotiated_chap_alg := int a, chap_challenge_len := n\<rparr>"
proof -
  have "a \<le> ULONG_MAX" using assms(2,3) by (auto simp: ULONG_MAX_def)
  then have "find_chap_alg (chap_alg_list c) (udec a) = Some (int a)"
    using find_number_small [OF assms(2,3)] by (simp add: find_chap_alg_def acl_text_to_number_udec)
  moreover have "udec a \<noteq> []" using udec_hd [of a] by auto
  ultimately have "scan_key (find_chap_alg (chap_alg_list c)) (udec a) s = (udec a, Some (int a))" for s
    by (intro scan_single) (simp_all add: comma_notin_udec)
  with assms(1,4) show ?thesis by (simp add: acl_chk_chap_alg_key_def Let_def)
qed

subsection \<open>Second message: the algorithm and the peer's challenge\<close>

definition stage2 :: "(byte list \<Rightarrow> byte list) \<Rightarrow> nat \<Rightarrow> byte \<Rightarrow> byte list \<Rightarrow> iscsi_acl \<Rightarrow> bool" where
  "stage2 H a ib rb c \<longleftrightarrow> ready c \<and> phase c = AUTH_PHASE_AUTHENTICATE \<and> recv_end_count c = 2 \<and>
     local_state c = AUTH_LOCAL_STATE_DONE \<and> rmt_state c = AUTH_RMT_STATE_RECV_RSP \<and> \<not> auth_rsp_flag c \<and>
     negotiated_chap_alg c = int a \<and> chap_rsp_len (int a) = Some (chap_challenge_len c) \<and>
     send_chap_identifier c = unat ib \<and> challenge_bytes (send_chap_challenge c) = rb \<and>
     transit_bit (send_key_block c)"

lemma recv_message_second:
  assumes r: "ready c" and ph: "phase c = AUTH_PHASE_AUTHENTICATE"
    and ch: "ch \<noteq> []" "length ch \<le> AUTH_LARGE_BINARY_MAX_LEN" and small: "a < 10" "i < 1000"
  obtains R S where
    "acl_recv_message c [(1, udec a), (4, udec i), (5, ''0x'' @ hex_text ch)] False =
      c\<lparr>recv_in_progress_flag := True, transit_bit_sent_flag := transit_bit (send_key_block c),
        send_key_block := S, recv_chap_challenge_status := 0,
        recv_chap_challenge := \<lparr>lb_length = length ch,
          large_binary = overlay (large_binary (recv_chap_challenge c)) 0 ch\<rparr>,
        recv_key_block := R\<rparr>"
    and "key_blk_ok R"
    and "view_of R = view_init\<lparr>kv_vals := [1 \<mapsto> udec a, 4 \<mapsto> udec i, 5 \<mapsto> []],
      kv_written := {1, 4, 5}, kv_used := length (udec a) + length (udec i) + 3\<rparr>"
    and "key_blk_ok S" and "view_of S = view_init"
proof -
  from r have sig: "signature c = ACL_SIGNATURE" and np: "\<not> recv_in_progress_flag c"
    and kb: "key_blk_ok (recv_key_block c)" "key_blk_ok (send_key_block c)"
    by (auto simp: ready_def cfg_ok_def strings_ok_def)
  note len = key_blk_okD(2) [OF kb(1)] key_blk_okD(2) [OF kb(2)]
  have dec: "acl_text_to_data (''0x'' @ hex_text ch) AUTH_LARGE_BINARY_MAX_LEN = (0, ch)"
    using ch by (intro acl_text_to_data_hex_text) simp_all
  let ?B = "acl_init_key_blk (recv_key_block c)"
  let ?R = "set_transit False (acl_set_key_value (acl_set_key_value (acl_set_key_value ?B 1 (Some (udec a)))
      4 (Some (udec i))) 5 (Some []))"
  have eq: "acl_recv_message c [(1, udec a), (4, udec i), (5, ''0x'' @ hex_text ch)] False =
      c\<lparr>recv_in_progress_flag := True, transit_bit_sent_flag := transit_bit (send_key_block c),
        send_key_block := acl_init_key_blk (send_key_block c), recv_chap_challenge_status := 0,
        recv_chap_challenge := \<lparr>lb_length = length ch,
          large_binary = overlay (large_binary (recv_chap_challenge c)) 0 ch\<rparr>,
        recv_key_block := ?R\<rparr>"
    by (simp add: acl_recv_message_def recv_begin_next [OF sig np ph] recv_begin_reset_def
        recv_key_eq recv_challenge_eq [OF _ _ dec, simplified] recv_transit_eq sig ph)
  have l: "length (udec a) \<le> 1" "length (udec i) \<le> 3"
    using length_udec [of a 1] length_udec [of i 3] small by simp_all
  show thesis
  proof (rule that [OF eq])
    show "key_blk_ok ?R" "key_blk_ok (acl_init_key_blk (send_key_block c))"
      using len by (simp_all add: KEYS is_cstr_udec)
    show "view_of (acl_init_key_blk (send_key_block c)) = view_init" using len by (simp add: view_of_init)
    show "view_of ?R = view_init\<lparr>kv_vals := [1 \<mapsto> udec a, 4 \<mapsto> udec i, 5 \<mapsto> []],
      kv_written := {1, 4, 5}, kv_used := length (udec a) + length (udec i) + 3\<rparr>"
      using len l
      by (simp add: view_eval KEYS is_cstr_udec AUTH_STR_MAX_LEN_def AUTH_STR_BLOCK_MAX_LEN_def insert_commute)
  qed
qed

lemma local_recv_alg_initiator:
  assumes "node_type c = TYPE_INITIATOR" and "acl_chk_chap_alg_key c = k"
    and "chap_rsp_len (negotiated_chap_alg k) \<noteq> None" and "node_type k = TYPE_INITIATOR"
  shows "local_recv_alg env c = local_recv_challenge env k"
  using assms
  by (auto simp: local_recv_alg_def local_check_alg_def chap_rsp_len_def auth_option_defs Let_def split: if_splits)

lemma local_recv_challenge_answer:
  assumes "key_blk_ok (recv_key_block k)" "node_type k = TYPE_INITIATOR" "recv_chap_challenge_status k = 0"
    and "key_value (recv_key_block k) AUTH_KEY_TYPE_CHAP_IDENTIFIER = Some idv"
    and "key_value (recv_key_block k) AUTH_KEY_TYPE_CHAP_CHALLENGE \<noteq> None"
    and "acl_text_to_number idv = Some number" "number \<le> 255"
  shows "local_recv_challenge env k = local_send_response env
    (k\<lparr>recv_key_block := fst (acl_get_key_val (fst (acl_get_key_val (recv_key_block k)
        AUTH_KEY_TYPE_CHAP_IDENTIFIER)) AUTH_KEY_TYPE_CHAP_CHALLENGE)\<rparr>) number"
  using assms by (auto simp: local_recv_challenge_def get_recv_key_eq local_challenge_reply_def)

text \<open>The local half of the second message: the algorithm is accepted and the challenge answered.\<close>

lemma initiator_answers:
  assumes d: "node_type d = TYPE_INITIATOR" "local_state d = AUTH_LOCAL_STATE_RECV_ALG"
      "recv_chap_challenge_status d = 0" "challenge_bytes (recv_chap_challenge d) = ch"
    and pw: "passwd_present d" "12 \<le> length (passwd_data d)" "length (passwd_data d) \<le> AUTH_STR_MAX_LEN"
    and R: "key_blk_ok (recv_key_block d)" "kv_vals (view_of (recv_key_block d)) = [1 \<mapsto> udec a, 4 \<mapsto> udec i, 5 \<mapsto> []]"
    and env: "digest_lengths (EVP_digest env)" "EVP_digest env (int a) = Some H"
    and alg: "set (chap_alg_list d) \<subseteq> {5, 6, 7, 8}" "int a \<in> set (chap_alg_list d)" "chap_rsp_len (int a) = Some n"
    and i: "i \<le> 255"
  defines "R3 \<equiv> fst (acl_get_key_val (fst (acl_get_key_val (fst (acl_get_key_val (recv_key_block d) 1)) 4)) 5)"
    and "t \<equiv> ''0x'' @ hex_text (chap_response H i (passwd_data d) ch)"
  shows "acl_local_auth env d = d\<lparr>negotiated_chap_alg := int a, chap_challenge_len := n, recv_key_block := R3,
      scratch_key_value := t, send_key_block := acl_set_key_value (acl_set_key_value (send_key_block d)
        AUTH_KEY_TYPE_CHAP_RSP (Some t)) AUTH_KEY_TYPE_CHAP_USERNAME (Some (username d)),
      local_state := AUTH_LOCAL_STATE_DONE\<rparr>" (is ?eq)
    and "length t \<le> 66" "is_cstr t"
    and "key_blk_ok R3" "view_of R3 = view_get (view_get (view_get (view_of (recv_key_block d)) 1) 4) 5"
proof -
  define R1 where "R1 = fst (acl_get_key_val (recv_key_block d) 1)"
  have R1: "acl_get_key_val (recv_key_block d) AUTH_KEY_TYPE_CHAP_ALG = (R1, Some (udec a))" "key_blk_ok R1"
      "view_of R1 = view_get (view_of (recv_key_block d)) 1"
    using R view_of_get [OF R(1), of 1] by (simp_all add: R1_def KEYS prod_eq_iff)
  show "key_blk_ok R3" "view_of R3 = view_get (view_get (view_get (view_of (recv_key_block d)) 1) 4) 5"
    unfolding R3_def R1_def [symmetric] using R1(2,3) by (simp_all add: view_of_get KEYS)
  define k where "k = d\<lparr>recv_key_block := R1, scratch_key_value := udec a, negotiated_chap_alg := int a,
      chap_challenge_len := n\<rparr>"
  have chk: "acl_chk_chap_alg_key d = k"
    unfolding k_def using R1(1) alg by (intro chk_chap_alg_eq)
  have kf: "node_type k = TYPE_INITIATOR" "recv_key_block k = R1" "recv_chap_challenge_status k = 0"
      "negotiated_chap_alg k = int a" "chap_challenge_len k = n" "passwd_data k = passwd_data d"
      "passwd_present k" "username k = username d" "send_key_block k = send_key_block d"
    by (simp_all add: k_def d pw)
  have "local_recv_alg env d = local_recv_challenge env k"
    by (rule local_recv_alg_initiator [OF d(1) chk]) (simp_all add: kf alg)
  also have "local_recv_challenge env k = local_send_response env (k\<lparr>recv_key_block := R3\<rparr>) i"
    unfolding R3_def R1_def [symmetric] using R(2) R1(2,3) i
    by (subst local_recv_challenge_answer [where idv = "udec i" and number = i])
       (simp_all add: kf key_value_view view_get_def KEYS acl_text_to_number_udec ULONG_MAX_def)
  finally have eq: "acl_local_auth env d = local_send_response env (k\<lparr>recv_key_block := R3\<rparr>) i"
    by (simp add: acl_local_auth_def d)
  have chal: "challenge_bytes (recv_chap_challenge (k\<lparr>recv_key_block := R3\<rparr>)) = ch"
    using d(4) by (simp add: k_def challenge_bytes_def)
  note rsp = local_send_response_eq [of "k\<lparr>recv_key_block := R3\<rparr>" env H i, unfolded chal]
  from rsp pw env alg show "length t \<le> 66" "is_cstr t" by (simp_all add: t_def kf)
  have "local_send_response env (k\<lparr>recv_key_block := R3\<rparr>) i = (k\<lparr>recv_key_block := R3\<rparr>)
      \<lparr>scratch_key_value := t, send_key_block := acl_set_key_value (acl_set_key_value (send_key_block d)
        AUTH_KEY_TYPE_CHAP_RSP (Some t)) AUTH_KEY_TYPE_CHAP_USERNAME (Some (username d)),
      local_state := AUTH_LOCAL_STATE_DONE\<rparr>"
    using rsp(1) pw env alg by (simp add: t_def kf)
  then show ?eq unfolding eq by (simp add: k_def)
qed

text \<open>The four keys of the second answer fit the send block.\<close>

lemma second_answer_block:
  fixes ib :: byte
  assumes S: "key_blk_ok S" "view_of S = view_init" and t: "length t \<le> 66" "is_cstr t"
    and u: "length u < AUTH_STR_MAX_LEN" "is_cstr u"
  defines "S4 \<equiv> acl_set_key_value (acl_set_key_value (acl_set_key_value (acl_set_key_value S
      AUTH_KEY_TYPE_CHAP_RSP (Some t)) AUTH_KEY_TYPE_CHAP_USERNAME (Some u))
      AUTH_KEY_TYPE_CHAP_IDENTIFIER (Some (udec (unat ib)))) AUTH_KEY_TYPE_CHAP_CHALLENGE (Some [])"
  shows "key_blk_ok S4" "view_of S4 = view_init\<lparr>kv_vals := [3 \<mapsto> t, 2 \<mapsto> u, 4 \<mapsto> udec (unat ib), 5 \<mapsto> []],
      kv_written := {2, 3, 4, 5}, kv_used := length t + length u + length (udec (unat ib)) + 4\<rparr>"
proof -
  have "unat ib < 256" using unsigned_less [of ib] by simp
  then have "length (udec (unat ib)) \<le> 3" using length_udec [of "unat ib" 3] by simp
  then show "key_blk_ok S4" "view_of S4 = view_init\<lparr>kv_vals := [3 \<mapsto> t, 2 \<mapsto> u, 4 \<mapsto> udec (unat ib), 5 \<mapsto> []],
      kv_written := {2, 3, 4, 5}, kv_used := length t + length u + length (udec (unat ib)) + 4\<rparr>"
    using S t u is_cstr_udec
    by (simp_all add: S4_def view_of_set_Some view_set_def view_init_def KEYS AUTH_STR_MAX_LEN_def
        AUTH_STR_BLOCK_MAX_LEN_def Let_def insert_commute fun_upd_twist)
qed

lemma second_message_end:
  assumes s1: "stage1 c" and env: "digest_lengths (EVP_digest env)" "EVP_digest env (int a) = Some H"
    and alg: "int a \<in> set (chap_alg_list c)" "chap_rsp_len (int a) = Some n"
    and rand: "RAND_bytes env 0 1 = Some [ib]" "RAND_bytes env 1 n = Some rb" "length rb = n"
    and ch: "ch \<noteq> []" "length ch \<le> AUTH_LARGE_BINARY_MAX_LEN" and i: "i \<le> 255"
  obtains e where
    "acl_recv_end env (acl_recv_message c [(1, udec a), (4, udec i), (5, ''0x'' @ hex_text ch)] False) (Some sess)
       = (e, AUTH_STATUS_CONTINUE)"
    and "same_setup (c\<lparr>send_chap_challenge := send_chap_challenge e\<rparr>) e" and "stage2 H a ib rb e"
    and "key_value (send_key_block e) AUTH_KEY_TYPE_CHAP_RSP = Some (''0x'' @ hex_text (chap_response H i (passwd_data c) ch))"
proof -
  from s1 have r: "ready c" and ph: "phase c = AUTH_PHASE_AUTHENTICATE" and cnt: "recv_end_count c = 1"
    and st: "local_state c = AUTH_LOCAL_STATE_RECV_ALG" "rmt_state c = AUTH_RMT_STATE_SEND_CHALLENGE"
    by (auto simp: stage1_def)
  from r have cfg: "signature c = ACL_SIGNATURE" "node_type c = TYPE_INITIATOR" "auth_rmt c" "passwd_present c"
      "12 \<le> length (passwd_data c)" "length (passwd_data c) \<le> AUTH_STR_MAX_LEN"
      "length (username c) < AUTH_STR_MAX_LEN" "is_cstr (username c)" "set (chap_alg_list c) \<subseteq> {5, 6, 7, 8}"
    by (auto simp: ready_def cfg_ok_def strings_ok_def)
  have a10: "a < 10" and i1000: "i < 1000" using alg(1) cfg(9) i by auto
  let ?t = "''0x'' @ hex_text (chap_response H i (passwd_data c) ch)"
  obtain R S where d: "acl_recv_message c [(1, udec a), (4, udec i), (5, ''0x'' @ hex_text ch)] False =
      c\<lparr>recv_in_progress_flag := True, transit_bit_sent_flag := transit_bit (send_key_block c),
        send_key_block := S, recv_chap_challenge_status := 0,
        recv_chap_challenge := \<lparr>lb_length = length ch,
          large_binary = overlay (large_binary (recv_chap_challenge c)) 0 ch\<rparr>,
        recv_key_block := R\<rparr>" (is "?m = ?d")
    and R: "key_blk_ok R" "view_of R = view_init\<lparr>kv_vals := [1 \<mapsto> udec a, 4 \<mapsto> udec i, 5 \<mapsto> []],
      kv_written := {1, 4, 5}, kv_used := length (udec a) + length (udec i) + 3\<rparr>"
    and S: "key_blk_ok S" "view_of S = view_init"
    by (rule recv_message_second [OF r ph ch a10 i1000])
  define d2 where "d2 = ?d\<lparr>recv_end_count := 2, session_handle := Some sess\<rparr>"
  have start: "recv_end_start ?d (Some sess) = d2"
    using R by (subst recv_end_start_ok) (simp_all add: d2_def cnt block_flags_view view_init_def)
  define l where "l = acl_local_auth env d2"
  have loc: "l = d2\<lparr>negotiated_chap_alg := int a, chap_challenge_len := n,
      recv_key_block := fst (acl_get_key_val (fst (acl_get_key_val (fst (acl_get_key_val R 1)) 4)) 5),
      scratch_key_value := ?t, send_key_block := acl_set_key_value (acl_set_key_value S
        AUTH_KEY_TYPE_CHAP_RSP (Some ?t)) AUTH_KEY_TYPE_CHAP_USERNAME (Some (username c)),
      local_state := AUTH_LOCAL_STATE_DONE\<rparr>"
    and t: "length ?t \<le> 66" "is_cstr ?t"
    and R3: "key_blk_ok (recv_key_block l)" "view_of (recv_key_block l) = view_get (view_get (view_get (view_of R) 1) 4) 5"
    using initiator_answers [of d2 ch a i env H n] R cfg env alg i st
    unfolding l_def by (simp_all add: d2_def challenge_bytes_def overlay_def)
  define S4 where "S4 = acl_set_key_value (acl_set_key_value (send_key_block l) AUTH_KEY_TYPE_CHAP_IDENTIFIER
      (Some (udec (unat ib)))) AUTH_KEY_TYPE_CHAP_CHALLENGE (Some [])"
  have "key_blk_ok S4 \<and> view_of S4 = view_init\<lparr>kv_vals := [3 \<mapsto> ?t, 2 \<mapsto> username c, 4 \<mapsto> udec (unat ib), 5 \<mapsto> []],
      kv_written := {2, 3, 4, 5}, kv_used := length ?t + length (username c) + length (udec (unat ib)) + 4\<rparr>"
    using second_answer_block [OF S t cfg(7,8)] by (simp add: S4_def loc)
  then have S4: "key_blk_ok S4" "view_of S4 = view_init\<lparr>kv_vals := [3 \<mapsto> ?t, 2 \<mapsto> username c, 4 \<mapsto> udec (unat ib), 5 \<mapsto> []],
      kv_written := {2, 3, 4, 5}, kv_used := length ?t + length (username c) + length (udec (unat ib)) + 4\<rparr>"
    by blast+
  define r where "r = l\<lparr>send_chap_identifier := unat ib, scratch_key_value := udec (unat ib),
      send_chap_challenge := \<lparr>lb_length = n, large_binary = overlay (large_binary (send_chap_challenge c)) 0 rb\<rparr>,
      send_key_block := S4, rmt_state := AUTH_RMT_STATE_RECV_RSP\<rparr>"
  have lf: "auth_rmt l" "rmt_state l = AUTH_RMT_STATE_SEND_CHALLENGE" "chap_challenge_len l = n"
      "send_chap_challenge l = send_chap_challenge c" "local_state l = AUTH_LOCAL_STATE_DONE"
      "phase l = AUTH_PHASE_AUTHENTICATE" "node_type l = TYPE_INITIATOR"
    by (simp_all add: loc d2_def cfg st ph)
  have rm: "acl_rmt_auth env l = r"
    using rmt_send_challenge_eq [of l env ib rb] rand lf by (simp add: acl_rmt_auth_def r_def S4_def)
  have rf: "phase r = AUTH_PHASE_AUTHENTICATE" "node_type r = TYPE_INITIATOR" "recv_key_block r = recv_key_block l"
      "send_key_block r = S4" "rmt_state r = AUTH_RMT_STATE_RECV_RSP" "local_state r = AUTH_LOCAL_STATE_DONE"
    by (simp_all add: r_def lf)
  have flags: "\<not> transit_bit (recv_key_block l)" "\<not> unprocessed_key (recv_key_block l)"
      "\<not> dup_set S4" "\<not> str_too_long S4" "\<not> too_much_data S4"
    using R3 R(2) S4 by (auto simp: unprocessed_view block_flags_view view_get_def view_init_def KEYS)
  let ?e = "(send_t_bit r)\<lparr>recv_in_progress_flag := False\<rparr>"
  have hs: "acl_hand_shake r = send_t_bit r" by (simp add: acl_hand_shake_def rf flags)
  have fin: "acl_rcv_end_status (send_t_bit r) = (?e, AUTH_STATUS_CONTINUE)"
    by (rule status_continue) (simp_all add: send_t_bit_def set_transit_def rf flags)
  show thesis
  proof (rule that [of ?e])
    have "acl_recv_end env ?d (Some sess) = acl_rcv_end_status (acl_hand_shake r)"
      by (rule recv_end_in_authenticate [OF _ _ _ start _ l_def [symmetric] _ rm]) (simp_all add: cfg ph d2_def lf rf)
    then show "acl_recv_end env ?m (Some sess) = (?e, AUTH_STATUS_CONTINUE)" unfolding d by (simp add: hs fin)
    show "same_setup (c\<lparr>send_chap_challenge := send_chap_challenge ?e\<rparr>) ?e"
      by (simp add: same_setup_def send_t_bit_def r_def loc d2_def)
    have "n \<le> 32" using alg(2) by (auto simp: chap_rsp_len_def split: if_splits)
    then show "stage2 H a ib rb ?e"
      using r s1 S4(1) R3(1) ch rand(3) alg(2) cfg is_cstr_udec
      by (simp add: stage2_def stage1_def ready_def cfg_ok_def strings_ok_def send_t_bit_def set_transit_def
          r_def loc d2_def challenge_bytes_def length_overlay overlay_def AUTH_LARGE_BINARY_MAX_LEN_def)
    show "key_value (send_key_block ?e) AUTH_KEY_TYPE_CHAP_RSP = Some ?t"
      using S4(2) by (simp add: send_t_bit_def rf key_value_view view_of_set_transit KEYS)
  qed
qed

subsection \<open>Third message: the peer's response\<close>

lemma recv_message_third:
  assumes r: "ready c" and ph: "phase c = AUTH_PHASE_AUTHENTICATE"
    and u: "is_cstr u" "length u < AUTH_STR_MAX_LEN" and w: "is_cstr w" "length w \<le> 66"
  obtains R S where
    "acl_recv_message c [(2, u), (3, w)] True =
      c\<lparr>recv_in_progress_flag := True, transit_bit_sent_flag := transit_bit (send_key_block c),
        send_key_block := S, recv_key_block := R\<rparr>"
    and "key_blk_ok R"
    and "view_of R = view_init\<lparr>kv_vals := [2 \<mapsto> u, 3 \<mapsto> w], kv_written := {2, 3},
      kv_used := length u + length w + 2, kv_transit := True\<rparr>"
    and "key_blk_ok S" and "view_of S = view_init"
proof -
  from r have sig: "signature c = ACL_SIGNATURE" and np: "\<not> recv_in_progress_flag c"
    and kb: "key_blk_ok (recv_key_block c)" "key_blk_ok (send_key_block c)"
    by (auto simp: ready_def cfg_ok_def strings_ok_def)
  note len = key_blk_okD(2) [OF kb(1)] key_blk_okD(2) [OF kb(2)]
  let ?R = "set_transit True (acl_set_key_value (acl_set_key_value (acl_init_key_blk (recv_key_block c))
      2 (Some u)) 3 (Some w))"
  have eq: "acl_recv_message c [(2, u), (3, w)] True =
      c\<lparr>recv_in_progress_flag := True, transit_bit_sent_flag := transit_bit (send_key_block c),
        send_key_block := acl_init_key_blk (send_key_block c), recv_key_block := ?R\<rparr>"
    by (simp add: acl_recv_message_def recv_begin_next [OF sig np ph] recv_begin_reset_def
        recv_key_eq recv_transit_eq sig ph)
  show thesis
  proof (rule that [OF eq])
    show "key_blk_ok ?R" "key_blk_ok (acl_init_key_blk (send_key_block c))"
      using len u w by (simp_all add: KEYS)
    show "view_of (acl_init_key_blk (send_key_block c)) = view_init" using len by (simp add: view_of_init)
    show "view_of ?R = view_init\<lparr>kv_vals := [2 \<mapsto> u, 3 \<mapsto> w], kv_written := {2, 3},
      kv_used := length u + length w + 2, kv_transit := True\<rparr>"
      using len u w
      by (simp add: view_eval KEYS AUTH_STR_MAX_LEN_def AUTH_STR_BLOCK_MAX_LEN_def insert_commute)
  qed
qed

lemma auth_request_accepts:
  assumes "session_handle c = Some sess" and "username_in sess \<noteq> []"
    and "password_in sess \<noteq> []" "hd (password_in sess) \<noteq> 0"
    and H: "EVP_digest env (negotiated_chap_alg c) = Some H"
    and len: "chap_rsp_len (negotiated_chap_alg c) = Some (chap_challenge_len c)"
    and dl: "digest_lengths (EVP_digest env)"
  shows "acl_chap_auth_request env c (username_in sess) i ch (chap_response H i (password_in sess) ch) = AUTH_STATUS_PASS"
proof -
  have hl: "length (H x) = chap_challenge_len c" for x
    using dl H len by (auto simp: digest_lengths_def)
  show ?thesis
    using assms hl
    by (simp add: acl_chap_auth_request_def auth_hash_init_eq auth_hash_update_def auth_hash_final_def
        chap_response_def Let_def)
qed

lemma rmt_recv_rsp_accepts:
  assumes ok: "key_blk_ok (recv_key_block c)" and ne: "\<not> auth_server_error_flag c"
    and s: "session_handle c = Some sess" "username_in sess \<noteq> []" "length (username_in sess) < AUTH_STR_MAX_LEN"
      "password_in sess \<noteq> []" "hd (password_in sess) \<noteq> 0"
    and H: "EVP_digest env (negotiated_chap_alg c) = Some H"
    and len: "chap_rsp_len (negotiated_chap_alg c) = Some (chap_challenge_len c)"
    and dl: "digest_lengths (EVP_digest env)"
    and pw: "passwd_present c" "length (passwd_data c) \<le> AUTH_STR_MAX_LEN"
    and rsp: "rsp = chap_response H (send_chap_identifier c) (password_in sess) (challenge_bytes (send_chap_challenge c))"
    and diff: "rsp \<noteq> chap_response H (send_chap_identifier c) (passwd_data c) (challenge_bytes (send_chap_challenge c))"
    and kv: "key_value (recv_key_block c) AUTH_KEY_TYPE_CHAP_RSP = Some (''0x'' @ hex_text rsp)"
      "key_value (recv_key_block c) AUTH_KEY_TYPE_CHAP_USERNAME = Some (username_in sess)"
  shows "rmt_recv_rsp env c = c\<lparr>recv_key_block := fst (acl_get_key_val (fst (acl_get_key_val (recv_key_block c)
        AUTH_KEY_TYPE_CHAP_RSP)) AUTH_KEY_TYPE_CHAP_USERNAME),
      chap_username := username_in sess, rmt_auth_status := AUTH_STATUS_PASS, auth_rsp_flag := True,
      dbg_status := AUTH_DBG_STATUS_AUTH_PASS, rmt_state := AUTH_RMT_STATE_DONE\<rparr>"
proof -
  define blk where "blk = fst (acl_get_key_val (fst (acl_get_key_val (recv_key_block c)
        AUTH_KEY_TYPE_CHAP_RSP)) AUTH_KEY_TYPE_CHAP_USERNAME)"
  have hl: "length rsp = chap_challenge_len c"
    using dl H len rsp by (auto simp: digest_lengths_def chap_response_def)
  have bound: "0 < chap_challenge_len c" "chap_challenge_len c \<le> 32"
    using len by (auto simp: chap_rsp_len_def split: if_splits)
  with hl have dec: "acl_text_to_data (''0x'' @ hex_text rsp) AUTH_STR_MAX_LEN = (0, rsp)"
    by (intro acl_text_to_data_hex_text) (auto simp: AUTH_LARGE_BINARY_MAX_LEN_def AUTH_STR_MAX_LEN_def)
  have own: "\<not> own_response env (c\<lparr>recv_key_block := blk\<rparr>) rsp"
    using own_response_iff [OF pw H len dl] diff by simp
  have req: "acl_chap_auth_request env (c\<lparr>recv_key_block := blk, chap_username := username_in sess\<rparr>)
      (username_in sess) (send_chap_identifier c) (challenge_bytes (send_chap_challenge c)) rsp = AUTH_STATUS_PASS"
    using auth_request_accepts [OF s(1,2,4,5) H len dl] rsp by simp
  have "the (fst (strlcpy (username_in sess) AUTH_STR_MAX_LEN)) = username_in sess"
    using s(3) by (simp add: strlcpy_eq)
  with req have "rmt_check_response env (c\<lparr>recv_key_block := blk\<rparr>) (username_in sess) rsp =
      c\<lparr>recv_key_block := blk, chap_username := username_in sess, rmt_auth_status := AUTH_STATUS_PASS,
        auth_rsp_flag := True, dbg_status := AUTH_DBG_STATUS_AUTH_PASS, rmt_state := AUTH_RMT_STATE_DONE\<rparr>"
    using ne by (simp add: rmt_check_response_def Let_def)
  with dec own kv ok show ?thesis
    by (simp add: rmt_recv_rsp_def get_recv_key_eq rmt_response_reply_def blk_def [symmetric])
qed

lemma third_message_end:
  assumes s2: "stage2 H a ib rb c" and env: "digest_lengths (EVP_digest env)" "EVP_digest env (int a) = Some H"
    and s: "username_in sess \<noteq> []" "is_cstr (username_in sess)" "length (username_in sess) < AUTH_STR_MAX_LEN"
      "password_in sess \<noteq> []" "hd (password_in sess) \<noteq> 0"
    and rsp: "rsp = chap_response H (unat ib) (password_in sess) rb"
    and diff: "rsp \<noteq> chap_response H (unat ib) (passwd_data c) rb"
  shows "snd (acl_recv_end env (acl_recv_message c [(2, username_in sess), (3, ''0x'' @ hex_text rsp)] True) (Some sess))
       = AUTH_STATUS_PASS"
proof -
  from s2 have r: "ready c" and ph: "phase c = AUTH_PHASE_AUTHENTICATE" and cnt: "recv_end_count c = 2"
    and st: "local_state c = AUTH_LOCAL_STATE_DONE" "rmt_state c = AUTH_RMT_STATE_RECV_RSP"
    and alg: "negotiated_chap_alg c = int a" "chap_rsp_len (int a) = Some (chap_challenge_len c)"
    and chal: "send_chap_identifier c = unat ib" "challenge_bytes (send_chap_challenge c) = rb"
    and t: "transit_bit (send_key_block c)"
    by (auto simp: stage2_def)
  from r have cfg: "signature c = ACL_SIGNATURE" "node_type c = TYPE_INITIATOR" "auth_rmt c" "passwd_present c"
      "length (passwd_data c) \<le> AUTH_STR_MAX_LEN" "\<not> auth_server_error_flag c"
    by (auto simp: ready_def cfg_ok_def)
  have "length rsp = chap_challenge_len c"
    using env alg rsp by (auto simp: digest_lengths_def chap_response_def)
  moreover have "chap_challenge_len c \<le> 32" using alg(2) by (auto simp: chap_rsp_len_def split: if_splits)
  ultimately have w: "is_cstr (''0x'' @ hex_text rsp)" "length (''0x'' @ hex_text rsp) \<le> 66"
    using hex_text_clean by simp_all
  obtain R S where d: "acl_recv_message c [(2, username_in sess), (3, ''0x'' @ hex_text rsp)] True =
      c\<lparr>recv_in_progress_flag := True, transit_bit_sent_flag := transit_bit (send_key_block c),
        send_key_block := S, recv_key_block := R\<rparr>" (is "?m = ?d")
    and R: "key_blk_ok R" "view_of R = view_init\<lparr>kv_vals := [2 \<mapsto> username_in sess, 3 \<mapsto> ''0x'' @ hex_text rsp],
      kv_written := {2, 3}, kv_used := length (username_in sess) + length (''0x'' @ hex_text rsp) + 2,
      kv_transit := True\<rparr>"
    and S: "key_blk_ok S" "view_of S = view_init"
    by (rule recv_message_third [OF r ph s(2,3) w])
  define d2 where "d2 = ?d\<lparr>recv_end_count := 3, session_handle := Some sess\<rparr>"
  have start: "recv_end_start ?d (Some sess) = d2"
    using R by (subst recv_end_start_ok) (simp_all add: d2_def cnt block_flags_view view_init_def)
  define R2 where "R2 = fst (acl_get_key_val (fst (acl_get_key_val R AUTH_KEY_TYPE_CHAP_RSP)) AUTH_KEY_TYPE_CHAP_USERNAME)"
  have R2: "key_blk_ok R2" "view_of R2 = view_get (view_get (view_of R) 3) 2"
    using R(1) by (simp_all add: R2_def view_of_get KEYS)
  define q where "q = d2\<lparr>recv_key_block := R2, chap_username := username_in sess,
      rmt_auth_status := AUTH_STATUS_PASS, auth_rsp_flag := True,
      dbg_status := AUTH_DBG_STATUS_AUTH_PASS, rmt_state := AUTH_RMT_STATE_DONE\<rparr>"
  have loc: "acl_local_auth env d2 = d2" by (simp add: acl_local_auth_def d2_def st)
  have kv: "key_value R AUTH_KEY_TYPE_CHAP_RSP = Some (''0x'' @ hex_text rsp)"
      "key_value R AUTH_KEY_TYPE_CHAP_USERNAME = Some (username_in sess)"
    using R(2) by (simp_all add: key_value_view KEYS)
  have f: "recv_key_block d2 = R" "session_handle d2 = Some sess" "negotiated_chap_alg d2 = int a"
      "chap_challenge_len d2 = chap_challenge_len c" "passwd_present d2" "passwd_data d2 = passwd_data c"
      "send_chap_identifier d2 = unat ib" "challenge_bytes (send_chap_challenge d2) = rb"
      "\<not> auth_server_error_flag d2" "rmt_state d2 = AUTH_RMT_STATE_RECV_RSP"
      "phase d2 = AUTH_PHASE_AUTHENTICATE" "local_state d2 = AUTH_LOCAL_STATE_DONE"
      "transit_bit_sent_flag d2" "node_type d2 = TYPE_INITIATOR" "send_key_block d2 = S"
    by (simp_all add: d2_def alg cfg chal st ph t)
  have "rmt_recv_rsp env d2 = q"
    using rmt_recv_rsp_accepts [of d2 sess env H rsp] R(1) s env alg cfg rsp diff kv
    by (simp add: f q_def R2_def)
  then have rm: "acl_rmt_auth env d2 = q" by (simp add: acl_rmt_auth_def f)
  have flags: "transit_bit R2" "\<not> dup_set S" "\<not> str_too_long S" "\<not> too_much_data S" "\<not> unprocessed_key R2"
    using R2 R(2) S
    by (auto simp: unprocessed_view block_flags_view view_get_def view_init_def KEYS)
  have hs: "acl_hand_shake q = q\<lparr>phase := AUTH_PHASE_DONE\<rparr>"
    by (simp add: acl_hand_shake_def q_def f flags acl_next_phase_def)
  have fin: "acl_rcv_end_status (q\<lparr>phase := AUTH_PHASE_DONE\<rparr>) =
      (q\<lparr>phase := AUTH_PHASE_DONE, recv_in_progress_flag := False\<rparr>, AUTH_STATUS_PASS)"
    by (subst status_pass) (simp_all add: q_def f flags)
  have "acl_recv_end env ?d (Some sess) = acl_rcv_end_status (acl_hand_shake q)"
    by (rule recv_end_in_authenticate [OF _ _ _ start _ loc _ rm]) (simp_all add: cfg ph f, simp_all add: q_def f)
  then show ?thesis unfolding d by (simp add: hs fin)
qed

text \<open>The initiator as \<open>login.c\<close> sets it up: \<open>acl_init\<close>, the user name, the password and the
  algorithms; authentication of the peer stays on.\<close>

definition initiator_client :: "nat \<Rightarrow> auth_buffer_desc list \<Rightarrow> string \<Rightarrow> byte list \<Rightarrow> int list \<Rightarrow> iscsi_acl" where
  "initiator_client sz descs u pw algs =
     fst (acl_set_chap_alg_list (fst (acl_set_passwd (fst (acl_set_user_name
       (the (fst (acl_init sz 1 (Some descs)))) (Some u))) pw)) algs)"

lemma acl_init_initiator:
  assumes "buf_desc_ok sz descs"
  shows "acl_init sz 1 (Some descs) =
    (Some (acl_set_auth_method_valid ((acl_init_client TYPE_INITIATOR)
       \<lparr>auth_method_list := [AUTH_METHOD_CHAP, AUTH_OPTION_NONE]\<rparr>)), AUTH_STATUS_NO_ERROR)"
  using assms
  by (simp add: acl_init_def acl_set_auth_method_list_def acl_set_option_list_def acl_init_client_def
      acl_init_base_def AUTH_METHOD_MAX_COUNT_def acl_chk_auth_mthd_optn_def has_duplicate_def
      acl_chk_auth_method_list_def auth_option_defs Let_def)

lemma method_valid_fields [simp]:
  "node_type (acl_set_auth_method_valid c) = node_type c" "auth_rmt (acl_set_auth_method_valid c) = auth_rmt c"
  "signature (acl_set_auth_method_valid c) = signature c" "phase (acl_set_auth_method_valid c) = phase c"
  "recv_in_progress_flag (acl_set_auth_method_valid c) = recv_in_progress_flag c"
  "passwd_present (acl_set_auth_method_valid c) = passwd_present c"
  "passwd_data (acl_set_auth_method_valid c) = passwd_data c"
  "auth_server_error_flag (acl_set_auth_method_valid c) = auth_server_error_flag c"
  "send_chap_challenge (acl_set_auth_method_valid c) = send_chap_challenge c"
  "chap_alg_list (acl_set_auth_method_valid c) = chap_alg_list c"
  "username (acl_set_auth_method_valid c) = username c"
  "recv_end_count (acl_set_auth_method_valid c) = recv_end_count c"
  "auth_rsp_flag (acl_set_auth_method_valid c) = auth_rsp_flag c"
  "auth_method_list (acl_set_auth_method_valid c) = auth_method_list c"
  "auth_method_valid_list (acl_set_auth_method_valid c) = auth_method_valid c"
  by (simp_all add: acl_set_auth_method_valid_def acl_set_auth_method_key_def acl_set_key_def set_send_key_def Let_def)

definition algs_ok :: "int list \<Rightarrow> bool" where
  "algs_ok algs \<longleftrightarrow> algs \<noteq> [] \<and> distinct algs \<and> set algs \<subseteq> {5, 6, 7, 8} \<and> length algs \<le> AUTH_CHAP_ALG_MAX_COUNT"

lemma set_user_name_ok:
  assumes "signature c = ACL_SIGNATURE" "phase c = AUTH_PHASE_CONFIGURE" "length u < AUTH_STR_MAX_LEN" "is_cstr u"
  shows "acl_set_user_name c (Some u) = (c\<lparr>username := u\<rparr>, AUTH_STATUS_NO_ERROR)"
  using assms by (simp add: acl_set_user_name_def strlcpy_eq AUTH_STR_MAX_LEN_def Let_def)

lemma set_passwd_ok:
  assumes "signature c = ACL_SIGNATURE" "phase c = AUTH_PHASE_CONFIGURE" "length pw \<le> AUTH_STR_MAX_LEN"
  shows "acl_set_passwd c pw =
    (acl_set_auth_method_valid (c\<lparr>passwd_data := pw, passwd_present := True\<rparr>), AUTH_STATUS_NO_ERROR)"
  using assms by (simp add: acl_set_passwd_def)

lemma has_duplicate_iff: "has_duplicate xs \<longleftrightarrow> \<not> distinct xs"
  unfolding has_duplicate_def distinct_conv_nth list_ex_iff by (simp add: Bex_def) metis

lemma set_chap_alg_list_ok:
  assumes "signature c = ACL_SIGNATURE" "phase c = AUTH_PHASE_CONFIGURE" "algs_ok algs"
  shows "acl_set_chap_alg_list c algs = (c\<lparr>chap_alg_list := algs\<rparr>, AUTH_STATUS_NO_ERROR)"
  using assms
  by (auto simp: acl_set_chap_alg_list_def acl_set_option_list_def algs_ok_def acl_chk_chap_alg_list_def
      has_duplicate_iff list_ex_iff acl_chk_chap_alg_optn_def auth_option_defs)

lemma initiator_client_eq:
  assumes "buf_desc_ok sz descs" "is_cstr u" "length u < AUTH_STR_MAX_LEN"
    "length pw \<le> AUTH_STR_MAX_LEN" "algs_ok algs"
  shows "initiator_client sz descs u pw algs =
    acl_set_auth_method_valid (acl_set_auth_method_valid ((acl_init_client TYPE_INITIATOR)
       \<lparr>auth_method_list := [AUTH_METHOD_CHAP, AUTH_OPTION_NONE]\<rparr>)
       \<lparr>username := u, passwd_data := pw, passwd_present := True\<rparr>)\<lparr>chap_alg_list := algs\<rparr>"
proof -
  have c: "signature (acl_init_client TYPE_INITIATOR) = ACL_SIGNATURE"
    "phase (acl_init_client TYPE_INITIATOR) = AUTH_PHASE_CONFIGURE"
    by (simp_all add: acl_init_client_def)
  show ?thesis
    using assms by (simp add: initiator_client_def acl_init_initiator c set_user_name_ok set_passwd_ok set_chap_alg_list_ok)
qed

lemma initiator_client_fields:
  assumes "buf_desc_ok sz descs" "is_cstr u" "length u < AUTH_STR_MAX_LEN"
    "length pw \<le> AUTH_STR_MAX_LEN" "algs_ok algs"
  defines "c \<equiv> initiator_client sz descs u pw algs"
  shows "node_type c = TYPE_INITIATOR" "auth_rmt c" "phase c = AUTH_PHASE_CONFIGURE" "\<not> recv_in_progress_flag c"
    "passwd_present c" "passwd_data c = pw" "\<not> auth_server_error_flag c"
    "length (large_binary (send_chap_challenge c)) = AUTH_LARGE_BINARY_MAX_LEN"
    "chap_alg_list c = algs" "recv_end_count c = 0" "\<not> auth_rsp_flag c" "username c = u"
    "auth_method_valid_list c = [AUTH_METHOD_CHAP]"
  using assms(1-5)
  by (simp_all add: c_def initiator_client_eq acl_init_client_def acl_init_base_def acl_zero_def Let_def
      auth_method_valid_def auth_option_defs)

lemma initiator_client_run:
  assumes "buf_desc_ok sz descs" "is_cstr u"
  shows "acl_run D sess [] (initiator_client sz descs u pw algs)"
proof -
  have "acl_run D sess [] (the (fst (acl_init sz 1 (Some descs))))"
    by (rule acl_run.init [of sz 1 "Some descs"]) (simp add: acl_init_initiator [OF assms(1)])
  with assms(2) show ?thesis
    unfolding initiator_client_def by (intro acl_run.alg acl_run.passwd acl_run.user) simp_all
qed

lemma initiator_client_ready:
  assumes "buf_desc_ok sz descs" "is_cstr u" "length u < AUTH_STR_MAX_LEN"
    "12 \<le> length pw" "length pw \<le> AUTH_STR_MAX_LEN" "algs_ok algs"
  shows "ready (initiator_client sz descs u pw algs)"
proof -
  have "acl_run (\<lambda>_. None) undefined [] (initiator_client sz descs u pw algs)"
    by (rule initiator_client_run [OF assms(1,2)])
  then have "cfg_ok (initiator_client sz descs u pw algs)"
    by (rule acl_invD [OF acl_run_inv]) (simp add: digest_lengths_def)
  with assms initiator_client_fields [OF assms(1-3,5,6)] show ?thesis
    by (simp add: ready_def algs_ok_def)
qed

lemma recv_message_run:
  assumes "acl_run D sess tr c" "\<forall>(k, v) \<in> set kvs. is_cstr v"
  shows "acl_run D sess (rev kvs @ tr) (acl_recv_message c kvs t)"
proof -
  have "acl_run D sess (rev kvs @ tr') (fold (\<lambda>(k, v) c. fst (acl_recv_key_value c k v)) kvs d)"
    if "acl_run D sess tr' d" for tr' d
    using that assms(2)
    by (induction kvs arbitrary: tr' d) (auto intro: acl_run.recv_key)
  from this [OF acl_run.recv_begin [OF assms(1)]] show ?thesis
    unfolding acl_recv_message_def by (rule acl_run.recv_t)
qed

definition chap_login :: "acl_env \<Rightarrow> acl_env \<Rightarrow> acl_env \<Rightarrow> auth_session \<Rightarrow> iscsi_acl \<Rightarrow> nat \<Rightarrow> nat \<Rightarrow> byte list \<Rightarrow>
    (byte list \<Rightarrow> byte list) \<Rightarrow> (iscsi_acl \<times> auth_status) list" where
  "chap_login env1 env2 env3 sess c a i ch H =
     (let (e1, s1) = acl_recv_end env1 (acl_recv_message c [(0, ''CHAP'')] False) (Some sess);
          (e2, s2) = acl_recv_end env2 (acl_recv_message e1
             [(1, udec a), (4, udec i), (5, ''0x'' @ hex_text ch)] False) (Some sess);
          rsp = chap_response H (send_chap_identifier e2) (password_in sess) (challenge_bytes (send_chap_challenge e2));
          (e3, s3) = acl_recv_end env3 (acl_recv_message e2
             [(2, username_in sess), (3, ''0x'' @ hex_text rsp)] True) (Some sess)
      in [(e1, s1), (e2, s2), (e3, s3)])"

lemma chap_login_steps:
  assumes cfg: "buf_desc_ok sz descs" "is_cstr u" "length u < AUTH_STR_MAX_LEN"
      "12 \<le> length pw" "length pw \<le> AUTH_STR_MAX_LEN" "algs_ok algs"
    and alg: "int a \<in> set algs" "chap_rsp_len (int a) = Some n"
    and env: "digest_lengths D" "D (int a) = Some H" "EVP_digest env2 = D" "EVP_digest env3 = D"
    and rand: "RAND_bytes env2 0 1 = Some [ib]" "RAND_bytes env2 1 n = Some rb" "length rb = n"
    and peer: "ch \<noteq> []" "length ch \<le> AUTH_LARGE_BINARY_MAX_LEN" "i \<le> 255"
    and s: "username_in sess \<noteq> []" "is_cstr (username_in sess)" "length (username_in sess) < AUTH_STR_MAX_LEN"
      "password_in sess \<noteq> []" "hd (password_in sess) \<noteq> 0"
    and diff: "chap_response H (unat ib) (password_in sess) rb \<noteq> chap_response H (unat ib) pw rb"
  obtains e1 e2 e3 where
      "chap_login env1 env2 env3 sess (initiator_client sz descs u pw algs) a i ch H =
         [(e1, AUTH_STATUS_CONTINUE), (e2, AUTH_STATUS_CONTINUE), (e3, AUTH_STATUS_PASS)]"
    and "key_value (send_key_block e2) AUTH_KEY_TYPE_CHAP_RSP = Some (''0x'' @ hex_text (chap_response H i pw ch))"
    and "send_chap_identifier e2 = unat ib" and "challenge_bytes (send_chap_challenge e2) = rb"
proof -
  let ?c = "initiator_client sz descs u pw algs"
  note f = initiator_client_fields [OF cfg(1-3,5,6)]
  obtain e1 where e1: "acl_recv_end env1 (acl_recv_message ?c [(0, ''CHAP'')] False) (Some sess) = (e1, AUTH_STATUS_CONTINUE)"
      "same_setup ?c e1" "stage1 e1"
    by (rule first_message_end [OF initiator_client_ready [OF cfg] f(3,10,13,11)])
  then have k: "int a \<in> set (chap_alg_list e1)" "passwd_data e1 = pw" using alg(1) f by (simp_all add: same_setup_def)
  obtain e2 where e2: "acl_recv_end env2 (acl_recv_message e1 [(1, udec a), (4, udec i), (5, ''0x'' @ hex_text ch)] False)
        (Some sess) = (e2, AUTH_STATUS_CONTINUE)"
      "same_setup (e1\<lparr>send_chap_challenge := send_chap_challenge e2\<rparr>) e2" "stage2 H a ib rb e2"
      "key_value (send_key_block e2) AUTH_KEY_TYPE_CHAP_RSP = Some (''0x'' @ hex_text (chap_response H i (passwd_data e1) ch))"
    using env alg(2) k(1) rand peer
    by (elim second_message_end [OF e1(3), where env = env2 and sess = sess, rotated -1]) simp_all
  have id: "send_chap_identifier e2 = unat ib" "challenge_bytes (send_chap_challenge e2) = rb"
    using e2(3) by (simp_all add: stage2_def)
  have "passwd_data e2 = pw" using e2(2) k(2) by (simp add: same_setup_def)
  with third_message_end [OF e2(3) _ _ s refl] env diff
  have "snd (acl_recv_end env3 (acl_recv_message e2 [(2, username_in sess),
      (3, ''0x'' @ hex_text (chap_response H (unat ib) (password_in sess) rb))] True) (Some sess)) = AUTH_STATUS_PASS"
    by simp
  then obtain e3 where e3: "acl_recv_end env3 (acl_recv_message e2 [(2, username_in sess),
      (3, ''0x'' @ hex_text (chap_response H (unat ib) (password_in sess) rb))] True) (Some sess) = (e3, AUTH_STATUS_PASS)"
    by (metis prod.collapse)
  show thesis
    by (rule that [of e1 e2 e3]) (simp_all only: chap_login_def Let_def e1(1) e2(1,4) e3 id k split_conv)
qed

end
