(* ===== verification/Auth_Progress.thy ===== *)
theory Auth_Progress
  imports Auth_Handshake
begin

text \<open>
  What the messages leave alone and how a dialogue ends: no message changes the configuration, every
  message that is answered with continue adds one to the count of messages, the count is bounded,
  and a message with the T bit is the last one for an initiator.
\<close>

subsection \<open>Frame of a message\<close>

text \<open>What no message changes: the configuration, and the number of messages counted so far.\<close>

definition acl_setup where
  "acl_setup c = (node_type c, auth_rmt c, username c, passwd_present c, passwd_data c, ip_sec c,
     (chap_alg_list c, auth_method_list c, auth_method_valid_list c))"

definition acl_fixed where
  "acl_fixed c = (acl_setup c, recv_end_count c, transit_bit_sent_flag c, transit_bit (recv_key_block c))"

lemma acl_setupD:
  assumes "acl_setup c = acl_setup d"
  shows "node_type c = node_type d" "auth_rmt c = auth_rmt d" "username c = username d"
    "passwd_present c = passwd_present d" "passwd_data c = passwd_data d" "ip_sec c = ip_sec d"
  using assms by (simp_all add: acl_setup_def)

lemma acl_setup_rest:
  "acl_setup (local_rest c) = acl_setup c" "acl_setup (rmt_rest c) = acl_setup c"
  "acl_setup (neg_rest c) = acl_setup c"
  by (simp_all add: acl_setup_def local_rest_def rmt_rest_def neg_rest_def)

lemma fixed_local_step: "local_step c d \<Longrightarrow> acl_fixed d = acl_fixed c"
  using acl_setup_rest(1) [of c] acl_setup_rest(1) [of d] local_restD [of d c]
  by (auto simp: local_step_def acl_fixed_def same_recv_def)

lemma fixed_rmt_step: "rmt_step c d \<Longrightarrow> acl_fixed d = acl_fixed c"
  using acl_setup_rest(2) [of c] acl_setup_rest(2) [of d] rmt_restD [of d c]
    rmt_stepD(1,3) [of c d]
  by (auto simp: acl_fixed_def same_recv_def)

lemma fixed_simps [simp]:
  "acl_fixed (c\<lparr>phase := p\<rparr>) = acl_fixed c" "acl_fixed (fail_done c dbg) = acl_fixed c"
  "acl_fixed (send_t_bit c) = acl_fixed c" "acl_fixed (acl_next_phase c) = acl_fixed c"
  "acl_fixed (acl_hand_shake c) = acl_fixed c" "acl_fixed (c\<lparr>recv_in_progress_flag := b\<rparr>) = acl_fixed c"
  "acl_fixed (c\<lparr>rmt_auth_status := st\<rparr>) = acl_fixed c"
  "acl_fixed (suppress_send_keys c) = acl_fixed c" 
  "acl_fixed (acl_set_auth_method_key c ms) = acl_fixed c"
  "acl_fixed (c\<lparr>auth_method_valid_neg_role := r\<rparr>) = acl_fixed c"
proof -
  show [simp]: "acl_fixed (c\<lparr>phase := p\<rparr>) = acl_fixed c" "acl_fixed (c\<lparr>recv_in_progress_flag := b\<rparr>) = acl_fixed c"
   "acl_fixed (c\<lparr>auth_method_valid_neg_role := r\<rparr>) = acl_fixed c"
  "acl_fixed (c\<lparr>rmt_auth_status := st\<rparr>) = acl_fixed c" for c p b r st
    by (simp_all add: acl_fixed_def acl_setup_def)
  show [simp]: "acl_fixed (fail_done c dbg) = acl_fixed c" "acl_fixed (send_t_bit c) = acl_fixed c" for c dbg
    by (simp_all add: acl_fixed_def acl_setup_def fail_done_def send_t_bit_def)
  show [simp]: "acl_fixed (acl_next_phase c) = acl_fixed c" for c
    by (simp add: acl_next_phase_def acl_fixed_def acl_setup_def Let_def split: auth_phase.splits)
  show "acl_fixed (acl_hand_shake c) = acl_fixed c" by (simp add: acl_hand_shake_def)
  show "acl_fixed (suppress_send_keys c) = acl_fixed c"
    by (simp add: suppress_send_keys_def Let_def set_send_key_def acl_fixed_def acl_setup_def split: prod.splits)
  show "acl_fixed (acl_set_auth_method_key c ms) = acl_fixed c"
    by (simp add: acl_set_auth_method_key_def acl_set_key_def Let_def set_send_key_def acl_fixed_def acl_setup_def)
qed

lemma fixed_chk_auth_method:
  assumes "strings_ok c"
  shows "acl_fixed (acl_chk_auth_method_key c) = acl_fixed c"
proof -
  note chk = chk_auth_method_ok [OF assms]
  have "acl_setup (acl_chk_auth_method_key c) = acl_setup c"
    using acl_setup_rest(3) [of c] acl_setup_rest(3) [of "acl_chk_auth_method_key c"] chk(4) by simp
  moreover have "recv_end_count (acl_chk_auth_method_key c) = recv_end_count c"
    "transit_bit_sent_flag (acl_chk_auth_method_key c) = transit_bit_sent_flag c"
    using arg_cong [OF chk(4), of recv_end_count] arg_cong [OF chk(4), of transit_bit_sent_flag]
    by (simp_all add: neg_rest_def)
  ultimately show ?thesis using chk by (simp add: acl_fixed_def same_recv_def)
qed

lemma fixed_negotiate:
  "strings_ok c \<Longrightarrow> recv_end_negotiate c = (d, flag) \<Longrightarrow> acl_fixed d = acl_fixed c"
  using fixed_chk_auth_method by (auto simp: recv_end_negotiate_def Let_def split: if_splits)

lemma fixed_authenticate:
  assumes inv: "acl_inv D sess tr c" and ph: "phase c = AUTH_PHASE_AUTHENTICATE"
  shows "acl_fixed (recv_end_authenticate env c) = acl_fixed c"
proof -
  note st = acl_invD(3) [OF inv]
  have l: "local_step c (acl_local_auth env c)"
    using acl_invD(4) [OF inv] st ph by (intro acl_local_auth_step) (auto simp: states_ok_def)
  then have ok: "strings_ok (acl_local_auth env c)" and ld: "local_rest (acl_local_auth env c) = local_rest c"
    unfolding local_step_def by blast+
  have "rmt_state (acl_local_auth env c) \<notin> {AUTH_RMT_STATE_0, AUTH_RMT_STATE_ERROR}"
    unfolding local_restD(4) [OF ld] using st ph by (simp add: states_ok_def)
  note r = acl_rmt_auth_step [OF ok this, of env]
  show ?thesis
    unfolding recv_end_authenticate_def Let_def
    by (simp add: fixed_local_step [OF l] fixed_rmt_step [OF r])
qed

lemma fixed_process:
  assumes inv: "acl_inv D sess tr c" and eq: "recv_end_process env c = (d, known)"
  shows "acl_fixed d = acl_fixed c"
proof -
  obtain b flag where b: "(if phase c = AUTH_PHASE_NEGOTIATE then recv_end_negotiate c else (c, False)) = (b, flag)"
    by force
  have b1: "acl_inv D sess tr b" "acl_fixed b = acl_fixed c"
    using b inv acl_inv_negotiate [OF inv] fixed_negotiate [OF acl_invD(4) [OF inv]] by (auto split: if_splits)
  have d: "d = (case phase b of AUTH_PHASE_NEGOTIATE \<Rightarrow> if flag then acl_next_phase b else b
      | AUTH_PHASE_AUTHENTICATE \<Rightarrow> recv_end_authenticate env b | _ \<Rightarrow> b)"
    using eq unfolding recv_end_process_def b Let_def split_conv by (cases "phase b") simp_all
  show ?thesis
    unfolding d using b1(2) fixed_authenticate [OF b1(1)] by (cases "phase b") simp_all
qed

lemma fixed_status:
  assumes "acl_rcv_end_status c = (d, st)"
  shows "acl_fixed d = acl_fixed c"
proof -
  have 1: "acl_fixed (fst (rcv_end_sanity c)) = acl_fixed c"
    by (simp add: rcv_end_sanity_def Let_def acl_fixed_def acl_setup_def)
  have 2: "acl_fixed (fst (rcv_end_blocks p)) = acl_fixed (fst p)" for p
    by (simp add: rcv_end_blocks_def split: prod.split)
  obtain e s where e: "rcv_end_blocks (rcv_end_sanity c) = (e, s)" by force
  with 1 2 [of "rcv_end_sanity c"] have "acl_fixed e = acl_fixed c" by simp
  with assms e show ?thesis by (auto simp: acl_rcv_end_status_def Let_def split: if_splits)
qed

lemma acl_fixedD: "acl_fixed c = (s, n, t, r) \<longleftrightarrow>
  acl_setup c = s \<and> recv_end_count c = n \<and> transit_bit_sent_flag c = t \<and> transit_bit (recv_key_block c) = r"
  by (auto simp: acl_fixed_def)

lemma recv_end_start_fixed:
  "acl_fixed (recv_end_start c s) =
     (acl_setup c, recv_end_count c + 1, transit_bit_sent_flag c, transit_bit (recv_key_block c))"
  by (simp add: recv_end_start_def recv_end_limits_def fail_done_def Let_def acl_fixed_def acl_setup_def)

lemma acl_recv_end_fixed:
  assumes inv: "acl_inv D sess tr c" and eq: "acl_recv_end env c (Some sess) = (d, st)"
  shows "acl_setup d = acl_setup c" and "st \<noteq> AUTH_STATUS_ERROR \<Longrightarrow> recv_end_count d = recv_end_count c + 1"
proof -
  obtain e known where e: "recv_end_process env (recv_end_start c (Some sess)) = (e, known)" by force
  note fe = fixed_process [OF recv_end_start_inv [OF inv] e, unfolded recv_end_start_fixed]
  have err: "acl_setup (c\<lparr>phase := AUTH_PHASE_ERROR\<rparr>) = acl_setup c" for c by (simp add: acl_setup_def)
  consider "d = c \<or> d = c\<lparr>phase := AUTH_PHASE_ERROR\<rparr> \<or> d = e\<lparr>phase := AUTH_PHASE_ERROR\<rparr>" "st = AUTH_STATUS_ERROR"
    | "acl_rcv_end_status (acl_hand_shake e) = (d, st)"
    using eq e by (auto simp: acl_recv_end_def acl_error_def split: if_splits)
  then have "acl_setup d = acl_setup c \<and> (st \<noteq> AUTH_STATUS_ERROR \<longrightarrow> recv_end_count d = recv_end_count c + 1)"
  proof cases
    case 1
    then show ?thesis using fe err by (auto simp: acl_fixedD)
  next
    case 2
    then show ?thesis using fixed_status [OF 2] fe by (simp add: acl_fixedD)
  qed
  then show "acl_setup d = acl_setup c" and "st \<noteq> AUTH_STATUS_ERROR \<Longrightarrow> recv_end_count d = recv_end_count c + 1"
    by blast+
qed

lemma recv_key_setup [simp]:
  "acl_setup (fst (acl_recv_key_value c k v)) = acl_setup c"
  "recv_end_count (fst (acl_recv_key_value c k v)) = recv_end_count c"
  by (simp_all add: acl_recv_key_value_def acl_setup_def acl_error_def Let_def split: prod.splits)

lemma recv_message_setup [simp]:
  "acl_setup (acl_recv_message c kvs t) = acl_setup c"
  "recv_end_count (acl_recv_message c kvs t) = recv_end_count c"
proof -
  have "acl_setup (fold (\<lambda>(k, v) c. fst (acl_recv_key_value c k v)) kvs d) = acl_setup d \<and>
     recv_end_count (fold (\<lambda>(k, v) c. fst (acl_recv_key_value c k v)) kvs d) = recv_end_count d" for d
    by (induction kvs arbitrary: d) auto
  moreover have "acl_setup (fst (acl_recv_begin c)) = acl_setup c" "recv_end_count (fst (acl_recv_begin c)) = recv_end_count c"
    by (simp_all add: acl_recv_begin_def recv_begin_reset_def acl_error_def acl_next_phase_def acl_setup_def Let_def)
  moreover have "acl_setup (fst (acl_recv_transit_bit d t)) = acl_setup d"
    "recv_end_count (fst (acl_recv_transit_bit d t)) = recv_end_count d" for d
    by (simp_all add: acl_recv_transit_bit_def acl_error_def acl_setup_def)
  ultimately show "acl_setup (acl_recv_message c kvs t) = acl_setup c"
    "recv_end_count (acl_recv_message c kvs t) = recv_end_count c"
    by (simp_all add: acl_recv_message_def)
qed

subsection \<open>Dialogues\<close>

fun acl_dialogue :: "auth_session \<Rightarrow> iscsi_acl \<Rightarrow> (acl_env \<times> (int \<times> string) list \<times> bool) list \<Rightarrow>
    (iscsi_acl \<times> auth_status) list" where
  "acl_dialogue sess c [] = []"
| "acl_dialogue sess c ((env, kvs, t) # msgs) =
     (case acl_recv_end env (acl_recv_message c kvs t) (Some sess) of (d, st) \<Rightarrow> (d, st) # acl_dialogue sess d msgs)"

lemma acl_recv_end_continue:
  assumes inv: "acl_inv D sess tr c" and dl: "digest_lengths D" and D: "EVP_digest env = D"
    and eq: "acl_recv_end env c (Some sess) = (d, AUTH_STATUS_CONTINUE)"
  shows "recv_end_count c \<le> AUTH_RECV_END_MAX_COUNT" and "recv_end_count d = recv_end_count c + 1"
proof -
  show "recv_end_count d = recv_end_count c + 1" using acl_recv_end_fixed(2) [OF inv eq] by simp
  from inv dl D eq show "recv_end_count c \<le> AUTH_RECV_END_MAX_COUNT"
  proof (cases rule: acl_recv_end_cases)
    case (handshake e)
    show ?thesis
    proof (rule ccontr)
      assume "\<not> ?thesis"
      then have "phase (recv_end_start c (Some sess)) = AUTH_PHASE_DONE"
        "rmt_auth_status (recv_end_start c (Some sess)) = AUTH_STATUS_FAIL"
        by (simp_all add: recv_end_start_def recv_end_limits_def fail_done_def Let_def)
      with handshake(1) have "phase e = AUTH_PHASE_DONE" "rmt_auth_status e = AUTH_STATUS_FAIL"
        by (auto simp: recv_end_process_def)
      with rcv_end_status_inv [OF acl_inv_hand_shake [OF handshake(2,3)] handshake(4)] show False
        by (simp add: acl_hand_shake_def)
    qed
  qed simp
qed

lemma acl_dialogue_bounded:
  assumes "acl_run D sess tr c" and "digest_lengths D"
    and "\<forall>(env, kvs, t) \<in> set msgs. EVP_digest env = D \<and> (\<forall>(k, v) \<in> set kvs. is_cstr v)"
    and "set (map snd (acl_dialogue sess c msgs)) \<subseteq> {AUTH_STATUS_CONTINUE}"
  shows "msgs = [] \<or> recv_end_count c + int (length msgs) \<le> AUTH_RECV_END_MAX_COUNT + 1"
  using assms(1,3,4)
proof (induction msgs arbitrary: c tr)
  case (Cons m msgs)
  obtain env kvs t where m: "m = (env, kvs, t)" by (cases m)
  let ?c = "acl_recv_message c kvs t"
  from Cons.prems(2) have env: "EVP_digest env = D" and kvs: "\<forall>(k, v) \<in> set kvs. is_cstr v" by (auto simp: m)
  note run = recv_message_run [OF Cons.prems(1) kvs, of t]
  obtain d where d: "acl_recv_end env ?c (Some sess) = (d, AUTH_STATUS_CONTINUE)"
    and rest: "set (map snd (acl_dialogue sess d msgs)) \<subseteq> {AUTH_STATUS_CONTINUE}"
    using Cons.prems(3) by (cases "acl_recv_end env ?c (Some sess)") (simp add: m)
  note cont = acl_recv_end_continue [OF acl_run_inv [OF run assms(2)] assms(2) env d]
  have "acl_run D sess (rev kvs @ tr) d" using acl_run.recv_end [OF run env] d by simp
  from Cons.IH [OF this _ rest] Cons.prems(2) cont show ?case by auto
qed simp

lemma negotiate_with_transit:
  assumes inv: "acl_inv D sess tr c" and ph: "phase c = AUTH_PHASE_NEGOTIATE" and ini: "node_type c = TYPE_INITIATOR"
    and t: "transit_bit (recv_key_block c)" and eq: "recv_end_negotiate c = (d, flag)"
  shows "phase d \<in> {AUTH_PHASE_AUTHENTICATE, AUTH_PHASE_DONE}"
proof -
  define b where "b = acl_chk_auth_method_key c"
  have ok: "strings_ok c" by (rule acl_invD(4) [OF inv])
  note fr = neg_restD [OF chk_auth_method_ok(4) [OF ok], folded b_def]
  have "transit_bit (recv_key_block b)"
    using fixed_chk_auth_method [OF ok] t by (simp add: acl_fixed_def b_def)
  moreover have "auth_rmt b \<Longrightarrow> auth_method_valid_neg_role b = AUTH_NEG_ROLE_ORIGINATOR"
    using acl_invD(1) [OF inv] ini fr by (simp add: cfg_ok_def)
  ultimately show ?thesis
    using eq ph ini fr next_phase_negotiate_phase [of b]
      next_phase_negotiate_phase [of "acl_set_auth_method_key b [negotiated_auth_method b]"]
    unfolding recv_end_negotiate_def b_def [symmetric] Let_def
    by (auto simp: fail_done_def split: if_splits)
qed

lemma process_with_transit:
  assumes inv: "acl_inv D sess tr c" and dl: "digest_lengths D" and D: "EVP_digest env = D"
    and s: "session_handle c = Some sess" and ini: "node_type c = TYPE_INITIATOR"
    and t: "transit_bit (recv_key_block c)" and eq: "recv_end_process env c = (d, True)"
  shows "phase d \<in> {AUTH_PHASE_AUTHENTICATE, AUTH_PHASE_DONE}"
proof (cases "phase c = AUTH_PHASE_NEGOTIATE")
  case True
  obtain b flag where b: "recv_end_negotiate c = (b, flag)" by force
  note ph = negotiate_with_transit [OF inv True ini t b]
  have "acl_inv D sess tr b" "session_handle b = Some sess"
    using acl_inv_negotiate(1) [OF inv True b] negotiate_session [OF b acl_invD(4) [OF inv]] s by simp_all
  from acl_inv_authenticate [OF this(1) _ dl D this(2)] ph eq b True show ?thesis
    by (auto simp: recv_end_process_def)
next
  case False
  from acl_inv_authenticate [OF inv _ dl D s] eq False show ?thesis
    by (auto simp: recv_end_process_def split: auth_phase.splits)
qed

lemma transit_bit_handshake:
  assumes "node_type c = TYPE_INITIATOR" "transit_bit (recv_key_block c)"
    and "phase c \<in> {AUTH_PHASE_AUTHENTICATE, AUTH_PHASE_DONE}"
  shows "phase (acl_hand_shake c) = AUTH_PHASE_DONE"
  using assms by (auto simp: acl_hand_shake_def fail_done_def acl_next_phase_def)

lemma status_in_done:
  assumes "phase c = AUTH_PHASE_DONE" "rmt_auth_status c \<in> {AUTH_STATUS_PASS, AUTH_STATUS_FAIL}"
  shows "snd (acl_rcv_end_status c) \<in> {AUTH_STATUS_PASS, AUTH_STATUS_FAIL}"
proof -
  obtain b st where b: "rcv_end_sanity c = (b, st)" by force
  have "st \<in> {AUTH_STATUS_PASS, AUTH_STATUS_FAIL}"
    using assms b by (auto simp: rcv_end_sanity_def Let_def split: if_splits)
  then have "snd (rcv_end_blocks (b, st)) \<in> {AUTH_STATUS_PASS, AUTH_STATUS_FAIL}"
    by (auto simp: rcv_end_blocks_def)
  with assms(1) b show ?thesis by (auto simp: acl_rcv_end_status_def Let_def split: prod.splits)
qed

lemma transit_bit_final_inv:
  assumes inv: "acl_inv D sess tr c" and dl: "digest_lengths D" and D: "EVP_digest env = D"
    and ini: "node_type c = TYPE_INITIATOR" and t: "transit_bit (recv_key_block c)"
  shows "snd (acl_recv_end env c (Some sess)) \<in> {AUTH_STATUS_PASS, AUTH_STATUS_FAIL, AUTH_STATUS_ERROR}"
proof -
  obtain d st where eq: "acl_recv_end env c (Some sess) = (d, st)" by force
  from inv dl D eq have "st \<in> {AUTH_STATUS_PASS, AUTH_STATUS_FAIL, AUTH_STATUS_ERROR}"
  proof (cases rule: acl_recv_end_cases)
    case (handshake e)
    note i = recv_end_start_inv [OF inv, of "Some sess"]
    have "phase e \<in> {AUTH_PHASE_AUTHENTICATE, AUTH_PHASE_DONE}"
      using process_with_transit [OF i dl D _ _ _ handshake(1)] ini t by simp
    moreover have "node_type e = TYPE_INITIATOR" "transit_bit (recv_key_block e)"
      using fixed_process [OF i handshake(1)] ini t by (auto simp: recv_end_start_fixed acl_fixedD acl_setup_def)
    ultimately have "phase (acl_hand_shake e) = AUTH_PHASE_DONE" "node_type (acl_hand_shake e) = TYPE_INITIATOR"
      using transit_bit_handshake fixed_simps(5) [of e] by (auto simp: acl_fixed_def acl_setup_def)
    moreover from this acl_invD(3) [OF acl_inv_hand_shake [OF handshake(2,3)]]
    have "rmt_auth_status (acl_hand_shake e) \<in> {AUTH_STATUS_PASS, AUTH_STATUS_FAIL}" by (simp add: states_ok_def)
    ultimately show ?thesis using status_in_done [of "acl_hand_shake e"] handshake(4) by auto
  qed simp
  then show ?thesis by (simp add: eq)
qed

subsection \<open>The status pass\<close>

lemma recv_end_pass_verified:
  assumes inv: "acl_inv D sess tr c" and dl: "digest_lengths D" and D: "EVP_digest env = D" and rmt: "auth_rmt c"
    and eq: "acl_recv_end env c (Some sess) = (d, AUTH_STATUS_PASS)"
  shows "verified D sess tr d"
proof -
  from inv dl D eq have "auth_rmt d \<longrightarrow> verified D sess tr d"
  proof (cases rule: acl_recv_end_cases)
    case (handshake e)
    with rcv_end_status_inv [OF acl_inv_hand_shake [OF handshake(2,3)] handshake(4)] show ?thesis by blast
  qed simp
  moreover have "auth_rmt d" using acl_setupD(2) [OF acl_recv_end_fixed(1) [OF inv eq]] rmt by simp
  ultimately show ?thesis by blast
qed

end
