(* ===== verification/Login_Text.thy ===== *)
theory Login_Text
  imports Auth_Progress
begin

text \<open>
  The text of a login PDU (\<open>usr/login.c\<close>, \<open>include/iscsi_proto.h\<close>): the 24-bit data segment length,
  \<open>iscsi_add_text\<close>, which appends one \<open>key=value\<close> pair to the data segment, and
  \<open>iscsi_find_key_value\<close>, which recognises a key at the current position of a response.

  The data segment is a list of characters of the size of the buffer. A reader's pair of pointers
  \<open>text\<close> and \<open>end\<close> is the list of the characters between them; the caller stores a NUL at \<open>end\<close>, so
  the C string at a pointer is the part of that list up to its first NUL.
\<close>

subsection \<open>Definitions\<close>

definition ntoh24 :: "byte list \<Rightarrow> nat" where
  "ntoh24 p = push_bit 16 (unat (p ! 0)) OR push_bit 8 (unat (p ! 1)) OR unat (p ! 2)"

definition hton24 :: "nat \<Rightarrow> byte list" where
  "hton24 v = [of_nat (drop_bit 16 v AND 0xFF), of_nat (drop_bit 8 v AND 0xFF), of_nat (v AND 0xFF)]"

record login_req_hdr =
  opcode :: byte
  flags :: byte
  max_version :: byte
  min_version :: byte
  hlength :: byte
  dlength :: "byte list"
  hdr_isid :: "byte list"
  hdr_tsih :: "16 word"
  itt :: "32 word"
  hdr_cid :: "16 word"
  hdr_cmdsn :: "32 word"
  hdr_exp_statsn :: "32 word"

type_synonym login_pdu = "login_req_hdr \<times> string"

text \<open>\<open>None\<close> is the return value 0, with which nothing has been stored.\<close>

definition iscsi_add_text :: "nat \<Rightarrow> string \<Rightarrow> string \<Rightarrow> login_pdu \<Rightarrow> login_pdu option" where
  "iscsi_add_text max_data_length param val = (\<lambda>(hdr, data).
     let len = length param + 1 + length val + 1;
         pdu_length = ntoh24 (dlength hdr)
     in if pdu_length + len \<ge> max_data_length then None
        else Some (hdr\<lparr>dlength := hton24 (pdu_length + len)\<rparr>,
                   overlay data pdu_length (param @ ''='' @ val @ [NUL])))"

text \<open>A sequence of calls that stops at the first one that fails.\<close>

fun add_texts :: "nat \<Rightarrow> (string \<times> string) list \<Rightarrow> login_pdu \<Rightarrow> login_pdu option" where
  "add_texts max_data_length [] pdu = Some pdu"
| "add_texts max_data_length ((param, val) # kvs) pdu =
     (case iscsi_add_text max_data_length param val pdu of
        None \<Rightarrow> None
      | Some pdu \<Rightarrow> add_texts max_data_length kvs pdu)"

fun match_param :: "string \<Rightarrow> string \<Rightarrow> string option" where
  "match_param [] pos = Some pos"
| "match_param (c # str) pos =
     (case pos of
        [] \<Rightarrow> None
      | t # ts \<Rightarrow> if t = NUL then None else if c \<noteq> t then None else match_param str ts)"

text \<open>The value and the characters from \<open>value_end\<close> to \<open>end\<close>.\<close>

definition iscsi_find_key_value :: "string \<Rightarrow> string \<Rightarrow> (string \<times> string) option" where
  "iscsi_find_key_value param pdu =
     (case match_param param pdu of
        None \<Rightarrow> None
      | Some [] \<Rightarrow> None
      | Some (t # ts) \<Rightarrow>
          if t = NUL \<or> t \<noteq> CHR ''='' then None
          else Some (takeWhile (\<lambda>c. c \<noteq> NUL) ts, dropWhile (\<lambda>c. c \<noteq> NUL) ts))"

subsection \<open>Lengths\<close>

lemma ntoh24_hton24: "ntoh24 (hton24 v) = v mod 2 ^ 24"
proof -
  have u: "unat (of_nat (x AND 0xFF) :: byte) = take_bit 8 x" for x
    by (simp add: unsigned_of_nat take_bit_eq_mask mask_eq_exp_minus_1 and.assoc)
  show ?thesis
    unfolding take_bit_eq_mod [symmetric]
  proof (rule bit_eqI)
    fix n
    show "bit (ntoh24 (hton24 v)) n = bit (take_bit 24 v) n"
      by (cases "n < 8"; cases "n < 16") (auto simp: ntoh24_def hton24_def u bit_simps)
  qed
qed

lemma length_hton24 [simp]: "length (hton24 v) = 3"
  by (simp add: hton24_def)

lemma match_param_append [simp]: "is_cstr param \<Longrightarrow> match_param param (param @ pos) = Some pos"
  by (induction param) auto

lemma match_param_Some: "match_param param pos = Some r \<Longrightarrow> pos = param @ r \<and> is_cstr param"
  by (induction param pos rule: match_param.induct) (auto split: list.splits if_splits)

lemma find_key_value_Some:
  "iscsi_find_key_value param pdu = Some (v, r) \<longleftrightarrow>
   is_cstr param \<and> is_cstr v \<and> pdu = param @ ''='' @ v @ r \<and> (r = [] \<or> hd r = NUL)"
proof
  assume "iscsi_find_key_value param pdu = Some (v, r)"
  then obtain ts where m: "match_param param pdu = Some (CHR ''='' # ts)"
    and v: "v = takeWhile (\<lambda>c. c \<noteq> NUL) ts" "r = dropWhile (\<lambda>c. c \<noteq> NUL) ts"
    by (auto simp: iscsi_find_key_value_def split: option.splits list.splits if_splits)
  have "is_cstr v" using v by (auto simp: is_cstr_def dest: set_takeWhileD)
  moreover have "r = [] \<or> hd r = NUL" using v hd_dropWhile [of "\<lambda>c. c \<noteq> NUL" ts] by auto
  ultimately show "is_cstr param \<and> is_cstr v \<and> pdu = param @ ''='' @ v @ r \<and> (r = [] \<or> hd r = NUL)"
    using match_param_Some [OF m] v by simp
next
  assume a: "is_cstr param \<and> is_cstr v \<and> pdu = param @ ''='' @ v @ r \<and> (r = [] \<or> hd r = NUL)"
  then have "takeWhile (\<lambda>c. c \<noteq> NUL) (v @ r) = v" "dropWhile (\<lambda>c. c \<noteq> NUL) (v @ r) = r"
    by (auto simp: is_cstr_def takeWhile_append dropWhile_append takeWhile_eq_Nil_iff dropWhile_eq_self_iff
        takeWhile_eq_all_conv dropWhile_eq_Nil_conv)
  with a show "iscsi_find_key_value param pdu = Some (v, r)"
    by (simp add: iscsi_find_key_value_def)
qed

lemma find_key_value_shorter: "iscsi_find_key_value param pdu = Some (v, r) \<Longrightarrow> length r < length pdu"
  by (auto simp: find_key_value_Some)

end
