(* ===== verification/Login_Params.thy ===== *)
theory Login_Params
  imports Login_Text
begin

text \<open>
  The session and connection state of the login code (\<open>usr/initiator.h\<close>) and the processing of the
  text keys of a login response (\<open>usr/login.c\<close>): the redirection address, the keys of the security
  stage and the keys of the operational stage. \<open>ISCSI_CONN_MAX\<close> is 1, so a session has one
  connection, \<open>conn\<close>, and every valid connection id is 0.
\<close>

subsection \<open>State\<close>

datatype iscsi_login_status =
    LOGIN_OK | LOGIN_IO_ERROR | LOGIN_FAILED | LOGIN_VERSION_MISMATCH | LOGIN_NEGOTIATION_FAILED
  | LOGIN_AUTHENTICATION_FAILED | LOGIN_REDIRECTION_FAILED | LOGIN_INVALID_PDU | LOGIN_REDIRECT

definition ISCSI_SESSION_TYPE_NORMAL :: int where "ISCSI_SESSION_TYPE_NORMAL = 0"
definition ISCSI_SESSION_TYPE_DISCOVERY :: int where "ISCSI_SESSION_TYPE_DISCOVERY = 1"

definition ISCSI_INITIAL_LOGIN_STAGE :: int where "ISCSI_INITIAL_LOGIN_STAGE = - 1"
definition ISCSI_SECURITY_NEGOTIATION_STAGE :: int where "ISCSI_SECURITY_NEGOTIATION_STAGE = 0"
definition ISCSI_OP_PARMS_NEGOTIATION_STAGE :: int where "ISCSI_OP_PARMS_NEGOTIATION_STAGE = 1"
definition ISCSI_FULL_FEATURE_PHASE :: int where "ISCSI_FULL_FEATURE_PHASE = 3"

definition ISCSI_DIGEST_NONE :: "32 word" where "ISCSI_DIGEST_NONE = 0"
definition ISCSI_DIGEST_CRC32C :: "32 word" where "ISCSI_DIGEST_CRC32C = 1"
definition ISCSI_DIGEST_CRC32C_NONE :: "32 word" where "ISCSI_DIGEST_CRC32C_NONE = 2"
definition ISCSI_DIGEST_NONE_CRC32C :: "32 word" where "ISCSI_DIGEST_NONE_CRC32C = 3"

definition IRRELEVANT_MAXCONNECTIONS :: "32 word" where "IRRELEVANT_MAXCONNECTIONS = 0x01"
definition IRRELEVANT_INITIALR2T :: "32 word" where "IRRELEVANT_INITIALR2T = 0x02"
definition IRRELEVANT_IMMEDIATEDATA :: "32 word" where "IRRELEVANT_IMMEDIATEDATA = 0x04"
definition IRRELEVANT_MAXBURSTLENGTH :: "32 word" where "IRRELEVANT_MAXBURSTLENGTH = 0x08"
definition IRRELEVANT_FIRSTBURSTLENGTH :: "32 word" where "IRRELEVANT_FIRSTBURSTLENGTH = 0x10"
definition IRRELEVANT_MAXOUTSTANDINGR2T :: "32 word" where "IRRELEVANT_MAXOUTSTANDINGR2T = 0x20"
definition IRRELEVANT_DATAPDUINORDER :: "32 word" where "IRRELEVANT_DATAPDUINORDER = 0x40"
definition IRRELEVANT_DATASEQUENCEINORDER :: "32 word" where "IRRELEVANT_DATASEQUENCEINORDER = 0x80"

lemmas stage_defs = ISCSI_INITIAL_LOGIN_STAGE_def ISCSI_SECURITY_NEGOTIATION_STAGE_def
  ISCSI_OP_PARMS_NEGOTIATION_STAGE_def ISCSI_FULL_FEATURE_PHASE_def

type_synonym sockaddr = "byte list"

record iscsi_conn =
  current_stage :: int
  next_stage :: int
  partial_response :: bool
  saddr :: sockaddr
  login_timeout :: int
  auth_timeout :: int
  active_timeout :: int
  exp_statsn :: "32 word"
  hdrdgst_en :: "32 word"
  datadgst_en :: "32 word"
  max_recv_dlength :: "32 word"
  max_xmit_dlength :: "32 word"

text \<open>\<open>auth_client_block\<close> is the memory \<open>auth_buffers[0]\<close> points to; the length of \<open>auth_buffers\<close> is
  \<open>num_auth_buffers\<close>. \<open>peer_account\<close> holds \<open>username_in\<close> and \<open>password_in\<close>, \<open>rdma\<close> is
  \<open>t->template->rdma\<close>, \<open>rec_MaxXmit\<close> the \<open>MaxXmitDataSegmentLength\<close> of the node record.\<close>

record iscsi_session =
  rdma :: bool
  rec_MaxXmit :: int
  irrelevant_keys_bitmap :: "32 word"
  cmdsn :: "32 word"
  exp_cmdsn :: "32 word"
  max_cmdsn :: "32 word"
  imm_data_en :: "32 word"
  initial_r2t_en :: "32 word"
  max_r2t :: "32 word"
  first_burst :: "32 word"
  max_burst :: "32 word"
  pdu_inorder_en :: "32 word"
  dataseq_inorder_en :: "32 word"
  def_time2wait :: "32 word"
  def_time2retain :: "32 word"
  sess_type :: int
  portal_group_tag :: int
  isid :: "byte list"
  tsih :: "16 word"
  target_name :: string
  target_alias :: "string option"
  initiator_name :: "string option"
  initiator_alias :: "string option"
  auth_client_block :: iscsi_acl
  auth_buffers :: "auth_buffer_desc list"
  bidirectional_auth :: bool
  sess_username :: string
  sess_password :: "byte list"
  password_length :: nat
  peer_account :: auth_session
  chap_algs :: "nat list"
  conn :: iscsi_conn

text \<open>What the login code uses of its surroundings: the authentication library, the resolver
  (\<open>resolve_address\<close> on host and port), whether \<open>malloc\<close> succeeds for the alias found when so many
  characters of the response are left, and \<open>sizeof(struct iscsi_acl)\<close>.\<close>

record login_env =
  auth_env :: acl_env
  getaddr :: "string \<Rightarrow> string \<Rightarrow> sockaddr option"
  malloc_ok :: "nat \<Rightarrow> bool"
  sizeof_acl :: nat

definition upd_conn :: "(iscsi_conn \<Rightarrow> iscsi_conn) \<Rightarrow> iscsi_session \<Rightarrow> iscsi_session" where
  "upd_conn f s = s\<lparr>conn := f (conn s)\<rparr>"

definition u32_text :: "string \<Rightarrow> 32 word" where
  "u32_text v = of_nat (fst (strtoul 0 v))"

subsection \<open>The redirection address\<close>

definition strrchr :: "string \<Rightarrow> char \<Rightarrow> nat option" where
  "strrchr s c = map_option (\<lambda>i. length s - 1 - i) (strchr_from (rev s) c 0)"

definition LONG_MAX :: int where "LONG_MAX = 2 ^ 63 - 1"

definition atoi :: "string \<Rightarrow> int" where
  "atoi nptr =
     (let s1 = dropWhile isspace nptr;
          neg = (case s1 of c # _ \<Rightarrow> c = CHR ''-'' | [] \<Rightarrow> False);
          s2 = (case s1 of c # r \<Rightarrow> if c = CHR ''-'' \<or> c = CHR ''+'' then r else s1 | [] \<Rightarrow> s1);
          n = int (fst (scan_digits 10 0 s2));
          v = (if neg then max (- LONG_MAX - 1) (- n) else min LONG_MAX n)
      in int_of_ulong (ulong_of v))"

definition split_last :: "char \<Rightarrow> string \<Rightarrow> string \<times> string option" where
  "split_last c s =
     (case strrchr s c of None \<Rightarrow> (s, None) | Some i \<Rightarrow> (take i s, Some (drop (Suc i) s)))"

text \<open>Host, port and portal group tag of an address; \<open>None\<close> for a bracket that is not closed.\<close>

definition parse_address :: "string \<Rightarrow> (string \<times> string \<times> string option) option" where
  "parse_address address =
     (let (address, tag) = split_last CHR '','' address;
          (address, port) = split_last CHR '':'' address;
          port = (case port of None \<Rightarrow> udec 3260 | Some p \<Rightarrow> p)
      in case address of
           c # r \<Rightarrow>
             if c = CHR ''['' then
               (case strchr_from address CHR '']'' 0 of
                  None \<Rightarrow> None
                | Some i \<Rightarrow> Some (drop 1 (take i address), port, tag))
             else Some (address, port, tag)
         | [] \<Rightarrow> Some (address, port, tag))"

definition iscsi_update_address :: "login_env \<Rightarrow> iscsi_session \<Rightarrow> string \<Rightarrow> iscsi_session \<times> bool" where
  "iscsi_update_address env session address =
     (case parse_address address of
        None \<Rightarrow> (session, False)
      | Some (host, port, tag) \<Rightarrow>
          (case getaddr env host port of
             None \<Rightarrow> (session, False)
           | Some addr \<Rightarrow>
               let session = upd_conn (saddr_update (\<lambda>_. addr)) session
               in (case tag of None \<Rightarrow> session | Some t \<Rightarrow> session\<lparr>portal_group_tag := atoi t\<rparr>, True)))"

subsection \<open>Keys of the security stage\<close>

text \<open>A key processor returns the session and either the status it fails with or the rest of the
  text.\<close>

type_synonym key_result = "iscsi_session \<times> (iscsi_login_status + string)"

definition upd_acl :: "iscsi_acl \<Rightarrow> iscsi_session \<Rightarrow> iscsi_session" where
  "upd_acl c s = s\<lparr>auth_client_block := c\<rparr>"

function auth_key_loop :: "iscsi_session \<Rightarrow> int \<Rightarrow> string \<Rightarrow> key_result" where
  "auth_key_loop session keytype pos =
     (case acl_get_next_key_type keytype of
        None \<Rightarrow> (session, Inl LOGIN_NEGOTIATION_FAILED)
      | Some keytype \<Rightarrow>
          (case Option.bind (acl_get_key_name keytype) (\<lambda>k. iscsi_find_key_value k pos) of
             None \<Rightarrow> auth_key_loop session keytype pos
           | Some (val, rest) \<Rightarrow>
               (case acl_recv_key_value (auth_client_block session) keytype val of (client, status) \<Rightarrow>
                  (upd_acl client session,
                   if status \<noteq> AUTH_STATUS_NO_ERROR then Inl LOGIN_NEGOTIATION_FAILED else Inr rest))))"
  by pat_completeness auto

termination
  by (relation "measure (\<lambda>(s, k, t). nat (AUTH_KEY_TYPE_LAST - k))")
     (auto simp: acl_get_next_key_type_def AUTH_KEY_TYPE_LAST_def AUTH_KEY_TYPE_FIRST_def
        AUTH_KEY_TYPE_MAX_COUNT_def split: if_splits)

declare auth_key_loop.simps [simp del]

definition get_auth_key_type :: "iscsi_session \<Rightarrow> string \<Rightarrow> key_result" where
  "get_auth_key_type session pos = auth_key_loop session AUTH_KEY_TYPE_NONE pos"

definition store_alias :: "login_env \<Rightarrow> iscsi_session \<Rightarrow> string \<Rightarrow> string \<Rightarrow> iscsi_session" where
  "store_alias env session val rest =
     session\<lparr>target_alias := if malloc_ok env (length rest) then Some val else None\<rparr>"

definition redirect_key :: "login_env \<Rightarrow> iscsi_session \<Rightarrow> string \<Rightarrow> string \<Rightarrow> key_result" where
  "redirect_key env session val rest =
     (case iscsi_update_address env session val of (session, ok) \<Rightarrow>
        (session, if ok then Inr rest else Inl LOGIN_REDIRECTION_FAILED))"

definition portal_tag_key :: "iscsi_session \<Rightarrow> string \<Rightarrow> iscsi_session" where
  "portal_tag_key session val = session\<lparr>portal_group_tag := int_of_ulong (fst (strtoul 0 val))\<rparr>"

definition get_security_text_keys :: "login_env \<Rightarrow> iscsi_session \<Rightarrow> string \<Rightarrow> key_result" where
  "get_security_text_keys env session pos =
     (case iscsi_find_key_value ''TargetAlias'' pos of
        Some (val, rest) \<Rightarrow> (store_alias env session val rest, Inr rest)
      | None \<Rightarrow>
     (case iscsi_find_key_value ''TargetAddress'' pos of
        Some (val, rest) \<Rightarrow> redirect_key env session val rest
      | None \<Rightarrow>
     (case iscsi_find_key_value ''TargetPortalGroupTag'' pos of
        Some (val, rest) \<Rightarrow> (portal_tag_key session val, Inr rest)
      | None \<Rightarrow> get_auth_key_type session pos)))"

subsection \<open>Keys of the operational stage\<close>

text \<open>The chain of tests of \<open>get_op_params_text_keys\<close>: the first key of the list that is found at the
  current position, with its value and the rest of the text.\<close>

definition op_keys :: "string list" where
  "op_keys =
     [''TargetAlias'', ''TargetAddress'', ''TargetPortalGroupTag'', ''InitialR2T'', ''ImmediateData'',
      ''MaxRecvDataSegmentLength'', ''FirstBurstLength'', ''MaxBurstLength'', ''HeaderDigest'', ''DataDigest'',
      ''DefaultTime2Wait'', ''DefaultTime2Retain'', ''OFMarker'', ''OFMarkInt'', ''IFMarker'', ''IFMarkInt'',
      ''DataPDUInOrder'', ''DataSequenceInOrder'', ''MaxOutstandingR2T'', ''MaxConnections'',
      ''ErrorRecoveryLevel'', ''RDMAExtensions'', ''InitiatorRecvDataSegmentLength'',
      ''TargetRecvDataSegmentLength'', ''X-com.cisco.protocol'', ''X-com.cisco.PingTimeout'',
      ''X-com.cisco.sendAsyncText'']"

fun first_key :: "string list \<Rightarrow> string \<Rightarrow> (string \<times> string \<times> string) option" where
  "first_key [] pos = None"
| "first_key (k # ks) pos =
     (case iscsi_find_key_value k pos of
        Some (val, rest) \<Rightarrow> Some (k, val, rest)
      | None \<Rightarrow> first_key ks pos)"

definition normal :: "iscsi_session \<Rightarrow> bool" where
  "normal session \<longleftrightarrow> sess_type session = ISCSI_SESSION_TYPE_NORMAL"

definition yes :: "string \<Rightarrow> 32 word" where
  "yes val = (if val = ''Yes'' then 1 else 0)"

text \<open>A key that is relevant for normal sessions only: \<open>upd\<close> on a normal session, otherwise its bit in
  the bitmap of irrelevant keys.\<close>

definition normal_key ::
  "(iscsi_session \<Rightarrow> iscsi_session) \<Rightarrow> 32 word \<Rightarrow> iscsi_session \<Rightarrow> iscsi_session"
where
  "normal_key upd irr session =
     (if normal session then upd session
      else session\<lparr>irrelevant_keys_bitmap := irrelevant_keys_bitmap session OR irr\<rparr>)"

definition op_alias_key :: "login_env \<Rightarrow> iscsi_session \<Rightarrow> string \<Rightarrow> string \<Rightarrow> iscsi_session" where
  "op_alias_key env session val rest =
     (if target_alias session = Some val then session else store_alias env session val rest)"

text \<open>The digest setting after the target's answer; \<open>None\<close> where the answer is not acceptable.\<close>

definition digest_key :: "32 word \<Rightarrow> string \<Rightarrow> 32 word option" where
  "digest_key en val =
     (if val = ''None'' then (if en \<noteq> ISCSI_DIGEST_CRC32C then Some ISCSI_DIGEST_NONE else None)
      else if val = ''CRC32C'' then (if en \<noteq> ISCSI_DIGEST_NONE then Some ISCSI_DIGEST_CRC32C else None)
      else None)"

definition max_recv_key :: "iscsi_session \<Rightarrow> string \<Rightarrow> iscsi_session" where
  "max_recv_key session val =
     (if sess_type session = ISCSI_SESSION_TYPE_DISCOVERY \<or> \<not> rdma session
      then
        let tgt_max_xmit = u32_text val
        in if rec_MaxXmit session = 0 \<or> sint tgt_max_xmit < sint (max_xmit_dlength (conn session))
           then upd_conn (max_xmit_dlength_update (\<lambda>_. tgt_max_xmit)) session
           else session
      else session)"

definition min_u32 :: "32 word \<Rightarrow> string \<Rightarrow> 32 word" where
  "min_u32 cur val = (let n = fst (strtoul 0 val) in if unat cur < n then cur else of_nat n)"

text \<open>The keys that cannot fail.\<close>

definition op_param_value :: "login_env \<Rightarrow> iscsi_session \<Rightarrow> string \<Rightarrow> string \<Rightarrow> string \<Rightarrow> iscsi_session" where
  "op_param_value env session k val rest =
     (if k = ''TargetAlias'' then op_alias_key env session val rest
      else if k = ''TargetPortalGroupTag'' then portal_tag_key session val
      else if k = ''InitialR2T'' then
        normal_key (\<lambda>s. s\<lparr>initial_r2t_en := yes val\<rparr>) IRRELEVANT_INITIALR2T session
      else if k = ''ImmediateData'' then
        normal_key (\<lambda>s. s\<lparr>imm_data_en := yes val\<rparr>) IRRELEVANT_IMMEDIATEDATA session
      else if k = ''MaxRecvDataSegmentLength'' then max_recv_key session val
      else if k = ''FirstBurstLength'' then
        normal_key (\<lambda>s. s\<lparr>first_burst := u32_text val\<rparr>) IRRELEVANT_FIRSTBURSTLENGTH session
      else if k = ''MaxBurstLength'' then
        normal_key (\<lambda>s. s\<lparr>max_burst := u32_text val\<rparr>) IRRELEVANT_MAXBURSTLENGTH session
      else if k = ''DefaultTime2Wait'' then session\<lparr>def_time2wait := u32_text val\<rparr>
      else if k = ''DefaultTime2Retain'' then session\<lparr>def_time2retain := u32_text val\<rparr>
      else if k = ''DataPDUInOrder'' then
        normal_key (\<lambda>s. s\<lparr>pdu_inorder_en := yes val\<rparr>) IRRELEVANT_DATAPDUINORDER session
      else if k = ''DataSequenceInOrder'' then
        normal_key (\<lambda>s. s\<lparr>dataseq_inorder_en := yes val\<rparr>) IRRELEVANT_DATASEQUENCEINORDER session
      else if k = ''MaxOutstandingR2T'' then
        normal_key (\<lambda>s. s\<lparr>max_r2t := u32_text val\<rparr>) IRRELEVANT_MAXOUTSTANDINGR2T session
      else if k = ''MaxConnections'' then normal_key (\<lambda>s. s) IRRELEVANT_MAXCONNECTIONS session
      else if k = ''InitiatorRecvDataSegmentLength'' then
        (if rdma session then upd_conn (max_recv_dlength_update (\<lambda>d. min_u32 d val)) session else session)
      else if k = ''TargetRecvDataSegmentLength'' then
        (if rdma session then upd_conn (max_xmit_dlength_update (\<lambda>d. min_u32 d val)) session else session)
      else session)"

text \<open>The values that end the negotiation.\<close>

definition op_param_refused :: "iscsi_session \<Rightarrow> string \<Rightarrow> string \<Rightarrow> iscsi_login_status option" where
  "op_param_refused session k val =
     (if k = ''MaxConnections'' \<and> normal session \<and> val \<noteq> ''1'' then Some LOGIN_NEGOTIATION_FAILED
      else if k = ''ErrorRecoveryLevel'' \<and> val \<noteq> ''0'' then Some LOGIN_NEGOTIATION_FAILED
      else if k = ''RDMAExtensions'' \<and> rdma session \<and> val \<noteq> ''Yes'' then Some LOGIN_NEGOTIATION_FAILED
      else if k = ''X-com.cisco.protocol'' \<and> val \<notin> {''NotUnderstood'', ''Reject'', ''Irrelevant'', ''draft20''}
      then Some LOGIN_VERSION_MISMATCH
      else None)"

definition header_digest_key :: "iscsi_session \<Rightarrow> string \<Rightarrow> string \<Rightarrow> key_result" where
  "header_digest_key session val rest =
     (case digest_key (hdrdgst_en (conn session)) val of
        None \<Rightarrow> (session, Inl LOGIN_NEGOTIATION_FAILED)
      | Some d \<Rightarrow> (upd_conn (hdrdgst_en_update (\<lambda>_. d)) session, Inr rest))"

definition data_digest_key :: "iscsi_session \<Rightarrow> string \<Rightarrow> string \<Rightarrow> key_result" where
  "data_digest_key session val rest =
     (case digest_key (datadgst_en (conn session)) val of
        None \<Rightarrow> (session, Inl LOGIN_NEGOTIATION_FAILED)
      | Some d \<Rightarrow> (upd_conn (datadgst_en_update (\<lambda>_. d)) session, Inr rest))"

definition get_op_params_text_keys :: "login_env \<Rightarrow> iscsi_session \<Rightarrow> string \<Rightarrow> key_result" where
  "get_op_params_text_keys env session pos =
     (case first_key op_keys pos of
        None \<Rightarrow> (session, Inl LOGIN_NEGOTIATION_FAILED)
      | Some (k, val, rest) \<Rightarrow>
          if k = ''TargetAddress'' then redirect_key env session val rest
          else if k = ''HeaderDigest'' then header_digest_key session val rest
          else if k = ''DataDigest'' then data_digest_key session val rest
          else
            (case op_param_refused session k val of
               Some status \<Rightarrow> (session, Inl status)
             | None \<Rightarrow> (op_param_value env session k val rest, Inr rest)))"

subsection \<open>Taking addresses apart\<close>

lemma strchr_from_first: "c \<notin> set xs \<Longrightarrow> strchr_from (xs @ c # ys) c i = Some (i + length xs)"
  by (induction xs arbitrary: i) auto

lemma strchr_from_none: "c \<notin> set xs \<Longrightarrow> c \<noteq> NUL \<Longrightarrow> strchr_from xs c i = None"
  by (induction xs arbitrary: i) auto

lemma split_last_found: "c \<notin> set b \<Longrightarrow> split_last c (a @ c # b) = (a, Some b)"
  using strchr_from_first [of c "rev b" "rev a" 0] by (simp add: split_last_def strrchr_def)

lemma split_last_none: "c \<notin> set s \<Longrightarrow> c \<noteq> NUL \<Longrightarrow> split_last c s = (s, None)"
  by (simp add: split_last_def strrchr_def strchr_from_none)

lemma udec_3260: "udec 3260 = ''3260''"
  by (simp add: udec.simps dec_digit_def char_of_def bit_iff_odd)

text \<open>Text without the separators, and text that may stand in brackets.\<close>

definition plain :: "string \<Rightarrow> bool" where
  "plain s \<longleftrightarrow> list_all (\<lambda>c. c \<noteq> CHR '','' \<and> c \<noteq> CHR '':'' \<and> c \<noteq> CHR ''['' \<and> c \<noteq> CHR '']'') s"

definition bracketed :: "string \<Rightarrow> bool" where
  "bracketed s \<longleftrightarrow> list_all (\<lambda>c. c \<noteq> CHR '','' \<and> c \<noteq> CHR ''['' \<and> c \<noteq> CHR '']'') s"

lemma plainD: "plain s \<Longrightarrow> CHR '','' \<notin> set s \<and> CHR '':'' \<notin> set s \<and> CHR ''['' \<notin> set s \<and> CHR '']'' \<notin> set s"
  by (auto simp: plain_def list_all_iff)

lemma bracketedD: "bracketed s \<Longrightarrow> CHR '','' \<notin> set s \<and> CHR '']'' \<notin> set s"
  by (auto simp: bracketed_def list_all_iff)

end
