(* ===== verification/Login_Exchange.thy ===== *)
theory Login_Exchange
  imports Login_Params
begin

text \<open>
  The login exchange (\<open>usr/login.c\<close>): processing a login response, making a login request, preparing
  the authentication client, and the three steps \<open>iscsi_login_begin\<close>, \<open>iscsi_login_req\<close> and
  \<open>iscsi_login_rsp\<close> that \<open>iscsi_login\<close> repeats until the full feature phase.

  Sending and receiving a PDU and polling the socket are the events of the surroundings: the model
  takes the list of what they return, in the order in which the loop asks for it.
\<close>

subsection \<open>Processing a response\<close>

record login_rsp_hdr =
  rsp_opcode :: byte
  rsp_flags :: byte
  active_version :: byte
  rsp_dlength :: "byte list"
  rsp_tsih :: "16 word"
  statsn :: "32 word"
  rsp_exp_cmdsn :: "32 word"
  rsp_max_cmdsn :: "32 word"
  status_class :: byte
  status_detail :: byte

definition ISCSI_DRAFT20_VERSION :: byte where "ISCSI_DRAFT20_VERSION = 0x00"
definition ISCSI_FLAG_LOGIN_TRANSIT :: byte where "ISCSI_FLAG_LOGIN_TRANSIT = 0x80"
definition ISCSI_FLAG_LOGIN_CURRENT_STAGE_MASK :: byte where "ISCSI_FLAG_LOGIN_CURRENT_STAGE_MASK = 0x0C"
definition ISCSI_FLAG_LOGIN_NEXT_STAGE_MASK :: byte where "ISCSI_FLAG_LOGIN_NEXT_STAGE_MASK = 0x03"
definition ISCSI_STATUS_CLS_SUCCESS :: byte where "ISCSI_STATUS_CLS_SUCCESS = 0x00"
definition ISCSI_STATUS_CLS_REDIRECT :: byte where "ISCSI_STATUS_CLS_REDIRECT = 0x01"
definition ISCSI_STATUS_CLS_INITIATOR_ERR :: byte where "ISCSI_STATUS_CLS_INITIATOR_ERR = 0x02"

definition rsp_transit :: "login_rsp_hdr \<Rightarrow> bool" where
  "rsp_transit rsp \<longleftrightarrow> rsp_flags rsp AND ISCSI_FLAG_LOGIN_TRANSIT \<noteq> 0"

definition rsp_current_stage :: "login_rsp_hdr \<Rightarrow> int" where
  "rsp_current_stage rsp = uint (drop_bit 2 (rsp_flags rsp AND ISCSI_FLAG_LOGIN_CURRENT_STAGE_MASK))"

definition rsp_next_stage :: "login_rsp_hdr \<Rightarrow> int" where
  "rsp_next_stage rsp = uint (rsp_flags rsp AND ISCSI_FLAG_LOGIN_NEXT_STAGE_MASK)"

definition check_security_stage_status ::
  "login_env \<Rightarrow> iscsi_session \<Rightarrow> iscsi_session \<times> iscsi_login_status"
where
  "check_security_stage_status env session =
     (case acl_recv_end (auth_env env) (auth_client_block session) (Some (peer_account session)) of
        (client, status) \<Rightarrow>
          if status = AUTH_STATUS_CONTINUE \<or> status = AUTH_STATUS_PASS
          then (upd_acl client session, LOGIN_OK)
          else (upd_acl (fst (acl_get_dbg_status client)) session, LOGIN_AUTHENTICATION_FAILED))"

definition rsp_sanity :: "iscsi_session \<Rightarrow> login_rsp_hdr \<Rightarrow> iscsi_login_status option" where
  "rsp_sanity session rsp =
     (if status_class rsp = ISCSI_STATUS_CLS_SUCCESS then
        (if active_version rsp \<noteq> ISCSI_DRAFT20_VERSION then Some LOGIN_VERSION_MISMATCH
         else if rsp_current_stage rsp \<noteq> current_stage (conn session) then Some LOGIN_INVALID_PDU
         else if rsp_transit rsp \<and> rsp_next_stage rsp \<le> current_stage (conn session)
         then Some LOGIN_INVALID_PDU
         else None)
      else None)"

text \<open>The keys of the stage; \<open>Inl LOGIN_FAILED\<close> in the default branch.\<close>

definition stage_text_keys :: "login_env \<Rightarrow> iscsi_session \<Rightarrow> string \<Rightarrow> key_result" where
  "stage_text_keys env session pos =
     (if current_stage (conn session) = ISCSI_SECURITY_NEGOTIATION_STAGE
      then get_security_text_keys env session pos
      else if current_stage (conn session) = ISCSI_OP_PARMS_NEGOTIATION_STAGE
      then get_op_params_text_keys env session pos
      else (session, Inl LOGIN_FAILED))"

lemma auth_key_loop_shorter: "auth_key_loop session kt pos = (session', Inr rest) \<Longrightarrow> length rest < length pos"
proof (induction session kt pos rule: auth_key_loop.induct)
  case (1 session kt pos)
  from 1 show ?case
    by (subst (asm) (2) auth_key_loop.simps)
       (auto split: option.splits prod.splits if_splits simp: bind_eq_Some_conv find_key_value_shorter)
qed

lemma first_key_shorter: "first_key ks pos = Some (k, val, rest) \<Longrightarrow> length rest < length pos"
  by (induction ks) (auto split: option.splits simp: find_key_value_shorter)

lemma stage_text_keys_shorter:
  assumes "stage_text_keys env session pos = (session', Inr rest)"
  shows "length rest < length pos"
proof -
  have "length rest < length pos" if "get_security_text_keys env session pos = (session', Inr rest)"
    using that auth_key_loop_shorter
    by (auto simp: get_security_text_keys_def get_auth_key_type_def redirect_key_def find_key_value_shorter
        split: option.splits prod.splits if_splits)
  moreover have "length rest < length pos" if "get_op_params_text_keys env session pos = (session', Inr rest)"
    using that first_key_shorter
    by (auto simp: get_op_params_text_keys_def redirect_key_def header_digest_key_def data_digest_key_def
        split: option.splits prod.splits if_splits)
  ultimately show ?thesis using assms by (auto simp: stage_text_keys_def split: if_splits)
qed

text \<open>The scan of the text; every key that is accepted leaves a shorter text.\<close>

function scan_text :: "login_env \<Rightarrow> iscsi_session \<Rightarrow> string \<Rightarrow> iscsi_session \<times> iscsi_login_status" where
  "scan_text env session pos =
     (let pos = dropWhile (\<lambda>c. c = NUL) pos
      in if pos = [] then (session, LOGIN_OK)
         else
           case stage_text_keys env session pos of
             (session, Inl status) \<Rightarrow> (session, status)
           | (session, Inr rest) \<Rightarrow> scan_text env session rest)"
  by pat_completeness auto

termination
proof (relation "measure (\<lambda>(env, session, pos). length pos)")
  fix env session pos x s' r rest
  assume "x = dropWhile (\<lambda>c. c = NUL) pos" and "(s', r) = stage_text_keys env session x" and "r = Inr rest"
  then have "length rest < length x" by (metis stage_text_keys_shorter)
  also have "length x \<le> length pos" using \<open>x = _\<close> by (simp add: length_dropWhile_le)
  finally show "((env, s', rest), env, session, pos) \<in> measure (\<lambda>(env, session, pos). length pos)" by simp
qed simp

declare scan_text.simps [simp del]

text \<open>Without authentication buffers \<open>auth_client\<close> is a null pointer, which \<open>acl_recv_begin\<close> refuses.\<close>

definition security_begin :: "iscsi_session \<Rightarrow> bool \<Rightarrow> iscsi_session \<times> iscsi_login_status" where
  "security_begin session transit =
     (if auth_buffers session = [] then (session, LOGIN_FAILED)
      else case acl_recv_begin (auth_client_block session) of (client, status) \<Rightarrow>
        if status \<noteq> AUTH_STATUS_NO_ERROR then (upd_acl client session, LOGIN_FAILED)
        else (case acl_recv_transit_bit client transit of (client, status) \<Rightarrow>
          (upd_acl client session, if status \<noteq> AUTH_STATUS_NO_ERROR then LOGIN_FAILED else LOGIN_OK)))"

text \<open>The fields recorded for later use, and the move to the next stage.\<close>

definition record_rsp :: "iscsi_session \<Rightarrow> login_rsp_hdr \<Rightarrow> iscsi_session" where
  "record_rsp session rsp =
     (let session = session\<lparr>tsih := rsp_tsih rsp, exp_cmdsn := rsp_exp_cmdsn rsp, max_cmdsn := rsp_max_cmdsn rsp\<rparr>
      in if status_class rsp = ISCSI_STATUS_CLS_SUCCESS
         then upd_conn (exp_statsn_update (\<lambda>_. statsn rsp + 1)) session else session)"

definition next_stage_rsp :: "iscsi_session \<Rightarrow> login_rsp_hdr \<Rightarrow> iscsi_session" where
  "next_stage_rsp session rsp =
     (if rsp_transit rsp
      then (upd_conn (\<lambda>c. c\<lparr>partial_response := False, current_stage := rsp_next_stage rsp\<rparr>) session)
             \<lparr>irrelevant_keys_bitmap := 0\<rparr>
      else upd_conn (partial_response_update (\<lambda>_. True)) session)"

definition in_security :: "iscsi_session \<Rightarrow> bool" where
  "in_security session \<longleftrightarrow> current_stage (conn session) = ISCSI_SECURITY_NEGOTIATION_STAGE"

definition iscsi_process_login_response ::
  "login_env \<Rightarrow> iscsi_session \<Rightarrow> login_rsp_hdr \<Rightarrow> string \<Rightarrow> nat \<Rightarrow> iscsi_session \<times> iscsi_login_status"
where
  "iscsi_process_login_response env session rsp data max_data_length =
     (let text_end = ntoh24 (rsp_dlength rsp) + 1
      in if text_end \<ge> max_data_length then (session, LOGIN_FAILED)
         else case rsp_sanity session rsp of
           Some status \<Rightarrow> (session, status)
         | None \<Rightarrow>
             (case (if in_security session then security_begin session (rsp_transit rsp)
                    else (session, LOGIN_OK)) of (session, status) \<Rightarrow>
                if status \<noteq> LOGIN_OK then (session, status)
                else case scan_text env session (take text_end data) of (session, status) \<Rightarrow>
                  if status \<noteq> LOGIN_OK then (session, status)
                  else case (if in_security session then check_security_stage_status env session
                             else (session, LOGIN_OK)) of (session, status) \<Rightarrow>
                    if status \<noteq> LOGIN_OK then (session, status)
                    else (next_stage_rsp (record_rsp session rsp) rsp, LOGIN_OK)))"

subsection \<open>Making a request\<close>

definition d32 :: "32 word \<Rightarrow> string" where
  "d32 w = sdec (sint w)"

definition yes_no :: "32 word \<Rightarrow> string" where
  "yes_no w = (if w \<noteq> 0 then ''Yes'' else ''No'')"

definition add_params_normal_session :: "iscsi_session \<Rightarrow> nat \<Rightarrow> login_pdu \<Rightarrow> login_pdu option" where
  "add_params_normal_session session max_data_length =
     add_texts max_data_length
       [(''InitialR2T'', yes_no (initial_r2t_en session)), (''ImmediateData'', yes_no (imm_data_en session)),
        (''MaxBurstLength'', d32 (max_burst session)), (''FirstBurstLength'', d32 (first_burst session)),
        (''MaxOutstandingR2T'', d32 (max_r2t session)), (''MaxConnections'', ''1''),
        (''DataPDUInOrder'', ''Yes''), (''DataSequenceInOrder'', ''Yes'')]"

definition add_params_transport_specific :: "iscsi_session \<Rightarrow> nat \<Rightarrow> login_pdu \<Rightarrow> login_pdu option" where
  "add_params_transport_specific session max_data_length =
     add_texts max_data_length
       (if sess_type session = ISCSI_SESSION_TYPE_DISCOVERY \<or> \<not> rdma session
        then [(''MaxRecvDataSegmentLength'', d32 (max_recv_dlength (conn session)))]
        else [(''InitiatorRecvDataSegmentLength'', d32 (max_recv_dlength (conn session))),
              (''TargetRecvDataSegmentLength'', d32 (max_xmit_dlength (conn session))),
              (''RDMAExtensions'', ''Yes'')])"

definition check_irrelevant_keys :: "iscsi_session \<Rightarrow> nat \<Rightarrow> login_pdu \<Rightarrow> login_pdu option" where
  "check_irrelevant_keys session max_data_length =
     add_texts max_data_length
       (map (\<lambda>(irr, k). (k, ''Irrelevant''))
         (filter (\<lambda>(irr, k). irrelevant_keys_bitmap session AND irr \<noteq> 0)
           [(IRRELEVANT_MAXCONNECTIONS, ''MaxConnections''), (IRRELEVANT_INITIALR2T, ''InitialR2T''),
            (IRRELEVANT_IMMEDIATEDATA, ''ImmediateData''), (IRRELEVANT_MAXBURSTLENGTH, ''MaxBurstLength''),
            (IRRELEVANT_FIRSTBURSTLENGTH, ''FirstBurstLength''),
            (IRRELEVANT_MAXOUTSTANDINGR2T, ''MaxOutstandingR2T''),
            (IRRELEVANT_DATAPDUINORDER, ''DataPDUInOrder''),
            (IRRELEVANT_DATASEQUENCEINORDER, ''DataSequenceInOrder'')]))"

definition digest_text :: "32 word \<Rightarrow> string" where
  "digest_text en =
     (if en = ISCSI_DIGEST_NONE then ''None''
      else if en = ISCSI_DIGEST_CRC32C then ''CRC32C''
      else if en = ISCSI_DIGEST_CRC32C_NONE then ''CRC32C,None''
      else ''None,CRC32C'')"

definition fill_crc_digest_text :: "iscsi_conn \<Rightarrow> nat \<Rightarrow> login_pdu \<Rightarrow> login_pdu option" where
  "fill_crc_digest_text cn max_data_length =
     add_texts max_data_length
       [(''HeaderDigest'', digest_text (hdrdgst_en cn)), (''DataDigest'', digest_text (datadgst_en cn))]"

text \<open>The offer made the first time the operational stage is entered.\<close>

definition op_params_offer :: "iscsi_session \<Rightarrow> bool \<Rightarrow> nat \<Rightarrow> login_pdu \<Rightarrow> login_pdu option" where
  "op_params_offer session rdma_normal max_data_length pdu =
     Option.bind (if rdma_normal then Some pdu else fill_crc_digest_text (conn session) max_data_length pdu)
       (\<lambda>pdu. Option.bind
          (add_texts max_data_length
             [(''DefaultTime2Wait'', d32 (def_time2wait session)),
              (''DefaultTime2Retain'', d32 (def_time2retain session)),
              (''IFMarker'', ''No''), (''OFMarker'', ''No''), (''ErrorRecoveryLevel'', ''0'')] pdu)
          (\<lambda>pdu. if normal session
            then Option.bind (add_params_normal_session session max_data_length pdu)
                   (add_params_transport_specific session max_data_length)
            else add_texts max_data_length
                   [(''MaxRecvDataSegmentLength'', d32 (max_recv_dlength (conn session)))] pdu))"

definition fill_op_params_text ::
  "iscsi_session \<Rightarrow> nat \<Rightarrow> login_pdu \<Rightarrow> iscsi_session \<times> login_pdu option"
where
  "fill_op_params_text session max_data_length pdu =
     (let session = upd_conn (\<lambda>c. c\<lparr>current_stage := ISCSI_OP_PARMS_NEGOTIATION_STAGE,
                                     next_stage := ISCSI_FULL_FEATURE_PHASE\<rparr>) session;
          rdma_normal = (normal session \<and> rdma session)
      in (session,
          if \<not> partial_response (conn session)
          then op_params_offer session rdma_normal max_data_length pdu
          else Option.bind (check_irrelevant_keys session max_data_length pdu)
                 (if rdma_normal then fill_crc_digest_text (conn session) max_data_length else Some)))"

text \<open>\<open>max_length\<close> is an \<open>unsigned int\<close>. Where \<open>acl_send_key_val\<close> fails, what it left behind the end of
  the data segment is not part of the PDU.\<close>

definition enum_auth_keys :: "nat \<Rightarrow> int \<Rightarrow> iscsi_session \<times> login_pdu \<Rightarrow> iscsi_session \<times> login_pdu" where
  "enum_auth_keys max_data_length keytype = (\<lambda>(session, hdr, data).
     let k = (case acl_get_key_name keytype of None \<Rightarrow> [] | Some k \<Rightarrow> k);
         pdu_length = ntoh24 (dlength hdr);
         max_length = nat ((int max_data_length - int (pdu_length + length k + 1)) mod 2 ^ 32)
     in case acl_send_key_val (auth_client_block session) keytype max_length of (client, rc, val) \<Rightarrow>
        (upd_acl client session,
         case val of
           None \<Rightarrow> (hdr, data)
         | Some v \<Rightarrow>
             if rc = AUTH_STATUS_NO_ERROR
             then (hdr\<lparr>dlength := hton24 (pdu_length + length k + 1 + (length v + 1))\<rparr>,
                   overlay data pdu_length (k @ ''='' @ v @ [NUL]))
             else (hdr, data)))"

function enum_keys_loop :: "nat \<Rightarrow> int \<Rightarrow> iscsi_session \<times> login_pdu \<Rightarrow> iscsi_session \<times> login_pdu" where
  "enum_keys_loop max_data_length keytype sp =
     (case acl_get_next_key_type keytype of
        None \<Rightarrow> sp
      | Some keytype \<Rightarrow> enum_keys_loop max_data_length keytype (enum_auth_keys max_data_length keytype sp))"
  by pat_completeness auto

termination
  by (relation "measure (\<lambda>(m, k, sp). nat (AUTH_KEY_TYPE_LAST - k))")
     (auto simp: acl_get_next_key_type_def AUTH_KEY_TYPE_LAST_def AUTH_KEY_TYPE_FIRST_def
        AUTH_KEY_TYPE_MAX_COUNT_def split: if_splits)

declare enum_keys_loop.simps [simp del]

definition ISCSI_DEF_MAX_RECV_SEG_LEN :: "32 word" where "ISCSI_DEF_MAX_RECV_SEG_LEN = 8192"

definition security_next_stage :: "iscsi_session \<Rightarrow> bool \<Rightarrow> int" where
  "security_next_stage session transit =
     (if transit then
        (if sess_type session = ISCSI_SESSION_TYPE_DISCOVERY then
           (if hdrdgst_en (conn session) \<noteq> ISCSI_DIGEST_NONE \<or> datadgst_en (conn session) \<noteq> ISCSI_DIGEST_NONE \<or>
               max_recv_dlength (conn session) \<noteq> ISCSI_DEF_MAX_RECV_SEG_LEN
            then ISCSI_OP_PARMS_NEGOTIATION_STAGE else ISCSI_FULL_FEATURE_PHASE)
         else ISCSI_OP_PARMS_NEGOTIATION_STAGE)
      else ISCSI_SECURITY_NEGOTIATION_STAGE)"

text \<open>The transit bit and, on success, the PDU.\<close>

definition fill_security_params_text ::
  "iscsi_session \<Rightarrow> nat \<Rightarrow> login_pdu \<Rightarrow> iscsi_session \<times> (bool \<times> login_pdu) option"
where
  "fill_security_params_text session max_data_length pdu =
     (if auth_buffers session = [] then (session, None)
      else case acl_send_transit_bit (auth_client_block session) of (client, rc, transit) \<Rightarrow>
        let session = upd_acl client session
        in case transit of
             None \<Rightarrow> (session, None)
           | Some transit \<Rightarrow>
               let session = upd_conn (next_stage_update (\<lambda>_. security_next_stage session transit)) session
               in (case enum_keys_loop max_data_length AUTH_KEY_TYPE_NONE (session, pdu) of
                     (session, pdu) \<Rightarrow> (session, Some (transit, pdu))))"

definition login_hdr_init :: "iscsi_session \<Rightarrow> login_req_hdr" where
  "login_hdr_init session =
     \<lparr>opcode = 0x03 OR 0x40, flags = 0, max_version = ISCSI_DRAFT20_VERSION, min_version = ISCSI_DRAFT20_VERSION,
      hlength = 0, dlength = [0, 0, 0], hdr_isid = isid session, hdr_tsih = 0, itt = 0, hdr_cid = 0,
      hdr_cmdsn = cmdsn session, hdr_exp_statsn = exp_statsn (conn session)\<rparr>"

definition nonempty :: "string option \<Rightarrow> bool" where
  "nonempty s = (case s of None \<Rightarrow> False | Some t \<Rightarrow> t \<noteq> [])"

text \<open>The keys of the very first login PDU and the stage it starts in.\<close>

definition first_pdu_text :: "iscsi_session \<Rightarrow> nat \<Rightarrow> login_pdu \<Rightarrow> login_pdu option" where
  "first_pdu_text session max_data_length pdu =
     (if nonempty (initiator_name session)
      then add_texts max_data_length
        ([(''InitiatorName'', the (initiator_name session))] @
         (if nonempty (initiator_alias session) then [(''InitiatorAlias'', the (initiator_alias session))] else []) @
         (if target_name session \<noteq> [] \<and> normal session then [(''TargetName'', target_name session)] else []) @
         [(''SessionType'', if sess_type session = ISCSI_SESSION_TYPE_DISCOVERY then ''Discovery'' else ''Normal'')])
        pdu
      else None)"

definition first_stage :: "iscsi_session \<Rightarrow> iscsi_session" where
  "first_stage session =
     (let st = (if auth_buffers session \<noteq> [] then ISCSI_SECURITY_NEGOTIATION_STAGE
                else ISCSI_OP_PARMS_NEGOTIATION_STAGE)
      in upd_conn (\<lambda>c. c\<lparr>current_stage := st, next_stage := st\<rparr>) session)"

definition login_flags :: "iscsi_conn \<Rightarrow> bool \<Rightarrow> byte" where
  "login_flags cn transit =
     (let f = word_of_int (current_stage cn * 4)
      in if transit then f OR word_of_int (next_stage cn) OR ISCSI_FLAG_LOGIN_TRANSIT
         else f OR word_of_int (current_stage cn))"

definition set_login_flags :: "iscsi_session \<Rightarrow> bool \<Rightarrow> login_pdu \<Rightarrow> login_pdu" where
  "set_login_flags session transit = (\<lambda>(hdr, data). (hdr\<lparr>flags := login_flags (conn session) transit\<rparr>, data))"

text \<open>The switch over the stage.\<close>

definition stage_pdu :: "iscsi_session \<Rightarrow> nat \<Rightarrow> login_pdu \<Rightarrow> iscsi_session \<times> login_pdu option" where
  "stage_pdu session max_data_length pdu =
     (if current_stage (conn session) = ISCSI_OP_PARMS_NEGOTIATION_STAGE
      then (case fill_op_params_text session max_data_length pdu of (session, r) \<Rightarrow>
              (session, map_option (set_login_flags session True) r))
      else if current_stage (conn session) = ISCSI_SECURITY_NEGOTIATION_STAGE
      then (case fill_security_params_text session max_data_length pdu of (session, r) \<Rightarrow>
              (session, map_option (\<lambda>(transit, pdu). set_login_flags session transit pdu) r))
      else (session, None))"

definition iscsi_make_login_pdu :: "iscsi_session \<Rightarrow> string \<Rightarrow> nat \<Rightarrow> iscsi_session \<times> login_pdu option" where
  "iscsi_make_login_pdu session data max_data_length =
     (let pdu = (login_hdr_init session, data)
      in if current_stage (conn session) = ISCSI_INITIAL_LOGIN_STAGE
         then (case first_pdu_text session max_data_length pdu of
                 None \<Rightarrow> (session, None)
               | Some pdu \<Rightarrow> stage_pdu (first_stage session) max_data_length pdu)
         else stage_pdu session max_data_length pdu)"

subsection \<open>Preparing the authentication client\<close>

text \<open>The calls that configure the client, each made only when the ones before it succeeded; the second
  component tells whether all did.\<close>

fun configure :: "(iscsi_acl \<Rightarrow> iscsi_acl \<times> auth_status) list \<Rightarrow> iscsi_acl \<Rightarrow> iscsi_acl \<times> bool" where
  "configure [] client = (client, True)"
| "configure (f # fs) client =
     (case f client of (client, status) \<Rightarrow>
        if status \<noteq> AUTH_STATUS_NO_ERROR then (client, False) else configure fs client)"

definition auth_calls :: "login_env \<Rightarrow> iscsi_session \<Rightarrow> (iscsi_acl \<Rightarrow> iscsi_acl \<times> auth_status) list" where
  "auth_calls env session =
     (if sess_username session \<noteq> [] then [\<lambda>c. acl_set_user_name c (Some (sess_username session))] else []) @
     (if sess_password session \<noteq> [] \<and> hd (sess_password session) \<noteq> 0
      then [\<lambda>c. acl_set_passwd c (take (password_length session) (sess_password session))] else []) @
     [\<lambda>c. acl_set_chap_alg_list c (acl_init_chap_digests (auth_env env) (chap_algs session)),
      \<lambda>c. acl_set_ip_sec c True,
      \<lambda>c. acl_set_auth_rmt c (bidirectional_auth session)]"

definition check_for_authentication :: "login_env \<Rightarrow> iscsi_session \<Rightarrow> iscsi_session \<times> iscsi_login_status" where
  "check_for_authentication env session =
     (case acl_init (sizeof_acl env) 1 (Some (auth_buffers session)) of (init, status) \<Rightarrow>
        let client = (case init of None \<Rightarrow> auth_client_block session | Some c \<Rightarrow> c)
        in if status \<noteq> AUTH_STATUS_NO_ERROR then (upd_acl client session, LOGIN_FAILED)
           else case configure (auth_calls env session) client of (client, ok) \<Rightarrow>
             if ok then (upd_acl client session, LOGIN_OK)
             else (upd_acl (fst (acl_finish client)) session, LOGIN_FAILED))"

subsection \<open>The exchange\<close>

text \<open>\<open>have_auth_client\<close> says that \<open>c->auth_client\<close> is not null; \<open>c->pdu\<close> is the request in \<open>ctx_pdu\<close>
  and, once a response has been read into the same memory, the response that \<open>iscsi_login_rsp\<close> is
  given.\<close>

record iscsi_login_context =
  bufsize :: nat
  ctx_class :: byte
  ctx_detail :: byte
  have_auth_client :: bool
  ctx_pdu :: login_pdu
  received_pdu :: bool
  max_data_length :: nat
  ctx_timeout :: int
  final :: bool
  ret :: iscsi_login_status

datatype recv_result =
    RECV_EAGAIN
  | RECV_ERROR
  | RECV_PDU login_rsp_hdr string

text \<open>The data segment as \<open>iscsi_io_recv_pdu\<close> leaves it in the buffer: cleared, then filled.\<close>

definition recv_data :: "nat \<Rightarrow> string \<Rightarrow> string" where
  "recv_data max_len bytes = bytes @ replicate (max_len - length bytes) NUL"

text \<open>The label \<open>done\<close> of the login functions.\<close>

definition finish_auth ::
  "iscsi_session \<times> iscsi_login_context \<Rightarrow> iscsi_session \<times> iscsi_login_context"
where
  "finish_auth = (\<lambda>(session, c).
     if have_auth_client c
     then (case acl_finish (auth_client_block session) of (client, status) \<Rightarrow>
       (upd_acl client session,
        if status \<noteq> AUTH_STATUS_NO_ERROR \<and> ret c = LOGIN_OK then c\<lparr>ret := LOGIN_FAILED\<rparr> else c))
     else (session, c))"

definition check_status_login_response ::
  "login_env \<Rightarrow> iscsi_session \<Rightarrow> iscsi_login_context \<Rightarrow> login_rsp_hdr \<Rightarrow> string \<Rightarrow>
   iscsi_session \<times> iscsi_login_context"
where
  "check_status_login_response env session c rsp data =
     (if status_class rsp = ISCSI_STATUS_CLS_SUCCESS
      then (case iscsi_process_login_response env session rsp data (max_data_length c) of (session, r) \<Rightarrow>
              (session, c\<lparr>final := final c \<or> r \<noteq> LOGIN_OK, ret := r\<rparr>))
      else if status_class rsp = ISCSI_STATUS_CLS_REDIRECT
      then (case iscsi_process_login_response env session rsp data (max_data_length c) of (session, _) \<Rightarrow>
              (session, c\<lparr>final := True, ret := LOGIN_REDIRECT\<rparr>))
      else (session, c\<lparr>final := True, ret := LOGIN_OK\<rparr>))"

definition iscsi_login_begin ::
  "login_env \<Rightarrow> iscsi_session \<Rightarrow> iscsi_login_context \<Rightarrow> (iscsi_session \<times> iscsi_login_context) \<times> bool"
where
  "iscsi_login_begin env session c =
     (let c = c\<lparr>have_auth_client := False, received_pdu := False, ctx_timeout := 0, final := False,
                 ret := LOGIN_FAILED\<rparr>;
          session = session\<lparr>cmdsn := 1, exp_cmdsn := 1, max_cmdsn := 1\<rparr>;
          session = upd_conn (\<lambda>c. c\<lparr>current_stage := ISCSI_INITIAL_LOGIN_STAGE, partial_response := False\<rparr>) session
      in if auth_buffers session \<noteq> []
         then (case check_for_authentication env session of (session, r) \<Rightarrow>
                 ((session, c\<lparr>ret := r\<rparr>), r \<noteq> LOGIN_OK))
         else ((session, c), False))"

text \<open>\<open>send_ok\<close> is the result of \<open>iscsi_io_send_pdu\<close>. The third component is the return value.\<close>

definition iscsi_login_req ::
  "iscsi_session \<Rightarrow> iscsi_login_context \<Rightarrow> bool \<Rightarrow> (iscsi_session \<times> iscsi_login_context) \<times> bool"
where
  "iscsi_login_req session c send_ok =
     (let c = c\<lparr>final := False, ret := LOGIN_FAILED, max_data_length := bufsize c,
                 ctx_timeout := if received_pdu c \<and> in_security session then auth_timeout (conn session)
                                else login_timeout (conn session)\<rparr>
      in case iscsi_make_login_pdu session (replicate (bufsize c) NUL) (bufsize c) of
           (session, None) \<Rightarrow> (finish_auth (session, c\<lparr>ret := LOGIN_FAILED\<rparr>), True)
         | (session, Some pdu) \<Rightarrow>
             let c = c\<lparr>ctx_pdu := pdu\<rparr>
             in if \<not> send_ok then (finish_auth (session, c\<lparr>ret := LOGIN_IO_ERROR\<rparr>), True)
                else ((session, c), False))"

datatype rsp_return = RSP_OK | RSP_EAGAIN | RSP_FAIL

definition ISCSI_OP_LOGIN_RSP :: byte where "ISCSI_OP_LOGIN_RSP = 0x23"

definition iscsi_login_rsp ::
  "login_env \<Rightarrow> iscsi_session \<Rightarrow> iscsi_login_context \<Rightarrow> recv_result \<Rightarrow>
   (iscsi_session \<times> iscsi_login_context) \<times> rsp_return"
where
  "iscsi_login_rsp env session c r =
     (case r of
        RECV_EAGAIN \<Rightarrow> (finish_auth (session, c), RSP_EAGAIN)
      | RECV_ERROR \<Rightarrow> (finish_auth (session, c\<lparr>ret := LOGIN_IO_ERROR\<rparr>), RSP_FAIL)
      | RECV_PDU rsp bytes \<Rightarrow>
          let c = c\<lparr>received_pdu := True\<rparr>
          in if rsp_opcode rsp = ISCSI_OP_LOGIN_RSP OR 0xC0
             then (finish_auth (session, c\<lparr>ret := LOGIN_VERSION_MISMATCH\<rparr>), RSP_FAIL)
             else if rsp_opcode rsp \<noteq> ISCSI_OP_LOGIN_RSP
             then (finish_auth (session, c\<lparr>ret := LOGIN_INVALID_PDU\<rparr>), RSP_FAIL)
             else
               case check_status_login_response env session
                      (c\<lparr>ctx_class := status_class rsp, ctx_detail := status_detail rsp\<rparr>) rsp
                      (recv_data (max_data_length c) bytes) of
                 (session, c) \<Rightarrow>
                   if final c then (finish_auth (session, c), RSP_FAIL) else ((session, c), RSP_OK))"

text \<open>One round of the loop of \<open>iscsi_login\<close>: what \<open>poll\<close> reports, after the test of the timer.\<close>

datatype poll_event =
    POLL_TIMER_EXPIRED
  | POLL_READABLE recv_result
  | POLL_HUP
  | POLL_NVAL
  | POLL_ERR
  | POLL_OTHER
  | POLL_FAILED

text \<open>A poll comes with the surroundings in which its response is processed.\<close>

datatype login_event = SEND bool | POLL login_env poll_event

definition with_ret :: "iscsi_login_status \<Rightarrow> iscsi_session \<times> iscsi_login_context \<Rightarrow> iscsi_session \<times> iscsi_login_context" where
  "with_ret r = (\<lambda>(session, c). (session, c\<lparr>ret := r\<rparr>))"

text \<open>The loop, given the events still to come: \<open>SEND\<close> before a request is sent, \<open>POLL\<close> while a response
  is awaited. The result is the final state with \<open>c->ret\<close>, the return value; it is \<open>None\<close> when the
  events end before the loop does. \<open>POLL_OTHER\<close> stands for a return of \<open>poll\<close> without a reported
  condition, after which the loop tests the stage again.\<close>

fun login_loop ::
  "bool \<Rightarrow> iscsi_session \<times> iscsi_login_context \<Rightarrow> login_event list \<Rightarrow>
   (iscsi_session \<times> iscsi_login_context) option"
where
  "login_loop waiting sc [] = None"
| "login_loop waiting sc (SEND ok # evs) =
     (if waiting then None
      else case iscsi_login_req (fst sc) (snd sc) ok of (sc, failed) \<Rightarrow>
        if failed then Some sc else login_loop True sc evs)"
| "login_loop waiting sc (POLL env ev # evs) =
     (if \<not> waiting then None
      else case ev of
        POLL_TIMER_EXPIRED \<Rightarrow> Some (with_ret LOGIN_FAILED sc)
      | POLL_READABLE r \<Rightarrow>
          (case iscsi_login_rsp env (fst sc) (snd sc) r of (sc, err) \<Rightarrow>
             (case err of
                RSP_EAGAIN \<Rightarrow> login_loop True sc evs
              | RSP_FAIL \<Rightarrow> Some sc
              | RSP_OK \<Rightarrow>
                  if current_stage (conn (fst sc)) \<noteq> ISCSI_FULL_FEATURE_PHASE
                  then login_loop False sc evs
                  else Some (finish_auth (with_ret LOGIN_OK sc))))
      | POLL_HUP \<Rightarrow> Some (with_ret LOGIN_FAILED sc)
      | POLL_NVAL \<Rightarrow> Some (with_ret LOGIN_IO_ERROR sc)
      | POLL_ERR \<Rightarrow> Some (with_ret LOGIN_IO_ERROR sc)
      | POLL_FAILED \<Rightarrow> Some (with_ret LOGIN_FAILED sc)
      | POLL_OTHER \<Rightarrow>
          if current_stage (conn (fst sc)) \<noteq> ISCSI_FULL_FEATURE_PHASE
          then login_loop False sc evs
          else Some (finish_auth (with_ret LOGIN_OK sc)))"

definition iscsi_login ::
  "login_env \<Rightarrow> iscsi_session \<Rightarrow> iscsi_login_context \<Rightarrow> nat \<Rightarrow> login_event list \<Rightarrow>
   (iscsi_session \<times> iscsi_login_context) option"
where
  "iscsi_login env session c bufsz evs =
     (let session = upd_conn (exp_statsn_update (\<lambda>_. 0)) session;
          c = c\<lparr>bufsize := bufsz\<rparr>
      in case iscsi_login_begin env session c of (sc, failed) \<Rightarrow>
           if failed then Some sc else login_loop False sc evs)"

end
