(* ===== verification/Iscsi_Timer.thy ===== *)
theory Iscsi_Timer
  imports Iscsi_Prelude
begin

text \<open>
  The timers of \<open>usr/iscsi_timer.c\<close>, which the login and the discovery use for their timeouts. A time is the
  \<open>timeval\<close> that \<open>gettimeofday\<close> returns; the conversion of the milliseconds to \<open>int\<close> is written out.
\<close>

record timeval =
  tv_sec :: int
  tv_usec :: int

text \<open>A value of type \<open>long\<close> stored in an \<open>int\<close>.\<close>

definition to_int :: "int \<Rightarrow> int" where
  "to_int x = (x + 2 ^ 31) mod 2 ^ 32 - 2 ^ 31"

definition iscsi_timer_clear :: timeval where
  "iscsi_timer_clear = \<lparr>tv_sec = 0, tv_usec = 0\<rparr>"

text \<open>\<open>now\<close> is what \<open>gettimeofday\<close> reads; \<open>None\<close> is a null pointer.\<close>

definition iscsi_timer_set :: "timeval option \<Rightarrow> timeval \<Rightarrow> int \<Rightarrow> timeval option" where
  "iscsi_timer_set timer now seconds =
     (case timer of None \<Rightarrow> None | Some _ \<Rightarrow> Some (now\<lparr>tv_sec := tv_sec now + seconds\<rparr>))"

definition iscsi_timer_expired :: "timeval option \<Rightarrow> timeval \<Rightarrow> bool" where
  "iscsi_timer_expired timer now =
     (case timer of None \<Rightarrow> False
      | Some t \<Rightarrow>
          if tv_sec t = 0 \<and> tv_usec t = 0 then False
          else if tv_sec now > tv_sec t then True
          else if tv_sec now = tv_sec t \<and> tv_usec now \<ge> tv_usec t then True
          else False)"

definition iscsi_timer_msecs_until :: "timeval option \<Rightarrow> timeval \<Rightarrow> int" where
  "iscsi_timer_msecs_until timer now =
     (case timer of None \<Rightarrow> - 1
      | Some t \<Rightarrow>
          if tv_sec t = 0 \<and> tv_usec t = 0 then - 1
          else if tv_sec now > tv_sec t then 0
          else if tv_sec now = tv_sec t \<and> tv_usec now \<ge> tv_usec t then 0
          else
            let partial = tv_usec t - tv_usec now
            in if partial < 0
               then let partial = partial + 1000 * 1000;
                        msecs = to_int ((partial + 500) div 1000)
                    in to_int (msecs + (tv_sec t - tv_sec now - 1) * 1000)
               else let msecs = to_int ((partial + 500) div 1000)
                    in to_int (msecs + (tv_sec t - tv_sec now) * 1000))"

definition usecs :: "timeval \<Rightarrow> int" where
  "usecs t = 1000000 * tv_sec t + tv_usec t"

definition normal_time :: "timeval \<Rightarrow> bool" where
  "normal_time t \<longleftrightarrow> 0 \<le> tv_usec t \<and> tv_usec t < 1000000"

lemma to_int_small: "- (2 ^ 31) \<le> x \<Longrightarrow> x < 2 ^ 31 \<Longrightarrow> to_int x = x"
  by (simp add: to_int_def)

lemma expired_iff:
  assumes "normal_time t" "normal_time now" "usecs t \<noteq> 0"
  shows "iscsi_timer_expired (Some t) now \<longleftrightarrow> usecs t \<le> usecs now"
  using assms by (auto simp: iscsi_timer_expired_def usecs_def normal_time_def)

lemma round_milli:
  fixes p :: int
  shows "p - 500 \<le> 1000 * ((p + 500) div 1000)" "1000 * ((p + 500) div 1000) \<le> p + 500"
  by linarith+

text \<open>C38. The time left on a timer. For a set timer, as long as the time left fits in an \<open>int\<close> of milliseconds,
  \<open>iscsi_timer_msecs_until\<close> returns 0 when the timer has expired and otherwise the time left rounded to the
  nearest millisecond, so it is never off by more than 500 microseconds; \<open>iscsi_timer_expired\<close> tells whether
  the time has come exactly.\<close>

theorem timer_msecs_nearest:
  assumes "normal_time t" and "normal_time now" and "usecs t \<noteq> 0" and "tv_sec t - tv_sec now < 2147483"
  shows "iscsi_timer_expired (Some t) now = (usecs t \<le> usecs now) \<and>
     (if usecs t \<le> usecs now then iscsi_timer_msecs_until (Some t) now = 0
      else 0 \<le> iscsi_timer_msecs_until (Some t) now \<and>
           \<bar>usecs t - usecs now - 1000 * iscsi_timer_msecs_until (Some t) now\<bar> \<le> 500)"
proof (cases "usecs t \<le> usecs now")
  case True
  then have "iscsi_timer_msecs_until (Some t) now = 0"
    using assms by (auto simp: iscsi_timer_msecs_until_def usecs_def normal_time_def)
  with True expired_iff [OF assms(1-3)] show ?thesis by simp
next
  case False
  define d where "d = tv_sec t - tv_sec now"
  define p where "p = tv_usec t - tv_usec now"
  have u: "usecs t - usecs now = 1000000 * d + p" by (simp add: usecs_def d_def p_def)
  have p: "- 1000000 < p" "p < 1000000" using assms(1,2) by (auto simp: normal_time_def p_def)
  have d: "0 \<le> d" "d < 2147483" "p < 0 \<Longrightarrow> 1 \<le> d" using False assms(4) u p by (auto simp: d_def)
  define q where "q = (if p < 0 then p + 1000000 else p)"
  define e where "e = (if p < 0 then d - 1 else d)"
  have q: "0 \<le> (q + 500) div 1000" "(q + 500) div 1000 \<le> 1000" using p by (auto simp: q_def)
  have e: "0 \<le> e" "e < 2147483" using d by (auto simp: e_def)
  have "\<not> tv_sec t < tv_sec now" using d(1) by (simp add: d_def)
  then have "iscsi_timer_msecs_until (Some t) now = to_int (to_int ((q + 500) div 1000) + e * 1000)"
    using False assms(3) by (auto simp: iscsi_timer_msecs_until_def usecs_def d_def p_def q_def e_def Let_def)
  also have "\<dots> = (q + 500) div 1000 + e * 1000" using q e by (simp add: to_int_small)
  finally have m: "iscsi_timer_msecs_until (Some t) now = (q + 500) div 1000 + e * 1000" .
  have "usecs t - usecs now = q + 1000000 * e" using u by (auto simp: q_def e_def)
  then have "\<bar>usecs t - usecs now - 1000 * iscsi_timer_msecs_until (Some t) now\<bar> \<le> 500"
    using m round_milli [of q] by linarith
  moreover have "0 \<le> iscsi_timer_msecs_until (Some t) now" using m q e by simp
  ultimately show ?thesis using False expired_iff [OF assms(1-3)] by simp
qed

theorem timer_msecs_nearest_witness:
  "iscsi_timer_msecs_until (Some \<lparr>tv_sec = 20, tv_usec = 100\<rparr>) \<lparr>tv_sec = 17, tv_usec = 700\<rparr> = 2999 \<and>
   usecs \<lparr>tv_sec = 20, tv_usec = 100\<rparr> - usecs \<lparr>tv_sec = 17, tv_usec = 700\<rparr> - 1000 * 2999 = 400"
proof -
  let ?t = "\<lparr>tv_sec = 20, tv_usec = 100\<rparr>" and ?now = "\<lparr>tv_sec = 17, tv_usec = 700\<rparr>"
  have "iscsi_timer_msecs_until (Some ?t) ?now = 2999" by (simp add: iscsi_timer_msecs_until_def to_int_def)
  then show ?thesis using timer_msecs_nearest [of ?t ?now] by (simp add: normal_time_def usecs_def)
qed

end
