(* ===== verification/Session_Params.thy ===== *)
theory Session_Params
  imports Iscsi_Codes Login_Exchange Iscsi_Timer
begin

text \<open>
  Transports, configuration and parameters of a session: the transport templates (\<open>usr/transport.c\<close>), the set-up of
  authentication, the operational parameters and the tables of parameters that are handed to the kernel
  (\<open>usr/initiator_common.c\<close>, \<open>usr/iser.c\<close>, \<open>usr/cxgbi.c\<close>, \<open>usr/be2iscsi.c\<close>). The record \<open>sess\<close> is the session of the daemon, with the list
  of what it has done to the world outside.
\<close>

subsection \<open>Transports\<close>

definition CAP_RECOVERY_L0 :: "32 word" where "CAP_RECOVERY_L0 = 0x1"
definition CAP_RECOVERY_L1 :: "32 word" where "CAP_RECOVERY_L1 = 0x2"
definition CAP_MULTI_R2T :: "32 word" where "CAP_MULTI_R2T = 0x8"
definition CAP_HDRDGST :: "32 word" where "CAP_HDRDGST = 0x10"
definition CAP_DATADGST :: "32 word" where "CAP_DATADGST = 0x20"
definition CAP_TEXT_NEGO :: "32 word" where "CAP_TEXT_NEGO = 0x80"
definition CAP_MARKERS :: "32 word" where "CAP_MARKERS = 0x100"
definition CAP_FW_DB :: "32 word" where "CAP_FW_DB = 0x200"
definition CAP_SENDTARGETS_OFFLOAD :: "32 word" where "CAP_SENDTARGETS_OFFLOAD = 0x400"
definition CAP_LOGIN_OFFLOAD :: "32 word" where "CAP_LOGIN_OFFLOAD = 0x4000"

lemmas cap_defs = CAP_RECOVERY_L0_def CAP_RECOVERY_L1_def CAP_MULTI_R2T_def CAP_HDRDGST_def CAP_DATADGST_def
  CAP_TEXT_NEGO_def CAP_MARKERS_def CAP_FW_DB_def CAP_SENDTARGETS_OFFLOAD_def CAP_LOGIN_OFFLOAD_def

datatype set_host_ip_opts = SET_HOST_IP_NOT_REQ | SET_HOST_IP_REQ | SET_HOST_IP_OPT

datatype create_conn_fn = NO_CREATE_CONN | iser_create | cxgbi_create | be2iscsi_create

text \<open>A template: its name and flags, whether its endpoint functions are those of the kernel transports
  (\<open>ktransport_ep_connect\<close> and so on) rather than a TCP socket, its \<open>create_conn\<close>, and whether it has a
  \<open>set_net_config\<close>.\<close>

record iscsi_transport_template =
  tmpl_name :: string
  tmpl_rdma :: bool
  tmpl_set_host_ip :: set_host_ip_opts
  tmpl_use_boot_info :: bool
  bind_ep_required :: bool
  no_netdev :: bool
  sync_vlan_settings :: bool
  kernel_ep :: bool
  create_conn :: create_conn_fn
  has_net_config :: bool

definition tmpl :: "string \<Rightarrow> iscsi_transport_template" where
  "tmpl n = \<lparr>tmpl_name = n, tmpl_rdma = False, tmpl_set_host_ip = SET_HOST_IP_NOT_REQ, tmpl_use_boot_info = False,
     bind_ep_required = False, no_netdev = False, sync_vlan_settings = False, kernel_ep = True,
     create_conn = NO_CREATE_CONN, has_net_config = False\<rparr>"

definition iscsi_transport_templates :: "iscsi_transport_template list" where
  "iscsi_transport_templates =
     [(tmpl ''tcp'')\<lparr>kernel_ep := False\<rparr>,
      (tmpl ''iser'')\<lparr>tmpl_rdma := True, create_conn := iser_create\<rparr>,
      (tmpl ''cxgb3i'')\<lparr>tmpl_set_host_ip := SET_HOST_IP_OPT, bind_ep_required := True, create_conn := cxgbi_create\<rparr>,
      (tmpl ''cxgb4i'')\<lparr>tmpl_set_host_ip := SET_HOST_IP_NOT_REQ, bind_ep_required := True, create_conn := cxgbi_create\<rparr>,
      (tmpl ''bnx2i'')\<lparr>tmpl_set_host_ip := SET_HOST_IP_REQ, tmpl_use_boot_info := True, bind_ep_required := True,
         has_net_config := True\<rparr>,
      (tmpl ''qla4xxx'')\<lparr>tmpl_set_host_ip := SET_HOST_IP_NOT_REQ, bind_ep_required := True\<rparr>,
      (tmpl ''be2iscsi'')\<lparr>bind_ep_required := True, sync_vlan_settings := True, create_conn := be2iscsi_create\<rparr>,
      (tmpl ''ocs'')\<lparr>bind_ep_required := True\<rparr>,
      (tmpl ''qedi'')\<lparr>tmpl_set_host_ip := SET_HOST_IP_REQ, tmpl_use_boot_info := True, bind_ep_required := True,
         no_netdev := True, has_net_config := True\<rparr>]"

record iscsi_transport =
  caps :: "32 word"
  t_name :: string
  template :: iscsi_transport_template

text \<open>The template of the name; \<open>None\<close> is the return value \<open>ENOSYS\<close>.\<close>

definition set_transport_template :: "iscsi_transport \<Rightarrow> iscsi_transport option" where
  "set_transport_template t =
     map_option (\<lambda>tm. t\<lparr>template := tm\<rparr>) (find (\<lambda>tm. tmpl_name tm = t_name t) iscsi_transport_templates)"

definition has_cap :: "iscsi_transport \<Rightarrow> 32 word \<Rightarrow> bool" where
  "has_cap t c \<longleftrightarrow> caps t AND c \<noteq> 0"

subsection \<open>Configuration\<close>

record iscsi_auth_config =
  cfg_username :: string
  cfg_password :: "byte list"
  cfg_password_length :: nat
  cfg_username_in :: string
  cfg_password_in :: "byte list"
  cfg_password_in_length :: nat
  cfg_chap_algs :: "nat list"

record iscsi_conn_operational_config =
  MaxRecvDataSegmentLength :: int
  MaxXmitDataSegmentLength :: int
  HeaderDigest :: int
  DataDigest :: int
  IFMarker :: int
  OFMarker :: int

record iscsi_session_operational_config =
  InitialR2T :: int
  ImmediateData :: int
  FirstBurstLength :: int
  MaxBurstLength :: int
  DefaultTime2Wait :: int
  DefaultTime2Retain :: int
  MaxOutstandingR2T :: int
  ERL :: int
  FastAbort :: int

subsection \<open>Authentication\<close>

text \<open>\<open>descs\<close> describes the five buffers inside the session, whose addresses and sizes the function records. The
  Boolean is whether \<open>EINVAL\<close> is returned. A secret is the bytes of its array up to its length.\<close>

definition iscsi_setup_authentication ::
  "auth_buffer_desc list \<Rightarrow> iscsi_auth_config \<Rightarrow> iscsi_session \<Rightarrow> iscsi_session \<times> bool"
where
  "iscsi_setup_authentication descs auth_cfg session =
     (let in_set = cfg_username_in auth_cfg \<noteq> [] \<or> cfg_password_in_length auth_cfg \<noteq> 0
      in if in_set \<and> cfg_password_length auth_cfg = 0 then (session, True)
         else
           (session\<lparr>bidirectional_auth := in_set,
              sess_username := the (fst (strlcpy (cfg_username auth_cfg) AUTH_STR_MAX_LEN)),
              password_length := cfg_password_length auth_cfg,
              sess_password := (if cfg_password_length auth_cfg \<noteq> 0
                                then overlay (sess_password session) 0 (take (cfg_password_length auth_cfg) (cfg_password auth_cfg))
                                else sess_password session),
              peer_account :=
                \<lparr>username_in = the (fst (strlcpy (cfg_username_in auth_cfg) AUTH_STR_MAX_LEN)),
                 password_in = take (cfg_password_in_length auth_cfg) (cfg_password_in auth_cfg)\<rparr>,
              chap_algs := cfg_chap_algs auth_cfg,
              auth_buffers := (if cfg_password_length auth_cfg \<noteq> 0 \<or> cfg_password_in_length auth_cfg \<noteq> 0
                               then descs else [])\<rparr>, False))"

subsection \<open>Operational parameters\<close>

definition ISCSI_MIN_MAX_RECV_SEG_LEN :: "32 word" where "ISCSI_MIN_MAX_RECV_SEG_LEN = 512"
definition ISCSI_MAX_MAX_RECV_SEG_LEN :: "32 word" where "ISCSI_MAX_MAX_RECV_SEG_LEN = 16777215"
definition ISCSI_MIN_FIRST_BURST_LEN :: "32 word" where "ISCSI_MIN_FIRST_BURST_LEN = 512"
definition ISCSI_MAX_FIRST_BURST_LEN :: "32 word" where "ISCSI_MAX_FIRST_BURST_LEN = 16777215"
definition ISCSI_MIN_MAX_BURST_LEN :: "32 word" where "ISCSI_MIN_MAX_BURST_LEN = 512"
definition ISCSI_MAX_MAX_BURST_LEN :: "32 word" where "ISCSI_MAX_MAX_BURST_LEN = 16777215"
definition DEF_INI_FIRST_BURST_LEN :: "32 word" where "DEF_INI_FIRST_BURST_LEN = 262144"
definition DEF_INI_MAX_BURST_LEN :: "32 word" where "DEF_INI_MAX_BURST_LEN = 16776192"
definition DEF_INI_MAX_RECV_SEG_LEN :: "32 word" where "DEF_INI_MAX_RECV_SEG_LEN = 262144"

lemmas op_limit_defs = ISCSI_MIN_MAX_RECV_SEG_LEN_def ISCSI_MAX_MAX_RECV_SEG_LEN_def ISCSI_MIN_FIRST_BURST_LEN_def
  ISCSI_MAX_FIRST_BURST_LEN_def ISCSI_MIN_MAX_BURST_LEN_def ISCSI_MAX_MAX_BURST_LEN_def
  DEF_INI_FIRST_BURST_LEN_def DEF_INI_MAX_BURST_LEN_def DEF_INI_MAX_RECV_SEG_LEN_def

definition align_32_down :: "32 word \<Rightarrow> 32 word" where
  "align_32_down param = param AND NOT 0x3"

definition iser_create_conn :: "iscsi_session \<Rightarrow> iscsi_session" where
  "iser_create_conn = upd_conn (\<lambda>c. c\<lparr>hdrdgst_en := ISCSI_DIGEST_NONE\<rparr>)"

definition cxgbi_create_conn :: "iscsi_session \<Rightarrow> iscsi_session" where
  "cxgbi_create_conn = upd_conn (\<lambda>c. if 8192 < max_recv_dlength c then c\<lparr>max_recv_dlength := 8192\<rparr> else c)"

text \<open>The second component of the state is \<open>session->erl\<close>.\<close>

definition be2iscsi_create_conn :: "iscsi_session \<times> int \<Rightarrow> iscsi_session \<times> int" where
  "be2iscsi_create_conn se =
     (let s = fst se;
          s = upd_conn (\<lambda>c. if 65536 < max_recv_dlength c then c\<lparr>max_recv_dlength := 65536\<rparr> else c) s;
          s = (if 8192 < first_burst s then s\<lparr>first_burst := 8192\<rparr> else s);
          s = (if 262144 < max_burst s then s\<lparr>max_burst := 262144\<rparr> else s);
          s = upd_conn (\<lambda>c. if 65536 < max_xmit_dlength c then c\<lparr>max_xmit_dlength := 65536\<rparr> else c) s
      in (s\<lparr>initial_r2t_en := 1\<rparr>, 0))"

fun do_create_conn :: "create_conn_fn \<Rightarrow> iscsi_session \<times> int \<Rightarrow> iscsi_session \<times> int" where
  "do_create_conn NO_CREATE_CONN se = se"
| "do_create_conn iser_create se = map_prod iser_create_conn id se"
| "do_create_conn cxgbi_create se = map_prod cxgbi_create_conn id se"
| "do_create_conn be2iscsi_create se = be2iscsi_create_conn se"

text \<open>A value outside the limits is replaced by the default, in the session and in the configuration.\<close>

definition within :: "32 word \<Rightarrow> 32 word \<Rightarrow> 32 word \<Rightarrow> 32 word \<Rightarrow> 32 word" where
  "within lo hi dflt v = (if v < lo \<or> hi < v then dflt else v)"

definition set_back :: "32 word \<Rightarrow> 32 word \<Rightarrow> 32 word \<Rightarrow> 32 word \<Rightarrow> int \<Rightarrow> int" where
  "set_back lo hi dflt v old = (if v < lo \<or> hi < v then uint dflt else old)"

definition copy_conn_params ::
  "iscsi_conn_operational_config \<Rightarrow> iscsi_session \<Rightarrow> iscsi_session \<times> iscsi_conn_operational_config"
where
  "copy_conn_params conn_conf s =
     (let recv = align_32_down (word_of_int (MaxRecvDataSegmentLength conn_conf));
          xmit = align_32_down (word_of_int (MaxXmitDataSegmentLength conn_conf));
          xmit = (if xmit = 0 then ISCSI_DEF_MAX_RECV_SEG_LEN else xmit);
          lim = within ISCSI_MIN_MAX_RECV_SEG_LEN ISCSI_MAX_MAX_RECV_SEG_LEN DEF_INI_MAX_RECV_SEG_LEN;
          back = set_back ISCSI_MIN_MAX_RECV_SEG_LEN ISCSI_MAX_MAX_RECV_SEG_LEN DEF_INI_MAX_RECV_SEG_LEN
      in (upd_conn (\<lambda>c. c\<lparr>hdrdgst_en := word_of_int (HeaderDigest conn_conf), datadgst_en := word_of_int (DataDigest conn_conf),
            max_recv_dlength := lim recv, max_xmit_dlength := lim xmit\<rparr>) s,
          conn_conf\<lparr>MaxRecvDataSegmentLength := back recv (MaxRecvDataSegmentLength conn_conf),
            MaxXmitDataSegmentLength := back xmit (MaxXmitDataSegmentLength conn_conf)\<rparr>))"

definition copy_session_params ::
  "iscsi_session_operational_config \<Rightarrow> iscsi_session \<Rightarrow> iscsi_session \<times> iscsi_session_operational_config"
where
  "copy_session_params conf s =
     (let first = align_32_down (word_of_int (FirstBurstLength conf));
          burst = align_32_down (word_of_int (MaxBurstLength conf));
          first1 = within ISCSI_MIN_FIRST_BURST_LEN ISCSI_MAX_FIRST_BURST_LEN DEF_INI_FIRST_BURST_LEN first;
          conf = conf\<lparr>FirstBurstLength :=
            set_back ISCSI_MIN_FIRST_BURST_LEN ISCSI_MAX_FIRST_BURST_LEN DEF_INI_FIRST_BURST_LEN first (FirstBurstLength conf)\<rparr>;
          burst1 = within ISCSI_MIN_MAX_BURST_LEN ISCSI_MAX_MAX_BURST_LEN DEF_INI_MAX_BURST_LEN burst;
          conf = conf\<lparr>MaxBurstLength :=
            set_back ISCSI_MIN_MAX_BURST_LEN ISCSI_MAX_MAX_BURST_LEN DEF_INI_MAX_BURST_LEN burst (MaxBurstLength conf)\<rparr>;
          s = s\<lparr>initial_r2t_en := word_of_int (InitialR2T conf), max_r2t := word_of_int (MaxOutstandingR2T conf),
                imm_data_en := word_of_int (ImmediateData conf), first_burst := min first1 burst1, max_burst := burst1,
                def_time2wait := word_of_int (DefaultTime2Wait conf), def_time2retain := word_of_int (DefaultTime2Retain conf)\<rparr>
      in (s, if burst1 < first1 then conf\<lparr>FirstBurstLength := uint burst1\<rparr> else conf))"

definition discovery_params :: "iscsi_transport \<Rightarrow> iscsi_session \<Rightarrow> iscsi_session" where
  "discovery_params t s =
     (if sess_type s = ISCSI_SESSION_TYPE_DISCOVERY
      then upd_conn (\<lambda>c. c\<lparr>
             max_recv_dlength := (if has_cap t CAP_TEXT_NEGO \<and> ISCSI_DEF_MAX_RECV_SEG_LEN < max_recv_dlength c
                                  then ISCSI_DEF_MAX_RECV_SEG_LEN else max_recv_dlength c),
             hdrdgst_en := ISCSI_DIGEST_NONE, datadgst_en := ISCSI_DIGEST_NONE\<rparr>) s
      else s)"

definition copy_operational_params ::
  "iscsi_transport \<Rightarrow> iscsi_session_operational_config \<Rightarrow> iscsi_conn_operational_config \<Rightarrow> iscsi_session \<Rightarrow>
   (iscsi_session \<times> int) \<times> iscsi_session_operational_config \<times> iscsi_conn_operational_config"
where
  "copy_operational_params t session_conf conn_conf s =
     (case copy_conn_params conn_conf s of (s, conn_conf) \<Rightarrow>
      case copy_session_params session_conf s of (s, session_conf) \<Rightarrow>
        (do_create_conn (create_conn (template t)) (discovery_params t s, ERL session_conf), session_conf, conn_conf))"

subsection \<open>The node record\<close>

text \<open>The members of a node record that the daemon reads when it logs in to the node.\<close>

record node_rec_t =
  nr_name :: string
  nr_tpgt :: int
  nr_iface_name :: string
  nr_iname :: string
  nr_alias :: string
  nr_netdev :: string
  nr_hwaddress :: string
  nr_ipaddress :: string
  nr_transport_name :: string
  nr_multiple :: bool
  nr_initial_login_retry_max :: int
  nr_reopen_max :: int
  nr_scan :: bool
  nr_replacement_timeout :: int
  nr_abort_timeout :: int
  nr_lu_reset_timeout :: int
  nr_tgt_reset_timeout :: int
  nr_auth :: iscsi_auth_config
  nr_session_conf :: iscsi_session_operational_config
  nr_conn_conf :: iscsi_conn_operational_config
  nr_address :: string
  nr_port :: int
  nr_login_timeout :: int
  nr_logout_timeout :: int
  nr_auth_timeout :: int
  nr_noop_out_interval :: int
  nr_noop_out_timeout :: int
  nr_boot_root :: string
  nr_boot_nic :: string
  nr_boot_target :: string

subsection \<open>The session\<close>

datatype iscsi_conn_state =
    ISCSI_CONN_STATE_FREE | ISCSI_CONN_STATE_XPT_WAIT | ISCSI_CONN_STATE_IN_LOGIN | ISCSI_CONN_STATE_LOGGED_IN
  | ISCSI_CONN_STATE_IN_LOGOUT | ISCSI_CONN_STATE_LOGOUT_REQUESTED | ISCSI_CONN_STATE_CLEANUP_WAIT

datatype iscsi_session_r_stage =
    R_STAGE_NO_CHANGE | R_STAGE_SESSION_CLEANUP | R_STAGE_SESSION_REOPEN | R_STAGE_SESSION_REDIRECT
  | R_STAGE_SESSION_DESTOYED

datatype conn_login_status =
    CONN_LOGIN_SUCCESS | CONN_LOGIN_FAILED | CONN_LOGIN_IO_ERR | CONN_LOGIN_RETRY | CONN_LOGIN_IMM_RETRY
  | CONN_LOGIN_IMM_REDIRECT_RETRY | CONN_LOGIN_AUTH_FAILED

datatype iscsi_event =
    EV_UNKNOWN | EV_CONN_RECV_PDU | EV_CONN_POLL | EV_CONN_ERROR | EV_CONN_LOGOUT_TIMER | EV_CONN_STOP | EV_CONN_LOGIN

text \<open>A \<open>queue_task_t\<close>: the one inside the session, whose \<open>mgmt_ipc_fd\<close> is -1, or one that \<open>mgmt_ipc_handle\<close> allocated for
  a request with an open descriptor.\<close>

datatype queue_task = Reopen_qtask | Task nat

text \<open>What the data pointer of an event context points to.\<close>

datatype ev_data = Data_none | Data_qtask queue_task | Data_error int | Data_state iscsi_conn_state

text \<open>\<open>ev_pending\<close> is the event for which the actor of the context is queued, with its delay.\<close>

record iscsi_ev_context =
  allocated :: bool
  ev_data :: ev_data
  ev_pending :: "(iscsi_event \<times> nat) option"

datatype nop_callback = conn_send_nop_out_cb | conn_nop_out_timeout_cb

text \<open>What a session does to the world outside its own memory, in order: calls of the actors it owns, calls into
  the kernel, PDUs, and answers to requests. \<open>RSP\<close> answers a request and frees its task. \<open>SCAN\<close> forks a child that
  answers the request with success and frees the task in the daemon. \<open>FREE\<close> releases the session.
  \<open>A_RUN\<close> is the scheduler running a queued actor, \<open>A_RESET\<close> clears the memory of an actor, and the other operations of an
  actor are calls of the scheduler.\<close>

datatype actor_id = Login_timer | Nop_out_timer | Ev_actor nat

datatype actor_op = A_RUN | A_RESET | A_INIT | A_DELETE | A_SCHEDULE | A_SCHEDULE_HEAD | A_TIMER nat | A_TIMER_MOD nat

datatype param_value = Int_value int | Str_value string | Byte_value "byte list" | Null_value

datatype iscsi_param =
    ISCSI_PARAM_MAX_RECV_DLENGTH | ISCSI_PARAM_MAX_XMIT_DLENGTH | ISCSI_PARAM_HDRDGST_EN | ISCSI_PARAM_DATADGST_EN
  | ISCSI_PARAM_INITIAL_R2T_EN | ISCSI_PARAM_MAX_R2T | ISCSI_PARAM_IMM_DATA_EN | ISCSI_PARAM_FIRST_BURST
  | ISCSI_PARAM_MAX_BURST | ISCSI_PARAM_PDU_INORDER_EN | ISCSI_PARAM_DATASEQ_INORDER_EN | ISCSI_PARAM_ERL
  | ISCSI_PARAM_IFMARKER_EN | ISCSI_PARAM_OFMARKER_EN | ISCSI_PARAM_EXP_STATSN | ISCSI_PARAM_TARGET_NAME
  | ISCSI_PARAM_TPGT | ISCSI_PARAM_PERSISTENT_ADDRESS | ISCSI_PARAM_PERSISTENT_PORT | ISCSI_PARAM_SESS_RECOVERY_TMO
  | ISCSI_PARAM_USERNAME | ISCSI_PARAM_USERNAME_IN | ISCSI_PARAM_PASSWORD | ISCSI_PARAM_PASSWORD_IN
  | ISCSI_PARAM_FAST_ABORT | ISCSI_PARAM_ABORT_TMO | ISCSI_PARAM_LU_RESET_TMO | ISCSI_PARAM_PING_TMO
  | ISCSI_PARAM_RECV_TMO | ISCSI_PARAM_IFACE_NAME | ISCSI_PARAM_INITIATOR_NAME | ISCSI_PARAM_TGT_RESET_TMO
  | ISCSI_PARAM_BOOT_ROOT | ISCSI_PARAM_BOOT_NIC | ISCSI_PARAM_BOOT_TARGET | ISCSI_PARAM_DISCOVERY_SESS

fun param_no :: "iscsi_param \<Rightarrow> nat" where
  "param_no ISCSI_PARAM_MAX_RECV_DLENGTH = 0"
| "param_no ISCSI_PARAM_MAX_XMIT_DLENGTH = 1"
| "param_no ISCSI_PARAM_HDRDGST_EN = 2"
| "param_no ISCSI_PARAM_DATADGST_EN = 3"
| "param_no ISCSI_PARAM_INITIAL_R2T_EN = 4"
| "param_no ISCSI_PARAM_MAX_R2T = 5"
| "param_no ISCSI_PARAM_IMM_DATA_EN = 6"
| "param_no ISCSI_PARAM_FIRST_BURST = 7"
| "param_no ISCSI_PARAM_MAX_BURST = 8"
| "param_no ISCSI_PARAM_PDU_INORDER_EN = 9"
| "param_no ISCSI_PARAM_DATASEQ_INORDER_EN = 10"
| "param_no ISCSI_PARAM_ERL = 11"
| "param_no ISCSI_PARAM_IFMARKER_EN = 12"
| "param_no ISCSI_PARAM_OFMARKER_EN = 13"
| "param_no ISCSI_PARAM_EXP_STATSN = 14"
| "param_no ISCSI_PARAM_TARGET_NAME = 15"
| "param_no ISCSI_PARAM_TPGT = 16"
| "param_no ISCSI_PARAM_PERSISTENT_ADDRESS = 17"
| "param_no ISCSI_PARAM_PERSISTENT_PORT = 18"
| "param_no ISCSI_PARAM_SESS_RECOVERY_TMO = 19"
| "param_no ISCSI_PARAM_USERNAME = 22"
| "param_no ISCSI_PARAM_USERNAME_IN = 23"
| "param_no ISCSI_PARAM_PASSWORD = 24"
| "param_no ISCSI_PARAM_PASSWORD_IN = 25"
| "param_no ISCSI_PARAM_FAST_ABORT = 26"
| "param_no ISCSI_PARAM_ABORT_TMO = 27"
| "param_no ISCSI_PARAM_LU_RESET_TMO = 28"
| "param_no ISCSI_PARAM_PING_TMO = 30"
| "param_no ISCSI_PARAM_RECV_TMO = 31"
| "param_no ISCSI_PARAM_IFACE_NAME = 32"
| "param_no ISCSI_PARAM_INITIATOR_NAME = 34"
| "param_no ISCSI_PARAM_TGT_RESET_TMO = 35"
| "param_no ISCSI_PARAM_BOOT_ROOT = 39"
| "param_no ISCSI_PARAM_BOOT_NIC = 40"
| "param_no ISCSI_PARAM_BOOT_TARGET = 41"
| "param_no ISCSI_PARAM_DISCOVERY_SESS = 43"

datatype effect =
    ACT actor_id actor_op
  | EP_CONNECT | EP_DISCONNECT
  | CREATE_SESSION | CREATE_CONN | BIND_CONN | START_CONN | STOP_CONN int | DESTROY_CONN | DESTROY_SESSION | UNBIND_SESSION
  | SET_PARAM iscsi_param param_value | SET_HOST_PARAM string
  | SEND_LOGIN | SEND_LOGOUT | SEND_NOP_OUT | SEND_NOP_IN_RSP
  | ONLINE_DEVS
  | RSP nat int | SCAN "nat option" bool
  | FREE

definition INVALID_SESSION_ID :: "32 word" where "INVALID_SESSION_ID = - 1"

text \<open>The members of \<open>iscsi_session\<close> and its one connection. \<open>login\<close> holds those that the login code uses, \<open>login_ctx\<close> is
  \<open>conn->login_context\<close> and \<open>ctx_qtask\<close> its task. A timer is the delay and the data it is queued with. \<open>trace\<close> is the list
  of effects so far, and \<open>freed\<close> whether the session has been released.\<close>

record sess =
  sid :: "32 word"
  hostno :: "32 word"
  transport :: iscsi_transport
  nrec :: node_rec_t
  login :: iscsi_session
  erl :: int
  r_stage :: iscsi_session_r_stage
  reopen_cnt :: int
  reopen_max :: int
  notify_qtask :: "queue_task option"
  replacement_timeout :: int
  fast_abort :: int
  abort_timeout :: int
  lu_reset_timeout :: int
  tgt_reset_timeout :: int
  conn_id :: nat
  c_state :: iscsi_conn_state
  login_ctx :: iscsi_login_context
  ctx_qtask :: "queue_task option"
  logout_qtask :: "queue_task option"
  recv_context :: "nat option"
  userspace_nop :: bool
  initial_connect_time :: timeval
  login_timer :: "(nat \<times> queue_task) option"
  nop_out_timer :: "(nat \<times> nop_callback) option"
  context_pool :: "iscsi_ev_context option list"
  failback_saddr :: sockaddr
  bind_ep :: bool
  logout_timeout :: int
  noop_out_interval :: int
  noop_out_timeout :: int
  freed :: bool
  trace :: "effect list"

definition emit :: "effect \<Rightarrow> sess \<Rightarrow> sess" where
  "emit e s = s\<lparr>trace := trace s @ [e]\<rparr>"

definition upd_login :: "(iscsi_session \<Rightarrow> iscsi_session) \<Rightarrow> sess \<Rightarrow> sess" where
  "upd_login f s = s\<lparr>login := f (login s)\<rparr>"

abbreviation login_conn :: "sess \<Rightarrow> iscsi_conn" where
  "login_conn s \<equiv> conn (login s)"

subsection \<open>Handing parameters to the kernel\<close>

definition iscsi_session_clear_param :: "iscsi_param \<Rightarrow> 64 word \<Rightarrow> 64 word" where
  "iscsi_session_clear_param param pmask = pmask AND NOT (push_bit (param_no param) 1)"

definition iscsi_session_init_params :: "iscsi_transport \<Rightarrow> 64 word" where
  "iscsi_session_init_params t =
     (let m = NOT 0;
          m = (if \<not> has_cap t CAP_MULTI_R2T then iscsi_session_clear_param ISCSI_PARAM_MAX_R2T m else m);
          m = (if \<not> has_cap t CAP_HDRDGST then iscsi_session_clear_param ISCSI_PARAM_HDRDGST_EN m else m);
          m = (if \<not> has_cap t CAP_DATADGST then iscsi_session_clear_param ISCSI_PARAM_DATADGST_EN m else m)
      in if \<not> has_cap t CAP_MARKERS
         then iscsi_session_clear_param ISCSI_PARAM_OFMARKER_EN (iscsi_session_clear_param ISCSI_PARAM_IFMARKER_EN m)
         else m)"

text \<open>A row of a table: the parameter, its value, and \<open>conn_only\<close>.\<close>

type_synonym connparam = "iscsi_param \<times> param_value \<times> bool"

definition ival :: "32 word \<Rightarrow> param_value" where
  "ival w = Int_value (sint w)"

definition neg_conntbl :: "sess \<Rightarrow> connparam list" where
  "neg_conntbl s =
     [(ISCSI_PARAM_MAX_RECV_DLENGTH, ival (max_recv_dlength (login_conn s)), False),
      (ISCSI_PARAM_MAX_XMIT_DLENGTH, ival (max_xmit_dlength (login_conn s)), False),
      (ISCSI_PARAM_HDRDGST_EN, ival (hdrdgst_en (login_conn s)), False),
      (ISCSI_PARAM_DATADGST_EN, ival (datadgst_en (login_conn s)), True),
      (ISCSI_PARAM_INITIAL_R2T_EN, ival (initial_r2t_en (login s)), False),
      (ISCSI_PARAM_MAX_R2T, ival (max_r2t (login s)), False),
      (ISCSI_PARAM_IMM_DATA_EN, ival (imm_data_en (login s)), False),
      (ISCSI_PARAM_FIRST_BURST, ival (first_burst (login s)), False),
      (ISCSI_PARAM_MAX_BURST, ival (max_burst (login s)), False),
      (ISCSI_PARAM_PDU_INORDER_EN, ival (pdu_inorder_en (login s)), False),
      (ISCSI_PARAM_DATASEQ_INORDER_EN, ival (dataseq_inorder_en (login s)), False),
      (ISCSI_PARAM_ERL, Int_value 0, False),
      (ISCSI_PARAM_IFMARKER_EN, Int_value 0, False),
      (ISCSI_PARAM_OFMARKER_EN, Int_value 0, False),
      (ISCSI_PARAM_EXP_STATSN, Int_value (uint (exp_statsn (login_conn s))), True),
      (ISCSI_PARAM_TPGT, Int_value (portal_group_tag (login s)), False)]"

definition conntbl :: "sess \<Rightarrow> connparam list" where
  "conntbl s =
     [(ISCSI_PARAM_TARGET_NAME, Str_value (target_name (login s)), False),
      (ISCSI_PARAM_PERSISTENT_ADDRESS, Str_value (nr_address (nrec s)), True),
      (ISCSI_PARAM_PERSISTENT_PORT, Int_value (nr_port (nrec s)), True),
      (ISCSI_PARAM_SESS_RECOVERY_TMO, Int_value (replacement_timeout s), False),
      (ISCSI_PARAM_USERNAME, Str_value (sess_username (login s)), False),
      (ISCSI_PARAM_USERNAME_IN, Str_value (username_in (peer_account (login s))), False),
      (ISCSI_PARAM_PASSWORD, Byte_value (sess_password (login s)), False),
      (ISCSI_PARAM_PASSWORD_IN, Byte_value (password_in (peer_account (login s))), False),
      (ISCSI_PARAM_FAST_ABORT, Int_value (fast_abort s), False),
      (ISCSI_PARAM_ABORT_TMO, Int_value (abort_timeout s), False),
      (ISCSI_PARAM_LU_RESET_TMO, Int_value (lu_reset_timeout s), False),
      (ISCSI_PARAM_TGT_RESET_TMO, Int_value (tgt_reset_timeout s), False),
      (ISCSI_PARAM_PING_TMO, Int_value (noop_out_timeout s), True),
      (ISCSI_PARAM_RECV_TMO, Int_value (noop_out_interval s), True),
      (ISCSI_PARAM_IFACE_NAME, Str_value (nr_iface_name (nrec s)), False),
      (ISCSI_PARAM_INITIATOR_NAME, (case initiator_name (login s) of Some n \<Rightarrow> Str_value n | None \<Rightarrow> Null_value), False),
      (ISCSI_PARAM_BOOT_ROOT, Str_value (nr_boot_root (nrec s)), False),
      (ISCSI_PARAM_BOOT_NIC, Str_value (nr_boot_nic (nrec s)), False),
      (ISCSI_PARAM_BOOT_TARGET, Str_value (nr_boot_target (nrec s)), False),
      (ISCSI_PARAM_DISCOVERY_SESS, Int_value (sess_type (login s)), False)]"

definition ENOSYS :: int where "ENOSYS = 38"
definition EINVAL :: int where "EINVAL = 22"

text \<open>The loop over a table. \<open>set_param\<close> is what the kernel returns for a parameter; \<open>nop\<close> is whether a ping timeout
  that the kernel does not know makes the daemon send pings itself. The Boolean is whether \<open>EPERM\<close> is returned.\<close>

fun set_param_loop :: "(iscsi_param \<Rightarrow> int) \<Rightarrow> 64 word \<Rightarrow> bool \<Rightarrow> connparam list \<Rightarrow> sess \<Rightarrow> sess \<times> bool" where
  "set_param_loop set_param pmask nop [] s = (s, False)"
| "set_param_loop set_param pmask nop ((param, value, conn_only) # tbl) s =
     (if conn_id s \<noteq> 0 \<and> \<not> conn_only then set_param_loop set_param pmask nop tbl s
      else if \<not> bit pmask (param_no param) then set_param_loop set_param pmask nop tbl s
      else
        let s = emit (SET_PARAM param value) s; rc = set_param param
        in if rc \<noteq> 0 \<and> rc \<noteq> - ENOSYS then (s, True)
           else set_param_loop set_param pmask nop tbl
                  (if nop \<and> rc = - ENOSYS \<and> param = ISCSI_PARAM_PING_TMO then s\<lparr>userspace_nop := True\<rparr> else s))"

definition iscsi_session_set_neg_params :: "(iscsi_param \<Rightarrow> int) \<Rightarrow> sess \<Rightarrow> sess \<times> bool" where
  "iscsi_session_set_neg_params set_param s =
     set_param_loop set_param (iscsi_session_init_params (transport s)) False (neg_conntbl s) s"

definition iscsi_session_set_params :: "(iscsi_param \<Rightarrow> int) \<Rightarrow> bool \<Rightarrow> sess \<Rightarrow> sess \<times> bool" where
  "iscsi_session_set_params set_param supports_nop s =
     (let m = iscsi_session_init_params (transport s);
          m = (if \<not> supports_nop
               then iscsi_session_clear_param ISCSI_PARAM_RECV_TMO (iscsi_session_clear_param ISCSI_PARAM_PING_TMO m) else m)
      in set_param_loop set_param m True (conntbl s) s)"

end
