(* ===== verification/Session.thy ===== *)
theory Session
  imports Session_Params
begin

text \<open>
  The sessions of the daemon (\<open>usr/initiator.c\<close>): how a session is created, connected, logged in, recovered, logged out
  and released. Each event handler of the source is a function on the session; the calls it makes return what the record
  \<open>kenv\<close> says, and what it does outside the session is appended to \<open>trace\<close>. \<open>session_step\<close> is one event: the scheduler runs an
  actor of the session, a message of the kernel arrives, or a user asks to log out.
\<close>

definition ISCSI_HOST_PARAMS :: "node_rec_t \<Rightarrow> string list" where
  "ISCSI_HOST_PARAMS r = [nr_netdev r, nr_hwaddress r]"

text \<open>The return code of \<open>ipc->set_host_param\<close> for a value, and whether an error is returned.\<close>

definition host_set_param_fails :: "int \<Rightarrow> bool" where
  "host_set_param_fails rc \<longleftrightarrow> rc \<noteq> 0 \<and> rc \<noteq> - ENOSYS \<and> rc \<noteq> - EINVAL"

fun host_param_loop :: "(string \<Rightarrow> int) \<Rightarrow> string list \<Rightarrow> sess \<Rightarrow> sess \<times> bool" where
  "host_param_loop host_param [] s = (s, False)"
| "host_param_loop host_param (v # vs) s =
     (let s = emit (SET_HOST_PARAM v) s
      in if host_set_param_fails (host_param v) then (s, True) else host_param_loop host_param vs s)"

definition iscsi_host_set_params :: "(string \<Rightarrow> int) \<Rightarrow> sess \<Rightarrow> sess \<times> bool" where
  "iscsi_host_set_params host_param s = host_param_loop host_param (ISCSI_HOST_PARAMS (nrec s)) s"

subsection \<open>Event contexts\<close>

definition CONTEXT_POOL_MAX :: nat where "CONTEXT_POOL_MAX = 32"

definition upd_context :: "nat \<Rightarrow> (iscsi_ev_context \<Rightarrow> iscsi_ev_context) \<Rightarrow> sess \<Rightarrow> sess" where
  "upd_context i f s = s\<lparr>context_pool := (context_pool s)[i := map_option f (context_pool s ! i)]\<rparr>"

definition fresh_context :: iscsi_ev_context where
  "fresh_context = \<lparr>allocated = False, ev_data = Data_none, ev_pending = None\<rparr>"

text \<open>\<open>calloc_ok i\<close> is whether memory for the \<open>i\<close>-th context is found. When it is not, the contexts before it are freed, but
  their pointers stay in the pool; the Boolean is whether \<open>ENOMEM\<close> is returned.\<close>

definition iscsi_ev_context_alloc :: "(nat \<Rightarrow> bool) \<Rightarrow> sess \<Rightarrow> sess \<times> bool" where
  "iscsi_ev_context_alloc calloc_ok s =
     (let n = length (takeWhile calloc_ok [0..<CONTEXT_POOL_MAX])
      in (s\<lparr>context_pool := replicate n (Some fresh_context) @ replicate (CONTEXT_POOL_MAX - n) None\<rparr>, n < CONTEXT_POOL_MAX))"

fun free_context :: "iscsi_ev_context option list \<Rightarrow> nat option" where
  "free_context [] = None"
| "free_context (c # cs) =
     (case c of
        Some ctx \<Rightarrow> if \<not> allocated ctx then Some 0 else map_option Suc (free_context cs)
      | None \<Rightarrow> map_option Suc (free_context cs))"

text \<open>\<open>fits\<close> is whether the event is at most \<open>ipc->ctldev_bufmax\<close> bytes long.\<close>

definition iscsi_ev_context_get :: "bool \<Rightarrow> sess \<Rightarrow> sess \<times> nat option" where
  "iscsi_ev_context_get fits s =
     (if \<not> fits then (s, None)
      else case free_context (context_pool s) of
        None \<Rightarrow> (s, None)
      | Some i \<Rightarrow>
          (emit (ACT (Ev_actor i) A_RESET)
             (upd_context i (\<lambda>c. c\<lparr>allocated := True, ev_data := Data_none, ev_pending := None\<rparr>) s), Some i))"

definition iscsi_ev_context_put :: "nat \<Rightarrow> sess \<Rightarrow> sess" where
  "iscsi_ev_context_put i = upd_context i (\<lambda>c. c\<lparr>allocated := False\<rparr>)"

definition set_ev_data :: "nat \<Rightarrow> ev_data \<Rightarrow> sess \<Rightarrow> sess" where
  "set_ev_data i d = upd_context i (\<lambda>c. c\<lparr>ev_data := d\<rparr>)"

definition pend :: "nat \<Rightarrow> iscsi_event \<Rightarrow> nat \<Rightarrow> sess \<Rightarrow> sess" where
  "pend i ev tmo = upd_context i (\<lambda>c. c\<lparr>ev_pending := Some (ev, tmo)\<rparr>)"

definition ctx_data :: "nat \<Rightarrow> sess \<Rightarrow> ev_data" where
  "ctx_data i s = (case context_pool s ! i of Some c \<Rightarrow> ev_data c | None \<Rightarrow> Data_none)"

definition ISCSI_ERR_INVALID_HOST :: int where "ISCSI_ERR_INVALID_HOST = 1018"

fun iscsi_sched_ev_context :: "nat \<Rightarrow> nat \<Rightarrow> iscsi_event \<Rightarrow> sess \<Rightarrow> sess" where
  "iscsi_sched_ev_context i tmo EV_CONN_RECV_PDU s =
     emit (ACT (Ev_actor i) A_SCHEDULE) (emit (ACT (Ev_actor i) A_INIT) (pend i EV_CONN_RECV_PDU 0 s))"
| "iscsi_sched_ev_context i tmo EV_CONN_ERROR s =
     emit (ACT (Ev_actor i) (if ctx_data i s = Data_error ISCSI_ERR_INVALID_HOST then A_SCHEDULE_HEAD else A_SCHEDULE))
       (emit (ACT (Ev_actor i) A_INIT) (pend i EV_CONN_ERROR 0 s))"
| "iscsi_sched_ev_context i tmo EV_CONN_LOGIN s =
     emit (ACT (Ev_actor i) A_SCHEDULE) (emit (ACT (Ev_actor i) A_INIT) (pend i EV_CONN_LOGIN 0 s))"
| "iscsi_sched_ev_context i tmo EV_CONN_POLL s = emit (ACT (Ev_actor i) (A_TIMER tmo)) (pend i EV_CONN_POLL tmo s)"
| "iscsi_sched_ev_context i tmo EV_CONN_LOGOUT_TIMER s =
     emit (ACT (Ev_actor i) (A_TIMER tmo)) (pend i EV_CONN_LOGOUT_TIMER tmo s)"
| "iscsi_sched_ev_context i tmo EV_CONN_STOP s =
     emit (ACT (Ev_actor i) A_SCHEDULE) (emit (ACT (Ev_actor i) A_INIT) (pend i EV_CONN_STOP 0 s))"
| "iscsi_sched_ev_context i tmo EV_UNKNOWN s = s"

definition flush_context :: "nat \<Rightarrow> sess \<Rightarrow> sess" where
  "flush_context i s =
     (case context_pool s ! i of
        None \<Rightarrow> s
      | Some c \<Rightarrow>
          if allocated c
          then iscsi_ev_context_put i (emit (ACT (Ev_actor i) A_DELETE) (upd_context i (\<lambda>c. c\<lparr>ev_pending := None\<rparr>) s))
          else s)"

definition iscsi_flush_context_pool :: "sess \<Rightarrow> sess" where
  "iscsi_flush_context_pool s = fold flush_context [0..<length (context_pool s)] s"

subsection \<open>Timers\<close>

definition delete_login_timer :: "sess \<Rightarrow> sess" where
  "delete_login_timer s = emit (ACT Login_timer A_DELETE) (s\<lparr>login_timer := None\<rparr>)"

definition delete_nop_out_timer :: "sess \<Rightarrow> sess" where
  "delete_nop_out_timer s = emit (ACT Nop_out_timer A_DELETE) (s\<lparr>nop_out_timer := None\<rparr>)"

definition conn_delete_timers :: "sess \<Rightarrow> sess" where
  "conn_delete_timers s = delete_nop_out_timer (delete_login_timer s)"

text \<open>\<open>actor_timer_mod(&conn->login_timer, ...)\<close> and \<open>actor_timer(&conn->nop_out_timer, ...)\<close>. The actors take the delay as an
  unsigned 32-bit number.\<close>

definition secs :: "int \<Rightarrow> nat" where
  "secs n = unat (word_of_int n :: 32 word)"

definition login_timer_mod :: "int \<Rightarrow> queue_task \<Rightarrow> sess \<Rightarrow> sess" where
  "login_timer_mod delay qtask s =
     emit (ACT Login_timer (A_TIMER_MOD (secs delay))) (s\<lparr>login_timer := Some (secs delay, qtask)\<rparr>)"

definition start_nop_out_timer :: "int \<Rightarrow> nop_callback \<Rightarrow> sess \<Rightarrow> sess" where
  "start_nop_out_timer delay cb s =
     emit (ACT Nop_out_timer (A_TIMER (secs delay))) (s\<lparr>nop_out_timer := Some (secs delay, cb)\<rparr>)"

definition queue_delayed_reopen :: "queue_task \<Rightarrow> int \<Rightarrow> sess \<Rightarrow> sess" where
  "queue_delayed_reopen qtask delay = login_timer_mod delay qtask"

subsection \<open>The surroundings\<close>

text \<open>A PDU of a session that is logged in: the members of the header that the daemon reads, and the data segment.\<close>

record session_pdu =
  pdu_opcode :: byte
  pdu_ttt :: "32 word"
  logout_response :: byte
  logout_t2wait :: "16 word"
  async_event :: byte
  async_param2 :: "16 word"
  pdu_data :: "byte list"

text \<open>What the calls that one event handler makes return; a handler makes each of them at most once.
  \<open>k_new_session\<close> and \<open>k_calloc\<close> are whether memory is found for a session and for its event contexts, \<open>k_fits\<close> and \<open>k_read_ok\<close>
  whether a message of the kernel fits a context and can be read.
  \<open>k_create_session\<close> gets whether the endpoint is passed, and \<open>k_create_session\<close> and \<open>k_create_conn\<close> return an error and the new
  identifiers; \<open>k_bind\<close> and \<open>k_start\<close> are the return value and the code the kernel reports; \<open>k_pid\<close> is what \<open>fork\<close> returns
  and \<open>k_now\<close> what \<open>gettimeofday\<close> does. \<open>k_stack\<close> is what an uninitialised variable holds. The
  last four are used to create a session: the host of the interface, the names of the daemon's configuration, and
  the buffers for authentication inside the session.\<close>

record kenv =
  k_new_session :: bool
  k_calloc :: "nat \<Rightarrow> bool"
  k_fits :: bool
  k_read_ok :: bool
  k_connect_ok :: bool
  k_poll :: int
  k_create_session :: "bool \<Rightarrow> int \<times> 32 word \<times> 32 word"
  k_create_conn :: "int \<times> nat"
  k_bind :: "bool \<times> int"
  k_start :: "bool \<times> int"
  k_stop_ok :: bool
  k_destroy_conn_ok :: bool
  k_destroy_session_ok :: bool
  k_unbind_ok :: bool
  k_leadconn :: bool
  k_set_param :: "iscsi_param \<Rightarrow> int"
  k_host_param :: "string \<Rightarrow> int"
  k_supports_nop :: bool
  k_net_config :: int
  k_login :: login_env
  k_send_ok :: bool
  k_recv :: recv_result
  k_pdu :: "session_pdu option"
  k_now :: "timeval option"
  k_exp_statsn :: "32 word"
  k_pid :: int
  k_stack :: "32 word"
  k_hwinfo :: "int \<times> 32 word"
  k_initiator_name :: "string option"
  k_initiator_alias :: "string option"
  k_auth_buffers :: "auth_buffer_desc list"

subsection \<open>Answers\<close>

fun mgmt_ipc_write_rsp :: "queue_task option \<Rightarrow> int \<Rightarrow> sess \<Rightarrow> sess" where
  "mgmt_ipc_write_rsp None err s = s"
| "mgmt_ipc_write_rsp (Some Reopen_qtask) err s = s"
| "mgmt_ipc_write_rsp (Some (Task n)) err s = emit (RSP n err) s"

definition session_scan_host :: "kenv \<Rightarrow> queue_task option \<Rightarrow> sess \<Rightarrow> sess" where
  "session_scan_host env qtask s =
     (if k_pid env < 0 then mgmt_ipc_write_rsp qtask ISCSI_ERR_INTERNAL s
      else emit (SCAN (case qtask of Some (Task n) \<Rightarrow> Some n | _ \<Rightarrow> None) (nr_scan (nrec s))) s)"

subsection \<open>The login status\<close>

fun login_response_status :: "iscsi_login_status \<Rightarrow> conn_login_status" where
  "login_response_status LOGIN_OK = CONN_LOGIN_SUCCESS"
| "login_response_status LOGIN_REDIRECT = CONN_LOGIN_IMM_REDIRECT_RETRY"
| "login_response_status LOGIN_IO_ERROR = CONN_LOGIN_RETRY"
| "login_response_status LOGIN_REDIRECTION_FAILED = CONN_LOGIN_RETRY"
| "login_response_status _ = CONN_LOGIN_FAILED"

definition check_iscsi_status_class :: "byte \<Rightarrow> byte \<Rightarrow> sess \<Rightarrow> sess \<times> conn_login_status" where
  "check_iscsi_status_class cls detail s =
     (if cls = ISCSI_STATUS_CLS_SUCCESS then (s, CONN_LOGIN_SUCCESS)
      else if cls = ISCSI_STATUS_CLS_REDIRECT then
        (if detail = ISCSI_LOGIN_STATUS_TGT_MOVED_TEMP then (s, CONN_LOGIN_IMM_RETRY)
         else if detail = ISCSI_LOGIN_STATUS_TGT_MOVED_PERM
         then (s\<lparr>failback_saddr := saddr (login_conn s)\<rparr>, CONN_LOGIN_IMM_REDIRECT_RETRY)
         else (s, CONN_LOGIN_RETRY))
      else if cls = ISCSI_STATUS_CLS_INITIATOR_ERR then
        (if detail = ISCSI_LOGIN_STATUS_AUTH_FAILED \<or> detail = ISCSI_LOGIN_STATUS_TGT_FORBIDDEN
         then (s, CONN_LOGIN_AUTH_FAILED) else (s, CONN_LOGIN_FAILED))
      else if cls = ISCSI_STATUS_CLS_TARGET_ERR then (s, CONN_LOGIN_RETRY)
      else (s, CONN_LOGIN_FAILED))"

subsection \<open>Releasing a session\<close>

definition session_release :: "sess \<Rightarrow> sess" where
  "session_release s = emit FREE (s\<lparr>freed := True\<rparr>)"

definition session_destroy :: "sess \<Rightarrow> sess" where
  "session_destroy s = session_release (iscsi_flush_context_pool s)"

definition STOP_CONN_TERM :: int where "STOP_CONN_TERM = 1"
definition STOP_CONN_RECOVER :: int where "STOP_CONN_RECOVER = 3"

text \<open>What \<open>session_conn_shutdown\<close> does from the label \<open>cleanup\<close> on, and all of it. The second component is the return value.\<close>

definition shutdown_cleanup :: "kenv \<Rightarrow> queue_task option \<Rightarrow> int \<Rightarrow> sess \<Rightarrow> sess \<times> int" where
  "shutdown_cleanup env qtask err s =
     (let s1 = (if sid s \<noteq> INVALID_SESSION_ID then emit DESTROY_SESSION (s\<lparr>r_stage := R_STAGE_SESSION_DESTOYED\<rparr>) else s)
      in if sid s \<noteq> INVALID_SESSION_ID \<and> \<not> k_destroy_session_ok env then (s1, ISCSI_ERR_INTERNAL)
         else (session_destroy (conn_delete_timers (mgmt_ipc_write_rsp qtask err s1)), ISCSI_SUCCESS))"

definition session_conn_shutdown :: "kenv \<Rightarrow> queue_task option \<Rightarrow> int \<Rightarrow> sess \<Rightarrow> sess \<times> int" where
  "session_conn_shutdown env qtask err s =
     (let s = emit EP_DISCONNECT s
      in if sid s = INVALID_SESSION_ID \<or> \<not> k_leadconn env then shutdown_cleanup env qtask err s
         else
           let stop = c_state s \<in> {ISCSI_CONN_STATE_IN_LOGIN, ISCSI_CONN_STATE_IN_LOGOUT, ISCSI_CONN_STATE_LOGGED_IN};
               s = (if stop then emit (STOP_CONN STOP_CONN_TERM) s else s)
           in if stop \<and> \<not> k_stop_ok env then (s, ISCSI_ERR_INTERNAL)
              else
                let s = emit DESTROY_CONN s
                in if \<not> k_destroy_conn_ok env then (s, ISCSI_ERR_INTERNAL) else shutdown_cleanup env qtask err s)"

subsection \<open>Connecting\<close>

definition ISCSI_CONN_ERR_REOPEN_DELAY :: int where "ISCSI_CONN_ERR_REOPEN_DELAY = 3"
definition ISCSI_INTERNAL_ERR_REOPEN_DELAY :: int where "ISCSI_INTERNAL_ERR_REOPEN_DELAY = 5"

text \<open>The Boolean is whether an error is returned.\<close>

definition iscsi_conn_connect :: "kenv \<Rightarrow> queue_task \<Rightarrow> sess \<Rightarrow> sess \<times> bool" where
  "iscsi_conn_connect env qtask s =
     (case iscsi_ev_context_get True s of
        (s, None) \<Rightarrow> (s, True)
      | (s, Some i) \<Rightarrow>
          let s = emit EP_CONNECT (set_ev_data i (Data_qtask qtask) s)
          in if \<not> k_connect_ok env then (iscsi_ev_context_put i s, True)
             else (login_timer_mod (login_timeout (login_conn s)) qtask (iscsi_sched_ev_context i 0 EV_CONN_POLL s), False))"

definition conn_connect_or_wait :: "kenv \<Rightarrow> queue_task \<Rightarrow> sess \<Rightarrow> sess" where
  "conn_connect_or_wait env qtask s =
     (case iscsi_conn_connect env qtask s of (s, failed) \<Rightarrow>
        if failed then queue_delayed_reopen qtask ISCSI_CONN_ERR_REOPEN_DELAY s else s)"

text \<open>\<open>__session_conn_reopen\<close>, up to the connection and from there on. \<open>delay\<close> is the variable of that name when the network
  configuration fails: the delay taken from the session, which is then 0, or, after a redirection, whatever the
  stack holds.\<close>

definition reopen_connect :: "kenv \<Rightarrow> queue_task \<Rightarrow> bool \<Rightarrow> sess \<Rightarrow> sess" where
  "reopen_connect env qtask redirected s =
     (let s = (if redirected then s else s\<lparr>reopen_cnt := reopen_cnt s + 1\<rparr>);
          delay = (if redirected then uint (k_stack env) else 0)
      in if has_net_config (template (transport s)) \<and> k_net_config env \<noteq> 0 then queue_delayed_reopen qtask delay s
         else conn_connect_or_wait env qtask s)"

definition session_conn_reopen_stop :: "kenv \<Rightarrow> queue_task \<Rightarrow> int \<Rightarrow> bool \<Rightarrow> sess \<Rightarrow> sess" where
  "session_conn_reopen_stop env qtask do_stop redirected s =
     (let s = (conn_delete_timers (iscsi_flush_context_pool s))\<lparr>c_state := ISCSI_CONN_STATE_XPT_WAIT\<rparr>;
          s = emit EP_DISCONNECT s;
          s = (if do_stop \<noteq> 0 then emit (STOP_CONN do_stop) s else s)
      in if do_stop \<noteq> 0 \<and> \<not> k_stop_ok env then queue_delayed_reopen qtask ISCSI_INTERNAL_ERR_REOPEN_DELAY s
         else
           let delay = def_time2wait (login s)
           in if \<not> redirected \<and> delay \<noteq> 0
              then queue_delayed_reopen qtask (uint delay) (upd_login (\<lambda>l. l\<lparr>def_time2wait := 0\<rparr>) s)
              else reopen_connect env qtask redirected s)"

definition session_conn_reopen :: "kenv \<Rightarrow> queue_task \<Rightarrow> int \<Rightarrow> sess \<Rightarrow> sess" where
  "session_conn_reopen env qtask do_stop s =
     session_conn_reopen_stop env qtask do_stop False (upd_login (upd_conn (\<lambda>c. c\<lparr>saddr := failback_saddr s\<rparr>)) s)"

subsection \<open>Login errors\<close>

definition timeradd :: "timeval \<Rightarrow> timeval \<Rightarrow> timeval" where
  "timeradd a b =
     (let sec = tv_sec a + tv_sec b; usec = tv_usec a + tv_usec b
      in if usec \<ge> 1000000 then \<lparr>tv_sec = sec + 1, tv_usec = usec - 1000000\<rparr> else \<lparr>tv_sec = sec, tv_usec = usec\<rparr>)"

definition timer_later :: "timeval \<Rightarrow> timeval \<Rightarrow> bool" where
  "timer_later a b \<longleftrightarrow> (if tv_sec a = tv_sec b then tv_usec a > tv_usec b else tv_sec a > tv_sec b)"

definition iscsi_retry_initial_login :: "kenv \<Rightarrow> sess \<Rightarrow> bool" where
  "iscsi_retry_initial_login env s =
     (case k_now env of
        None \<Rightarrow> nr_initial_login_retry_max (nrec s) > reopen_cnt s
      | Some now \<Rightarrow>
          \<not> timer_later now (timeradd (initial_connect_time s)
               \<lparr>tv_sec = nr_initial_login_retry_max (nrec s) * login_timeout (login_conn s), tv_usec = 0\<rparr>))"

definition iscsi_login_is_fatal_err :: "int \<Rightarrow> bool" where
  "iscsi_login_is_fatal_err err \<longleftrightarrow> err = ISCSI_ERR_LOGIN_AUTH_FAILED \<or> err = ISCSI_ERR_FATAL_LOGIN"

definition shutdown_login :: "kenv \<Rightarrow> queue_task \<Rightarrow> int \<Rightarrow> sess \<Rightarrow> sess" where
  "shutdown_login env qtask err s = fst (session_conn_shutdown env (Some qtask) err s)"

definition login_eh_xpt_wait :: "kenv \<Rightarrow> queue_task \<Rightarrow> int \<Rightarrow> sess \<Rightarrow> sess" where
  "login_eh_xpt_wait env qtask err s =
     (case r_stage s of
        R_STAGE_NO_CHANGE \<Rightarrow>
          if iscsi_login_is_fatal_err err \<or> \<not> iscsi_retry_initial_login env s then shutdown_login env qtask err s
          else session_conn_reopen env qtask (if sid s < INVALID_SESSION_ID then STOP_CONN_TERM else 0) s
      | R_STAGE_SESSION_REDIRECT \<Rightarrow>
          if iscsi_login_is_fatal_err err \<or> \<not> iscsi_retry_initial_login env s then shutdown_login env qtask err s
          else session_conn_reopen env qtask 0 s
      | R_STAGE_SESSION_REOPEN \<Rightarrow>
          if reopen_max s \<noteq> 0 \<and> reopen_cnt s > reopen_max s then shutdown_login env qtask err s
          else session_conn_reopen env qtask 0 s
      | R_STAGE_SESSION_CLEANUP \<Rightarrow> shutdown_login env qtask err s
      | R_STAGE_SESSION_DESTOYED \<Rightarrow> s)"

definition login_eh_in_login :: "kenv \<Rightarrow> queue_task \<Rightarrow> int \<Rightarrow> sess \<Rightarrow> sess" where
  "login_eh_in_login env qtask err s =
     (case r_stage s of
        R_STAGE_SESSION_REOPEN \<Rightarrow> session_conn_reopen env qtask STOP_CONN_RECOVER s
      | R_STAGE_SESSION_CLEANUP \<Rightarrow> shutdown_login env qtask ISCSI_ERR_PDU_TIMEOUT s
      | R_STAGE_SESSION_DESTOYED \<Rightarrow> s
      | _ \<Rightarrow>
          if iscsi_login_is_fatal_err err \<or> \<not> iscsi_retry_initial_login env s then shutdown_login env qtask err s
          else session_conn_reopen env qtask STOP_CONN_RECOVER s)"

definition iscsi_login_eh :: "kenv \<Rightarrow> queue_task \<Rightarrow> int \<Rightarrow> sess \<Rightarrow> sess" where
  "iscsi_login_eh env qtask err s =
     (let s = iscsi_flush_context_pool s
      in case c_state s of
           ISCSI_CONN_STATE_XPT_WAIT \<Rightarrow> login_eh_xpt_wait env qtask err s
         | ISCSI_CONN_STATE_IN_LOGIN \<Rightarrow> login_eh_in_login env qtask err s
         | _ \<Rightarrow> s)"

text \<open>The handlers that take the task from the login context, whose pointer is set whenever they run.\<close>

definition ctx_login_eh :: "kenv \<Rightarrow> int \<Rightarrow> sess \<Rightarrow> sess" where
  "ctx_login_eh env err s = (case ctx_qtask s of Some q \<Rightarrow> iscsi_login_eh env q err s | None \<Rightarrow> s)"

definition iscsi_login_timedout :: "kenv \<Rightarrow> queue_task \<Rightarrow> sess \<Rightarrow> sess" where
  "iscsi_login_timedout env qtask s =
     (case c_state s of
        ISCSI_CONN_STATE_XPT_WAIT \<Rightarrow> iscsi_login_eh env qtask ISCSI_ERR_TRANS_TIMEOUT s
      | ISCSI_CONN_STATE_IN_LOGIN \<Rightarrow> iscsi_login_eh env qtask ISCSI_ERR_PDU_TIMEOUT s
      | _ \<Rightarrow> iscsi_login_eh env qtask ISCSI_ERR_INTERNAL s)"

definition iscsi_login_redirect :: "kenv \<Rightarrow> sess \<Rightarrow> sess" where
  "iscsi_login_redirect env s =
     (let s = (if r_stage s = R_STAGE_NO_CHANGE then s\<lparr>r_stage := R_STAGE_SESSION_REDIRECT\<rparr> else s)
      in case ctx_qtask s of
           Some q \<Rightarrow> session_conn_reopen_stop env q STOP_CONN_RECOVER True s
         | None \<Rightarrow> s)"

subsection \<open>Connection errors\<close>

text \<open>There is one connection, so marking every connection that is logged in as failed concerns this one.\<close>

definition conn_error_handle :: "kenv \<Rightarrow> sess \<Rightarrow> sess" where
  "conn_error_handle env s =
     (case logout_qtask s of
        Some q \<Rightarrow> fst (session_conn_shutdown env (Some q) ISCSI_SUCCESS s)
      | None \<Rightarrow>
          if c_state s = ISCSI_CONN_STATE_IN_LOGOUT \<or> c_state s = ISCSI_CONN_STATE_LOGGED_IN then
            let s = s\<lparr>c_state := ISCSI_CONN_STATE_CLEANUP_WAIT\<rparr>;
                s = (if erl s > 0 then s else s\<lparr>r_stage := R_STAGE_SESSION_REOPEN\<rparr>)
            in if r_stage s = R_STAGE_SESSION_REOPEN then session_conn_reopen env Reopen_qtask STOP_CONN_RECOVER s else s
          else if c_state s = ISCSI_CONN_STATE_IN_LOGIN \<and> r_stage s = R_STAGE_SESSION_REOPEN then
            iscsi_login_eh env (case notify_qtask s of Some q \<Rightarrow> q | None \<Rightarrow> Reopen_qtask) ISCSI_ERR_TRANS s
          else s)"

definition session_conn_error :: "kenv \<Rightarrow> nat \<Rightarrow> sess \<Rightarrow> sess" where
  "session_conn_error env i s =
     (let error = ctx_data i s; s = iscsi_ev_context_put i s
      in if error = Data_error ISCSI_ERR_INVALID_HOST then fst (session_conn_shutdown env None ISCSI_SUCCESS s)
         else conn_error_handle env s)"

subsection \<open>Pings\<close>

definition conn_nop_out_timeout :: "kenv \<Rightarrow> sess \<Rightarrow> sess" where
  "conn_nop_out_timeout env s = conn_error_handle env s"

definition conn_send_nop_out :: "sess \<Rightarrow> sess" where
  "conn_send_nop_out s =
     (if c_state s = ISCSI_CONN_STATE_IN_LOGOUT then s
      else start_nop_out_timer (noop_out_timeout s) conn_nop_out_timeout_cb (emit SEND_NOP_OUT s))"

subsection \<open>Full feature phase\<close>

definition finish_login :: "sess \<Rightarrow> sess" where
  "finish_login s = s\<lparr>reopen_cnt := 0, r_stage := R_STAGE_NO_CHANGE\<rparr>"

definition initial_login :: "sess \<Rightarrow> bool" where
  "initial_login s \<longleftrightarrow> r_stage s = R_STAGE_NO_CHANGE \<or> r_stage s = R_STAGE_SESSION_REDIRECT"

definition setup_full_feature_phase :: "kenv \<Rightarrow> sess \<Rightarrow> sess" where
  "setup_full_feature_phase env s =
     (case iscsi_session_set_neg_params (k_set_param env) (delete_login_timer s) of (s, failed) \<Rightarrow>
        if failed then ctx_login_eh env ISCSI_ERR_LOGIN s
        else
          let s = emit START_CONN s
          in if fst (k_start env) \<or> snd (k_start env) \<noteq> 0 then ctx_login_eh env ISCSI_ERR_INTERNAL s
             else
               let s = s\<lparr>c_state := ISCSI_CONN_STATE_LOGGED_IN\<rparr>;
                   s = (if initial_login s
                        then (if conn_id s = 0 then session_scan_host env (ctx_qtask s) s else s)
                        else mgmt_ipc_write_rsp (ctx_qtask s) ISCSI_SUCCESS (emit ONLINE_DEVS (s\<lparr>notify_qtask := None\<rparr>)));
                   s = finish_login s
               in if userspace_nop s \<and> noop_out_interval s \<noteq> 0
                  then start_nop_out_timer (noop_out_interval s) conn_send_nop_out_cb s else s)"

subsection \<open>Logout\<close>

text \<open>The result of \<open>iscsi_send_logout\<close>; errors are \<open>EINVAL\<close>, \<open>EIO\<close> and \<open>ENOMEM\<close>.\<close>

definition iscsi_send_logout :: "kenv \<Rightarrow> sess \<Rightarrow> sess \<times> int" where
  "iscsi_send_logout env s =
     (if c_state s \<noteq> ISCSI_CONN_STATE_LOGGED_IN then (s, EINVAL)
      else
        let s = emit SEND_LOGOUT s
        in if \<not> k_send_ok env then (s, 5)
           else
             case iscsi_ev_context_get True (s\<lparr>c_state := ISCSI_CONN_STATE_IN_LOGOUT\<rparr>) of
               (s, None) \<Rightarrow> (s, 12)
             | (s, Some i) \<Rightarrow> (iscsi_sched_ev_context i (secs (logout_timeout s)) EV_CONN_LOGOUT_TIMER s, 0))"

definition iscsi_logout_timedout :: "kenv \<Rightarrow> nat \<Rightarrow> sess \<Rightarrow> sess" where
  "iscsi_logout_timedout env i s = conn_error_handle env (iscsi_ev_context_put i s)"

definition iscsi_stop :: "kenv \<Rightarrow> nat \<Rightarrow> sess \<Rightarrow> sess" where
  "iscsi_stop env i s =
     (let s = iscsi_ev_context_put i s
      in if has_cap (transport s) CAP_LOGIN_OFFLOAD then fst (session_conn_shutdown env (logout_qtask s) ISCSI_SUCCESS s)
         else case iscsi_send_logout env s of (s, rc) \<Rightarrow>
           if rc = 0 then s else fst (session_conn_shutdown env (logout_qtask s) ISCSI_SUCCESS s))"

text \<open>The task of a user who logs out of the session; the second component is the return value. \<open>in_use\<close> is whether the
  daemon is configured to check for mounted devices and finds one.\<close>

definition session_logout_task :: "kenv \<Rightarrow> bool \<Rightarrow> queue_task \<Rightarrow> sess \<Rightarrow> sess \<times> int" where
  "session_logout_task env in_use qtask s =
     (let waiting = c_state s = ISCSI_CONN_STATE_XPT_WAIT;
          connecting = waiting \<or> c_state s = ISCSI_CONN_STATE_IN_LOGIN
      in if notify_qtask s \<noteq> None \<and> waiting \<and> r_stage s = R_STAGE_SESSION_REOPEN then (s, ISCSI_ERR_SESSION_NOT_CONNECTED)
         else if notify_qtask s \<noteq> None \<or> connecting \<and> initial_login s then (s, ISCSI_ERR_INTERNAL)
         else if in_use then (s, ISCSI_ERR_BUSY)
         else if logout_qtask s \<noteq> None then (s, ISCSI_ERR_INTERNAL)
         else
           let s = s\<lparr>logout_qtask := Some qtask\<rparr>
           in if c_state s = ISCSI_CONN_STATE_LOGGED_IN then
                let s = emit UNBIND_SESSION s
                in if k_unbind_ok env then (s, ISCSI_SUCCESS)
                   else if has_cap (transport s) CAP_LOGIN_OFFLOAD then session_conn_shutdown env (Some qtask) ISCSI_SUCCESS s
                   else case iscsi_send_logout env s of (s, rc) \<Rightarrow>
                     if rc \<noteq> 0 then (s, ISCSI_SUCCESS) else session_conn_shutdown env (Some qtask) ISCSI_SUCCESS s
              else session_conn_shutdown env (Some qtask) ISCSI_SUCCESS s)"

subsection \<open>Received PDUs\<close>

definition byte_at :: "byte list \<Rightarrow> nat \<Rightarrow> byte" where
  "byte_at data i = (if i < length data then data ! i else 0)"

text \<open>The additional sense code and qualifier that \<open>scsi_normalize_sense\<close> finds in the bytes from \<open>off\<close> on; \<open>None\<close> if
  the sense data is not valid.\<close>

definition scsi_normalize_sense :: "byte list \<Rightarrow> nat \<Rightarrow> int \<Rightarrow> (byte \<times> byte) option" where
  "scsi_normalize_sense data off sb_len =
     (let b = (\<lambda>i. byte_at data (off + i)); response_code = b 0 AND 0x7f
      in if sb_len = 0 \<or> response_code AND 0x70 \<noteq> 0x70 then None
         else if response_code \<ge> 0x72
         then Some (if sb_len > 2 then b 2 else 0, if sb_len > 3 then b 3 else 0)
         else
           let n = (if sb_len > 7 then min sb_len (uint (b 7) + 8) else 0)
           in Some (if n > 12 then b 12 else 0, if n > 13 then b 13 else 0))"

text \<open>The length in front of the sense data is read through a signed character pointer.\<close>

definition sense_length :: "byte list \<Rightarrow> int" where
  "sense_length data = sint (word_of_int (push_bit 8 (sint (byte_at data 0)) OR sint (byte_at data 1)) :: 32 word)"

definition ISCSI_OPCODE_MASK :: byte where "ISCSI_OPCODE_MASK = 0x3F"
definition ISCSI_OP_NOOP_IN :: byte where "ISCSI_OP_NOOP_IN = 0x20"
definition ISCSI_OP_LOGOUT_RSP :: byte where "ISCSI_OP_LOGOUT_RSP = 0x26"
definition ISCSI_OP_ASYNC_EVENT :: byte where "ISCSI_OP_ASYNC_EVENT = 0x32"

definition iscsi_recv_nop_in :: "kenv \<Rightarrow> session_pdu \<Rightarrow> sess \<Rightarrow> sess" where
  "iscsi_recv_nop_in env hdr s =
     (if \<not> userspace_nop s then s
      else if pdu_ttt hdr = 0xffffffff
      then start_nop_out_timer (noop_out_interval s) conn_send_nop_out_cb (delete_nop_out_timer s)
      else emit SEND_NOP_IN_RSP s)"

definition iscsi_recv_logout_rsp :: "kenv \<Rightarrow> session_pdu \<Rightarrow> sess \<Rightarrow> sess" where
  "iscsi_recv_logout_rsp env hdr s =
     conn_error_handle env
       (if logout_response hdr = 2 \<or> logout_response hdr = 3
        then upd_login (\<lambda>l. l\<lparr>def_time2wait := ucast (logout_t2wait hdr)\<rparr>) s else s)"

definition iscsi_recv_async_msg :: "kenv \<Rightarrow> session_pdu \<Rightarrow> sess \<Rightarrow> sess" where
  "iscsi_recv_async_msg env hdr s =
     (if async_event hdr = 0 then
        (case scsi_normalize_sense (pdu_data hdr) 2 (sense_length (pdu_data hdr)) of
           Some (asc, ascq) \<Rightarrow> if asc = 0x3f \<and> ascq = 0x0e \<and> nr_scan (nrec s) then session_scan_host env None s else s
         | None \<Rightarrow> s)
      else if async_event hdr = 1 then fst (iscsi_send_logout env s)
      else if async_event hdr = 2 \<or> async_event hdr = 3
      then upd_login (\<lambda>l. l\<lparr>def_time2wait := ucast (async_param2 hdr)\<rparr>) s
      else if async_event hdr = 4 then conn_error_handle env s
      else s)"

text \<open>\<open>iscsi_io_recv_pdu\<close> gives the receive context back.\<close>

definition recv_pdu_end :: "sess \<Rightarrow> sess" where
  "recv_pdu_end s =
     (case recv_context s of Some i \<Rightarrow> (iscsi_ev_context_put i s)\<lparr>recv_context := None\<rparr> | None \<Rightarrow> s)"

definition send_login_pdu :: "kenv \<Rightarrow> sess \<Rightarrow> sess \<times> bool" where
  "send_login_pdu env s =
     (case iscsi_login_req (login s) (login_ctx s) (k_send_ok env) of ((l, c), failed) \<Rightarrow>
        (emit SEND_LOGIN (s\<lparr>login := l, login_ctx := c\<rparr>), failed))"

definition recv_login_pdu :: "kenv \<Rightarrow> sess \<Rightarrow> sess \<times> bool" where
  "recv_login_pdu env s =
     (case iscsi_login_rsp (k_login env) (login s) (login_ctx s) (k_recv env) of ((l, c), err) \<Rightarrow>
        ((if k_recv env = RECV_EAGAIN then id else recv_pdu_end) (s\<lparr>login := l, login_ctx := c\<rparr>), err \<noteq> RSP_OK))"

definition recv_failed :: "kenv \<Rightarrow> int \<Rightarrow> sess \<Rightarrow> sess" where
  "recv_failed env err s = ctx_login_eh env err (s\<lparr>reopen_cnt := nr_initial_login_retry_max (nrec s)\<rparr>)"

definition recv_next_stage :: "kenv \<Rightarrow> sess \<Rightarrow> sess" where
  "recv_next_stage env s =
     (if current_stage (login_conn s) \<noteq> ISCSI_FULL_FEATURE_PHASE
      then case send_login_pdu env (s\<lparr>c_state := ISCSI_CONN_STATE_IN_LOGIN\<rparr>) of (s, failed) \<Rightarrow>
             if failed then ctx_login_eh env ISCSI_ERR_LOGIN s else s
      else setup_full_feature_phase env s)"

definition recv_status :: "kenv \<Rightarrow> sess \<Rightarrow> sess" where
  "recv_status env s =
     (case check_iscsi_status_class (ctx_class (login_ctx s)) (ctx_detail (login_ctx s)) s of (s, st) \<Rightarrow>
        (case st of
           CONN_LOGIN_AUTH_FAILED \<Rightarrow> recv_failed env ISCSI_ERR_LOGIN_AUTH_FAILED s
         | CONN_LOGIN_FAILED \<Rightarrow> recv_failed env ISCSI_ERR_FATAL_LOGIN s
         | CONN_LOGIN_IMM_REDIRECT_RETRY \<Rightarrow> iscsi_login_redirect env s
         | CONN_LOGIN_IMM_RETRY \<Rightarrow> ctx_login_eh env ISCSI_ERR_LOGIN s
         | CONN_LOGIN_RETRY \<Rightarrow> ctx_login_eh env ISCSI_ERR_LOGIN s
         | _ \<Rightarrow> recv_next_stage env s))"

definition iscsi_recv_login_rsp :: "kenv \<Rightarrow> sess \<Rightarrow> sess" where
  "iscsi_recv_login_rsp env s =
     (case recv_login_pdu env s of (s, err) \<Rightarrow>
        if err then
          (case login_response_status (ret (login_ctx s)) of
             CONN_LOGIN_FAILED \<Rightarrow> recv_failed env ISCSI_ERR_FATAL_LOGIN s
           | CONN_LOGIN_RETRY \<Rightarrow> ctx_login_eh env ISCSI_ERR_LOGIN s
           | CONN_LOGIN_IMM_REDIRECT_RETRY \<Rightarrow> iscsi_login_redirect env s
           | _ \<Rightarrow> recv_status env s)
        else recv_next_stage env s)"

definition recv_session_pdu :: "kenv \<Rightarrow> sess \<Rightarrow> sess" where
  "recv_session_pdu env s =
     (case k_pdu env of
        None \<Rightarrow> recv_pdu_end s
      | Some hdr \<Rightarrow>
          let s = recv_pdu_end s; opcode = pdu_opcode hdr AND ISCSI_OPCODE_MASK
          in if opcode = ISCSI_OP_NOOP_IN then iscsi_recv_nop_in env hdr s
             else if opcode = ISCSI_OP_LOGOUT_RSP then iscsi_recv_logout_rsp env hdr s
             else if opcode = ISCSI_OP_ASYNC_EVENT then iscsi_recv_async_msg env hdr s
             else s)"

definition session_conn_recv_pdu :: "kenv \<Rightarrow> nat \<Rightarrow> sess \<Rightarrow> sess" where
  "session_conn_recv_pdu env i s =
     (let s = s\<lparr>recv_context := Some i\<rparr>
      in case c_state s of
           ISCSI_CONN_STATE_IN_LOGIN \<Rightarrow> iscsi_recv_login_rsp env s
         | ISCSI_CONN_STATE_LOGGED_IN \<Rightarrow> recv_session_pdu env s
         | ISCSI_CONN_STATE_IN_LOGOUT \<Rightarrow> recv_session_pdu env s
         | ISCSI_CONN_STATE_LOGOUT_REQUESTED \<Rightarrow> recv_session_pdu env s
         | _ \<Rightarrow> iscsi_ev_context_put i s)"

subsection \<open>From the connection to the first login request\<close>

definition session_ipc_create :: "kenv \<Rightarrow> sess \<Rightarrow> sess \<times> int" where
  "session_ipc_create env s =
     (let pass_ep = kernel_ep (template (transport s));
          r = k_create_session env pass_ep;
          again = (pass_ep \<and> (fst r = - ENOSYS \<or> fst r = - EINVAL));
          s = emit CREATE_SESSION s;
          s = (if again then emit CREATE_SESSION s else s);
          r = (if again then k_create_session env False else r)
      in if fst r = 0 then (s\<lparr>sid := fst (snd r), hostno := snd (snd r)\<rparr>, 0) else (s, fst r))"

definition iscsi_copy_operational_params :: "sess \<Rightarrow> sess" where
  "iscsi_copy_operational_params s =
     (case copy_operational_params (transport s) (nr_session_conf (nrec s)) (nr_conn_conf (nrec s)) (login s) of
        ((l, e), sc, cc) \<Rightarrow> s\<lparr>login := l, erl := e, nrec := (nrec s)\<lparr>nr_session_conf := sc, nr_conn_conf := cc\<rparr>\<rparr>)"

text \<open>\<open>memset(c, 0, sizeof(iscsi_login_context_t))\<close>; the request in it is made anew before it is used.\<close>

definition clear_login_context :: "sess \<Rightarrow> sess" where
  "clear_login_context s =
     s\<lparr>ctx_qtask := None,
       login_ctx := (login_ctx s)\<lparr>bufsize := 0, ctx_class := 0, ctx_detail := 0, have_auth_client := False,
         received_pdu := False, max_data_length := 0, ctx_timeout := 0, final := False, ret := LOGIN_OK\<rparr>\<rparr>"

definition set_isid :: "sess \<Rightarrow> sess" where
  "set_isid s =
     upd_login (\<lambda>l. l\<lparr>isid := take 3 (isid l) @ [ucast (drop_bit 16 (sid s)), ucast (drop_bit 8 (sid s)), ucast (sid s)]\<rparr>) s"

definition EEXIST :: int where "EEXIST = 17"

definition setup_offload_login_phase :: "kenv \<Rightarrow> sess \<Rightarrow> sess" where
  "setup_offload_login_phase env s =
     (case iscsi_session_set_params (k_set_param env) (k_supports_nop env) (delete_login_timer s) of (s, failed) \<Rightarrow>
        if failed then ctx_login_eh env ISCSI_ERR_LOGIN s
        else case iscsi_session_set_neg_params (k_set_param env) s of (s, failed) \<Rightarrow>
          if failed then ctx_login_eh env ISCSI_ERR_LOGIN s
          else case iscsi_host_set_params (k_host_param env) s of (s, failed) \<Rightarrow>
            if failed then ctx_login_eh env ISCSI_ERR_LOGIN s
            else
              let s = emit START_CONN (s\<lparr>c_state := ISCSI_CONN_STATE_IN_LOGIN\<rparr>)
              in if fst (k_start env) \<or> snd (k_start env) \<noteq> 0
                 then (if snd (k_start env) = - EEXIST
                       then fst (session_conn_shutdown env (ctx_qtask s) ISCSI_ERR_SESS_EXISTS s)
                       else ctx_login_eh env ISCSI_ERR_INTERNAL s)
                 else s\<lparr>notify_qtask := ctx_qtask s\<rparr>)"

definition login_begin :: "kenv \<Rightarrow> sess \<Rightarrow> sess \<times> bool" where
  "login_begin env s =
     (case iscsi_login_begin (k_login env) (login s) (login_ctx s) of ((l, c), failed) \<Rightarrow>
        (s\<lparr>login := l, login_ctx := c\<rparr>, failed))"

definition start_login :: "kenv \<Rightarrow> queue_task \<Rightarrow> sess \<Rightarrow> sess" where
  "start_login env qtask s =
     (case iscsi_session_set_params (k_set_param env) (k_supports_nop env) s of (s, failed) \<Rightarrow>
        if failed then iscsi_login_eh env qtask ISCSI_ERR_LOGIN s
        else case iscsi_host_set_params (k_host_param env) s of (s, failed) \<Rightarrow>
          if failed then iscsi_login_eh env qtask ISCSI_ERR_LOGIN s
          else case login_begin env s of (s, failed) \<Rightarrow>
            if failed then iscsi_login_eh env qtask ISCSI_ERR_LOGIN s
            else case send_login_pdu env (s\<lparr>c_state := ISCSI_CONN_STATE_IN_LOGIN\<rparr>) of (s, failed) \<Rightarrow>
              if failed then iscsi_login_eh env qtask ISCSI_ERR_LOGIN s else s)"

definition bind_and_login :: "kenv \<Rightarrow> queue_task \<Rightarrow> sess \<Rightarrow> sess" where
  "bind_and_login env qtask s =
     (let s = emit BIND_CONN (set_isid (iscsi_copy_operational_params s))
      in if fst (k_bind env) \<or> snd (k_bind env) \<noteq> 0 then iscsi_login_eh env qtask ISCSI_ERR_LOGIN s
         else
           let s = upd_login (upd_conn (\<lambda>c. c\<lparr>exp_statsn := k_exp_statsn env\<rparr>))
                     (s\<lparr>ctx_qtask := Some qtask,
                        login_ctx := (login_ctx s)\<lparr>bufsize := unat ISCSI_DEF_MAX_RECV_SEG_LEN\<rparr>\<rparr>)
           in if has_cap (transport s) CAP_LOGIN_OFFLOAD then setup_offload_login_phase env s
              else start_login env qtask s)"

definition conn_established :: "kenv \<Rightarrow> queue_task \<Rightarrow> sess \<Rightarrow> sess" where
  "conn_established env qtask s =
     (let s = clear_login_context s
      in if sid s = INVALID_SESSION_ID
         then case (if conn_id s = 0 then session_ipc_create env s else (s, 0)) of (s, err) \<Rightarrow>
           if err \<noteq> 0 then fst (session_conn_shutdown env (Some qtask) ISCSI_ERR_INTERNAL s)
           else
             let s = emit CREATE_CONN s
             in if fst (k_create_conn env) \<noteq> 0 then fst (session_conn_shutdown env (Some qtask) ISCSI_ERR_INTERNAL s)
                else bind_and_login env qtask (s\<lparr>conn_id := snd (k_create_conn env)\<rparr>)
         else bind_and_login env qtask s)"

definition session_conn_poll :: "kenv \<Rightarrow> nat \<Rightarrow> sess \<Rightarrow> sess" where
  "session_conn_poll env i s =
     (case ctx_data i s of
        Data_qtask qtask \<Rightarrow>
          let s = iscsi_ev_context_put i s
          in if c_state s \<noteq> ISCSI_CONN_STATE_XPT_WAIT then s
             else if k_poll env = 0 then
               (case iscsi_ev_context_get True s of
                  (s, None) \<Rightarrow> iscsi_login_eh env qtask ISCSI_ERR_INTERNAL s
                | (s, Some j) \<Rightarrow> iscsi_sched_ev_context j 1 EV_CONN_POLL (set_ev_data j (Data_qtask qtask) s))
             else if k_poll env > 0 then conn_established env qtask s
             else queue_delayed_reopen qtask ISCSI_CONN_ERR_REOPEN_DELAY s
      | _ \<Rightarrow> iscsi_ev_context_put i s)"

subsection \<open>Logins done by the adapter\<close>

definition session_conn_process_login :: "kenv \<Rightarrow> nat \<Rightarrow> sess \<Rightarrow> sess" where
  "session_conn_process_login env i s =
     (let state = ctx_data i s; s = iscsi_ev_context_put i s
      in if \<not> has_cap (transport s) CAP_LOGIN_OFFLOAD then s
         else if state = Data_state ISCSI_CONN_STATE_FREE
         then session_destroy (emit DESTROY_SESSION (emit DESTROY_CONN
                (mgmt_ipc_write_rsp (notify_qtask s) ISCSI_ERR_LOGIN (s\<lparr>notify_qtask := None\<rparr>))))
         else if c_state s = ISCSI_CONN_STATE_LOGGED_IN then s
         else
           let s = s\<lparr>c_state := ISCSI_CONN_STATE_LOGGED_IN\<rparr>;
               s = (if initial_login s then (session_scan_host env (ctx_qtask s) s)\<lparr>notify_qtask := None\<rparr>
                    else mgmt_ipc_write_rsp (ctx_qtask s) ISCSI_SUCCESS (s\<lparr>notify_qtask := None\<rparr>))
           in finish_login s)"

subsection \<open>Creating a session\<close>

definition zero_timeval :: timeval where "zero_timeval = \<lparr>tv_sec = 0, tv_usec = 0\<rparr>"

definition zero_conn :: iscsi_conn where
  "zero_conn = \<lparr>current_stage = 0, next_stage = 0, partial_response = False, saddr = [], login_timeout = 0, auth_timeout = 0,
     active_timeout = 0, exp_statsn = 0, hdrdgst_en = 0, datadgst_en = 0, max_recv_dlength = 0, max_xmit_dlength = 0\<rparr>"

text \<open>The members that the login code uses, of a session that \<open>calloc\<close> returned, with the transport and the node record.\<close>

definition zero_login :: "node_rec_t \<Rightarrow> iscsi_transport \<Rightarrow> iscsi_session" where
  "zero_login rec t = \<lparr>rdma = tmpl_rdma (template t), rec_MaxXmit = MaxXmitDataSegmentLength (nr_conn_conf rec),
     irrelevant_keys_bitmap = 0, cmdsn = 0, exp_cmdsn = 0, max_cmdsn = 0, imm_data_en = 0, initial_r2t_en = 0, max_r2t = 0,
     first_burst = 0, max_burst = 0, pdu_inorder_en = 0, dataseq_inorder_en = 0, def_time2wait = 0, def_time2retain = 0,
     sess_type = ISCSI_SESSION_TYPE_NORMAL, portal_group_tag = nr_tpgt rec, isid = [0x00, 0x02, 0x3D, 0, 0, 0], tsih = 0,
     target_name = the (fst (strlcpy (nr_name rec) 255)), target_alias = None, initiator_name = None,
     initiator_alias = None, auth_client_block = acl_zero, auth_buffers = [], bidirectional_auth = False,
     sess_username = [], sess_password = replicate AUTH_STR_MAX_LEN 0, password_length = 0,
     peer_account = \<lparr>username_in = [], password_in = []\<rparr>, chap_algs = [], conn = zero_conn\<rparr>"

definition zero_login_context :: "iscsi_session \<Rightarrow> iscsi_login_context" where
  "zero_login_context l = \<lparr>bufsize = 0, ctx_class = 0, ctx_detail = 0, have_auth_client = False,
     ctx_pdu = (login_hdr_init l, []), received_pdu = False, max_data_length = 0, ctx_timeout = 0, final = False, ret = LOGIN_OK\<rparr>"

definition zero_sess :: "node_rec_t \<Rightarrow> iscsi_transport \<Rightarrow> sess" where
  "zero_sess rec t = \<lparr>sid = INVALID_SESSION_ID, hostno = 0, transport = t, nrec = rec, login = zero_login rec t, erl = 0,
     r_stage = R_STAGE_NO_CHANGE, reopen_cnt = 0, reopen_max = 0, notify_qtask = None,
     replacement_timeout = nr_replacement_timeout rec, fast_abort = FastAbort (nr_session_conf rec),
     abort_timeout = nr_abort_timeout rec, lu_reset_timeout = nr_lu_reset_timeout rec,
     tgt_reset_timeout = nr_tgt_reset_timeout rec, conn_id = 0, c_state = ISCSI_CONN_STATE_FREE,
     login_ctx = zero_login_context (zero_login rec t), ctx_qtask = None, logout_qtask = None, recv_context = None,
     userspace_nop = False, initial_connect_time = zero_timeval, login_timer = None, nop_out_timer = None,
     context_pool = replicate CONTEXT_POOL_MAX None, failback_saddr = [], bind_ep = False, logout_timeout = 0,
     noop_out_interval = 0, noop_out_timeout = 0, freed = False, trace = []\<rparr>"

text \<open>\<open>__session_create\<close>; the return value of \<open>iscsi_setup_authentication\<close> is ignored. The number is the code stored in \<open>*rc\<close>.\<close>

definition session_create :: "kenv \<Rightarrow> node_rec_t \<Rightarrow> iscsi_transport \<Rightarrow> sess option \<times> int" where
  "session_create env rec t =
     (let s = zero_sess rec t;
          name = (if nr_iname rec \<noteq> [] then Some (nr_iname rec) else k_initiator_name env);
          alias = (if nr_alias rec \<noteq> [] then Some (nr_alias rec) else k_initiator_alias env);
          s = upd_login (\<lambda>l. fst (iscsi_setup_authentication (k_auth_buffers env) (nr_auth rec)
                (l\<lparr>initiator_name := name, initiator_alias := alias\<rparr>))) s
      in if \<not> k_new_session env then (None, ISCSI_ERR_NOMEM)
         else if name = None then (None, ISCSI_ERR_INVAL)
         else if bind_ep_required (template t) then
           (if fst (k_hwinfo env) = 0 then (Some (s\<lparr>bind_ep := True, hostno := snd (k_hwinfo env)\<rparr>), 0)
            else if fst (k_hwinfo env) = ISCSI_ERR_HOST_NOT_FOUND then (None, ISCSI_ERR_HOST_NOT_FOUND)
            else (Some s, 0))
         else (Some s, 0))"

definition DEF_LOGIN_TIMEO :: int where "DEF_LOGIN_TIMEO = 30"
definition DEF_LOGOUT_TIMEO :: int where "DEF_LOGOUT_TIMEO = 15"
definition DEF_NOOP_OUT_INTERVAL :: int where "DEF_NOOP_OUT_INTERVAL = 5"
definition DEF_NOOP_OUT_TIMEO :: int where "DEF_NOOP_OUT_TIMEO = 5"

definition or_default :: "int \<Rightarrow> int \<Rightarrow> int" where
  "or_default dflt v = (if v = 0 then dflt else v)"

definition conn_timeouts :: "sess \<Rightarrow> sess" where
  "conn_timeouts s =
     (let interval = nr_noop_out_interval (nrec s); tmo = nr_noop_out_timeout (nrec s);
          tmo = (if interval \<noteq> 0 \<and> tmo = 0 then DEF_NOOP_OUT_TIMEO else tmo);
          interval = (if tmo \<noteq> 0 \<and> interval = 0 then DEF_NOOP_OUT_INTERVAL else interval)
      in upd_login (upd_conn (\<lambda>c. c\<lparr>login_timeout := or_default DEF_LOGIN_TIMEO (nr_login_timeout (nrec s)),
             auth_timeout := nr_auth_timeout (nrec s)\<rparr>))
           (s\<lparr>logout_timeout := or_default DEF_LOGOUT_TIMEO (nr_logout_timeout (nrec s)),
              noop_out_interval := interval, noop_out_timeout := tmo\<rparr>))"

definition iscsi_setup_portal :: "kenv \<Rightarrow> sess \<Rightarrow> sess \<times> int" where
  "iscsi_setup_portal env s =
     (case getaddr (k_login env) (nr_address (nrec s)) (sdec (nr_port (nrec s))) of
        None \<Rightarrow> (s, ISCSI_ERR_TRANS)
      | Some a \<Rightarrow> ((upd_login (upd_conn (\<lambda>c. c\<lparr>saddr := a\<rparr>)) s)\<lparr>failback_saddr := a\<rparr>, 0))"

definition session_conn_create :: "kenv \<Rightarrow> sess \<Rightarrow> sess \<times> int" where
  "session_conn_create env s =
     (case iscsi_ev_context_alloc (k_calloc env) (s\<lparr>conn_id := 0\<rparr>) of (s, failed) \<Rightarrow>
        if failed then (s, ISCSI_ERR_NOMEM)
        else
          iscsi_setup_portal env (iscsi_copy_operational_params (conn_timeouts
            (emit (ACT Login_timer A_INIT) (s\<lparr>reopen_max := nr_reopen_max (nrec s), c_state := ISCSI_CONN_STATE_FREE\<rparr>)))))"

subsection \<open>The network of an adapter\<close>

definition bound_by :: "string \<Rightarrow> bool" where
  "bound_by v \<longleftrightarrow> v \<noteq> [] \<and> v \<noteq> ''default''"

definition iscsi_host_set_net_params :: "kenv \<Rightarrow> node_rec_t \<Rightarrow> iscsi_transport \<Rightarrow> int" where
  "iscsi_host_set_net_params env rec t =
     (let ip = tmpl_set_host_ip (template t)
      in if ip = SET_HOST_IP_NOT_REQ then 0
         else if \<not> bound_by (nr_ipaddress rec) then (if ip = SET_HOST_IP_OPT then 0 else ISCSI_ERR_INVAL)
         else if has_net_config (template t) \<and> k_net_config env \<noteq> 0 then k_net_config env
         else if host_set_param_fails (k_host_param env (nr_ipaddress rec)) then ISCSI_ERR_INVAL
         else if bound_by (nr_netdev rec) \<and> host_set_param_fails (k_host_param env (nr_netdev rec)) then ISCSI_ERR_INVAL
         else if bound_by (nr_hwaddress rec) \<and> host_set_param_fails (k_host_param env (nr_hwaddress rec)) then ISCSI_ERR_INVAL
         else 0)"

subsection \<open>The login request\<close>

text \<open>What the transport cannot do is switched off in the record.\<close>

definition clip_rec :: "iscsi_transport \<Rightarrow> node_rec_t \<Rightarrow> node_rec_t" where
  "clip_rec t rec =
     (let sc = nr_session_conf rec; cc = nr_conn_conf rec;
          sc = (if \<not> has_cap t CAP_RECOVERY_L0 \<and> ERL sc \<noteq> 0 \<or> \<not> has_cap t CAP_RECOVERY_L1 \<and> ERL sc > 1 then sc\<lparr>ERL := 0\<rparr> else sc);
          sc = (if \<not> has_cap t CAP_MULTI_R2T \<and> MaxOutstandingR2T sc \<noteq> 0 then sc\<lparr>MaxOutstandingR2T := 1\<rparr> else sc);
          cc = (if \<not> has_cap t CAP_HDRDGST \<and> HeaderDigest cc \<noteq> 0 then cc\<lparr>HeaderDigest := 0\<rparr> else cc);
          cc = (if \<not> has_cap t CAP_DATADGST \<and> DataDigest cc \<noteq> 0 then cc\<lparr>DataDigest := 0\<rparr> else cc);
          cc = (if \<not> has_cap t CAP_MARKERS \<and> IFMarker cc \<noteq> 0 then cc\<lparr>IFMarker := 0\<rparr> else cc);
          cc = (if \<not> has_cap t CAP_MARKERS \<and> OFMarker cc \<noteq> 0 then cc\<lparr>OFMarker := 0\<rparr> else cc)
      in rec\<lparr>nr_session_conf := sc, nr_conn_conf := cc\<rparr>)"

definition start_session :: "kenv \<Rightarrow> queue_task \<Rightarrow> sess \<Rightarrow> sess" where
  "start_session env qtask s =
     conn_connect_or_wait env qtask
       (s\<lparr>initial_connect_time := (case k_now env of Some now \<Rightarrow> now | None \<Rightarrow> initial_connect_time s),
          c_state := ISCSI_CONN_STATE_XPT_WAIT\<rparr>)"

text \<open>\<open>__session_login_task\<close>: \<open>running\<close> is whether a session to the node exists, \<open>t\<close> the transport found for it. The session
  that is waiting for the answer, or the code of the error. A session that fails before it is started is destroyed.\<close>

definition try_session_login :: "kenv \<Rightarrow> bool \<Rightarrow> iscsi_transport option \<Rightarrow> node_rec_t \<Rightarrow> queue_task \<Rightarrow> int + sess" where
  "try_session_login env running t rec qtask =
     (if running \<and> \<not> nr_multiple rec then Inl ISCSI_ERR_SESS_EXISTS
      else case t of
        None \<Rightarrow> Inl ISCSI_ERR_TRANS_NOT_FOUND
      | Some t \<Rightarrow>
          (let rec = clip_rec t rec
           in case session_create env rec t of
                (None, rc) \<Rightarrow> Inl (if rc = ISCSI_ERR_HOST_NOT_FOUND then rc else ISCSI_ERR_LOGIN)
              | (Some s, _) \<Rightarrow>
                  (case session_conn_create env s of (s, rc) \<Rightarrow>
                     if rc \<noteq> 0 then Inl rc
                     else
                       let rc = iscsi_host_set_net_params env rec t
                       in if rc = ISCSI_ERR_AGAIN then Inl ISCSI_ERR_HOST_NOT_FOUND
                          else if rc \<noteq> 0 then Inl ISCSI_ERR_LOGIN
                          else Inr (start_session env qtask s))))"

text \<open>\<open>known\<close> is whether the daemon has a session with the identifier \<open>nsid\<close>, \<open>host\<close> the lookup of the host of the session.\<close>

definition iscsi_sync_session ::
  "kenv \<Rightarrow> bool \<Rightarrow> iscsi_transport option \<Rightarrow> node_rec_t \<Rightarrow> queue_task \<Rightarrow> 32 word \<Rightarrow> int \<times> 32 word \<Rightarrow> int + sess"
where
  "iscsi_sync_session env known t rec qtask nsid host =
     (if known then Inl ISCSI_ERR_SESS_EXISTS
      else case t of
        None \<Rightarrow> Inl ISCSI_ERR_TRANS_NOT_FOUND
      | Some t \<Rightarrow>
          (case session_create env rec t of
             (None, rc) \<Rightarrow> Inl ISCSI_ERR_LOGIN
           | (Some s, _) \<Rightarrow>
               if fst host \<noteq> 0 then Inl (fst host)
               else
                 case session_conn_create env (s\<lparr>sid := nsid, hostno := snd host, r_stage := R_STAGE_SESSION_REOPEN\<rparr>) of (s, rc) \<Rightarrow>
                   if rc \<noteq> 0 then Inl rc
                   else Inr (session_conn_reopen env qtask STOP_CONN_RECOVER
                          (s\<lparr>c_state := ISCSI_CONN_STATE_CLEANUP_WAIT, notify_qtask := Some qtask\<rparr>))))"

subsection \<open>Events of a session\<close>

text \<open>The messages of the kernel that concern a connection.\<close>

datatype kernel_event =
    KEVENT_RECV_PDU | KEVENT_CONN_ERROR int | KEVENT_CONN_LOGIN_STATE iscsi_conn_state | KEVENT_UNBIND_SESSION

fun kernel_event_data :: "kernel_event \<Rightarrow> ev_data" where
  "kernel_event_data (KEVENT_CONN_ERROR e) = Data_error e"
| "kernel_event_data (KEVENT_CONN_LOGIN_STATE st) = Data_state st"
| "kernel_event_data _ = Data_none"

fun kernel_event_ev :: "kernel_event \<Rightarrow> iscsi_event" where
  "kernel_event_ev KEVENT_RECV_PDU = EV_CONN_RECV_PDU"
| "kernel_event_ev (KEVENT_CONN_ERROR e) = EV_CONN_ERROR"
| "kernel_event_ev (KEVENT_CONN_LOGIN_STATE st) = EV_CONN_LOGIN"
| "kernel_event_ev KEVENT_UNBIND_SESSION = EV_CONN_STOP"

definition ctldev_handle :: "kenv \<Rightarrow> kernel_event \<Rightarrow> sess \<Rightarrow> sess" where
  "ctldev_handle env kev s =
     (case iscsi_ev_context_get (k_fits env) s of
        (s, None) \<Rightarrow> s
      | (s, Some i) \<Rightarrow>
          if \<not> k_read_ok env then iscsi_ev_context_put i s
          else iscsi_sched_ev_context i 0 (kernel_event_ev kev) (set_ev_data i (kernel_event_data kev) s))"

text \<open>The callback of the actor of an event context.\<close>

fun ev_callback :: "kenv \<Rightarrow> iscsi_event \<Rightarrow> nat \<Rightarrow> sess \<Rightarrow> sess" where
  "ev_callback env EV_CONN_RECV_PDU i s = session_conn_recv_pdu env i s"
| "ev_callback env EV_CONN_POLL i s = session_conn_poll env i s"
| "ev_callback env EV_CONN_ERROR i s = session_conn_error env i s"
| "ev_callback env EV_CONN_LOGOUT_TIMER i s = iscsi_logout_timedout env i s"
| "ev_callback env EV_CONN_STOP i s = iscsi_stop env i s"
| "ev_callback env EV_CONN_LOGIN i s = session_conn_process_login env i s"
| "ev_callback env EV_UNKNOWN i s = s"

fun nop_timer_callback :: "kenv \<Rightarrow> nop_callback \<Rightarrow> sess \<Rightarrow> sess" where
  "nop_timer_callback env conn_send_nop_out_cb s = conn_send_nop_out s"
| "nop_timer_callback env conn_nop_out_timeout_cb s = conn_nop_out_timeout env s"

text \<open>The scheduler runs an actor that is queued: it is no longer queued when its callback is called.\<close>

fun run_actor :: "kenv \<Rightarrow> actor_id \<Rightarrow> sess \<Rightarrow> sess" where
  "run_actor env Login_timer s =
     (case login_timer s of
        Some (d, q) \<Rightarrow> iscsi_login_timedout env q (emit (ACT Login_timer A_RUN) (s\<lparr>login_timer := None\<rparr>))
      | None \<Rightarrow> s)"
| "run_actor env Nop_out_timer s =
     (case nop_out_timer s of
        Some (d, cb) \<Rightarrow> nop_timer_callback env cb (emit (ACT Nop_out_timer A_RUN) (s\<lparr>nop_out_timer := None\<rparr>))
      | None \<Rightarrow> s)"
| "run_actor env (Ev_actor i) s =
     (if i < length (context_pool s)
      then case context_pool s ! i of
          Some c \<Rightarrow>
            (case ev_pending c of
               Some (ev, d) \<Rightarrow>
                 ev_callback env ev i (emit (ACT (Ev_actor i) A_RUN) (upd_context i (\<lambda>c. c\<lparr>ev_pending := None\<rparr>) s))
             | None \<Rightarrow> s)
        | None \<Rightarrow> s
      else s)"

text \<open>The events of a session. A request to log out is answered by \<open>mgmt_ipc_handle\<close> when the task returns an error.\<close>

datatype session_event = Run_actor actor_id | Kernel_event kernel_event | Logout nat bool

fun session_step :: "kenv \<Rightarrow> session_event \<Rightarrow> sess \<Rightarrow> sess" where
  "session_step env (Run_actor a) s = run_actor env a s"
| "session_step env (Kernel_event kev) s = ctldev_handle env kev s"
| "session_step env (Logout n in_use) s =
     (case session_logout_task env in_use (Task n) s of (s, rc) \<Rightarrow>
        if rc \<noteq> ISCSI_SUCCESS then mgmt_ipc_write_rsp (Some (Task n)) rc s else s)"

text \<open>A run: nothing happens to a session that has been released.\<close>

fun session_run :: "(kenv \<times> session_event) list \<Rightarrow> sess \<Rightarrow> sess" where
  "session_run [] s = s"
| "session_run ((env, ev) # evs) s = session_run evs (if freed s then s else session_step env ev s)"

end
