(* ===== verification/Login_Auth.thy ===== *)
theory Login_Auth
  imports Login_Exchange
begin

text \<open>
  What a login that succeeds has established. The texts of a response in the security stage are
  steps of the authentication client (\<open>scan_text_steps\<close>), so the trace of received keys consists of
  pairs that the responses contained; a response that leaves the security stage leaves it with the
  target verified (\<open>security_response\<close>). \<open>login_inv\<close> is the invariant of the loop of
  \<open>iscsi_login\<close>: in the security stage the client of the session is the state of a run, and past it
  the target has been verified. \<open>login_loop_inv\<close> carries it to the return of \<open>iscsi_login\<close>.
\<close>

subsection \<open>Keys of a response\<close>

text \<open>\<open>pair_at pos (k, v)\<close>: the pair \<open>k=v\<close> is one of the pairs of the text: it starts at the start of the text
  or behind a NUL character, and its value ends before a NUL character or at the end of the text. The key values
  handed to the client are pairs of the text.\<close>

definition pair_at :: "string \<Rightarrow> int \<times> string \<Rightarrow> bool" where
  "pair_at pos = (\<lambda>(k, v). \<exists>name a b. acl_get_key_name k = Some name \<and> pos = a @ name @ ''='' @ v @ b \<and> is_cstr v \<and>
     (a = [] \<or> last a = NUL) \<and> (b = [] \<or> hd b = NUL))"

definition text_keys :: "string \<Rightarrow> (int \<times> string) list \<Rightarrow> bool" where
  "text_keys pos tr \<longleftrightarrow> (\<forall>kv \<in> set tr. pair_at pos kv)"

lemma text_keys_Nil [simp]: "text_keys pos []"
  by (simp add: text_keys_def)

lemma text_keys_append [simp]: "text_keys pos (tr @ tr') \<longleftrightarrow> text_keys pos tr \<and> text_keys pos tr'"
  unfolding text_keys_def set_append ball_Un by (rule refl)

lemma key_name_start:
  assumes "acl_get_key_name k = Some name"
  shows "name \<noteq> []" "hd name \<noteq> NUL"
proof -
  have "0 \<le> k" "nat k < 6" using assms by (auto simp: acl_get_key_name_def AUTH_KEY_TYPE_FIRST_def AUTH_KEY_TYPE_LAST_def split: if_splits)
  then have "nat k \<in> {0, 1, 2, 3, 4, 5}" by auto
  then show "name \<noteq> []" "hd name \<noteq> NUL" using assms by (auto simp: acl_get_key_name_def split: if_splits)
qed

text \<open>Where a suffix of a text may start so that its pairs are pairs of the text.\<close>

definition pair_border :: "string \<Rightarrow> string \<Rightarrow> bool" where
  "pair_border pre pos \<longleftrightarrow> pre = [] \<or> last pre = NUL \<or> pos = [] \<or> hd pos = NUL"

lemma pair_at_suffix:
  assumes "pair_at pos (k, v)" "pair_border pre pos"
  shows "pair_at (pre @ pos) (k, v)"
proof -
  obtain name a b where n: "acl_get_key_name k = Some name" and p: "pos = a @ name @ ''='' @ v @ b"
    and d: "is_cstr v" "a = [] \<or> last a = NUL" "b = [] \<or> hd b = NUL"
    using assms(1) by (auto simp: pair_at_def)
  have "pre @ a = [] \<or> last (pre @ a) = NUL"
    using assms(2) p d(2) key_name_start [OF n] by (cases "a = []") (auto simp: pair_border_def)
  then have "acl_get_key_name k = Some name \<and> pre @ pos = (pre @ a) @ name @ ''='' @ v @ b \<and> is_cstr v \<and>
      (pre @ a = [] \<or> last (pre @ a) = NUL) \<and> (b = [] \<or> hd b = NUL)"
    using n p d by simp
  then show ?thesis unfolding pair_at_def prod.case by blast
qed

lemma text_keys_suffix:
  assumes "text_keys pos tr" "pair_border pre pos"
  shows "text_keys (pre @ pos) tr"
  using assms pair_at_suffix by (auto simp: text_keys_def)

definition session_frame where
  "session_frame s =
     (peer_account s, auth_buffers s, bidirectional_auth s, current_stage (conn s),
      acl_setup (auth_client_block s), transit_bit (recv_key_block (auth_client_block s)))"

definition key_steps :: "digests \<Rightarrow> string \<Rightarrow> (int \<times> string) list \<Rightarrow> iscsi_session \<Rightarrow> iscsi_session \<Rightarrow> bool" where
  "key_steps D pos tr' s s' \<longleftrightarrow>
     (\<forall>tr. acl_run D (peer_account s) tr (auth_client_block s) \<longrightarrow>
        acl_run D (peer_account s) (tr' @ tr) (auth_client_block s')) \<and>
     text_keys pos tr' \<and> session_frame s' = session_frame s"

lemma key_steps_same:
  "auth_client_block s' = auth_client_block s \<Longrightarrow> session_frame s' = session_frame s \<Longrightarrow> key_steps D pos [] s s'"
  by (simp add: key_steps_def)

lemma key_steps_trans:
  assumes "key_steps D pos tr1 s s'" "key_steps D pos' tr2 s' s''" "pos = pre @ pos'" "pair_border pre pos'"
  shows "key_steps D pos (tr2 @ tr1) s s''"
proof -
  have "peer_account s' = peer_account s" using assms(1) by (simp add: key_steps_def session_frame_def)
  with assms show ?thesis by (auto simp: key_steps_def text_keys_suffix)
qed

lemma transit_bit_set_key_value [simp]: "transit_bit (acl_set_key_value b k v) = transit_bit b"
  by (auto simp: acl_set_key_value_cases mark_set_def store_value_def split: option.splits)

lemma transit_bit_recv_key [simp]:
  "transit_bit (recv_key_block (fst (acl_recv_key_value c k v))) = transit_bit (recv_key_block c)"
  by (simp add: acl_recv_key_value_def acl_error_def Let_def split: prod.splits)

lemma session_frame_simps [simp]:
  "session_frame (s\<lparr>target_alias := a\<rparr>) = session_frame s"
  "session_frame (s\<lparr>portal_group_tag := t\<rparr>) = session_frame s"
  "session_frame (upd_conn (saddr_update f) s) = session_frame s"
  by (simp_all add: session_frame_def upd_conn_def)

lemma auth_block_simps [simp]:
  "auth_client_block (upd_conn f s) = auth_client_block s" "auth_client_block (upd_acl c s) = c"
  "peer_account (upd_acl c s) = peer_account s" "peer_account (upd_conn f s) = peer_account s"
  "auth_buffers (upd_acl c s) = auth_buffers s" "auth_buffers (upd_conn f s) = auth_buffers s"
  "bidirectional_auth (upd_acl c s) = bidirectional_auth s" "bidirectional_auth (upd_conn f s) = bidirectional_auth s"
  "conn (upd_acl c s) = conn s" "conn (upd_conn f s) = f (conn s)"
  by (simp_all add: upd_conn_def upd_acl_def)

lemma auth_key_loop_steps:
  "auth_key_loop s kt pos = (s', r) \<Longrightarrow> \<exists>tr. key_steps D pos tr s s'"
proof (induction s kt pos rule: auth_key_loop.induct)
  case (1 s kt pos)
  show ?case
  proof (cases "acl_get_next_key_type kt")
    case None
    with 1(2) have "s' = s" by (simp add: auth_key_loop.simps)
    then show ?thesis using key_steps_same by blast
  next
    case (Some k)
    show ?thesis
    proof (cases "Option.bind (acl_get_key_name k) (\<lambda>n. iscsi_find_key_value n pos)")
      case None
      with 1 Some show ?thesis by (simp add: auth_key_loop.simps [of s kt])
    next
      case F: (Some vr)
      then obtain name v rest where vr: "vr = (v, rest)" "acl_get_key_name k = Some name"
        "iscsi_find_key_value name pos = Some (v, rest)"
        by (cases vr) (auto simp: bind_eq_Some_conv)
      then have v: "is_cstr v" "pos = [] @ name @ ''='' @ v @ rest" "rest = [] \<or> hd rest = NUL"
        by (simp_all add: find_key_value_Some)
      have s': "s' = upd_acl (fst (acl_recv_key_value (auth_client_block s) k v)) s"
        using 1(2) Some F vr(1) by (simp add: auth_key_loop.simps [of s kt] split: prod.splits if_splits)
      have "text_keys pos [(k, v)]" using vr(2) v by (auto simp: text_keys_def pair_at_def)
      moreover have "session_frame s' = session_frame s" by (simp add: s' session_frame_def)
      ultimately have "key_steps D pos [(k, v)] s s'"
        using acl_run.recv_key [of D "peer_account s" _ "auth_client_block s" v k] v(1) by (simp add: key_steps_def s')
      then show ?thesis by blast
    qed
  qed
qed

lemma update_address_frame:
  assumes "iscsi_update_address env s a = (s', ok)"
  shows "auth_client_block s' = auth_client_block s" "session_frame s' = session_frame s"
  using assms by (auto simp: iscsi_update_address_def Let_def split: option.splits prod.splits)

lemma security_keys_steps:
  assumes "get_security_text_keys env s pos = (s', r)"
  shows "\<exists>tr. key_steps D pos tr s s'"
proof (cases "first_key [''TargetAlias'', ''TargetAddress'', ''TargetPortalGroupTag''] pos")
  case None
  then have "get_auth_key_type s pos = (s', r)"
    using assms by (auto simp: get_security_text_keys_def split: option.splits)
  then show ?thesis using auth_key_loop_steps by (simp add: get_auth_key_type_def)
next
  case (Some x)
  then have "auth_client_block s' = auth_client_block s" "session_frame s' = session_frame s"
    using assms update_address_frame [of env s _ s']
    by (auto simp: get_security_text_keys_def redirect_key_def store_alias_def portal_tag_key_def
        split: option.splits prod.splits)
  then show ?thesis using key_steps_same by blast
qed

lemma security_keys_rest:
  assumes "get_security_text_keys env s pos = (s', Inr rest)"
  shows "\<exists>pre. pos = pre @ rest \<and> pair_border pre rest"
proof -
  have f: "\<exists>pre. pos = pre @ rest \<and> pair_border pre rest" if "iscsi_find_key_value k pos = Some (v, rest)" for k pos v rest
    using that unfolding find_key_value_Some pair_border_def by (metis append.assoc)
  have a: "auth_key_loop s kt pos = (s', Inr rest) \<Longrightarrow> \<exists>pre. pos = pre @ rest \<and> pair_border pre rest" for s kt
  proof (induction s kt pos rule: auth_key_loop.induct)
    case (1 s kt pos)
    from 1(2) show ?case
      by (subst (asm) auth_key_loop.simps)
         (auto split: option.splits prod.splits if_splits simp: bind_eq_Some_conv dest: f intro: 1(1))
  qed
  show ?thesis
    using assms a f
    by (auto simp: get_security_text_keys_def get_auth_key_type_def redirect_key_def
        split: option.splits prod.splits if_splits)
qed

lemma scan_text_steps:
  "in_security s \<Longrightarrow> scan_text env s pos = (s', st) \<Longrightarrow> \<exists>tr. key_steps D pos tr s s'"
proof (induction env s pos rule: scan_text.induct)
  case (1 env s pos)
  define p where "p = dropWhile (\<lambda>c. c = NUL) pos"
  have pre: "pos = takeWhile (\<lambda>c. c = NUL) pos @ p" by (simp add: p_def)
  have border: "pair_border (takeWhile (\<lambda>c. c = NUL) pos) p"
    using set_takeWhileD [OF last_in_set, of "\<lambda>c. c = NUL" pos] by (auto simp: pair_border_def)
  have suffix: "key_steps D pos tr s t" if "key_steps D p tr s t" for tr t
    using that pre text_keys_suffix [OF _ border] by (metis key_steps_def)
  have eq: "scan_text env s pos = (if p = [] then (s, LOGIN_OK)
      else case stage_text_keys env s p of (session, Inl status) \<Rightarrow> (session, status)
        | (session, Inr rest) \<Rightarrow> scan_text env session rest)"
    by (subst scan_text.simps) (simp only: Let_def p_def)
  show ?case
  proof (cases "p = []")
    case True
    with 1(3) have "s' = s" unfolding eq by simp
    then show ?thesis using key_steps_same by blast
  next
    case False
    obtain s1 r where k: "stage_text_keys env s p = (s1, r)" by force
    then have sec: "get_security_text_keys env s p = (s1, r)"
      using 1(2) by (simp add: stage_text_keys_def in_security_def)
    then obtain tr1 where tr1: "key_steps D p tr1 s s1" using security_keys_steps by blast
    have sec1: "in_security s1" using tr1 1(2) by (simp add: key_steps_def session_frame_def in_security_def)
    show ?thesis
    proof (cases r)
      case (Inl st1)
      then have "s' = s1" using 1(3) k False unfolding eq by simp
      then show ?thesis using suffix [OF tr1] by blast
    next
      case (Inr rest)
      then have "scan_text env s1 rest = (s', st)"
        using 1(3) k False unfolding eq by simp
      with 1(1) [OF p_def False k [symmetric] Inr sec1] obtain tr2 where tr2: "key_steps D rest tr2 s1 s'" by blast
      obtain pre2 where "p = pre2 @ rest" "pair_border pre2 rest" using security_keys_rest sec Inr by blast
      then have "key_steps D p (tr2 @ tr1) s s'" using key_steps_trans [OF tr1 tr2] by blast
      then show ?thesis using suffix by blast
    qed
  qed
qed

subsection \<open>A response in the security stage\<close>

lemma recv_begin_setup [simp]: "acl_setup (fst (acl_recv_begin c)) = acl_setup c"
  by (simp add: acl_recv_begin_def recv_begin_reset_def acl_error_def acl_next_phase_def acl_setup_def Let_def)

lemma recv_transit_setup [simp]: "acl_setup (fst (acl_recv_transit_bit c t)) = acl_setup c"
  by (simp add: acl_recv_transit_bit_def acl_error_def acl_setup_def)

lemma recv_transit_stored:
  "acl_recv_transit_bit c t = (d, AUTH_STATUS_NO_ERROR) \<Longrightarrow> transit_bit (recv_key_block d) = t"
  by (auto simp: acl_recv_transit_bit_def acl_error_def set_transit_def split: if_splits)

lemma security_begin_OK:
  assumes "security_begin s t = (s', LOGIN_OK)"
  obtains c where "s' = upd_acl c s" and "transit_bit (recv_key_block c) = t"
    and "acl_setup c = acl_setup (auth_client_block s)"
    and "\<And>D tr. acl_run D (peer_account s) tr (auth_client_block s) \<Longrightarrow> acl_run D (peer_account s) tr c"
proof -
  obtain b st1 where b: "acl_recv_begin (auth_client_block s) = (b, st1)" by force
  obtain c st2 where c: "acl_recv_transit_bit b t = (c, st2)" by force
  from assms b c have "s' = upd_acl c s" "st2 = AUTH_STATUS_NO_ERROR"
    by (auto simp: security_begin_def split: if_splits)
  moreover have "acl_setup c = acl_setup (auth_client_block s)"
    using recv_begin_setup [of "auth_client_block s"] recv_transit_setup [of b t] b c by simp
  moreover have "acl_run D (peer_account s) tr c" if "acl_run D (peer_account s) tr (auth_client_block s)" for D tr
    using acl_run.recv_t [OF acl_run.recv_begin [OF that], of t] b c by simp
  ultimately show thesis using that recv_transit_stored c by blast
qed

lemma security_status_OK:
  assumes eq: "check_security_stage_status env s = (s', LOGIN_OK)"
    and run: "acl_run D (peer_account s) tr (auth_client_block s)" and dl: "digest_lengths D"
    and D: "EVP_digest (auth_env env) = D"
    and ini: "node_type (auth_client_block s) = TYPE_INITIATOR" "auth_rmt (auth_client_block s)"
  obtains c where "s' = upd_acl c s" and "acl_run D (peer_account s) tr c"
    and "acl_setup c = acl_setup (auth_client_block s)"
    and "transit_bit (recv_key_block (auth_client_block s)) \<longrightarrow> verified D (peer_account s) tr c"
proof -
  let ?c = "auth_client_block s"
  note inv = acl_run_inv [OF run dl]
  obtain c st where c: "acl_recv_end (auth_env env) ?c (Some (peer_account s)) = (c, st)" by force
  with eq have s': "s' = upd_acl c s" and st: "st = AUTH_STATUS_CONTINUE \<or> st = AUTH_STATUS_PASS"
    by (auto simp: check_security_stage_status_def split: if_splits)
  have "verified D (peer_account s) tr c" if "transit_bit (recv_key_block ?c)"
    using transit_bit_final_inv [OF inv dl D ini(1) that] recv_end_pass_verified [OF inv dl D ini(2)] st c by auto
  moreover have "acl_run D (peer_account s) tr c" using acl_run.recv_end [OF run D] c by simp
  ultimately show thesis using that s' acl_recv_end_fixed(1) [OF inv c] by blast
qed

lemma record_rsp_frame [simp]:
  "auth_client_block (record_rsp s rsp) = auth_client_block s" "peer_account (record_rsp s rsp) = peer_account s"
  "auth_buffers (record_rsp s rsp) = auth_buffers s" "bidirectional_auth (record_rsp s rsp) = bidirectional_auth s"
  "current_stage (conn (record_rsp s rsp)) = current_stage (conn s)"
  by (simp_all add: record_rsp_def Let_def upd_conn_def)

lemma next_stage_frame [simp]:
  "auth_client_block (next_stage_rsp s rsp) = auth_client_block s" "peer_account (next_stage_rsp s rsp) = peer_account s"
  "auth_buffers (next_stage_rsp s rsp) = auth_buffers s"
  "bidirectional_auth (next_stage_rsp s rsp) = bidirectional_auth s"
  "current_stage (conn (next_stage_rsp s rsp)) =
     (if rsp_transit rsp then rsp_next_stage rsp else current_stage (conn s))"
  by (simp_all add: next_stage_rsp_def upd_conn_def)

definition rsp_text :: "login_rsp_hdr \<Rightarrow> string \<Rightarrow> string" where
  "rsp_text rsp data = take (ntoh24 (rsp_dlength rsp) + 1) data"

text \<open>The three stations of a response that is processed without error.\<close>

lemma process_response_OK:
  assumes "iscsi_process_login_response env s rsp data m = (s', LOGIN_OK)"
  obtains s1 s2 s3 where "rsp_sanity s rsp = None"
    and "(if in_security s then security_begin s (rsp_transit rsp) else (s, LOGIN_OK)) = (s1, LOGIN_OK)"
    and "scan_text env s1 (rsp_text rsp data) = (s2, LOGIN_OK)"
    and "(if in_security s2 then check_security_stage_status env s2 else (s2, LOGIN_OK)) = (s3, LOGIN_OK)"
    and "s' = next_stage_rsp (record_rsp s3 rsp) rsp"
proof -
  have "rsp_sanity s rsp \<noteq> Some LOGIN_OK" by (simp add: rsp_sanity_def)
  with assms have sane: "rsp_sanity s rsp = None"
    by (auto simp: iscsi_process_login_response_def Let_def split: if_splits option.splits)
  obtain s1 st1 where 1: "(if in_security s then security_begin s (rsp_transit rsp) else (s, LOGIN_OK)) = (s1, st1)"
    by force
  obtain s2 st2 where 2: "scan_text env s1 (rsp_text rsp data) = (s2, st2)" by force
  obtain s3 st3 where 3: "(if in_security s2 then check_security_stage_status env s2 else (s2, LOGIN_OK)) = (s3, st3)"
    by force
  have "st1 = LOGIN_OK \<and> st2 = LOGIN_OK \<and> st3 = LOGIN_OK \<and> s' = next_stage_rsp (record_rsp s3 rsp) rsp"
    using assms 2 3 unfolding iscsi_process_login_response_def Let_def sane 1 rsp_text_def
    by (auto split: if_splits)
  with that sane 1 2 3 show thesis by blast
qed

lemma security_response:
  assumes run: "acl_run D (peer_account s) tr (auth_client_block s)" and dl: "digest_lengths D"
    and D: "EVP_digest (auth_env env) = D" and sec: "in_security s"
    and ini: "node_type (auth_client_block s) = TYPE_INITIATOR" "auth_rmt (auth_client_block s)"
    and eq: "iscsi_process_login_response env s rsp data m = (s', LOGIN_OK)"
  obtains tr' where "acl_run D (peer_account s) (tr' @ tr) (auth_client_block s')"
    and "text_keys (rsp_text rsp data) tr'" and "acl_setup (auth_client_block s') = acl_setup (auth_client_block s)"
    and "peer_account s' = peer_account s" "auth_buffers s' = auth_buffers s"
      "current_stage (conn s') = (if rsp_transit rsp then rsp_next_stage rsp else current_stage (conn s))"
    and "rsp_transit rsp \<longrightarrow> verified D (peer_account s) (tr' @ tr) (auth_client_block s')"
proof -
  obtain s1 s2 s3 where b: "security_begin s (rsp_transit rsp) = (s1, LOGIN_OK)"
    and k: "scan_text env s1 (rsp_text rsp data) = (s2, LOGIN_OK)"
    and e: "(if in_security s2 then check_security_stage_status env s2 else (s2, LOGIN_OK)) = (s3, LOGIN_OK)"
    and s': "s' = next_stage_rsp (record_rsp s3 rsp) rsp"
    using process_response_OK [OF eq] sec by metis
  obtain c1 where c1: "s1 = upd_acl c1 s" "transit_bit (recv_key_block c1) = rsp_transit rsp"
      "acl_setup c1 = acl_setup (auth_client_block s)" "acl_run D (peer_account s) tr c1"
    using security_begin_OK [OF b] run by metis
  have "in_security s1" using sec c1(1) by (simp add: in_security_def)
  from scan_text_steps [OF this k] obtain tr' where tr': "key_steps D (rsp_text rsp data) tr' s1 s2" by blast
  have f: "peer_account s2 = peer_account s" "auth_buffers s2 = auth_buffers s"
      "current_stage (conn s2) = current_stage (conn s)"
      "acl_setup (auth_client_block s2) = acl_setup (auth_client_block s)"
      "transit_bit (recv_key_block (auth_client_block s2)) = rsp_transit rsp"
    using tr' c1 by (simp_all add: key_steps_def session_frame_def)
  have run2: "acl_run D (peer_account s2) (tr' @ tr) (auth_client_block s2)"
    using tr' c1 f by (simp add: key_steps_def)
  have i2: "node_type (auth_client_block s2) = TYPE_INITIATOR" "auth_rmt (auth_client_block s2)"
    using acl_setupD(1,2) [OF f(4)] ini by simp_all
  have "check_security_stage_status env s2 = (s3, LOGIN_OK)" using e sec f by (simp add: in_security_def)
  from security_status_OK [OF this run2 dl D i2] obtain c3 where c3: "s3 = upd_acl c3 s2" "acl_run D (peer_account s2) (tr' @ tr) c3"
      "acl_setup c3 = acl_setup (auth_client_block s2)"
      "transit_bit (recv_key_block (auth_client_block s2)) \<longrightarrow> verified D (peer_account s2) (tr' @ tr) c3"
    by blast
  show thesis
    by (rule that [of tr']) (use tr' c3 f s' in \<open>simp_all add: key_steps_def\<close>)
qed

subsection \<open>The other stages leave the client alone\<close>

definition op_frame where
  "op_frame s = (auth_client_block s, peer_account s, auth_buffers s, bidirectional_auth s, current_stage (conn s))"

lemma op_frameD:
  assumes "op_frame s = op_frame t"
  shows "auth_client_block s = auth_client_block t" "peer_account s = peer_account t" "auth_buffers s = auth_buffers t"
    "current_stage (conn s) = current_stage (conn t)"
  using assms by (simp_all add: op_frame_def)

text \<open>A view of the session that does not show the operational parameters is the same after every key that sets one.
  The keys of the digests are left out: \<open>digest_free_view\<close> does not show the digests either. A \<open>client_free_view\<close> does not
  show the authentication client.\<close>

locale param_view =
  fixes view :: "iscsi_session \<Rightarrow> 'v"
  assumes view_params:
    "view (s\<lparr>initial_r2t_en := w\<rparr>) = view s" "view (s\<lparr>imm_data_en := w\<rparr>) = view s" "view (s\<lparr>first_burst := w\<rparr>) = view s"
    "view (s\<lparr>max_burst := w\<rparr>) = view s" "view (s\<lparr>def_time2wait := w\<rparr>) = view s" "view (s\<lparr>def_time2retain := w\<rparr>) = view s"
    "view (s\<lparr>pdu_inorder_en := w\<rparr>) = view s" "view (s\<lparr>dataseq_inorder_en := w\<rparr>) = view s" "view (s\<lparr>max_r2t := w\<rparr>) = view s"
    "view (s\<lparr>irrelevant_keys_bitmap := w\<rparr>) = view s"
    and view_names: "view (s\<lparr>target_alias := n\<rparr>) = view s" "view (s\<lparr>portal_group_tag := i\<rparr>) = view s"
    and view_conn: "view (upd_conn (max_recv_dlength_update f) s) = view s" "view (upd_conn (max_xmit_dlength_update f) s) = view s"
      "view (upd_conn (saddr_update g) s) = view s"
begin

lemma view_normal_key: "(\<And>s. view (upd s) = view s) \<Longrightarrow> view (normal_key upd irr s) = view s"
  by (simp add: normal_key_def view_params)

lemma view_alias: "view (store_alias env s v r) = view s" "view (portal_tag_key s v) = view s"
  by (simp_all add: store_alias_def portal_tag_key_def view_names)

lemma view_param_value: "view (op_param_value env s k v r) = view s"
  unfolding op_param_value_def
  by (simp add: op_alias_key_def max_recv_key_def Let_def view_alias view_params view_conn view_normal_key)

lemma view_update_address: "iscsi_update_address env s a = (t, ok) \<Longrightarrow> view t = view s"
  by (auto simp: iscsi_update_address_def Let_def view_names view_conn split: option.splits prod.splits)

end

locale digest_free_view = param_view +
  assumes view_digests: "view (upd_conn (hdrdgst_en_update f) s) = view s" "view (upd_conn (datadgst_en_update f) s) = view s"
begin

lemma view_op_keys: "get_op_params_text_keys env s pos = (t, r) \<Longrightarrow> view t = view s"
  using view_update_address
  by (auto simp: get_op_params_text_keys_def redirect_key_def header_digest_key_def data_digest_key_def view_digests
      view_param_value split: option.splits prod.splits if_splits)

end

locale client_free_view = param_view +
  assumes view_client: "view (upd_acl a s) = view s"
begin

lemma view_auth_key_loop: "auth_key_loop s k pos = (t, r) \<Longrightarrow> view t = view s"
  by (induction s k pos rule: auth_key_loop.induct)
    (subst (asm) (2) auth_key_loop.simps, auto simp: view_client split: option.splits prod.splits)

lemma view_security_keys: "get_security_text_keys env s pos = (t, r) \<Longrightarrow> view t = view s"
  using view_update_address view_auth_key_loop
  by (auto simp: get_security_text_keys_def get_auth_key_type_def redirect_key_def view_alias split: option.splits prod.splits)

end

interpretation op_frame: digest_free_view op_frame
  by unfold_locales (simp_all add: op_frame_def)

text \<open>What every key of a text keeps, the whole text keeps: \<open>P\<close> is kept by each key, and \<open>R\<close> relates the
  session before a key to the session after it.\<close>

locale text_scan =
  fixes P :: "iscsi_session \<Rightarrow> bool" and R :: "iscsi_session \<Rightarrow> iscsi_session \<Rightarrow> bool"
  assumes R_refl: "R s s" and R_trans: "R s t \<Longrightarrow> R t u \<Longrightarrow> R s u"
    and key: "P s \<Longrightarrow> stage_text_keys env s pos = (t, r) \<Longrightarrow> R s t \<and> P t"
begin

lemma scan_text_keeps: "P s \<Longrightarrow> scan_text env s pos = (t, st) \<Longrightarrow> R s t \<and> P t"
proof (induction env s pos rule: scan_text.induct)
  case (1 env s pos)
  define p where "p = dropWhile (\<lambda>c. c = NUL) pos"
  have eq: "scan_text env s pos = (if p = [] then (s, LOGIN_OK)
      else case stage_text_keys env s p of (session, Inl status) \<Rightarrow> (session, status)
        | (session, Inr rest) \<Rightarrow> scan_text env session rest)"
    by (subst scan_text.simps) (simp only: Let_def p_def)
  obtain s1 r where k: "stage_text_keys env s p = (s1, r)" by force
  note s1 = key [OF 1(2) k]
  show ?case
  proof (cases "p = []")
    case True
    with 1(2,3) R_refl show ?thesis unfolding eq by simp
  next
    case False
    show ?thesis
    proof (cases r)
      case (Inl a)
      with 1(3) False k s1 show ?thesis unfolding eq by simp
    next
      case (Inr rest)
      with 1(3) False k have "scan_text env s1 rest = (t, st)" unfolding eq by simp
      with 1(1) [OF p_def False k [symmetric] Inr] s1 R_trans show ?thesis by blast
    qed
  qed
qed

end

interpretation op_scan: text_scan "\<lambda>s. \<not> in_security s" "\<lambda>s t. op_frame t = op_frame s"
proof unfold_locales
  show "op_frame t = op_frame s \<and> \<not> in_security t"
    if "\<not> in_security s" "stage_text_keys env s pos = (t, r)" for env s pos t r
  proof -
    have "op_frame t = op_frame s"
      using that op_frame.view_op_keys by (auto simp: stage_text_keys_def in_security_def split: if_splits)
    with op_frameD(4) [OF this] that(1) show ?thesis by (simp add: in_security_def)
  qed
qed simp_all

lemmas scan_text_frame = op_scan.scan_text_keeps [THEN conjunct1]

lemma other_stage_response:
  assumes "iscsi_process_login_response env s rsp data m = (s', LOGIN_OK)" and "\<not> in_security s"
  shows "auth_client_block s' = auth_client_block s" "peer_account s' = peer_account s" "auth_buffers s' = auth_buffers s"
    "current_stage (conn s') = (if rsp_transit rsp then rsp_next_stage rsp else current_stage (conn s))"
proof -
  obtain s2 s3 where k: "scan_text env s (rsp_text rsp data) = (s2, LOGIN_OK)"
    and e: "(if in_security s2 then check_security_stage_status env s2 else (s2, LOGIN_OK)) = (s3, LOGIN_OK)"
    and s': "s' = next_stage_rsp (record_rsp s3 rsp) rsp"
    using process_response_OK [OF assms(1)] assms(2) by (metis prod.inject)
  have f: "op_frame s2 = op_frame s" by (rule scan_text_frame [OF assms(2) k])
  then have "s3 = s2" using e assms(2) op_frameD(4) by (fastforce simp: in_security_def)
  with s' op_frameD [OF f]
  show "auth_client_block s' = auth_client_block s" "peer_account s' = peer_account s" "auth_buffers s' = auth_buffers s"
    "current_stage (conn s') = (if rsp_transit rsp then rsp_next_stage rsp else current_stage (conn s))"
    by simp_all
qed

lemma response_stage:
  assumes "iscsi_process_login_response env s rsp data m = (s', LOGIN_OK)" and "status_class rsp = ISCSI_STATUS_CLS_SUCCESS"
  shows "0 \<le> current_stage (conn s)" and "rsp_transit rsp \<Longrightarrow> current_stage (conn s) < rsp_next_stage rsp"
proof -
  obtain "rsp_sanity s rsp = None" by (rule process_response_OK [OF assms(1)])
  then have "rsp_current_stage rsp = current_stage (conn s)"
    and "rsp_transit rsp \<Longrightarrow> current_stage (conn s) < rsp_next_stage rsp"
    using assms(2) by (auto simp: rsp_sanity_def split: if_splits)
  moreover have "0 \<le> rsp_current_stage rsp" by (simp add: rsp_current_stage_def)
  ultimately show "0 \<le> current_stage (conn s)" and "rsp_transit rsp \<Longrightarrow> current_stage (conn s) < rsp_next_stage rsp"
    by simp_all
qed

subsection \<open>The invariant of a login\<close>

text \<open>\<open>key_in T (k, v)\<close>: the pair \<open>k=v\<close> is a pair of one of the texts \<open>T\<close>.\<close>

definition key_in :: "string set \<Rightarrow> int \<times> string \<Rightarrow> bool" where
  "key_in T kv \<longleftrightarrow> (\<exists>t. t \<in> T \<and> pair_at t kv)"

lemma text_keys_in: "text_keys pos tr \<Longrightarrow> pos \<in> T \<Longrightarrow> kv \<in> set tr \<Longrightarrow> key_in T kv"
  by (auto simp: text_keys_def key_in_def)

definition login_inv :: "digests \<Rightarrow> auth_session \<Rightarrow> string set \<Rightarrow> iscsi_session \<Rightarrow> bool" where
  "login_inv D acct T s \<longleftrightarrow>
     peer_account s = acct \<and> auth_buffers s \<noteq> [] \<and>
     node_type (auth_client_block s) = TYPE_INITIATOR \<and> auth_rmt (auth_client_block s) \<and>
     (\<exists>tr. acl_run D acct tr (auth_client_block s) \<and> (\<forall>kv \<in> set tr. key_in T kv) \<and>
       (current_stage (conn s) \<notin> {ISCSI_INITIAL_LOGIN_STAGE, ISCSI_SECURITY_NEGOTIATION_STAGE} \<longrightarrow>
          verified D acct tr (auth_client_block s)))"

lemma response_inv:
  assumes inv: "login_inv D acct T s" and dl: "digest_lengths D" and D: "EVP_digest (auth_env env) = D"
    and eq: "iscsi_process_login_response env s rsp data m = (s', LOGIN_OK)"
    and cls: "status_class rsp = ISCSI_STATUS_CLS_SUCCESS" and txt_in: "rsp_text rsp data \<in> T"
  shows "login_inv D acct T s'"
proof -
  from inv obtain tr where run: "acl_run D (peer_account s) tr (auth_client_block s)"
    and keys: "\<forall>kv \<in> set tr. key_in T kv"
    and v: "current_stage (conn s) \<notin> {ISCSI_INITIAL_LOGIN_STAGE, ISCSI_SECURITY_NEGOTIATION_STAGE} \<longrightarrow>
      verified D acct tr (auth_client_block s)"
    and f: "peer_account s = acct" "auth_buffers s \<noteq> []" "node_type (auth_client_block s) = TYPE_INITIATOR"
      "auth_rmt (auth_client_block s)"
    by (auto simp: login_inv_def)
  note st = response_stage [OF eq cls]
  show ?thesis
  proof (cases "in_security s")
    case True
    obtain tr' where "acl_run D (peer_account s) (tr' @ tr) (auth_client_block s')"
      and tk: "text_keys (rsp_text rsp data) tr'"
      and su: "acl_setup (auth_client_block s') = acl_setup (auth_client_block s)"
      and "peer_account s' = peer_account s" "auth_buffers s' = auth_buffers s"
        "current_stage (conn s') = (if rsp_transit rsp then rsp_next_stage rsp else current_stage (conn s))"
      and "rsp_transit rsp \<longrightarrow> verified D (peer_account s) (tr' @ tr) (auth_client_block s')"
      using security_response [OF run dl D True f(3,4) eq] by blast
    then show ?thesis
      using f acl_setupD(1,2) [OF su] True keys text_keys_in [OF tk txt_in]
      by (auto simp: login_inv_def in_security_def intro!: exI [of _ "tr' @ tr"])
  next
    case False
    from other_stage_response [OF eq False] False v st run keys f show ?thesis
      by (auto simp: login_inv_def in_security_def stage_defs)
  qed
qed

lemma response_setup:
  assumes inv: "login_inv D acct T s" and dl: "digest_lengths D" and D: "EVP_digest (auth_env env) = D"
    and eq: "iscsi_process_login_response env s rsp data m = (s', LOGIN_OK)"
  shows "acl_setup (auth_client_block s') = acl_setup (auth_client_block s)"
proof (cases "in_security s")
  case True
  obtain tr where run: "acl_run D (peer_account s) tr (auth_client_block s)"
      and i: "node_type (auth_client_block s) = TYPE_INITIATOR" "auth_rmt (auth_client_block s)"
    using inv by (auto simp: login_inv_def)
  show ?thesis by (rule security_response [OF run dl D True i eq])
qed (use other_stage_response(1) [OF eq] in simp)

subsubsection \<open>Requests\<close>

lemma send_key_setup [simp]: "acl_setup (fst (acl_send_key_val c k n)) = acl_setup c"
  by (simp add: acl_send_key_val_def acl_setup_def Let_def split: prod.splits option.splits)

lemma send_transit_setup [simp]: "acl_setup (fst (acl_send_transit_bit c)) = acl_setup c"
  by (simp add: acl_send_transit_bit_def acl_setup_def)

text \<open>A step that only reads from the client.\<close>

definition send_steps :: "iscsi_session \<Rightarrow> iscsi_session \<Rightarrow> bool" where
  "send_steps s s' \<longleftrightarrow>
     (\<forall>D acct tr. acl_run D acct tr (auth_client_block s) \<longrightarrow> acl_run D acct tr (auth_client_block s')) \<and>
     peer_account s' = peer_account s \<and> auth_buffers s' = auth_buffers s \<and>
     current_stage (conn s') = current_stage (conn s) \<and>
     acl_setup (auth_client_block s') = acl_setup (auth_client_block s)"

lemma enum_auth_keys_steps: "send_steps (fst sp) (fst (enum_auth_keys m kt sp))"
proof -
  obtain s hdr data where sp: "sp = (s, hdr, data)" by (cases sp) auto
  have "\<exists>n. fst (enum_auth_keys m kt sp) = upd_acl (fst (acl_send_key_val (auth_client_block s) kt n)) s"
    unfolding sp enum_auth_keys_def Let_def by (auto simp: case_prod_beta)
  then show ?thesis using acl_run.send_key by (auto simp: send_steps_def sp)
qed

lemma enum_keys_loop_steps: "send_steps (fst sp) (fst (enum_keys_loop m kt sp))"
proof (induction m kt sp rule: enum_keys_loop.induct)
  case (1 m kt sp)
  show ?case
  proof (cases "acl_get_next_key_type kt")
    case None
    then show ?thesis by (simp add: enum_keys_loop.simps [of m kt] send_steps_def)
  next
    case (Some k)
    with 1 [OF Some] enum_auth_keys_steps [of sp m k] show ?thesis
      by (simp add: enum_keys_loop.simps [of m kt] send_steps_def)
  qed
qed

lemma fill_security_steps:
  assumes "fill_security_params_text s m pdu = (s', Some r)"
  shows "send_steps s s'"
proof -
  obtain c rc t where c: "acl_send_transit_bit (auth_client_block s) = (c, rc, t)" by (metis prod_cases3)
  from assms c obtain tb where tb: "t = Some tb" "auth_buffers s \<noteq> []"
    by (auto simp: fill_security_params_text_def Let_def split: if_splits option.splits)
  define s1 where "s1 = upd_conn (next_stage_update (\<lambda>_. security_next_stage (upd_acl c s) tb)) (upd_acl c s)"
  have "s' = fst (enum_keys_loop m AUTH_KEY_TYPE_NONE (s1, pdu))"
    using assms c tb by (auto simp: fill_security_params_text_def Let_def s1_def split: prod.splits)
  moreover have "send_steps s s1"
    using acl_run.send_t [of _ _ _ "auth_client_block s"] send_transit_setup [of "auth_client_block s"] c
    by (simp add: send_steps_def s1_def)
  ultimately show ?thesis using enum_keys_loop_steps [of "(s1, pdu)" m AUTH_KEY_TYPE_NONE] by (simp add: send_steps_def)
qed

lemma send_steps_inv:
  "send_steps s s' \<Longrightarrow> login_inv D acct T s \<Longrightarrow> current_stage (conn s) = ISCSI_SECURITY_NEGOTIATION_STAGE \<Longrightarrow>
   login_inv D acct T s'"
  using acl_setupD(1,2) [of "auth_client_block s'" "auth_client_block s"]
  by (auto simp: send_steps_def login_inv_def)

lemma stage_pdu_inv:
  assumes "login_inv D acct T s" and "stage_pdu s m pdu = (s', Some pdu')"
  shows "login_inv D acct T s'"
proof -
  consider (op) "current_stage (conn s) = ISCSI_OP_PARMS_NEGOTIATION_STAGE"
    | (sec) "current_stage (conn s) = ISCSI_SECURITY_NEGOTIATION_STAGE"
    using assms(2) by (auto simp: stage_pdu_def split: if_splits)
  then show ?thesis
  proof cases
    case op
    with assms show ?thesis
      by (auto simp: stage_pdu_def fill_op_params_text_def Let_def login_inv_def stage_defs split: prod.splits)
  next
    case sec
    with assms(2) obtain r where "fill_security_params_text s m pdu = (s', Some r)"
      by (auto simp: stage_pdu_def stage_defs split: prod.splits)
    with fill_security_steps send_steps_inv assms(1) sec show ?thesis by blast
  qed
qed

lemma make_login_pdu_inv:
  assumes inv: "login_inv D acct T s" and eq: "iscsi_make_login_pdu s data m = (s', Some pdu)"
  shows "login_inv D acct T s'"
proof (cases "current_stage (conn s) = ISCSI_INITIAL_LOGIN_STAGE")
  case True
  then obtain p where p: "stage_pdu (first_stage s) m p = (s', Some pdu)"
    using eq by (auto simp: iscsi_make_login_pdu_def Let_def split: option.splits)
  have "login_inv D acct T (first_stage s)"
    using inv by (auto simp: login_inv_def first_stage_def Let_def)
  then show ?thesis using p by (rule stage_pdu_inv)
next
  case False
  with eq have "stage_pdu s m (login_hdr_init s, data) = (s', Some pdu)"
    by (simp add: iscsi_make_login_pdu_def Let_def)
  with inv show ?thesis by (rule stage_pdu_inv)
qed

lemma stage_pdu_setup:
  assumes "stage_pdu s m pdu = (s', Some pdu')"
  shows "acl_setup (auth_client_block s') = acl_setup (auth_client_block s)"
proof (cases "current_stage (conn s) = ISCSI_SECURITY_NEGOTIATION_STAGE")
  case True
  with assms obtain r where "fill_security_params_text s m pdu = (s', Some r)"
    by (auto simp: stage_pdu_def stage_defs split: prod.splits)
  then show ?thesis using fill_security_steps by (simp add: send_steps_def)
next
  case False
  with assms show ?thesis
    by (auto simp: stage_pdu_def fill_op_params_text_def Let_def stage_defs split: prod.splits if_splits)
qed

lemma make_login_pdu_setup:
  assumes "iscsi_make_login_pdu s data m = (s', Some pdu)"
  shows "acl_setup (auth_client_block s') = acl_setup (auth_client_block s)"
  using assms stage_pdu_setup [of "first_stage s" m _ s'] stage_pdu_setup [of s m _ s']
  by (auto simp: iscsi_make_login_pdu_def first_stage_def Let_def split: option.splits if_splits)

subsubsection \<open>The beginning\<close>

lemma configure_run:
  assumes "configure fs c = (d, ok)" and "acl_run D acct tr c" and "node_type c = n"
    and "\<And>f c. f \<in> set fs \<Longrightarrow> acl_run D acct tr c \<Longrightarrow> node_type c = n \<Longrightarrow>
      acl_run D acct tr (fst (f c)) \<and> node_type (fst (f c)) = n"
  shows "acl_run D acct tr d" "node_type d = n"
proof -
  have "acl_run D acct tr d \<and> node_type d = n"
    using assms
  proof (induction fs arbitrary: c)
    case (Cons f fs)
    obtain e st where e: "f c = (e, st)" by force
    with Cons.prems(4) [of f c] Cons.prems(2,3) have "acl_run D acct tr e \<and> node_type e = n" by auto
    with Cons e show ?case by (auto split: if_splits)
  qed auto
  then show "acl_run D acct tr d" "node_type d = n" by blast+
qed

lemma configure_append:
  "configure (fs @ gs) c = (case configure fs c of (d, ok) \<Rightarrow> if ok then configure gs d else (d, False))"
  by (induction fs arbitrary: c) (auto split: prod.splits)

lemma config_node_type [simp]:
  "node_type (fst (acl_set_user_name c u)) = node_type c" "node_type (fst (acl_set_passwd c pw)) = node_type c"
  "node_type (fst (acl_set_chap_alg_list c algs)) = node_type c" "node_type (fst (acl_set_ip_sec c b)) = node_type c"
  "node_type (fst (acl_set_auth_rmt c b)) = node_type c"
  by (simp_all add: acl_set_user_name_def acl_set_passwd_def acl_set_chap_alg_list_def acl_set_option_list_def
      acl_set_ip_sec_def acl_set_auth_rmt_def acl_error_def Let_def split: option.splits prod.splits)

lemma init_node_type:
  assumes "acl_init sz 1 (Some descs) = (i, AUTH_STATUS_NO_ERROR)"
  obtains c where "i = Some c" "node_type c = TYPE_INITIATOR"
proof -
  have "buf_desc_ok sz descs" using assms by (auto simp: acl_init_def split: if_splits)
  with assms that acl_init_initiator [of sz descs] show thesis by (auto simp: acl_init_client_def)
qed

lemma auth_method_valid_passwd [simp]: "passwd_data (acl_set_auth_method_valid c) = passwd_data c"
  by (simp add: acl_set_auth_method_valid_def acl_set_auth_method_key_def acl_set_key_def set_send_key_def Let_def
      split: option.splits prod.splits)

lemma config_passwd [simp]:
  "passwd_data (fst (acl_set_chap_alg_list c algs)) = passwd_data c" "passwd_data (fst (acl_set_ip_sec c b)) = passwd_data c"
  "passwd_data (fst (acl_set_auth_rmt c b)) = passwd_data c"
  by (simp_all add: acl_set_chap_alg_list_def acl_set_option_list_def
      acl_set_ip_sec_def acl_set_auth_rmt_def acl_error_def Let_def split: option.splits prod.splits)

lemma set_passwd_data:
  "acl_set_passwd c pw = (d, AUTH_STATUS_NO_ERROR) \<Longrightarrow> passwd_data d = pw"
  by (auto simp: acl_set_passwd_def acl_error_def Let_def split: if_splits)

lemma configure_keeps:
  assumes "configure fs c = (d, ok)" and "\<And>f c. f \<in> set fs \<Longrightarrow> v (fst (f c)) = v c"
  shows "v d = v c"
  using assms
proof (induction fs arbitrary: c)
  case (Cons f fs)
  obtain e st where "f c = (e, st)" by force
  with Cons(1) [of e] Cons(2) Cons(3) [of f c] Cons(3) show ?case by (auto split: if_splits)
qed simp

lemma auth_calls_passwd:
  assumes "configure (auth_calls env s) c0 = (c, True)" and pw: "sess_password s \<noteq> []" "hd (sess_password s) \<noteq> 0"
  shows "passwd_data c = take (password_length s) (sess_password s)"
proof -
  define fs where "fs = (if sess_username s \<noteq> [] then [\<lambda>c. acl_set_user_name c (Some (sess_username s))] else [])"
  define gs where "gs = [\<lambda>c. acl_set_chap_alg_list c (acl_init_chap_digests (auth_env env) (chap_algs s)),
    \<lambda>c. acl_set_ip_sec c True, \<lambda>c. acl_set_auth_rmt c (bidirectional_auth s)]"
  have calls: "auth_calls env s = fs @ [\<lambda>c. acl_set_passwd c (take (password_length s) (sess_password s))] @ gs"
    using pw by (simp add: auth_calls_def fs_def gs_def)
  obtain c1 ok1 where c1: "configure fs c0 = (c1, ok1)" by force
  obtain c2 st where c2: "acl_set_passwd c1 (take (password_length s) (sess_password s)) = (c2, st)" by force
  from assms(1) c1 c2 have "st = AUTH_STATUS_NO_ERROR" and g: "configure gs c2 = (c, True)"
    unfolding calls configure_append by (auto split: if_splits prod.splits)
  then have "passwd_data c2 = take (password_length s) (sess_password s)" using set_passwd_data c2 by blast
  moreover have "passwd_data c = passwd_data c2" by (rule configure_keeps [OF g]) (auto simp: gs_def)
  ultimately show ?thesis by simp
qed

lemma check_for_authentication_OK:
  assumes eq: "check_for_authentication env s = (s', LOGIN_OK)" and u: "is_cstr (sess_username s)"
  obtains c where "s' = upd_acl c s" "acl_run D (peer_account s) [] c" "node_type c = TYPE_INITIATOR"
    "auth_rmt c = bidirectional_auth s"
    "sess_password s \<noteq> [] \<and> hd (sess_password s) \<noteq> 0 \<longrightarrow> passwd_data c = take (password_length s) (sess_password s)"
proof -
  obtain i st where i: "acl_init (sizeof_acl env) 1 (Some (auth_buffers s)) = (i, st)" by force
  with eq have st: "st = AUTH_STATUS_NO_ERROR" by (auto simp: check_for_authentication_def Let_def split: if_splits)
  with i obtain c0 where c0: "i = Some c0" "node_type c0 = TYPE_INITIATOR" by (auto intro: init_node_type)
  obtain c ok where c: "configure (auth_calls env s) c0 = (c, ok)" by force
  with eq i st c0 have s': "s' = upd_acl c s" and ok: "ok"
    by (auto simp: check_for_authentication_def Let_def split: if_splits)
  have run0: "acl_run D (peer_account s) [] c0" using i st c0 by (auto intro: acl_run.init)
  have "acl_run D (peer_account s) [] c" "node_type c = TYPE_INITIATOR"
    by (rule configure_run [OF c run0 c0(2)],
        use u in \<open>auto simp: auth_calls_def intro: acl_run.intros split: if_splits\<close>)+
  moreover have "auth_rmt c = bidirectional_auth s"
  proof -
    define gs where "gs = butlast (auth_calls env s)"
    have "auth_calls env s = gs @ [\<lambda>c. acl_set_auth_rmt c (bidirectional_auth s)]"
      by (simp add: gs_def auth_calls_def butlast_append)
    with c ok obtain e where "acl_set_auth_rmt e (bidirectional_auth s) = (c, AUTH_STATUS_NO_ERROR)"
      by (auto simp: configure_append split: prod.splits if_splits)
    then show ?thesis by (auto simp: acl_set_auth_rmt_def acl_error_def split: if_splits)
  qed
  moreover note auth_calls_passwd [OF c [unfolded eqTrueI [OF ok]]]
  ultimately show thesis using that s' by blast
qed

lemma login_begin_inv:
  assumes eq: "iscsi_login_begin env s c = ((s', c'), False)"
    and "auth_buffers s \<noteq> []" "bidirectional_auth s" "is_cstr (sess_username s)"
  shows "login_inv D (peer_account s) T s'" and "\<not> have_auth_client c'"
    and "sess_password s \<noteq> [] \<Longrightarrow> hd (sess_password s) \<noteq> 0 \<Longrightarrow>
      passwd_data (auth_client_block s') = take (password_length s) (sess_password s)"
proof -
  define t where "t = upd_conn (\<lambda>c. c\<lparr>current_stage := ISCSI_INITIAL_LOGIN_STAGE, partial_response := False\<rparr>)
    (s\<lparr>cmdsn := 1, exp_cmdsn := 1, max_cmdsn := 1\<rparr>)"
  have t: "auth_buffers t \<noteq> []" "bidirectional_auth t" "is_cstr (sess_username t)" "peer_account t = peer_account s"
    "current_stage (conn t) = ISCSI_INITIAL_LOGIN_STAGE" "sess_password t = sess_password s"
    "password_length t = password_length s"
    using assms by (simp_all add: t_def upd_conn_def)
  from eq t(1) have chk: "check_for_authentication env t = (s', LOGIN_OK)" and "\<not> have_auth_client c'"
    unfolding iscsi_login_begin_def Let_def t_def [symmetric] by (auto split: prod.splits)
  then show "\<not> have_auth_client c'" by simp
  obtain a where "s' = upd_acl a t" "acl_run D (peer_account t) [] a" "node_type a = TYPE_INITIATOR"
    "auth_rmt a = bidirectional_auth t"
    "sess_password t \<noteq> [] \<and> hd (sess_password t) \<noteq> 0 \<longrightarrow> passwd_data a = take (password_length t) (sess_password t)"
    by (rule check_for_authentication_OK [OF chk t(3)])
  with t show "login_inv D (peer_account s) T s'"
    and "sess_password s \<noteq> [] \<Longrightarrow> hd (sess_password s) \<noteq> 0 \<Longrightarrow>
      passwd_data (auth_client_block s') = take (password_length s) (sess_password s)"
    by (auto simp: login_inv_def)
qed

subsubsection \<open>The loop\<close>

lemma finish_auth_null [simp]: "\<not> have_auth_client c \<Longrightarrow> finish_auth (s, c) = (s, c)"
  by (simp add: finish_auth_def)

lemma login_req_cases:
  assumes "iscsi_login_req s c ok = ((s', c'), failed)" and "\<not> have_auth_client c"
  shows "\<not> have_auth_client c'" and "failed \<Longrightarrow> ret c' \<noteq> LOGIN_OK" and "\<not> final c'"
    and "\<not> failed \<Longrightarrow> login_inv D acct T s \<Longrightarrow> login_inv D acct T s'"
  using assms make_login_pdu_inv
  by (auto simp: iscsi_login_req_def Let_def split: prod.splits option.splits if_splits)

lemma login_rsp_cases:
  assumes "iscsi_login_rsp env s c r = ((s', c'), err)" and "\<not> have_auth_client c" and "\<not> final c"
  shows "\<not> have_auth_client c'"
    and "err = RSP_EAGAIN \<Longrightarrow> s' = s \<and> c' = c"
    and "err = RSP_FAIL \<Longrightarrow> \<not> (ret c' = LOGIN_OK \<and> ctx_class c' = ISCSI_STATUS_CLS_SUCCESS)"
    and "err = RSP_OK \<Longrightarrow> login_inv D acct T s \<Longrightarrow> digest_lengths D \<Longrightarrow> EVP_digest (auth_env env) = D \<Longrightarrow>
      (\<And>rsp bytes. r = RECV_PDU rsp bytes \<Longrightarrow> rsp_text rsp (recv_data (max_data_length c) bytes) \<in> T) \<Longrightarrow>
      login_inv D acct T s'"
  using assms response_inv
  by (auto simp: iscsi_login_rsp_def check_status_login_response_def Let_def
      split: recv_result.splits prod.splits if_splits)

lemma login_req_setup:
  "iscsi_login_req s c ok = ((s', c'), False) \<Longrightarrow> acl_setup (auth_client_block s') = acl_setup (auth_client_block s)"
  using make_login_pdu_setup by (auto simp: iscsi_login_req_def Let_def split: prod.splits option.splits if_splits)

lemma login_rsp_setup:
  assumes "iscsi_login_rsp env s c r = ((s', c'), RSP_OK)" "login_inv D acct T s" "digest_lengths D" "EVP_digest (auth_env env) = D"
  shows "acl_setup (auth_client_block s') = acl_setup (auth_client_block s)"
  using assms(1) response_setup [OF assms(2-4)]
  by (auto simp: iscsi_login_rsp_def check_status_login_response_def Let_def
      split: recv_result.splits prod.splits if_splits)

definition events_ok :: "digests \<Rightarrow> login_event list \<Rightarrow> bool" where
  "events_ok D evs \<longleftrightarrow> (\<forall>env p. POLL env p \<in> set evs \<longrightarrow> EVP_digest (auth_env env) = D)"

text \<open>The texts of the responses among the events.\<close>

definition event_texts :: "login_event list \<Rightarrow> string set" where
  "event_texts evs = {rsp_text rsp (recv_data m bytes) |env rsp bytes m. POLL env (POLL_READABLE (RECV_PDU rsp bytes)) \<in> set evs}"

lemma event_texts_Cons: "event_texts evs \<subseteq> event_texts (e # evs)"
  by (auto simp: event_texts_def)

lemma event_texts_SEND [simp]: "event_texts (SEND ok # evs) = event_texts evs"
  by (simp add: event_texts_def)

text \<open>What every request and every accepted response keeps holds when the login has succeeded.\<close>

lemma login_loop_keeps:
  assumes "login_loop w sc evs = Some (s', c')" and "P (fst sc)" and "\<not> have_auth_client (snd sc)"
    and "\<And>s c ok s1 c1. iscsi_login_req s c ok = ((s1, c1), False) \<Longrightarrow> \<not> have_auth_client c \<Longrightarrow> P s \<Longrightarrow> P s1"
    and "\<And>env r s c s1 c1. POLL env (POLL_READABLE r) \<in> set evs \<Longrightarrow> iscsi_login_rsp env s c r = ((s1, c1), RSP_OK) \<Longrightarrow>
      \<not> have_auth_client c \<Longrightarrow> \<not> final c \<Longrightarrow> P s \<Longrightarrow> P s1"
    and "w \<longrightarrow> \<not> final (snd sc)"
    and "ret c' = LOGIN_OK" and "ctx_class c' = ISCSI_STATUS_CLS_SUCCESS"
  shows "P s' \<and> current_stage (conn s') = ISCSI_FULL_FEATURE_PHASE"
  using assms
proof (induction w sc evs rule: login_loop.induct)
  case (2 w sc ok evs)
  obtain s1 c1 failed where r: "iscsi_login_req (fst sc) (snd sc) ok = ((s1, c1), failed)" by (metis surj_pair)
  note rc = login_req_cases(1-3) [OF r 2(4)]
  from 2(2) r rc(2) 2(8) have nf: "\<not> failed" and w: "\<not> w" and l: "login_loop True (s1, c1) evs = Some (s', c')"
    by (auto split: if_splits)
  have "P s1" using 2(5) [OF _ 2(4,3)] r nf by simp
  with 2(1) [OF w r [symmetric] nf l _ _ 2(5)] rc(1,3) 2(6,8,9) show ?case by simp
next
  case (3 w sc env ev evs)
  note rsp = 3(8)
  have nf: "\<not> final (snd sc)" using 3(4,9) by (auto split: if_splits)
  have w: "w" using 3(4) by (auto split: if_splits)
  have rsps: "P t" if "POLL e (POLL_READABLE r) \<in> set evs" "iscsi_login_rsp e s c r = ((t, c1), RSP_OK)"
      "\<not> have_auth_client c" "\<not> final c" "P s" for e r s c t c1
    using rsp [OF _ that(2-5)] that(1) by simp
  have full: "P s' \<and> current_stage (conn s') = ISCSI_FULL_FEATURE_PHASE"
    if "P t" "current_stage (conn t) = ISCSI_FULL_FEATURE_PHASE" "\<not> have_auth_client d"
      "(s', c') = finish_auth (with_ret LOGIN_OK (t, d))" for t d
    using that by (simp add: with_ret_def)
  show ?case
  proof (cases ev)
    case (POLL_READABLE r)
    obtain s1 c1 err where r: "iscsi_login_rsp env (fst sc) (snd sc) r = ((s1, c1), err)" by (metis surj_pair)
    note rc = login_rsp_cases(1-3) [OF r 3(6) nf]
    show ?thesis
    proof (cases err)
      case RSP_EAGAIN
      with 3(4) w POLL_READABLE r have "login_loop True (s1, c1) evs = Some (s', c')" by simp
      with 3(2) [OF _ POLL_READABLE r [symmetric] RSP_EAGAIN _ _ _ 3(7) rsps] w rc(2) [OF RSP_EAGAIN] nf 3(5,6,10,11)
      show ?thesis by simp
    next
      case RSP_FAIL
      with 3(4) w POLL_READABLE r have "c1 = c'" by simp
      with rc(3) [OF RSP_FAIL] 3(10,11) show ?thesis by simp
    next
      case RSP_OK
      have i: "P s1" using rsp [OF _ r [unfolded RSP_OK] 3(6) nf 3(5)] POLL_READABLE by simp
      show ?thesis
      proof (cases "current_stage (conn s1) = ISCSI_FULL_FEATURE_PHASE")
        case True
        with 3(4) w POLL_READABLE r RSP_OK have "(s', c') = finish_auth (with_ret LOGIN_OK (s1, c1))" by simp
        with full i True rc(1) show ?thesis by blast
      next
        case False
        with 3(4) w POLL_READABLE r RSP_OK have "login_loop False (s1, c1) evs = Some (s', c')" by simp
        with 3(1) [OF _ POLL_READABLE r [symmetric] RSP_OK _ _ _ _ 3(7) rsps] w False i rc(1) 3(10,11) show ?thesis by simp
      qed
    qed
  next
    case POLL_OTHER
    show ?thesis
    proof (cases "current_stage (conn (fst sc)) = ISCSI_FULL_FEATURE_PHASE")
      case True
      with 3(4) w POLL_OTHER have "(s', c') = finish_auth (with_ret LOGIN_OK (fst sc, snd sc))" by simp
      with full 3(5,6) True show ?thesis by blast
    next
      case False
      with 3(4) w POLL_OTHER have "login_loop False sc evs = Some (s', c')" by simp
      with 3(3) [OF _ POLL_OTHER False _ 3(5,6,7) rsps] w 3(10,11) show ?thesis by simp
    qed
  qed (use 3(4,10) w in \<open>auto simp: with_ret_def split: prod.splits\<close>)
qed auto

lemma login_loop_inv:
  assumes "login_loop w sc evs = Some (s', c')" and inv: "login_inv D acct T (fst sc)" and "\<not> have_auth_client (snd sc)"
    and D: "digest_lengths D" "events_ok D evs" and T: "event_texts evs \<subseteq> T" and "w \<longrightarrow> \<not> final (snd sc)"
    and "ret c' = LOGIN_OK" and "ctx_class c' = ISCSI_STATUS_CLS_SUCCESS"
  shows "(login_inv D acct T s' \<and> acl_setup (auth_client_block s') = acl_setup (auth_client_block (fst sc))) \<and>
    current_stage (conn s') = ISCSI_FULL_FEATURE_PHASE"
proof (rule login_loop_keeps [where P = "\<lambda>s. login_inv D acct T s \<and>
    acl_setup (auth_client_block s) = acl_setup (auth_client_block (fst sc))", OF assms(1) _ assms(3) _ _ assms(7-9)])
  fix s c ok s1 c1
  assume "iscsi_login_req s c ok = ((s1, c1), False)" "\<not> have_auth_client c"
    "login_inv D acct T s \<and> acl_setup (auth_client_block s) = acl_setup (auth_client_block (fst sc))"
  then show "login_inv D acct T s1 \<and> acl_setup (auth_client_block s1) = acl_setup (auth_client_block (fst sc))"
    using login_req_cases(4) login_req_setup by metis
next
  fix env r s c s1 c1
  assume ev: "POLL env (POLL_READABLE r) \<in> set evs" and r: "iscsi_login_rsp env s c r = ((s1, c1), RSP_OK)"
    "\<not> have_auth_client c" "\<not> final c"
    and s: "login_inv D acct T s \<and> acl_setup (auth_client_block s) = acl_setup (auth_client_block (fst sc))"
  have e: "EVP_digest (auth_env env) = D" using ev D(2) by (auto simp: events_ok_def)
  have "rsp_text rsp (recv_data (max_data_length c) bytes) \<in> T" if "r = RECV_PDU rsp bytes" for rsp bytes
    using ev that by (intro subsetD [OF T]) (auto simp: event_texts_def)
  with login_rsp_cases(4) [OF r refl s [THEN conjunct1] D(1) e] login_rsp_setup [OF r(1) s [THEN conjunct1] D(1) e] s
  show "login_inv D acct T s1 \<and> acl_setup (auth_client_block s1) = acl_setup (auth_client_block (fst sc))" by simp
qed (use inv in simp)

end
