(* ===== verification/Session_Invariant.thy ===== *)
theory Session_Invariant
  imports Session Login_Auth "HOL-Library.Multiset"
begin

text \<open>
  The invariant of a session, and its recovery and release. \<open>flush_eq\<close>, \<open>param_ext\<close> and \<open>write_rsp_eq\<close> give the
  operations that only extend the trace in closed form. \<open>answers\<close> is the list of requests that a trace answers and \<open>owed\<close> the
  requests a session still has to answer; \<open>sess_ok\<close> says that a session that connects or logs in has a login timer for the
  task it works on, and that its queued events carry that task. \<open>step_ok\<close> relates two states of which the second is in
  order and balances requests and answers; the lemmas show it for the error handling of a login and for the step into
  the full feature phase.
\<close>

subsection \<open>Explicit forms\<close>

definition flushed :: "iscsi_ev_context option list \<Rightarrow> iscsi_ev_context option list" where
  "flushed = map (map_option (\<lambda>c. if allocated c then c\<lparr>ev_pending := None, allocated := False\<rparr> else c))"

definition in_use :: "iscsi_ev_context option list \<Rightarrow> nat \<Rightarrow> bool" where
  "in_use pool i \<longleftrightarrow> (case pool ! i of Some c \<Rightarrow> allocated c | None \<Rightarrow> False)"

definition flush_acts :: "iscsi_ev_context option list \<Rightarrow> nat list \<Rightarrow> effect list" where
  "flush_acts pool is = map (\<lambda>i. ACT (Ev_actor i) A_DELETE) (filter (in_use pool) is)"

lemma flush_context_eq:
  assumes "i < length (context_pool s)"
  shows "flush_context i s = s\<lparr>context_pool := (context_pool s)[i := flushed (context_pool s) ! i],
     trace := trace s @ flush_acts (context_pool s) [i]\<rparr>"
proof (cases "in_use (context_pool s) i")
  case True
  then obtain c where c: "context_pool s ! i = Some c" "allocated c" by (auto simp: in_use_def split: option.splits)
  with assms have "flushed (context_pool s) ! i = Some (c\<lparr>ev_pending := None, allocated := False\<rparr>)" by (simp add: flushed_def)
  moreover have "flush_context i s = s\<lparr>trace := trace s @ [ACT (Ev_actor i) A_DELETE],
      context_pool := (context_pool s)[i := Some (c\<lparr>ev_pending := None, allocated := False\<rparr>)]\<rparr>"
    using c assms by (simp add: flush_context_def iscsi_ev_context_put_def upd_context_def emit_def)
  ultimately show ?thesis using True by (simp add: flush_acts_def)
next
  case False
  then have "flushed (context_pool s) ! i = context_pool s ! i" "flush_context i s = s"
    using assms by (auto simp: in_use_def flushed_def flush_context_def split: option.splits)
  with False show ?thesis by (simp add: flush_acts_def)
qed

lemma flush_part:
  fixes C :: "iscsi_ev_context option list"
  assumes "n < length C"
  shows "(take n (flushed C) @ drop n C) ! n = C ! n" "n < length (take n (flushed C) @ drop n C)"
    and "(take n (flushed C) @ drop n C)[n := flushed C ! n] = take (Suc n) (flushed C) @ drop (Suc n) C"
proof -
  have l: "length (flushed C) = length C" by (simp add: flushed_def)
  with assms show "(take n (flushed C) @ drop n C) ! n = C ! n" "n < length (take n (flushed C) @ drop n C)"
    by (simp_all add: nth_append)
  show "(take n (flushed C) @ drop n C)[n := flushed C ! n] = take (Suc n) (flushed C) @ drop (Suc n) C"
    using assms l by (simp add: list_update_append take_Suc_conv_app_nth Cons_nth_drop_Suc [symmetric])
qed

lemma fold_flush:
  assumes "n \<le> length (context_pool s)"
  shows "fold flush_context [0..<n] s =
    s\<lparr>context_pool := take n (flushed (context_pool s)) @ drop n (context_pool s),
      trace := trace s @ flush_acts (context_pool s) [0..<n]\<rparr>"
  using assms
proof (induction n)
  case 0
  show ?case by (simp add: flush_acts_def)
next
  case (Suc n)
  define C where "C = context_pool s"
  define p where "p = take n (flushed C) @ drop n C"
  define t where "t = s\<lparr>context_pool := p, trace := trace s @ flush_acts C [0..<n]\<rparr>"
  have n: "n < length C" using Suc.prems by (simp add: C_def)
  note fp = flush_part [OF n, folded p_def]
  have f: "flushed p ! n = flushed C ! n" "flush_acts p [n] = flush_acts C [n]"
    using fp(1,2) n by (simp_all add: flushed_def flush_acts_def in_use_def)
  have "fold flush_context [0..<Suc n] s = flush_context n t"
    using Suc by (simp add: t_def p_def C_def)
  also have "\<dots> = t\<lparr>context_pool := p[n := flushed p ! n], trace := trace t @ flush_acts p [n]\<rparr>"
    using fp(2) flush_context_eq [of n t] by (simp add: t_def)
  also have "\<dots> = s\<lparr>context_pool := take (Suc n) (flushed C) @ drop (Suc n) C, trace := trace s @ flush_acts C [0..<Suc n]\<rparr>"
    unfolding f fp(3) by (simp add: t_def flush_acts_def)
  finally show ?case by (simp add: C_def)
qed

lemma flush_eq:
  "iscsi_flush_context_pool s = s\<lparr>context_pool := flushed (context_pool s),
     trace := trace s @ flush_acts (context_pool s) [0..<length (context_pool s)]\<rparr>"
  by (simp add: iscsi_flush_context_pool_def fold_flush flushed_def)

text \<open>Handing parameters to the kernel adds to the trace, and may find that the daemon has to send the pings.\<close>

fun param_effect :: "effect \<Rightarrow> bool" where
  "param_effect (SET_PARAM p v) \<longleftrightarrow> True"
| "param_effect (SET_HOST_PARAM v) \<longleftrightarrow> True"
| "param_effect _ \<longleftrightarrow> False"

definition param_ext :: "sess \<Rightarrow> sess \<Rightarrow> bool" where
  "param_ext s s' \<longleftrightarrow> (\<exists>tr b. s' = s\<lparr>userspace_nop := b, trace := trace s @ tr\<rparr> \<and> list_all param_effect tr)"

lemma param_ext_refl: "param_ext s s"
  unfolding param_ext_def by (intro exI [of _ "[]"] exI [of _ "userspace_nop s"]) simp

lemma param_ext_trans: "param_ext s t \<Longrightarrow> param_ext t u \<Longrightarrow> param_ext s u"
proof -
  assume "param_ext s t" "param_ext t u"
  then obtain tr b tr' b' where "t = s\<lparr>userspace_nop := b, trace := trace s @ tr\<rparr>" "list_all param_effect tr"
    "u = t\<lparr>userspace_nop := b', trace := trace t @ tr'\<rparr>" "list_all param_effect tr'"
    by (auto simp: param_ext_def)
  then show ?thesis unfolding param_ext_def by (intro exI [of _ "tr @ tr'"] exI [of _ b']) simp
qed

lemma param_ext_emit: "param_effect e \<Longrightarrow> param_ext s (emit e s)"
  unfolding param_ext_def by (intro exI [of _ "[e]"] exI [of _ "userspace_nop s"]) (simp add: emit_def)

lemma param_ext_nop: "param_ext s (s\<lparr>userspace_nop := b\<rparr>)"
  unfolding param_ext_def by (intro exI [of _ "[]"] exI [of _ b]) simp

lemma set_param_loop_ext: "param_ext s (fst (set_param_loop f m nop tbl s))"
proof (induction tbl arbitrary: s)
  case Nil
  show ?case by (simp add: param_ext_refl)
next
  case (Cons r tbl)
  obtain p v c where r: "r = (p, v, c)" by (metis surj_pair)
  let ?e = "emit (SET_PARAM p v) s"
  have e: "param_ext s ?e" by (simp add: param_ext_emit)
  have "param_ext s (fst (set_param_loop f m nop tbl ?e))" by (rule param_ext_trans [OF e Cons])
  moreover have "param_ext s (fst (set_param_loop f m nop tbl (?e\<lparr>userspace_nop := True\<rparr>)))"
    by (rule param_ext_trans [OF param_ext_trans [OF e param_ext_nop] Cons])
  ultimately show ?case
    using Cons [of s] e unfolding r set_param_loop.simps Let_def if_distrib [of fst] if_distrib [of "set_param_loop f m nop tbl"]
    by (simp only: fst_conv split: if_split) simp
qed

lemma host_param_loop_ext: "param_ext s (fst (host_param_loop f vs s))"
proof (induction vs arbitrary: s)
  case (Cons v vs)
  have e: "param_ext s (emit (SET_HOST_PARAM v) s)" by (simp add: param_ext_emit)
  from param_ext_trans [OF e Cons] e show ?case by (simp add: Let_def)
qed (simp add: param_ext_refl)

lemma set_neg_params_ext: "iscsi_session_set_neg_params f s = (s', failed) \<Longrightarrow> param_ext s s'"
  using set_param_loop_ext unfolding iscsi_session_set_neg_params_def by (metis fst_conv)

lemma set_params_ext: "iscsi_session_set_params f n s = (s', failed) \<Longrightarrow> param_ext s s'"
  using set_param_loop_ext unfolding iscsi_session_set_params_def Let_def by (metis fst_conv)

lemma host_set_params_ext: "iscsi_host_set_params f s = (s', failed) \<Longrightarrow> param_ext s s'"
  using host_param_loop_ext unfolding iscsi_host_set_params_def by (metis fst_conv)

lemma write_rsp_eq:
  "mgmt_ipc_write_rsp q err s = s\<lparr>trace := trace s @ (case q of Some (Task n) \<Rightarrow> [RSP n err] | _ \<Rightarrow> [])\<rparr>"
  by (cases "(q, err, s)" rule: mgmt_ipc_write_rsp.cases) (simp_all add: emit_def)

subsection \<open>Requests and answers\<close>

fun task_list :: "queue_task option \<Rightarrow> nat list" where
  "task_list (Some (Task n)) = [n]"
| "task_list _ = []"

fun answer_of :: "effect \<Rightarrow> nat list" where
  "answer_of (RSP n err) = [n]"
| "answer_of (SCAN (Some n) b) = [n]"
| "answer_of _ = []"

definition answers :: "effect list \<Rightarrow> nat list" where
  "answers tr = concat (map answer_of tr)"

lemma answers_simps [simp]:
  "answers [] = []" "answers (e # tr) = answer_of e @ answers tr" "answers (tr @ tr') = answers tr @ answers tr'"
  by (simp_all add: answers_def)

lemma answers_params [simp]: "list_all param_effect tr \<Longrightarrow> answers tr = []"
proof (induction tr)
  case (Cons e tr)
  then show ?case by (cases e) simp_all
qed simp

lemma answers_flush [simp]: "answers (flush_acts pool is) = []"
  by (auto simp: answers_def flush_acts_def)

text \<open>The requests a session still has to answer: the login it is working on, and the logout.\<close>

definition login_task :: "sess \<Rightarrow> queue_task option" where
  "login_task s =
     (case c_state s of
        ISCSI_CONN_STATE_XPT_WAIT \<Rightarrow> map_option snd (login_timer s)
      | ISCSI_CONN_STATE_IN_LOGIN \<Rightarrow> ctx_qtask s
      | _ \<Rightarrow> None)"

definition owed :: "sess \<Rightarrow> nat list" where
  "owed s = (if freed s then [] else task_list (login_task s) @ task_list (logout_qtask s))"

subsection \<open>Contexts\<close>

definition pool_ok :: "iscsi_ev_context option list \<Rightarrow> bool" where
  "pool_ok pool \<longleftrightarrow>
     (\<forall>c. Some c \<in> set pool \<longrightarrow> (ev_pending c \<noteq> None \<longrightarrow> allocated c) \<and> ev_data c \<noteq> Data_error ISCSI_ERR_INVALID_HOST)"

text \<open>The polls that are queued carry the task, and no stop is queued.\<close>

definition polls_ok :: "queue_task \<Rightarrow> iscsi_ev_context option list \<Rightarrow> bool" where
  "polls_ok q pool \<longleftrightarrow>
     (\<forall>c ev d. Some c \<in> set pool \<longrightarrow> ev_pending c = Some (ev, d) \<longrightarrow> (ev = EV_CONN_POLL \<longrightarrow> ev_data c = Data_qtask q) \<and> ev \<noteq> EV_CONN_STOP)"

lemma pool_ok_update:
  "pool_ok pool \<Longrightarrow> (\<And>c. x = Some c \<Longrightarrow> (ev_pending c \<noteq> None \<longrightarrow> allocated c) \<and> ev_data c \<noteq> Data_error ISCSI_ERR_INVALID_HOST) \<Longrightarrow>
   pool_ok (pool[i := x])"
  using set_update_subset_insert [of pool i x] unfolding pool_ok_def by blast

lemma polls_ok_update:
  "polls_ok q pool \<Longrightarrow> (\<And>c ev d. x = Some c \<Longrightarrow> ev_pending c = Some (ev, d) \<Longrightarrow> (ev = EV_CONN_POLL \<longrightarrow> ev_data c = Data_qtask q) \<and> ev \<noteq> EV_CONN_STOP) \<Longrightarrow>
   polls_ok q (pool[i := x])"
  using set_update_subset_insert [of pool i x] unfolding polls_ok_def by blast

lemma flushed_idle:
  assumes "pool_ok pool" shows "pool_ok (flushed pool)" and "polls_ok q (flushed pool)"
    and "Some c \<in> set (flushed pool) \<Longrightarrow> ev_pending c = None"
proof -
  have i: "ev_pending c = None \<and> ev_data c \<noteq> Data_error ISCSI_ERR_INVALID_HOST" if "Some c \<in> set (flushed pool)" for c
  proof -
    from that obtain b where "Some b \<in> set pool" "c = (if allocated b then b\<lparr>ev_pending := None, allocated := False\<rparr> else b)"
      by (auto simp: flushed_def map_option_eq_Some eq_commute [of "Some c"])
    with assms show ?thesis by (cases "ev_pending b") (auto simp: pool_ok_def split: if_splits)
  qed
  then show "Some c \<in> set (flushed pool) \<Longrightarrow> ev_pending c = None" by blast
  from i show "pool_ok (flushed pool)" "polls_ok q (flushed pool)" by (auto simp: pool_ok_def polls_ok_def)
qed

lemma free_context_Some: "free_context pool = Some i \<Longrightarrow> i < length pool \<and> (\<exists>c. pool ! i = Some c \<and> \<not> allocated c)"
  by (induction pool arbitrary: i) (auto split: option.splits if_splits)

definition taken :: "iscsi_ev_context \<Rightarrow> iscsi_ev_context" where
  "taken c = c\<lparr>allocated := True, ev_data := Data_none, ev_pending := None\<rparr>"

lemma ev_get_cases:
  obtains (none) "iscsi_ev_context_get fits s = (s, None)"
  | (got) i c where "iscsi_ev_context_get fits s =
       (s\<lparr>context_pool := (context_pool s)[i := Some (taken c)], trace := trace s @ [ACT (Ev_actor i) A_RESET]\<rparr>, Some i)"
     "i < length (context_pool s)" "context_pool s ! i = Some c" "\<not> allocated c"
proof (cases "fits \<and> free_context (context_pool s) \<noteq> None")
  case True
  then obtain i where i: "free_context (context_pool s) = Some i" by blast
  from free_context_Some [OF i] obtain c where c: "i < length (context_pool s)" "context_pool s ! i = Some c" "\<not> allocated c"
    by blast
  show thesis
    by (rule got [of i c]) (use True i c in \<open>simp_all add: iscsi_ev_context_get_def emit_def upd_context_def taken_def\<close>)
next
  case False
  then show thesis using none by (auto simp: iscsi_ev_context_get_def split: option.splits)
qed

text \<open>What trying to connect leaves: a login timer for the task, whatever happens.\<close>

definition waits :: "queue_task \<Rightarrow> sess \<Rightarrow> sess \<Rightarrow> bool" where
  "waits q s s' \<longleftrightarrow> (\<exists>d P tr. s' = s\<lparr>login_timer := Some (d, q), context_pool := P, trace := trace s @ tr\<rparr> \<and>
     (pool_ok (context_pool s) \<longrightarrow> pool_ok P) \<and> (polls_ok q (context_pool s) \<longrightarrow> polls_ok q P) \<and> answers tr = [])"

lemma waitsI:
  "s' = s\<lparr>login_timer := Some (d, q), context_pool := P, trace := trace s @ tr\<rparr> \<Longrightarrow>
   (pool_ok (context_pool s) \<Longrightarrow> pool_ok P) \<Longrightarrow> (polls_ok q (context_pool s) \<Longrightarrow> polls_ok q P) \<Longrightarrow> answers tr = [] \<Longrightarrow>
   waits q s s'"
  unfolding waits_def by blast

lemma queue_delayed_waits: "waits q s (queue_delayed_reopen q delay s)"
  by (rule waitsI [where d = "secs delay" and P = "context_pool s" and tr = "[ACT Login_timer (A_TIMER_MOD (secs delay))]"])
     (simp_all add: queue_delayed_reopen_def login_timer_mod_def emit_def)

lemma conn_connect_waits: "waits q s (conn_connect_or_wait env q s)"
proof (cases rule: ev_get_cases [of True s])
  case none
  then show ?thesis by (simp add: conn_connect_or_wait_def iscsi_conn_connect_def queue_delayed_waits)
next
  case (got i c)
  let ?c = "(taken c)\<lparr>ev_data := Data_qtask q\<rparr>"
  have r: "pool_ok ((context_pool s)[i := Some x])" if "pool_ok (context_pool s)" "ev_pending x \<noteq> None \<longrightarrow> allocated x"
    "ev_data x = Data_qtask q" for x
    using that by (intro pool_ok_update) auto
  have p: "polls_ok q ((context_pool s)[i := Some x])" if "polls_ok q (context_pool s)" "ev_data x = Data_qtask q"
    "\<And>d. ev_pending x \<noteq> Some (EV_CONN_STOP, d)" for x
    using that by (intro polls_ok_update) auto
  show ?thesis
  proof (cases "k_connect_ok env")
    case True
    show ?thesis
      by (rule waitsI [where d = "secs (login_timeout (login_conn s))" and P = "(context_pool s)[i := Some (?c\<lparr>ev_pending := Some (EV_CONN_POLL, 0)\<rparr>)]"
            and tr = "[ACT (Ev_actor i) A_RESET, EP_CONNECT, ACT (Ev_actor i) (A_TIMER 0),
              ACT Login_timer (A_TIMER_MOD (secs (login_timeout (login_conn s))))]"])
         (use got True in \<open>simp_all add: conn_connect_or_wait_def iscsi_conn_connect_def Let_def set_ev_data_def
            upd_context_def emit_def pend_def login_timer_mod_def r p taken_def\<close>)
  next
    case False
    show ?thesis
      by (rule waitsI [where d = "secs ISCSI_CONN_ERR_REOPEN_DELAY" and P = "(context_pool s)[i := Some (?c\<lparr>allocated := False\<rparr>)]"
            and tr = "[ACT (Ev_actor i) A_RESET, EP_CONNECT, ACT Login_timer (A_TIMER_MOD (secs ISCSI_CONN_ERR_REOPEN_DELAY))]"])
         (use got False in \<open>simp_all add: conn_connect_or_wait_def iscsi_conn_connect_def Let_def set_ev_data_def
            iscsi_ev_context_put_def upd_context_def emit_def login_timer_mod_def queue_delayed_reopen_def r p taken_def\<close>)
  qed
qed

subsection \<open>Reopening and releasing\<close>

text \<open>The part of the session that decides about authentication.\<close>

definition login_cfg :: "iscsi_session \<Rightarrow> auth_buffer_desc list \<times> bool \<times> string \<times> auth_session" where
  "login_cfg l = (auth_buffers l, bidirectional_auth l, sess_username l, peer_account l)"

definition reopened :: "queue_task \<Rightarrow> sess \<Rightarrow> sess \<Rightarrow> bool" where
  "reopened q s s' \<longleftrightarrow> (\<exists>l n d P tr. s' = s\<lparr>login := l, reopen_cnt := n, c_state := ISCSI_CONN_STATE_XPT_WAIT,
       login_timer := Some (d, q), nop_out_timer := None, context_pool := P, trace := trace s @ tr\<rparr> \<and>
     login_cfg l = login_cfg (login s) \<and> pool_ok P \<and> polls_ok q P \<and> answers tr = [])"

lemma reopen_stop_reopened:
  assumes "pool_ok (context_pool s)"
  shows "reopened q s (session_conn_reopen_stop env q do_stop redirected s)"
proof -
  define s1 where "s1 = (let s = emit EP_DISCONNECT ((conn_delete_timers (iscsi_flush_context_pool s))\<lparr>c_state := ISCSI_CONN_STATE_XPT_WAIT\<rparr>)
    in if do_stop \<noteq> 0 then emit (STOP_CONN do_stop) s else s)"
  define tr1 where "tr1 = flush_acts (context_pool s) [0..<length (context_pool s)] @
    [ACT Login_timer A_DELETE, ACT Nop_out_timer A_DELETE, EP_DISCONNECT] @ (if do_stop \<noteq> 0 then [STOP_CONN do_stop] else [])"
  have s1: "s1 = s\<lparr>c_state := ISCSI_CONN_STATE_XPT_WAIT, login_timer := None, nop_out_timer := None,
      context_pool := flushed (context_pool s), trace := trace s @ tr1\<rparr>" "answers tr1 = []"
    by (simp_all add: s1_def tr1_def Let_def flush_eq conn_delete_timers_def delete_nop_out_timer_def delete_login_timer_def emit_def)
  have pl: "pool_ok (flushed (context_pool s))" "polls_ok q (flushed (context_pool s))"
    using flushed_idle assms by auto
  have R: "reopened q s s'" if w: "waits q (s1\<lparr>login := l, reopen_cnt := n\<rparr>) s'" and l: "login_cfg l = login_cfg (login s)" for l n s'
  proof -
    from w obtain d P tr where "s' = s1\<lparr>login := l, reopen_cnt := n, login_timer := Some (d, q), context_pool := P,
        trace := trace s @ tr1 @ tr\<rparr>" "pool_ok P" "polls_ok q P" "answers tr = []"
      using pl unfolding waits_def s1 by auto
    with l s1(2) show ?thesis
      unfolding reopened_def
      by (intro exI [of _ l] exI [of _ n] exI [of _ d] exI [of _ P] exI [of _ "tr1 @ tr"]) (simp add: s1)
  qed
  have same: "s1 = s1\<lparr>login := login s, reopen_cnt := reopen_cnt s\<rparr>"
    and inc: "s1\<lparr>reopen_cnt := k\<rparr> = s1\<lparr>login := login s, reopen_cnt := k\<rparr>"
    and tw: "upd_login (\<lambda>l. l\<lparr>def_time2wait := 0\<rparr>) s1 = s1\<lparr>login := (login s)\<lparr>def_time2wait := 0\<rparr>, reopen_cnt := reopen_cnt s\<rparr>" for k
    by (simp_all add: s1 upd_login_def)
  have eq: "session_conn_reopen_stop env q do_stop redirected s =
      (if do_stop \<noteq> 0 \<and> \<not> k_stop_ok env then queue_delayed_reopen q ISCSI_INTERNAL_ERR_REOPEN_DELAY s1
       else if \<not> redirected \<and> def_time2wait (login s1) \<noteq> 0
       then queue_delayed_reopen q (uint (def_time2wait (login s1))) (upd_login (\<lambda>l. l\<lparr>def_time2wait := 0\<rparr>) s1)
       else reopen_connect env q redirected s1)"
    by (simp add: session_conn_reopen_stop_def s1_def Let_def)
  have qd: "reopened q s (queue_delayed_reopen q k s1)" for k
    using R [OF queue_delayed_waits] same by metis
  moreover have "reopened q s (queue_delayed_reopen q k (upd_login (\<lambda>l. l\<lparr>def_time2wait := 0\<rparr>) s1))" for k
    using R [OF queue_delayed_waits] unfolding tw by (simp add: login_cfg_def)
  moreover have "reopened q s (reopen_connect env q redirected s1)"
  proof -
    have c: "reopened q s (conn_connect_or_wait env q (s1\<lparr>reopen_cnt := k\<rparr>))"
      "reopened q s (queue_delayed_reopen q d (s1\<lparr>reopen_cnt := k\<rparr>))" for k d
      unfolding inc by (rule R [OF conn_connect_waits refl], rule R [OF queue_delayed_waits refl])
    from c(1) [of "reopen_cnt s"] have "reopened q s (conn_connect_or_wait env q s1)"
      using same unfolding inc by simp
    with c qd show ?thesis unfolding reopen_connect_def Let_def by simp
  qed
  ultimately show ?thesis unfolding eq by simp
qed

lemma reopen_reopened:
  assumes "pool_ok (context_pool s)"
  shows "reopened q s (session_conn_reopen env q do_stop s)"
proof -
  let ?s = "upd_login (upd_conn (\<lambda>c. c\<lparr>saddr := failback_saddr s\<rparr>)) s"
  have "reopened q ?s (session_conn_reopen env q do_stop s)"
    unfolding session_conn_reopen_def by (rule reopen_stop_reopened) (use assms in \<open>simp add: upd_login_def\<close>)
  then show ?thesis by (auto simp: reopened_def upd_login_def upd_conn_def login_cfg_def)
qed

text \<open>The kernel obeys: it stops and destroys what it is told to, and gives the connection the number it is asked for. Where it
  refuses, \<open>session_conn_shutdown\<close> returns an error and leaves the session, with its request unanswered, as it is.\<close>

definition kernel_obeys :: "kenv \<Rightarrow> bool" where
  "kernel_obeys env \<longleftrightarrow> k_stop_ok env \<and> k_destroy_conn_ok env \<and> k_destroy_session_ok env \<and> snd (k_create_conn env) = 0"

definition released :: "queue_task option \<Rightarrow> sess \<Rightarrow> sess \<Rightarrow> bool" where
  "released q s s' \<longleftrightarrow> freed s' \<and> answers (trace s') = answers (trace s) @ task_list q"

lemma shutdown_cleanup_released:
  "k_destroy_session_ok env \<Longrightarrow> released q s (fst (shutdown_cleanup env q err s)) \<and> snd (shutdown_cleanup env q err s) = ISCSI_SUCCESS"
  by (cases q rule: task_list.cases)
     (simp_all add: shutdown_cleanup_def released_def session_destroy_def session_release_def flush_eq conn_delete_timers_def
      delete_nop_out_timer_def delete_login_timer_def write_rsp_eq emit_def Let_def)

lemma released_emit: "released q (s\<lparr>trace := trace s @ tr\<rparr>) s' \<Longrightarrow> answers tr = [] \<Longrightarrow> released q s s'"
  by (simp add: released_def)

lemma shutdown_released:
  assumes "kernel_obeys env"
  shows "released q s (fst (session_conn_shutdown env q err s)) \<and> snd (session_conn_shutdown env q err s) = ISCSI_SUCCESS"
proof -
  have k: "k_destroy_session_ok env" "k_stop_ok env" "k_destroy_conn_ok env" using assms by (simp_all add: kernel_obeys_def)
  have c: "released q s (fst (shutdown_cleanup env q err (s\<lparr>trace := trace s @ tr\<rparr>)))"
    "snd (shutdown_cleanup env q err (s\<lparr>trace := trace s @ tr\<rparr>)) = ISCSI_SUCCESS" if "answers tr = []" for tr
    using shutdown_cleanup_released [OF k(1), of q "s\<lparr>trace := trace s @ tr\<rparr>" err] released_emit that by auto
  show ?thesis
    using c [of "[EP_DISCONNECT]"] c [of "[EP_DISCONNECT, DESTROY_CONN]"]
      c [of "[EP_DISCONNECT, STOP_CONN STOP_CONN_TERM, DESTROY_CONN]"]
    by (simp add: session_conn_shutdown_def Let_def emit_def k)
qed

subsection \<open>The invariant\<close>

text \<open>The task that a session works on while it connects or logs in: that of the request during the initial login; when it
  recovers, that of the one who asked to take the session over, or its own.\<close>

definition stage_task :: "sess \<Rightarrow> queue_task \<Rightarrow> bool" where
  "stage_task s q \<longleftrightarrow>
     (if initial_login s then notify_qtask s = None \<and> (\<exists>n. q = Task n)
      else r_stage s = R_STAGE_SESSION_REOPEN \<and> q = (case notify_qtask s of Some t \<Rightarrow> t | None \<Rightarrow> Reopen_qtask))"

definition login_pre :: "sess \<Rightarrow> queue_task \<Rightarrow> bool" where
  "login_pre s q \<longleftrightarrow> \<not> freed s \<and> \<not> has_cap (transport s) CAP_LOGIN_OFFLOAD \<and> logout_qtask s = None \<and> nop_out_timer s = None \<and>
     conn_id s = 0 \<and> pool_ok (context_pool s) \<and> polls_ok q (context_pool s) \<and> stage_task s q"

definition timer_for :: "queue_task \<Rightarrow> sess \<Rightarrow> bool" where
  "timer_for q s \<longleftrightarrow> (\<exists>d. login_timer s = Some (d, q))"

definition in_login :: "sess \<Rightarrow> queue_task \<Rightarrow> bool" where
  "in_login s q \<longleftrightarrow> login_pre s q \<and> timer_for q s \<and> ctx_qtask s = Some q \<and> c_state s = ISCSI_CONN_STATE_IN_LOGIN"

definition waiting :: "sess \<Rightarrow> queue_task \<Rightarrow> bool" where
  "waiting s q \<longleftrightarrow> login_pre s q \<and> timer_for q s \<and> c_state s = ISCSI_CONN_STATE_XPT_WAIT"

definition settled :: "sess \<Rightarrow> bool" where
  "settled s \<longleftrightarrow> \<not> freed s \<and> \<not> has_cap (transport s) CAP_LOGIN_OFFLOAD \<and> conn_id s = 0 \<and> pool_ok (context_pool s) \<and>
     login_timer s = None \<and> notify_qtask s = None \<and> r_stage s = R_STAGE_NO_CHANGE \<and>
     c_state s \<notin> {ISCSI_CONN_STATE_XPT_WAIT, ISCSI_CONN_STATE_IN_LOGIN}"

definition sess_ok :: "sess \<Rightarrow> bool" where
  "sess_ok s \<longleftrightarrow> (\<exists>q. waiting s q \<or> in_login s q) \<or> settled s"

definition step_ok :: "nat list \<Rightarrow> sess \<Rightarrow> sess \<Rightarrow> bool" where
  "step_ok ns s s' \<longleftrightarrow> (freed s' \<or> sess_ok s') \<and>
     mset (answers (trace s')) + mset (owed s') = mset (answers (trace s)) + mset ns"

lemma step_ok_cong: "step_ok ns t s' \<Longrightarrow> answers (trace t) = answers (trace s) \<Longrightarrow> step_ok ns s s'"
  by (simp add: step_ok_def)

lemma reopened_ok:
  assumes "login_pre s q" "reopened q s s'"
  shows "step_ok (task_list (Some q)) s s'"
proof -
  from assms have "waiting s' q"
    by (auto simp: reopened_def waiting_def login_pre_def timer_for_def stage_task_def initial_login_def)
  moreover from assms have "answers (trace s') = answers (trace s)" "owed s' = task_list (Some q)"
    by (auto simp: reopened_def owed_def login_task_def login_pre_def)
  ultimately show ?thesis by (auto simp: step_ok_def sess_ok_def)
qed

lemma released_ok: "released q s s' \<Longrightarrow> step_ok (task_list q) s s'"
  by (simp add: released_def step_ok_def owed_def)

lemma shutdown_ok: "kernel_obeys env \<Longrightarrow> step_ok (task_list q) s (fst (session_conn_shutdown env q err s))"
  using shutdown_released released_ok by blast

lemma reopen_ok: "login_pre s q \<Longrightarrow> step_ok (task_list (Some q)) s (session_conn_reopen env q do_stop s)"
  using reopened_ok reopen_reopened by (auto simp: login_pre_def)

lemma login_pre_flush [simp]: "login_pre s q \<Longrightarrow> login_pre (iscsi_flush_context_pool s) q"
  by (auto simp: login_pre_def flush_eq flushed_idle stage_task_def initial_login_def)

lemma login_eh_ok:
  assumes pre: "login_pre s q" and k: "kernel_obeys env"
    and st: "c_state s = ISCSI_CONN_STATE_XPT_WAIT \<or> c_state s = ISCSI_CONN_STATE_IN_LOGIN"
  shows "step_ok (task_list (Some q)) s (iscsi_login_eh env q err s)"
proof -
  define t where "t = iscsi_flush_context_pool s"
  have t: "login_pre t q" "c_state t = c_state s" "answers (trace t) = answers (trace s)"
    using pre by (simp_all add: t_def) (simp_all add: flush_eq)
  have r: "r_stage t = R_STAGE_NO_CHANGE \<or> r_stage t = R_STAGE_SESSION_REDIRECT \<or> r_stage t = R_STAGE_SESSION_REOPEN"
    using t(1) by (auto simp: login_pre_def stage_task_def initial_login_def split: if_splits)
  have s: "step_ok (task_list (Some q)) t (shutdown_login env q e t)" for e
    unfolding shutdown_login_def by (rule shutdown_ok [OF k])
  have "step_ok (task_list (Some q)) t (login_eh_xpt_wait env q err t)" "step_ok (task_list (Some q)) t (login_eh_in_login env q err t)"
    using r s reopen_ok [OF t(1)]
    by (auto simp: login_eh_xpt_wait_def login_eh_in_login_def)
  with st t show ?thesis
    unfolding iscsi_login_eh_def Let_def t_def [symmetric] by (auto intro: step_ok_cong)
qed

lemma login_redirect_ok:
  assumes "login_pre s q" "ctx_qtask s = Some q"
  shows "step_ok (task_list (Some q)) s (iscsi_login_redirect env s)"
proof -
  define t where "t = (if r_stage s = R_STAGE_NO_CHANGE then s\<lparr>r_stage := R_STAGE_SESSION_REDIRECT\<rparr> else s)"
  have t: "login_pre t q" "ctx_qtask t = Some q" "trace t = trace s"
    using assms by (auto simp: t_def login_pre_def stage_task_def initial_login_def)
  then have "step_ok (task_list (Some q)) t (session_conn_reopen_stop env q STOP_CONN_RECOVER True t)"
    by (intro reopened_ok reopen_stop_reopened) (simp_all add: login_pre_def)
  with t show ?thesis
    unfolding iscsi_login_redirect_def Let_def t_def [symmetric] by (auto intro: step_ok_cong)
qed

lemma param_ext_ok:
  assumes "param_ext s s'"
  shows "login_pre s' q \<longleftrightarrow> login_pre s q" "timer_for q s' \<longleftrightarrow> timer_for q s" "ctx_qtask s' = ctx_qtask s" "c_state s' = c_state s"
    "answers (trace s') = answers (trace s)" "login s' = login s" "r_stage s' = r_stage s" "context_pool s' = context_pool s"
  using assms by (auto simp: param_ext_def login_pre_def timer_for_def stage_task_def initial_login_def)

lemma ctx_login_eh_ok:
  assumes "login_pre s q" "ctx_qtask s = Some q" "c_state s = ISCSI_CONN_STATE_IN_LOGIN" "kernel_obeys env"
  shows "step_ok (task_list (Some q)) s (ctx_login_eh env err s)"
  unfolding ctx_login_eh_def using assms login_eh_ok [OF assms(1,4)] by simp

subsection \<open>Logging in\<close>

lemma login_pre_simps [simp]:
  "login_pre (emit e s) q = login_pre s q" "login_pre (s\<lparr>c_state := st\<rparr>) q = login_pre s q"
  "login_pre (s\<lparr>login_timer := tm\<rparr>) q = login_pre s q" "login_pre (s\<lparr>login := l\<rparr>) q = login_pre s q"
  "login_pre (s\<lparr>login_ctx := c\<rparr>) q = login_pre s q" "login_pre (s\<lparr>ctx_qtask := t\<rparr>) q = login_pre s q"
  "login_pre (s\<lparr>reopen_cnt := n\<rparr>) q = login_pre s q" "login_pre (s\<lparr>failback_saddr := a\<rparr>) q = login_pre s q"
  "login_pre (s\<lparr>recv_context := r\<rparr>) q = login_pre s q" "login_pre (s\<lparr>sid := i\<rparr>) q = login_pre s q"
  "login_pre (s\<lparr>hostno := h\<rparr>) q = login_pre s q" "login_pre (s\<lparr>nrec := nr\<rparr>) q = login_pre s q"
  "login_pre (s\<lparr>erl := x\<rparr>) q = login_pre s q" "login_pre (upd_login f s) q = login_pre s q"
  "login_pre (delete_login_timer s) q = login_pre s q"
  by (simp_all add: login_pre_def stage_task_def initial_login_def emit_def upd_login_def delete_login_timer_def)

lemma emit_simps [simp]:
  "ctx_qtask (emit e s) = ctx_qtask s" "c_state (emit e s) = c_state s" "login_timer (emit e s) = login_timer s"
  "trace (emit e s) = trace s @ [e]" "context_pool (emit e s) = context_pool s" "r_stage (emit e s) = r_stage s"
  "notify_qtask (emit e s) = notify_qtask s" "conn_id (emit e s) = conn_id s" "login (emit e s) = login s"
  "freed (emit e s) = freed s" "sid (emit e s) = sid s" "transport (emit e s) = transport s" "logout_qtask (emit e s) = logout_qtask s"
  "login_ctx (emit e s) = login_ctx s" "nop_out_timer (emit e s) = nop_out_timer s"
  by (simp_all add: emit_def)

text \<open>The step from the end of the login to the full feature phase answers the request.\<close>

lemma logged_in_ok:
  assumes "login_pre u q" "ctx_qtask u = Some q" "login_timer u = None" "r_stage v = R_STAGE_NO_CHANGE"
    and "v = u\<lparr>c_state := ISCSI_CONN_STATE_LOGGED_IN, notify_qtask := None, reopen_cnt := 0, r_stage := R_STAGE_NO_CHANGE,
      nop_out_timer := nop_out_timer v, trace := trace v\<rparr>"
    and "answers (trace v) = answers (trace u) @ task_list (Some q)"
  shows "step_ok (task_list (Some q)) u v"
proof -
  have "settled v" "owed v = []" using assms(1-3) by (subst assms(5), simp add: settled_def owed_def login_task_def login_pre_def)+
  with assms(6) show ?thesis by (simp add: step_ok_def sess_ok_def)
qed

lemma setup_full_ok:
  assumes pre: "login_pre s q" and q: "ctx_qtask s = Some q" and st: "c_state s = ISCSI_CONN_STATE_IN_LOGIN" and k: "kernel_obeys env"
  shows "step_ok (task_list (Some q)) s (setup_full_feature_phase env s)"
proof -
  obtain t failed where t: "iscsi_session_set_neg_params (k_set_param env) (delete_login_timer s) = (t, failed)" by force
  note x = param_ext_ok [OF set_neg_params_ext [OF t]]
  define u where "u = emit START_CONN t"
  have lt: "login_timer t = None" using set_neg_params_ext [OF t] by (auto simp: param_ext_def delete_login_timer_def emit_def)
  have t': "login_pre t q" "ctx_qtask t = Some q" "c_state t = ISCSI_CONN_STATE_IN_LOGIN" "answers (trace t) = answers (trace s)"
    using x(1) [of q] x(3,4,5) pre q st by (simp_all add: delete_login_timer_def)
  then have u: "login_pre u q" "ctx_qtask u = Some q" "c_state u = ISCSI_CONN_STATE_IN_LOGIN" "answers (trace u) = answers (trace s)"
    "login_timer u = None"
    using lt by (simp_all add: u_def)
  have eh: "step_ok (task_list (Some q)) s (ctx_login_eh env e t)" "step_ok (task_list (Some q)) s (ctx_login_eh env e u)" for e
    using ctx_login_eh_ok [OF t'(1-3) k, of e] ctx_login_eh_ok [OF u(1-3) k, of e] t'(4) u(4) by (simp_all add: step_ok_def)
  define v where "v = (let w = u\<lparr>c_state := ISCSI_CONN_STATE_LOGGED_IN\<rparr> in
     if initial_login w then (if conn_id w = 0 then session_scan_host env (ctx_qtask w) w else w)
     else mgmt_ipc_write_rsp (ctx_qtask w) ISCSI_SUCCESS (emit ONLINE_DEVS (w\<lparr>notify_qtask := None\<rparr>)))"
  have c: "conn_id u = 0" "initial_login u \<Longrightarrow> notify_qtask u = None"
    using u(1) by (auto simp: login_pre_def stage_task_def)
  have v: "v = u\<lparr>c_state := ISCSI_CONN_STATE_LOGGED_IN, notify_qtask := None, trace := trace v\<rparr>"
    "answers (trace v) = answers (trace u) @ task_list (Some q)"
    using c u(2) by (cases q; cases "initial_login u"; simp add: v_def Let_def session_scan_host_def initial_login_def write_rsp_eq
        emit_def)+
  define tr where "tr = trace v"
  have v': "v = u\<lparr>c_state := ISCSI_CONN_STATE_LOGGED_IN, notify_qtask := None, trace := tr\<rparr>"
    "answers tr = answers (trace u) @ task_list (Some q)"
    using v by (simp_all add: tr_def)
  have fin: "step_ok (task_list (Some q)) u (finish_login v)"
    "step_ok (task_list (Some q)) u (start_nop_out_timer n cb (finish_login v))" for n cb
    by (rule logged_in_ok [OF u(1,2,5)]; simp add: v' finish_login_def start_nop_out_timer_def emit_def)+
  show ?thesis
    using eh fin u(4)
    by (simp add: setup_full_feature_phase_def t Let_def u_def [symmetric] v_def [unfolded Let_def, symmetric] step_ok_def)
qed

end
