(* ===== verification/Session_Handlers.thy ===== *)
theory Session_Handlers
  imports Session_Invariant
begin

text \<open>
  Every event handler keeps the invariant of a session and the balance of requests and answers: received PDUs, the
  connection, connection errors, logout, messages of the kernel, timers (\<open>session_step_ok\<close>), and so every run does
  (\<open>session_run_ok\<close>). \<open>session_runs\<close> is the contract of an invariant of the steps; \<open>try_login_waiting\<close> and
  \<open>sync_waiting\<close> show the invariant for new sessions.
\<close>

text \<open>The context whose actor is running is not queued, so giving it back keeps the pool in order.\<close>

definition running :: "nat \<Rightarrow> sess \<Rightarrow> bool" where
  "running i s \<longleftrightarrow> (\<forall>c. i < length (context_pool s) \<longrightarrow> context_pool s ! i = Some c \<longrightarrow> ev_pending c = None)"

definition put_pool :: "nat \<Rightarrow> sess \<Rightarrow> iscsi_ev_context option list" where
  "put_pool i s = (context_pool s)[i := map_option (\<lambda>c. c\<lparr>allocated := False\<rparr>) (context_pool s ! i)]"

lemma put_eq: "iscsi_ev_context_put i s = s\<lparr>context_pool := put_pool i s\<rparr>"
  by (simp add: iscsi_ev_context_put_def upd_context_def put_pool_def)

lemma put_pool_ok: "running i s \<Longrightarrow> pool_ok (context_pool s) \<Longrightarrow> pool_ok (put_pool i s)"
proof (cases "i < length (context_pool s)")
  case True
  assume r: "running i s" and p: "pool_ok (context_pool s)"
  have "ev_pending c = None \<and> ev_data c \<noteq> Data_error ISCSI_ERR_INVALID_HOST" if "context_pool s ! i = Some c" for c
    using True r p nth_mem [OF True] that by (auto simp: running_def pool_ok_def)
  then show ?thesis using p unfolding put_pool_def by (intro pool_ok_update) auto
qed (simp add: put_pool_def list_update_beyond)

lemma put_polls_ok: "running i s \<Longrightarrow> polls_ok q (context_pool s) \<Longrightarrow> polls_ok q (put_pool i s)"
  by (cases "i < length (context_pool s)") (auto simp: put_pool_def running_def list_update_beyond intro: polls_ok_update)

lemma login_pre_pool: "login_pre s q \<Longrightarrow> pool_ok P \<Longrightarrow> polls_ok q P \<Longrightarrow> login_pre (s\<lparr>context_pool := P\<rparr>) q"
  by (simp add: login_pre_def stage_task_def initial_login_def)

lemma timer_for_simps [simp]:
  "timer_for q (emit e s) = timer_for q s" "timer_for q (s\<lparr>c_state := st\<rparr>) = timer_for q s"
  "timer_for q (s\<lparr>login := l\<rparr>) = timer_for q s" "timer_for q (s\<lparr>login_ctx := c\<rparr>) = timer_for q s"
  "timer_for q (s\<lparr>context_pool := P\<rparr>) = timer_for q s" "timer_for q (s\<lparr>recv_context := r\<rparr>) = timer_for q s"
  "timer_for q (s\<lparr>ctx_qtask := t\<rparr>) = timer_for q s" "timer_for q (s\<lparr>nrec := nr\<rparr>) = timer_for q s"
  "timer_for q (s\<lparr>erl := x\<rparr>) = timer_for q s" "timer_for q (s\<lparr>sid := i\<rparr>) = timer_for q s"
  "timer_for q (s\<lparr>hostno := h\<rparr>) = timer_for q s" "timer_for q (upd_login f s) = timer_for q s"
  "timer_for q (s\<lparr>failback_saddr := a\<rparr>) = timer_for q s" "timer_for q (s\<lparr>conn_id := i'\<rparr>) = timer_for q s"
  by (simp_all add: timer_for_def emit_def upd_login_def)

lemma recv_pdu_end_in_login:
  assumes "in_login s q" "\<And>i. recv_context s = Some i \<Longrightarrow> running i s"
  shows "in_login (recv_pdu_end s) q" "trace (recv_pdu_end s) = trace s"
proof -
  have p: "pool_ok (context_pool s)" "polls_ok q (context_pool s)" using assms(1) by (simp_all add: in_login_def login_pre_def)
  show "in_login (recv_pdu_end s) q"
    using assms(1) put_pool_ok [OF assms(2) p(1)] put_polls_ok [OF assms(2) p(2)]
    by (cases "recv_context s") (auto simp: recv_pdu_end_def put_eq in_login_def login_pre_pool)
  show "trace (recv_pdu_end s) = trace s" by (simp add: recv_pdu_end_def put_eq split: option.splits)
qed

lemma login_rsp_ok:
  assumes "recv_login_pdu env s = (t, err)" "in_login s q" "\<And>i. recv_context s = Some i \<Longrightarrow> running i s"
  shows "in_login t q" "trace t = trace s"
proof -
  obtain l c e where r: "iscsi_login_rsp (k_login env) (login s) (login_ctx s) (k_recv env) = ((l, c), e)" by (metis surj_pair)
  let ?s = "s\<lparr>login := l, login_ctx := c\<rparr>"
  have i: "in_login ?s q" "\<And>i. recv_context ?s = Some i \<Longrightarrow> running i ?s"
    using assms(2,3) by (auto simp: in_login_def running_def)
  show "in_login t q" "trace t = trace s"
    using assms(1) i(1) recv_pdu_end_in_login [OF i] by (auto simp: recv_login_pdu_def r split: if_splits)
qed

lemma in_login_parts: "in_login s q \<Longrightarrow> login_pre s q" "in_login s q \<Longrightarrow> ctx_qtask s = Some q" "in_login s q \<Longrightarrow> c_state s = ISCSI_CONN_STATE_IN_LOGIN"
  by (simp_all add: in_login_def)

lemma in_login_ok: "in_login s q \<Longrightarrow> answers (trace s) = answers (trace s0) \<Longrightarrow> step_ok (task_list (Some q)) s0 s"
  by (auto simp: step_ok_def sess_ok_def owed_def login_task_def in_login_def login_pre_def)

lemma recv_failed_ok:
  assumes "in_login s q" "kernel_obeys env" shows "step_ok (task_list (Some q)) s (recv_failed env err s)"
  using ctx_login_eh_ok [of "s\<lparr>reopen_cnt := nr_initial_login_retry_max (nrec s)\<rparr>" q env err] assms
  by (simp add: recv_failed_def in_login_def step_ok_def)

lemma login_req_in_login:
  assumes "send_login_pdu env s = (t, failed)" "in_login s q" shows "in_login t q" "answers (trace t) = answers (trace s)"
  using assms by (auto simp: send_login_pdu_def in_login_def split: prod.splits)

lemma recv_next_stage_ok:
  assumes i: "in_login s q" and k: "kernel_obeys env" shows "step_ok (task_list (Some q)) s (recv_next_stage env s)"
proof -
  obtain t failed where t: "send_login_pdu env (s\<lparr>c_state := ISCSI_CONN_STATE_IN_LOGIN\<rparr>) = (t, failed)" by force
  have i': "in_login (s\<lparr>c_state := ISCSI_CONN_STATE_IN_LOGIN\<rparr>) q" using i by (simp add: in_login_def)
  note l = login_req_in_login [OF t i']
  have "step_ok (task_list (Some q)) s (ctx_login_eh env ISCSI_ERR_LOGIN t)"
    using ctx_login_eh_ok [OF in_login_parts [OF l(1)] k] l(2) by (simp add: step_ok_def)
  then show ?thesis
    using in_login_ok [OF l(1), of s] l(2) setup_full_ok [OF in_login_parts [OF i] k] by (simp add: recv_next_stage_def t)
qed

lemma recv_status_ok:
  assumes i: "in_login s q" and k: "kernel_obeys env" shows "step_ok (task_list (Some q)) s (recv_status env s)"
proof -
  obtain t st where t: "check_iscsi_status_class (ctx_class (login_ctx s)) (ctx_detail (login_ctx s)) s = (t, st)" by force
  then have j: "in_login t q" "answers (trace t) = answers (trace s)"
    using i by (auto simp: check_iscsi_status_class_def in_login_def split: if_splits)
  note p = in_login_parts [OF j(1)]
  have "step_ok (task_list (Some q)) t (case st of
             CONN_LOGIN_AUTH_FAILED \<Rightarrow> recv_failed env ISCSI_ERR_LOGIN_AUTH_FAILED t
           | CONN_LOGIN_FAILED \<Rightarrow> recv_failed env ISCSI_ERR_FATAL_LOGIN t
           | CONN_LOGIN_IMM_REDIRECT_RETRY \<Rightarrow> iscsi_login_redirect env t
           | CONN_LOGIN_IMM_RETRY \<Rightarrow> ctx_login_eh env ISCSI_ERR_LOGIN t
           | CONN_LOGIN_RETRY \<Rightarrow> ctx_login_eh env ISCSI_ERR_LOGIN t
           | _ \<Rightarrow> recv_next_stage env t)"
    using recv_failed_ok [OF j(1) k] login_redirect_ok [OF p(1,2)] ctx_login_eh_ok [OF p k] recv_next_stage_ok [OF j(1) k]
    by (cases st) simp_all
  with j(2) show ?thesis by (simp add: recv_status_def t step_ok_def)
qed

lemma recv_login_rsp_ok:
  assumes i: "in_login s q" and r: "\<And>i. recv_context s = Some i \<Longrightarrow> running i s" and k: "kernel_obeys env"
  shows "step_ok (task_list (Some q)) s (iscsi_recv_login_rsp env s)"
proof -
  obtain t err where t: "recv_login_pdu env s = (t, err)" by force
  note j = login_rsp_ok [OF t i r]
  note p = in_login_parts [OF j(1)]
  have "step_ok (task_list (Some q)) t (if err then
          (case login_response_status (ret (login_ctx t)) of
             CONN_LOGIN_FAILED \<Rightarrow> recv_failed env ISCSI_ERR_FATAL_LOGIN t
           | CONN_LOGIN_RETRY \<Rightarrow> ctx_login_eh env ISCSI_ERR_LOGIN t
           | CONN_LOGIN_IMM_REDIRECT_RETRY \<Rightarrow> iscsi_login_redirect env t
           | _ \<Rightarrow> recv_status env t)
        else recv_next_stage env t)"
    using recv_failed_ok [OF j(1) k] login_redirect_ok [OF p(1,2)] ctx_login_eh_ok [OF p k] recv_next_stage_ok [OF j(1) k]
      recv_status_ok [OF j(1) k]
    by (cases "login_response_status (ret (login_ctx t))") simp_all
  with j(2) show ?thesis by (simp add: iscsi_recv_login_rsp_def t step_ok_def)
qed

subsection \<open>From the connection to the login\<close>

lemma waiting_eh: "waiting s q \<Longrightarrow> kernel_obeys env \<Longrightarrow> step_ok (task_list (Some q)) s (iscsi_login_eh env q err s)"
  by (rule login_eh_ok) (simp_all add: waiting_def)

lemma waiting_ext: "param_ext s t \<Longrightarrow> waiting s q \<Longrightarrow> waiting t q \<and> answers (trace t) = answers (trace s) \<and> ctx_qtask t = ctx_qtask s"
  using param_ext_ok [of s t] by (simp add: waiting_def)

lemma start_login_ok:
  assumes s: "waiting s q" "ctx_qtask s = Some q" and k: "kernel_obeys env"
  shows "step_ok (task_list (Some q)) s (start_login env q s)"
proof -
  obtain t1 f1 where t1: "iscsi_session_set_params (k_set_param env) (k_supports_nop env) s = (t1, f1)" by force
  obtain t2 f2 where t2: "iscsi_host_set_params (k_host_param env) t1 = (t2, f2)" by force
  obtain t3 f3 where t3: "login_begin env t2 = (t3, f3)" by force
  obtain t4 f4 where t4: "send_login_pdu env (t3\<lparr>c_state := ISCSI_CONN_STATE_IN_LOGIN\<rparr>) = (t4, f4)" by force
  note x1 = waiting_ext [OF set_params_ext [OF t1] s(1)]
  note x2 = waiting_ext [OF host_set_params_ext [OF t2] conjunct1 [OF x1]]
  have x3: "waiting t3 q" "trace t3 = trace t2" "ctx_qtask t3 = ctx_qtask t2"
    using t3 x2 by (auto simp: login_begin_def waiting_def split: prod.splits)
  have "in_login (t3\<lparr>c_state := ISCSI_CONN_STATE_IN_LOGIN\<rparr>) q"
    using x1 x2 x3 s(2) by (simp add: in_login_def waiting_def)
  note x4 = login_req_in_login [OF t4 this]
  have "step_ok (task_list (Some q)) t4 (iscsi_login_eh env q e t4)" for e
    by (rule login_eh_ok) (use x4(1) k in \<open>simp_all add: in_login_def\<close>)
  then show ?thesis
    using x1 x2 x3 x4 waiting_eh [OF _ k, of t1 q] waiting_eh [OF _ k, of t2 q] waiting_eh [OF x3(1) k] in_login_ok [OF x4(1), of s]
    by (simp add: start_login_def t1 t2 t3 t4 step_ok_def)
qed

lemma bind_ok:
  assumes s: "waiting s q" and k: "kernel_obeys env"
  shows "step_ok (task_list (Some q)) s (bind_and_login env q s)"
proof -
  define t where "t = emit BIND_CONN (set_isid (iscsi_copy_operational_params s))"
  define u where "u = upd_login (upd_conn (\<lambda>c. c\<lparr>exp_statsn := k_exp_statsn env\<rparr>))
                     (t\<lparr>ctx_qtask := Some q, login_ctx := (login_ctx t)\<lparr>bufsize := unat ISCSI_DEF_MAX_RECV_SEG_LEN\<rparr>\<rparr>)"
  have t: "waiting t q" "answers (trace t) = answers (trace s)"
    using s by (simp_all add: t_def set_isid_def iscsi_copy_operational_params_def waiting_def upd_login_def split: prod.splits)
  then have u: "waiting u q" "answers (trace u) = answers (trace s)" "ctx_qtask u = Some q" "\<not> has_cap (transport u) CAP_LOGIN_OFFLOAD"
    by (simp_all add: u_def waiting_def upd_login_def) (simp add: login_pre_def)
  show ?thesis
    using t u waiting_eh [OF t(1) k] start_login_ok [OF u(1,3) k]
    by (simp add: bind_and_login_def t_def [symmetric] Let_def u_def [symmetric] step_ok_def)
qed

lemma conn_established_ok:
  assumes s: "waiting s q" and k: "kernel_obeys env"
  shows "step_ok (task_list (Some q)) s (conn_established env q s)"
proof -
  define t where "t = clear_login_context s"
  have t: "waiting t q" "answers (trace t) = answers (trace s)" "sid t = sid s"
    using s by (simp_all add: t_def clear_login_context_def waiting_def timer_for_def)
  obtain u err where u: "(if conn_id t = 0 then session_ipc_create env t else (t, 0)) = (u, err)" by force
  have u': "waiting u q" "answers (trace u) = answers (trace s)"
    using u t by (auto simp: session_ipc_create_def Let_def waiting_def split: if_splits)
  let ?v = "(emit CREATE_CONN u)\<lparr>conn_id := snd (k_create_conn env)\<rparr>"
  have v: "waiting ?v q" using u'(1) k by (simp add: waiting_def login_pre_def stage_task_def initial_login_def kernel_obeys_def emit_def timer_for_def)
  show ?thesis
    using t u' shutdown_ok [OF k, of "Some q" u ISCSI_ERR_INTERNAL]
      shutdown_ok [OF k, of "Some q" "emit CREATE_CONN u" ISCSI_ERR_INTERNAL] bind_ok [OF v k] bind_ok [OF t(1) k]
    by (simp add: conn_established_def t_def [symmetric] Let_def u step_ok_def split: prod.splits)
qed

lemma waiting_ok: "waiting s q \<Longrightarrow> answers (trace s) = answers (trace s0) \<Longrightarrow> step_ok (task_list (Some q)) s0 s"
  by (auto simp: step_ok_def sess_ok_def owed_def login_task_def waiting_def login_pre_def timer_for_def)

lemma waiting_put: "waiting s q \<Longrightarrow> running i s \<Longrightarrow> waiting (iscsi_ev_context_put i s) q"
  by (auto simp: waiting_def put_eq login_pre_pool put_pool_ok put_polls_ok login_pre_def stage_task_def initial_login_def)

lemma queue_delayed_ok:
  "waiting s q \<Longrightarrow> step_ok (task_list (Some q)) s (queue_delayed_reopen q d s)"
  by (rule waiting_ok) (simp_all add: queue_delayed_reopen_def login_timer_mod_def waiting_def timer_for_def)

lemma poll_again_ok:
  assumes w: "waiting s q" and k: "kernel_obeys env"
  shows "step_ok (task_list (Some q)) s
    (case iscsi_ev_context_get True s of
       (s, None) \<Rightarrow> iscsi_login_eh env q ISCSI_ERR_INTERNAL s
     | (s, Some j) \<Rightarrow> iscsi_sched_ev_context j 1 EV_CONN_POLL (set_ev_data j (Data_qtask q) s))"
proof (cases rule: ev_get_cases [of True s])
  case none
  then show ?thesis using waiting_eh [OF w k] by simp
next
  case (got i c)
  let ?P = "(context_pool s)[i := Some ((taken c)\<lparr>ev_data := Data_qtask q, ev_pending := Some (EV_CONN_POLL, 1)\<rparr>)]"
  let ?t = "s\<lparr>context_pool := ?P, trace := trace s @ [ACT (Ev_actor i) A_RESET, ACT (Ev_actor i) (A_TIMER 1)]\<rparr>"
  have "pool_ok ?P" "polls_ok q ?P"
    using w by (auto simp: waiting_def login_pre_def taken_def intro!: pool_ok_update polls_ok_update)
  then have "waiting ?t q"
    using w by (simp add: waiting_def login_pre_def stage_task_def initial_login_def timer_for_def)
  then have "step_ok (task_list (Some q)) s ?t" by (rule waiting_ok) simp
  then show ?thesis
    using got by (simp add: set_ev_data_def upd_context_def pend_def emit_def)
qed

lemma conn_poll_ok:
  assumes w: "waiting s q" and r: "running i s" and d: "ctx_data i s = Data_qtask q" and k: "kernel_obeys env"
  shows "step_ok (task_list (Some q)) s (session_conn_poll env i s)"
proof -
  define t where "t = iscsi_ev_context_put i s"
  have t: "waiting t q" "c_state t = ISCSI_CONN_STATE_XPT_WAIT" "trace t = trace s"
    using waiting_put [OF w r] by (simp_all add: t_def waiting_def put_eq)
  then show ?thesis
    using poll_again_ok [OF t(1) k] conn_established_ok [OF t(1) k] queue_delayed_ok [OF t(1)]
    by (simp add: session_conn_poll_def d t_def [symmetric] Let_def step_ok_def)
qed

subsection \<open>Errors and logout\<close>

lemma settled_simps [simp]:
  "settled (emit e s) = settled s" "settled (s\<lparr>recv_context := r\<rparr>) = settled s" "settled (s\<lparr>login := l\<rparr>) = settled s"
  "settled (s\<lparr>logout_qtask := lq\<rparr>) = settled s" "settled (s\<lparr>nop_out_timer := nt\<rparr>) = settled s" "settled (upd_login f s) = settled s"
  by (auto simp: settled_def emit_def upd_login_def)

lemma settled_pool: "settled s \<Longrightarrow> pool_ok P \<Longrightarrow> settled (s\<lparr>context_pool := P\<rparr>)"
  by (simp add: settled_def)

lemma settled_owed: "settled s \<Longrightarrow> owed s = task_list (logout_qtask s)"
  by (auto simp: settled_def owed_def login_task_def split: iscsi_conn_state.splits)

lemma settled_ok:
  "settled s \<Longrightarrow> answers (trace s) = answers (trace s0) \<Longrightarrow> logout_qtask s = logout_qtask s0 \<Longrightarrow> settled s0 \<Longrightarrow> step_ok (owed s0) s0 s"
  by (simp add: step_ok_def sess_ok_def settled_owed)

lemma settled_error_ok:
  assumes s: "settled s" and k: "kernel_obeys env"
  shows "step_ok (owed s) s (conn_error_handle env s)"
proof (cases "logout_qtask s")
  case (Some q)
  then show ?thesis using shutdown_ok [OF k] by (simp add: conn_error_handle_def settled_owed [OF s])
next
  case None
  let ?u = "s\<lparr>c_state := ISCSI_CONN_STATE_CLEANUP_WAIT\<rparr>"
  let ?t = "?u\<lparr>r_stage := R_STAGE_SESSION_REOPEN\<rparr>"
  have r: "reopened Reopen_qtask ?t (session_conn_reopen env Reopen_qtask STOP_CONN_RECOVER ?t)"
    by (rule reopen_reopened) (use s in \<open>simp add: settled_def\<close>)
  have "waiting (session_conn_reopen env Reopen_qtask STOP_CONN_RECOVER ?t) Reopen_qtask"
    "answers (trace (session_conn_reopen env Reopen_qtask STOP_CONN_RECOVER ?t)) = answers (trace s)"
    using r s None by (auto simp: reopened_def waiting_def login_pre_def timer_for_def stage_task_def initial_login_def settled_def)
  then have w: "step_ok [] s (session_conn_reopen env Reopen_qtask STOP_CONN_RECOVER ?t)"
    using waiting_ok [of _ Reopen_qtask s] by simp
  have "settled ?u" using s by (auto simp: settled_def)
  then have "step_ok [] s ?u" "step_ok [] s s" using s None by (simp_all add: step_ok_def sess_ok_def settled_owed)
  with w show ?thesis
    using s None by (auto simp: conn_error_handle_def Let_def settled_owed) (auto simp: settled_def)
qed

lemma login_error_ok:
  assumes "in_login s q \<or> waiting s q" and k: "kernel_obeys env"
  shows "step_ok (task_list (Some q)) s (conn_error_handle env s)"
proof (cases "in_login s q")
  case True
  then have pre: "login_pre s q" "c_state s = ISCSI_CONN_STATE_IN_LOGIN" by (simp_all add: in_login_def)
  have "step_ok (task_list (Some q)) s s" using True by (rule in_login_ok) simp
  moreover have "step_ok (task_list (Some q)) s (iscsi_login_eh env q ISCSI_ERR_TRANS s)"
    by (rule login_eh_ok) (use pre k in simp_all)
  ultimately show ?thesis
    using pre by (auto simp: conn_error_handle_def login_pre_def stage_task_def initial_login_def split: option.splits)
next
  case False
  then have w: "waiting s q" using assms by blast
  then have "conn_error_handle env s = s" by (simp add: waiting_def login_pre_def conn_error_handle_def)
  then show ?thesis using waiting_ok [OF w, of s] by simp
qed

lemma in_login_put: "in_login s q \<Longrightarrow> running i s \<Longrightarrow> in_login (iscsi_ev_context_put i s) q"
  by (auto simp: in_login_def put_eq login_pre_def put_pool_ok put_polls_ok stage_task_def initial_login_def)

lemma settled_put: "settled s \<Longrightarrow> running i s \<Longrightarrow> settled (iscsi_ev_context_put i s)"
  unfolding put_eq by (rule settled_pool) (auto simp: settled_def intro: put_pool_ok)

lemma sess_ok_put:
  assumes "sess_ok s" "running i s"
  shows "sess_ok (iscsi_ev_context_put i s)" "owed (iscsi_ev_context_put i s) = owed s" "trace (iscsi_ev_context_put i s) = trace s"
    "logout_qtask (iscsi_ev_context_put i s) = logout_qtask s" "c_state (iscsi_ev_context_put i s) = c_state s"
    "transport (iscsi_ev_context_put i s) = transport s"
  using assms waiting_put in_login_put settled_put unfolding sess_ok_def
  by blast (simp_all add: put_eq owed_def login_task_def split: iscsi_conn_state.split)

lemma error_ok:
  assumes "sess_ok s" "kernel_obeys env" shows "step_ok (owed s) s (conn_error_handle env s)"
proof -
  have "owed s = task_list (Some q)" if "in_login s q \<or> waiting s q" for q
    using that by (auto simp: owed_def login_task_def in_login_def waiting_def login_pre_def timer_for_def)
  with assms login_error_ok settled_error_ok show ?thesis unfolding sess_ok_def by metis
qed

text \<open>Sending a logout request: if it fails, nothing but the state of the connection has changed.\<close>

lemma send_logout_settled:
  assumes "settled s" "iscsi_send_logout env s = (t, rc)"
  shows "settled t" "answers (trace t) = answers (trace s)" "logout_qtask t = logout_qtask s"
proof -
  let ?s = "(emit SEND_LOGOUT s)\<lparr>c_state := ISCSI_CONN_STATE_IN_LOGOUT\<rparr>"
  have p: "pool_ok (context_pool s)" using assms(1) by (simp add: settled_def)
  have "settled t \<and> answers (trace t) = answers (trace s) \<and> logout_qtask t = logout_qtask s"
  proof (cases "c_state s = ISCSI_CONN_STATE_LOGGED_IN \<and> k_send_ok env")
    case False
    with assms show ?thesis by (auto simp: iscsi_send_logout_def split: if_splits)
  next
    case True
    show ?thesis
    proof (cases rule: ev_get_cases [of True ?s])
      case none
      with True assms show ?thesis by (auto simp: iscsi_send_logout_def settled_def emit_def)
    next
      case (got i c)
      let ?P = "(context_pool s)[i := Some ((taken c)\<lparr>ev_pending := Some (EV_CONN_LOGOUT_TIMER, secs (logout_timeout s))\<rparr>)]"
      have "pool_ok ?P" using p by (auto simp: taken_def intro!: pool_ok_update)
      with got True assms show ?thesis
        by (auto simp: iscsi_send_logout_def settled_def emit_def pend_def upd_context_def taken_def)
    qed
  qed
  then show "settled t" "answers (trace t) = answers (trace s)" "logout_qtask t = logout_qtask s" by auto
qed

lemma send_logout_idle: "c_state s \<noteq> ISCSI_CONN_STATE_LOGGED_IN \<Longrightarrow> iscsi_send_logout env s = (s, EINVAL)"
  by (simp add: iscsi_send_logout_def)

subsection \<open>The event handlers\<close>

lemma settled_sess_ok: "settled s \<Longrightarrow> sess_ok s"
  by (simp add: sess_ok_def)

lemma sess_ok_logged_in: "sess_ok s \<Longrightarrow> c_state s \<noteq> ISCSI_CONN_STATE_XPT_WAIT \<Longrightarrow> c_state s \<noteq> ISCSI_CONN_STATE_IN_LOGIN \<Longrightarrow> settled s"
  by (auto simp: sess_ok_def waiting_def in_login_def)

lemma send_logout_ok:
  assumes "settled s" "iscsi_send_logout env s = (t, rc)"
  shows "step_ok (owed s) s t"
  using send_logout_settled [OF assms] assms(1) by (intro settled_ok)

lemma stop_ok:
  assumes s: "settled s" and r: "running i s" and k: "kernel_obeys env"
  shows "step_ok (owed s) s (iscsi_stop env i s)"
proof -
  define t where "t = iscsi_ev_context_put i s"
  note p = sess_ok_put [OF settled_sess_ok [OF s] r, folded t_def]
  have t: "settled t" using settled_put [OF s r] by (simp add: t_def)
  obtain u rc where u: "iscsi_send_logout env t = (u, rc)" by force
  note l = send_logout_settled [OF t u]
  have "\<not> has_cap (transport t) CAP_LOGIN_OFFLOAD" using t by (simp add: settled_def)
  then show ?thesis
    using send_logout_ok [OF t u] shutdown_ok [OF k, of "logout_qtask u" u ISCSI_SUCCESS] l p(2,3) settled_owed [OF t]
    by (simp add: iscsi_stop_def t_def [symmetric] Let_def u step_ok_def)
qed

lemma recv_pdu_end_settled:
  assumes "settled s" "\<And>i. recv_context s = Some i \<Longrightarrow> running i s"
  shows "settled (recv_pdu_end s)" "trace (recv_pdu_end s) = trace s" "logout_qtask (recv_pdu_end s) = logout_qtask s"
  using assms settled_put [of s] by (simp_all add: recv_pdu_end_def put_eq split: option.splits)

lemma nop_in_ok: "settled s \<Longrightarrow> step_ok (owed s) s (iscsi_recv_nop_in env hdr s)"
  by (rule settled_ok) (simp_all add: iscsi_recv_nop_in_def start_nop_out_timer_def delete_nop_out_timer_def)

lemma logout_rsp_ok:
  assumes s: "settled s" and k: "kernel_obeys env" shows "step_ok (owed s) s (iscsi_recv_logout_rsp env hdr s)"
proof -
  define t where "t = (if logout_response hdr = 2 \<or> logout_response hdr = 3
     then upd_login (\<lambda>l. l\<lparr>def_time2wait := ucast (logout_t2wait hdr)\<rparr>) s else s)"
  have "settled t" "trace t = trace s" "logout_qtask t = logout_qtask s" using s by (simp_all add: t_def) (simp_all add: upd_login_def)
  then show ?thesis
    using settled_error_ok [OF \<open>settled t\<close> k] s by (simp add: iscsi_recv_logout_rsp_def t_def [symmetric] step_ok_def settled_owed)
qed

lemma async_msg_ok:
  assumes s: "settled s" and k: "kernel_obeys env" shows "step_ok (owed s) s (iscsi_recv_async_msg env hdr s)"
proof -
  obtain u rc where u: "iscsi_send_logout env s = (u, rc)" by force
  have "step_ok (owed s) s s" "step_ok (owed s) s (session_scan_host env None s)" "step_ok (owed s) s (upd_login f s)" for f
    using s by (auto intro!: settled_ok simp: session_scan_host_def) (simp_all add: upd_login_def)
  then show ?thesis
    using send_logout_ok [OF s u] settled_error_ok [OF s k] by (simp add: iscsi_recv_async_msg_def u split: option.split)
qed

lemma session_pdu_ok:
  assumes s: "settled s" and r: "\<And>i. recv_context s = Some i \<Longrightarrow> running i s" and k: "kernel_obeys env"
  shows "step_ok (owed s) s (recv_session_pdu env s)"
proof -
  note e = recv_pdu_end_settled [OF s r]
  have o: "owed (recv_pdu_end s) = owed s" using s e by (simp add: settled_owed)
  show ?thesis
  proof (cases "k_pdu env")
    case None
    then show ?thesis using settled_ok [OF e(1)] e s by (simp add: recv_session_pdu_def)
  next
    case (Some hdr)
    have "step_ok (owed s) (recv_pdu_end s) (recv_session_pdu env s)"
      using nop_in_ok [OF e(1)] logout_rsp_ok [OF e(1) k] async_msg_ok [OF e(1) k] settled_ok [OF e(1) refl refl e(1)] Some o
      by (simp add: recv_session_pdu_def Let_def)
    with e(2) show ?thesis by (simp add: step_ok_def)
  qed
qed

lemma login_owed: "waiting s q \<or> in_login s q \<Longrightarrow> owed s = task_list (Some q)"
  by (auto simp: owed_def login_task_def in_login_def waiting_def login_pre_def timer_for_def)

lemma put_ok: "sess_ok s \<Longrightarrow> running i s \<Longrightarrow> step_ok (owed s) s (iscsi_ev_context_put i s)"
  using sess_ok_put [of s i] by (simp add: step_ok_def)

lemma sess_ok_recv: "sess_ok s \<Longrightarrow> sess_ok (s\<lparr>recv_context := r\<rparr>)"
  by (auto simp: sess_ok_def waiting_def in_login_def)

lemma recv_pdu_ok:
  assumes s: "sess_ok s" and r: "running i s" and k: "kernel_obeys env"
  shows "step_ok (owed s) s (session_conn_recv_pdu env i s)"
proof -
  let ?s = "s\<lparr>recv_context := Some i\<rparr>"
  have o: "owed ?s = owed s" by (simp add: owed_def login_task_def split: iscsi_conn_state.split)
  have r': "\<And>j. recv_context ?s = Some j \<Longrightarrow> running j ?s" "running i ?s" using r by (simp_all add: running_def)
  have "step_ok (owed s) ?s (session_conn_recv_pdu env i s)"
  proof (cases "c_state s = ISCSI_CONN_STATE_IN_LOGIN")
    case True
    then obtain q where q: "in_login ?s q" using s by (auto simp: sess_ok_def waiting_def in_login_def settled_def)
    then show ?thesis using recv_login_rsp_ok [OF q r'(1) k] login_owed [of ?s q] True o by (simp add: session_conn_recv_pdu_def)
  next
    case False
    have "settled ?s" if "c_state s \<noteq> ISCSI_CONN_STATE_XPT_WAIT" using sess_ok_logged_in [OF s that False] by simp
    then show ?thesis
      using session_pdu_ok [OF _ r'(1) k] put_ok [OF sess_ok_recv [OF s] r'(2)] False o
      by (cases "c_state s") (simp_all add: session_conn_recv_pdu_def)
  qed
  then show ?thesis by (simp add: step_ok_def)
qed

lemma conn_error_ok:
  assumes s: "sess_ok s" and r: "running i s" and k: "kernel_obeys env" and d: "ctx_data i s \<noteq> Data_error ISCSI_ERR_INVALID_HOST"
  shows "step_ok (owed s) s (session_conn_error env i s)"
  using error_ok [OF sess_ok_put(1) [OF s r] k] sess_ok_put(2,3) [OF s r] d by (simp add: session_conn_error_def Let_def step_ok_def)

lemma logout_timedout_ok:
  assumes s: "sess_ok s" and r: "running i s" and k: "kernel_obeys env"
  shows "step_ok (owed s) s (iscsi_logout_timedout env i s)"
  using error_ok [OF sess_ok_put(1) [OF s r] k] sess_ok_put(2,3) [OF s r] by (simp add: iscsi_logout_timedout_def step_ok_def)

lemma sess_ok_no_offload: "sess_ok s \<Longrightarrow> \<not> has_cap (transport s) CAP_LOGIN_OFFLOAD"
  by (auto simp: sess_ok_def waiting_def in_login_def login_pre_def settled_def)

lemma process_login_ok:
  assumes s: "sess_ok s" and r: "running i s" shows "step_ok (owed s) s (session_conn_process_login env i s)"
  using put_ok [OF s r] sess_ok_no_offload [OF s] sess_ok_put(6) [OF s r] by (simp add: session_conn_process_login_def Let_def)

subsection \<open>Every step\<close>

text \<open>What is asked of the events: the kernel reports a session as unbound only when the daemon asked for it, and the host
  stays. An unbinding without a request would send a logout nobody asked for; the removal of the host shuts the session down
  without an answer to the request that is pending.\<close>

fun event_fits :: "session_event \<Rightarrow> sess \<Rightarrow> bool" where
  "event_fits (Kernel_event KEVENT_UNBIND_SESSION) s \<longleftrightarrow> logout_qtask s \<noteq> None"
| "event_fits (Kernel_event (KEVENT_CONN_ERROR e)) s \<longleftrightarrow> e \<noteq> ISCSI_ERR_INVALID_HOST"
| "event_fits _ s \<longleftrightarrow> True"

fun request :: "session_event \<Rightarrow> nat list" where
  "request (Logout n busy) = [n]"
| "request _ = []"

lemma sess_ok_cases:
  assumes "sess_ok s"
  obtains (waiting) q where "waiting s q" "owed s = task_list (Some q)"
  | (in_login) q where "in_login s q" "owed s = task_list (Some q)"
  | (settled) "settled s" "owed s = task_list (logout_qtask s)"
  using assms login_owed settled_owed unfolding sess_ok_def by metis

lemma sess_ok_not_freed: "sess_ok s \<Longrightarrow> \<not> freed s"
  by (auto simp: sess_ok_def waiting_def in_login_def login_pre_def settled_def)

lemma step_refl: "sess_ok s \<Longrightarrow> step_ok (owed s) s s"
  by (simp add: step_ok_def)

lemma sched_eq:
  assumes "ev \<noteq> EV_UNKNOWN" "i < length (context_pool s)" "context_pool s ! i = Some c"
  obtains tr d' where "iscsi_sched_ev_context i d ev s =
     s\<lparr>context_pool := (context_pool s)[i := Some (c\<lparr>ev_pending := Some (ev, d')\<rparr>)], trace := trace s @ tr\<rparr>" "answers tr = []"
proof -
  define d' where "d' = (if ev = EV_CONN_POLL \<or> ev = EV_CONN_LOGOUT_TIMER then d else 0)"
  define tr where "tr = (if ev = EV_CONN_POLL \<or> ev = EV_CONN_LOGOUT_TIMER then [ACT (Ev_actor i) (A_TIMER d)]
     else [ACT (Ev_actor i) A_INIT, ACT (Ev_actor i) (if ev = EV_CONN_ERROR \<and> ctx_data i s = Data_error ISCSI_ERR_INVALID_HOST
       then A_SCHEDULE_HEAD else A_SCHEDULE)])"
  show thesis
    by (rule that [where d' = d' and tr = tr]) (use assms in \<open>cases ev; simp add: d'_def tr_def pend_def upd_context_def emit_def\<close>)+
qed

lemma sess_ok_pool:
  assumes s: "sess_ok s" and po: "pool_ok P" and pl: "\<And>q. waiting s q \<or> in_login s q \<Longrightarrow> polls_ok q P"
  shows "sess_ok (s\<lparr>context_pool := P, trace := tr\<rparr>)" "owed (s\<lparr>context_pool := P, trace := tr\<rparr>) = owed s"
proof -
  let ?t = "s\<lparr>context_pool := P, trace := tr\<rparr>"
  show "owed ?t = owed s" by (simp add: owed_def login_task_def split: iscsi_conn_state.split)
  show "sess_ok ?t"
    using s
  proof (cases rule: sess_ok_cases)
    case (waiting q)
    then have "waiting ?t q" using po pl by (auto simp: waiting_def login_pre_def stage_task_def initial_login_def timer_for_def)
    then show ?thesis by (auto simp: sess_ok_def)
  next
    case (in_login q)
    then have "in_login ?t q" using po pl by (auto simp: in_login_def login_pre_def stage_task_def initial_login_def timer_for_def)
    then show ?thesis by (auto simp: sess_ok_def)
  next
    case settled
    then have "settled ?t" using po by (simp add: settled_def)
    then show ?thesis by (simp add: sess_ok_def)
  qed
qed

lemma sess_ok_pools:
  "sess_ok s \<Longrightarrow> pool_ok (context_pool s)" "waiting s q \<or> in_login s q \<Longrightarrow> polls_ok q (context_pool s)"
  by (auto simp: sess_ok_def waiting_def in_login_def login_pre_def settled_def)

lemma sess_ok_extend:
  assumes s: "sess_ok s" and f: "settled s \<or> ev \<noteq> EV_CONN_POLL \<and> ev \<noteq> EV_CONN_STOP" and a: "allocated c"
    and d: "ev_data c \<noteq> Data_error ISCSI_ERR_INVALID_HOST" and p: "ev_pending c = Some (ev, d')" and tr: "answers tr = []"
  shows "step_ok (owed s) s (s\<lparr>context_pool := (context_pool s)[i := Some c], trace := trace s @ tr\<rparr>)"
proof -
  let ?P = "(context_pool s)[i := Some c]"
  have "pool_ok ?P" using sess_ok_pools(1) [OF s] a d by (auto intro: pool_ok_update)
  moreover have "polls_ok q ?P" if "waiting s q \<or> in_login s q" for q
    using sess_ok_pools(2) [OF that] that f p by (auto simp: waiting_def in_login_def settled_def intro!: polls_ok_update)
  ultimately show ?thesis using sess_ok_pool [OF s] tr by (simp add: step_ok_def)
qed

lemma ctldev_read_ok:
  assumes s: "sess_ok s" and f: "event_fits (Kernel_event kev) s" and k: "k_read_ok env"
    and got: "iscsi_ev_context_get (k_fits env) s =
       (s\<lparr>context_pool := (context_pool s)[i := Some (taken c)], trace := trace s @ [ACT (Ev_actor i) A_RESET]\<rparr>, Some i)"
     "i < length (context_pool s)" "context_pool s ! i = Some c" "\<not> allocated c"
  shows "step_ok (owed s) s (ctldev_handle env kev s)"
proof -
  let ?ev = "kernel_event_ev kev"
  let ?c = "(taken c)\<lparr>ev_data := kernel_event_data kev\<rparr>"
  let ?t = "s\<lparr>context_pool := (context_pool s)[i := Some ?c], trace := trace s @ [ACT (Ev_actor i) A_RESET]\<rparr>"
  have ev: "?ev \<noteq> EV_UNKNOWN" "?ev \<noteq> EV_CONN_POLL" by (cases kev; simp)+
  have stop: "settled s \<or> ?ev \<noteq> EV_CONN_STOP"
    using f by (cases rule: sess_ok_cases [OF s]; cases kev) (auto simp: waiting_def in_login_def login_pre_def)
  have d: "ev_data ?c \<noteq> Data_error ISCSI_ERR_INVALID_HOST" using f by (cases kev) simp_all
  obtain tr d' where r: "iscsi_sched_ev_context i 0 ?ev ?t =
     ?t\<lparr>context_pool := (context_pool ?t)[i := Some (?c\<lparr>ev_pending := Some (?ev, d')\<rparr>)], trace := trace ?t @ tr\<rparr>" "answers tr = []"
    by (rule sched_eq [OF ev(1), of i ?t ?c 0]) (use got in simp_all)
  have "ctldev_handle env kev s = iscsi_sched_ev_context i 0 ?ev ?t"
  proof -
    have "set_ev_data i (kernel_event_data kev) (s\<lparr>context_pool := (context_pool s)[i := Some (taken c)],
        trace := trace s @ [ACT (Ev_actor i) A_RESET]\<rparr>) = ?t"
      using got by (simp add: set_ev_data_def upd_context_def)
    then show ?thesis using got k by (simp add: ctldev_handle_def del: sess.update_convs)
  qed
  also have "\<dots> = s\<lparr>context_pool := (context_pool s)[i := Some (?c\<lparr>ev_pending := Some (?ev, d')\<rparr>)],
     trace := trace s @ (ACT (Ev_actor i) A_RESET # tr)\<rparr>"
    unfolding r by simp
  finally show ?thesis
    using sess_ok_extend [OF s, of ?ev "?c\<lparr>ev_pending := Some (?ev, d')\<rparr>" d' "ACT (Ev_actor i) A_RESET # tr" i] ev stop d r(2)
    by (simp add: taken_def)
qed

lemma ctldev_ok:
  assumes s: "sess_ok s" and f: "event_fits (Kernel_event kev) s"
  shows "step_ok (owed s) s (ctldev_handle env kev s)"
proof (cases rule: ev_get_cases [of "k_fits env" s])
  case none
  then show ?thesis using step_refl [OF s] by (simp add: ctldev_handle_def)
next
  case (got i c)
  show ?thesis
  proof (cases "k_read_ok env")
    case True
    show ?thesis by (rule ctldev_read_ok [OF s f True got])
  next
    case False
    let ?P = "(context_pool s)[i := Some ((taken c)\<lparr>allocated := False\<rparr>)]"
    have e: "ctldev_handle env kev s = s\<lparr>context_pool := ?P, trace := trace s @ [ACT (Ev_actor i) A_RESET]\<rparr>"
      using got False by (simp add: ctldev_handle_def iscsi_ev_context_put_def upd_context_def)
    have "pool_ok ?P" using sess_ok_pools(1) [OF s] by (auto simp: taken_def intro: pool_ok_update)
    moreover have "polls_ok q ?P" if "waiting s q \<or> in_login s q" for q
      using sess_ok_pools(2) [OF that] by (auto simp: taken_def intro!: polls_ok_update)
    ultimately show ?thesis using sess_ok_pool [OF s] by (simp add: e step_ok_def)
  qed
qed

text \<open>A request to log out is refused, or the session is shut down at once, or it waits as the logout of the connection.\<close>

lemma sess_ok_emit: "sess_ok (emit e s) = sess_ok s" "owed (emit e s) = owed s"
  by (simp_all add: sess_ok_def waiting_def in_login_def owed_def login_task_def split: iscsi_conn_state.split)

lemma logout_cases:
  assumes "sess_ok s"
  obtains (refused) e where "session_logout_task env busy q s = (s, e)" "e \<noteq> ISCSI_SUCCESS"
  | (waits) t where "session_logout_task env busy q s = (t, ISCSI_SUCCESS)" "settled t" "logout_qtask t = Some q"
      "answers (trace t) = answers (trace s)" "owed s = []"
  | (shut) t where "session_logout_task env busy q s = session_conn_shutdown env (Some q) ISCSI_SUCCESS t"
      "answers (trace t) = answers (trace s)" "owed s = []"
proof -
  let ?s = "s\<lparr>logout_qtask := Some q\<rparr>"
  let ?b = "emit UNBIND_SESSION ?s"
  obtain u rc where u: "iscsi_send_logout env ?b = (u, rc)" by force
  let ?refused = "notify_qtask s \<noteq> None \<or> (c_state s = ISCSI_CONN_STATE_XPT_WAIT \<or> c_state s = ISCSI_CONN_STATE_IN_LOGIN) \<and>
    initial_login s \<or> busy \<or> logout_qtask s \<noteq> None"
  show thesis
  proof (cases ?refused)
    case True
    then have "\<exists>e. session_logout_task env busy q s = (s, e) \<and> e \<noteq> ISCSI_SUCCESS"
      by (auto simp: session_logout_task_def Let_def iscsi_err_defs)
    then show thesis using refused by blast
  next
    case False
    then have o: "owed s = []"
      by (cases rule: sess_ok_cases [OF assms]) (auto simp: waiting_def in_login_def login_pre_def stage_task_def)
    have lt: "session_logout_task env busy q s =
        (if c_state s = ISCSI_CONN_STATE_LOGGED_IN then
           if k_unbind_ok env then (?b, ISCSI_SUCCESS)
           else if rc \<noteq> 0 then (u, ISCSI_SUCCESS) else session_conn_shutdown env (Some q) ISCSI_SUCCESS u
         else session_conn_shutdown env (Some q) ISCSI_SUCCESS ?s)"
      using False sess_ok_no_offload [OF assms] u by (auto simp: session_logout_task_def Let_def)
    show thesis
    proof (cases "c_state s = ISCSI_CONN_STATE_LOGGED_IN")
      case True
      then have b: "settled ?b" using sess_ok_logged_in [OF assms] by simp
      note l = send_logout_settled [OF b u]
      consider "k_unbind_ok env" | "\<not> k_unbind_ok env" "rc \<noteq> 0" | "\<not> k_unbind_ok env" "rc = 0" by blast
      then show thesis
      proof cases
        case 1
        show thesis by (rule waits [of ?b]) (use lt True 1 b o in simp_all)
      next
        case 2
        show thesis by (rule waits [of u]) (use lt True 2 l o in simp_all)
      next
        case 3
        show thesis by (rule shut [of u]) (use lt True 3 l o in simp_all)
      qed
    next
      case 4: False
      show thesis by (rule shut [of ?s]) (use lt 4 o in simp_all)
    qed
  qed
qed

lemma logout_ok:
  assumes s: "sess_ok s" and k: "kernel_obeys env"
  shows "step_ok (owed s @ [n]) s (session_step env (Logout n busy) s)"
  using s
proof (cases rule: logout_cases [where env = env and busy = busy and q = "Task n"])
  case (refused e)
  then show ?thesis using s by (simp add: step_ok_def sess_ok_emit)
next
  case (waits t)
  then show ?thesis by (simp add: step_ok_def sess_ok_def settled_owed)
next
  case (shut t)
  then show ?thesis
    using shutdown_ok [OF k, of "Some (Task n)" t ISCSI_SUCCESS] shutdown_released [OF k, of "Some (Task n)" t ISCSI_SUCCESS]
    by (cases "session_conn_shutdown env (Some (Task n)) ISCSI_SUCCESS t") (simp add: step_ok_def)
qed

lemma login_timer_ok:
  assumes s: "sess_ok s" and k: "kernel_obeys env"
  shows "step_ok (owed s) s (run_actor env Login_timer s)"
proof -
  have "step_ok (task_list (Some q)) s (run_actor env Login_timer s)" if q: "waiting s q \<or> in_login s q" for q
  proof -
    let ?t = "emit (ACT Login_timer A_RUN) (s\<lparr>login_timer := None\<rparr>)"
    obtain d where d: "login_timer s = Some (d, q)" using q by (auto simp: waiting_def in_login_def timer_for_def)
    have t: "login_pre ?t q" "c_state ?t = ISCSI_CONN_STATE_XPT_WAIT \<or> c_state ?t = ISCSI_CONN_STATE_IN_LOGIN"
      using q by (auto simp: waiting_def in_login_def)
    have "step_ok (task_list (Some q)) ?t (iscsi_login_timedout env q ?t)"
      using login_eh_ok [OF t(1) k t(2)] t(2) by (auto simp: iscsi_login_timedout_def)
    then show ?thesis by (simp add: d step_ok_def)
  qed
  with s step_refl [OF s] show ?thesis
    by (cases rule: sess_ok_cases [OF s]) (auto simp: settled_def)
qed

lemma nop_timer_ok:
  assumes s: "sess_ok s" and k: "kernel_obeys env"
  shows "step_ok (owed s) s (run_actor env Nop_out_timer s)"
proof (cases "nop_out_timer s")
  case None
  then show ?thesis using step_refl [OF s] by simp
next
  case (Some p)
  then obtain d cb where p: "nop_out_timer s = Some (d, cb)" by (cases p) simp
  then have st: "settled s" using s by (auto simp: sess_ok_def waiting_def in_login_def login_pre_def)
  let ?t = "emit (ACT Nop_out_timer A_RUN) (s\<lparr>nop_out_timer := None\<rparr>)"
  have t: "settled ?t" "owed ?t = owed s" "answers (trace ?t) = answers (trace s)"
    using st by (simp_all add: settled_owed)
  have "step_ok (owed s) s (conn_send_nop_out ?t)"
    by (rule settled_ok) (use st in \<open>simp_all add: conn_send_nop_out_def start_nop_out_timer_def\<close>)
  moreover have "step_ok (owed s) s (conn_nop_out_timeout env ?t)"
    using settled_error_ok [OF t(1) k] t(2,3) by (simp add: conn_nop_out_timeout_def step_ok_def)
  ultimately show ?thesis using p by (cases cb) simp_all
qed

lemma poll_callback_ok:
  assumes s: "sess_ok s" and r: "running i s" and k: "kernel_obeys env"
    and d: "\<And>q. waiting s q \<Longrightarrow> ctx_data i s = Data_qtask q"
  shows "step_ok (owed s) s (session_conn_poll env i s)"
proof (cases "c_state s = ISCSI_CONN_STATE_XPT_WAIT")
  case True
  then obtain q where q: "waiting s q" using s by (auto simp: sess_ok_def in_login_def settled_def)
  then show ?thesis using conn_poll_ok [OF q r d [OF q] k] login_owed [of s q] by simp
next
  case False
  then have "session_conn_poll env i s = iscsi_ev_context_put i s"
    using sess_ok_put(5) [OF s r] by (simp add: session_conn_poll_def Let_def split: ev_data.split)
  then show ?thesis using put_ok [OF s r] by simp
qed

text \<open>The session when the actor of a context is taken from the queue.\<close>

definition popped :: "nat \<Rightarrow> iscsi_ev_context \<Rightarrow> sess \<Rightarrow> sess" where
  "popped i c s = s\<lparr>context_pool := (context_pool s)[i := Some (c\<lparr>ev_pending := None\<rparr>)], trace := trace s @ [ACT (Ev_actor i) A_RUN]\<rparr>"

lemma popped_ok:
  assumes s: "sess_ok s" and i: "i < length (context_pool s)" "context_pool s ! i = Some c" "ev_pending c = Some (ev, d)"
  shows "sess_ok (popped i c s)" "owed (popped i c s) = owed s" "answers (trace (popped i c s)) = answers (trace s)"
    "running i (popped i c s)" "ctx_data i (popped i c s) = ev_data c" "ev_data c \<noteq> Data_error ISCSI_ERR_INVALID_HOST"
    "waiting (popped i c s) q \<Longrightarrow> ev = EV_CONN_POLL \<Longrightarrow> ev_data c = Data_qtask q" "ev = EV_CONN_STOP \<Longrightarrow> settled (popped i c s)"
    "run_actor env (Ev_actor i) s = ev_callback env ev i (popped i c s)"
proof -
  let ?P = "(context_pool s)[i := Some (c\<lparr>ev_pending := None\<rparr>)]"
  have c: "Some c \<in> set (context_pool s)" using i(1,2) nth_mem by metis
  with sess_ok_pools(1) [OF s] show nd: "ev_data c \<noteq> Data_error ISCSI_ERR_INVALID_HOST" by (auto simp: pool_ok_def)
  have P: "pool_ok ?P" using sess_ok_pools(1) [OF s] nd by (auto intro: pool_ok_update)
  have Q: "polls_ok q ?P" if "waiting s q \<or> in_login s q" for q using sess_ok_pools(2) [OF that] by (auto intro: polls_ok_update)
  show "sess_ok (popped i c s)" "owed (popped i c s) = owed s" using sess_ok_pool [OF s P Q] by (simp_all add: popped_def)
  show "answers (trace (popped i c s)) = answers (trace s)" "running i (popped i c s)" "ctx_data i (popped i c s) = ev_data c"
    using i by (simp_all add: popped_def running_def ctx_data_def)
  show "ev_data c = Data_qtask q" if w: "waiting (popped i c s) q" "ev = EV_CONN_POLL"
  proof -
    have "c_state s = ISCSI_CONN_STATE_XPT_WAIT" "timer_for q s" using w(1) by (simp_all add: popped_def waiting_def timer_for_def)
    then have "waiting s q" using s by (auto simp: sess_ok_def in_login_def settled_def waiting_def timer_for_def)
    with c i(3) w(2) show ?thesis by (auto simp: waiting_def login_pre_def polls_ok_def)
  qed
  show "settled (popped i c s)" if "ev = EV_CONN_STOP"
  proof -
    have "\<not> polls_ok q (context_pool s)" for q using c i(3) that by (auto simp: polls_ok_def)
    with s have "settled s" by (auto simp: sess_ok_def waiting_def in_login_def login_pre_def)
    with P show ?thesis by (simp add: popped_def settled_def)
  qed
  show "run_actor env (Ev_actor i) s = ev_callback env ev i (popped i c s)"
    using i by (simp add: popped_def upd_context_def emit_def)
qed

lemma ev_callback_ok:
  assumes s: "sess_ok s" and i: "i < length (context_pool s)" "context_pool s ! i = Some c" "ev_pending c = Some (ev, d)"
    and k: "kernel_obeys env"
  shows "step_ok (owed s) s (run_actor env (Ev_actor i) s)"
proof -
  note p = popped_ok [OF s i]
  have "step_ok (owed (popped i c s)) (popped i c s) (ev_callback env ev i (popped i c s))"
    using step_refl [OF p(1)] recv_pdu_ok [OF p(1,4) k] poll_callback_ok [OF p(1,4) k] conn_error_ok [OF p(1,4) k]
      logout_timedout_ok [OF p(1,4) k] stop_ok [OF p(8) p(4) k] process_login_ok [OF p(1,4)] p(5-7)
    by (cases ev) simp_all
  then show ?thesis using p(2,3,9) by (simp add: step_ok_def)
qed

lemma run_actor_ok:
  assumes s: "sess_ok s" and k: "kernel_obeys env"
  shows "step_ok (owed s) s (run_actor env a s)"
proof (cases a)
  case (Ev_actor i)
  then show ?thesis
    using ev_callback_ok [OF s _ _ _ k, of i] step_refl [OF s]
    by (cases "i < length (context_pool s)"; cases "context_pool s ! i"; cases "ev_pending (the (context_pool s ! i))") auto
qed (use login_timer_ok [OF s k] nop_timer_ok [OF s k] in simp_all)

lemma session_step_ok:
  assumes s: "sess_ok s" and k: "kernel_obeys env" and f: "event_fits ev s"
  shows "step_ok (owed s @ request ev) s (session_step env ev s)"
  using run_actor_ok [OF s k] ctldev_ok [OF s] logout_ok [OF s k] f by (cases ev) simp_all

text \<open>A run in which every event fits its surroundings and the session, and the requests that reach the session in it.\<close>

fun runs :: "(kenv \<Rightarrow> session_event \<Rightarrow> sess \<Rightarrow> bool) \<Rightarrow> (kenv \<times> session_event) list \<Rightarrow> sess \<Rightarrow> bool" where
  "runs fits [] s \<longleftrightarrow> True"
| "runs fits ((env, ev) # evs) s \<longleftrightarrow> freed s \<or> fits env ev s \<and> runs fits evs (session_step env ev s)"

definition admits :: "kenv \<Rightarrow> session_event \<Rightarrow> sess \<Rightarrow> bool" where
  "admits env ev s \<longleftrightarrow> kernel_obeys env \<and> event_fits ev s"

fun requests :: "(kenv \<times> session_event) list \<Rightarrow> sess \<Rightarrow> nat list" where
  "requests [] s = []"
| "requests ((env, ev) # evs) s = (if freed s then [] else request ev @ requests evs (session_step env ev s))"

lemma session_run_freed: "freed s \<Longrightarrow> session_run evs s = s"
  by (induction evs arbitrary: s) auto

lemma session_run_ok:
  assumes "sess_ok s" "runs admits evs s"
  shows "step_ok (owed s @ requests evs s) s (session_run evs s)"
  using assms
proof (induction evs arbitrary: s)
  case Nil
  then show ?case by (simp add: step_refl)
next
  case (Cons e evs)
  obtain env ev where e: "e = (env, ev)" by force
  have n: "\<not> freed s" using Cons.prems(1) by (rule sess_ok_not_freed)
  let ?t = "session_step env ev s"
  have t: "step_ok (owed s @ request ev) s ?t" using Cons.prems n e by (simp add: session_step_ok admits_def)
  show ?case
  proof (cases "freed ?t")
    case True
    then have "requests evs ?t = []" by (cases evs) auto
    then show ?thesis using t n e True by (simp add: session_run_freed)
  next
    case False
    then have "step_ok (owed ?t @ requests evs ?t) ?t (session_run evs ?t)"
      using Cons t n e by (auto simp: step_ok_def)
    with t n e show ?thesis by (simp add: step_ok_def union_assoc [symmetric])
  qed
qed

text \<open>What every step keeps, a run keeps until the session is released.\<close>

locale session_runs =
  fixes inv :: "sess \<Rightarrow> bool" and fits :: "kenv \<Rightarrow> session_event \<Rightarrow> sess \<Rightarrow> bool"
  assumes step: "inv s \<Longrightarrow> \<not> freed s \<Longrightarrow> fits env ev s \<Longrightarrow> freed (session_step env ev s) \<or> inv (session_step env ev s)"
begin

lemma run_keeps: "inv s \<Longrightarrow> runs fits evs s \<Longrightarrow> freed (session_run evs s) \<or> inv (session_run evs s)"
proof (induction evs arbitrary: s)
  case (Cons e evs)
  obtain env ev where e: "e = (env, ev)" by force
  then show ?case
    using Cons step [of s env ev] session_run_freed [of s] session_run_freed [of "session_step env ev s"] by (cases "freed s") auto
qed simp

end

interpretation ok_runs: session_runs sess_ok admits
  by unfold_locales (use session_step_ok in \<open>auto simp: admits_def step_ok_def\<close>)

subsection \<open>New sessions\<close>

text \<open>A session as \<open>__session_create\<close> and \<open>__session_conn_create\<close> leave it.\<close>

definition fresh :: "iscsi_transport \<Rightarrow> sess \<Rightarrow> bool" where
  "fresh t s \<longleftrightarrow> \<not> freed s \<and> transport s = t \<and> logout_qtask s = None \<and> nop_out_timer s = None \<and> login_timer s = None \<and> conn_id s = 0 \<and>
     notify_qtask s = None \<and> context_pool s = replicate CONTEXT_POOL_MAX (Some fresh_context) \<and>
     trace s = [ACT Login_timer A_INIT]"

lemma pool_ok_fresh: "pool_ok (replicate n (Some fresh_context))" "polls_ok q (replicate n (Some fresh_context))"
  by (auto simp: pool_ok_def polls_ok_def fresh_context_def)

lemma session_create_parts:
  assumes "session_create env rec t = (Some s, rc)"
  shows "\<not> freed s" "transport s = t" "logout_qtask s = None" "nop_out_timer s = None" "login_timer s = None" "notify_qtask s = None"
    "trace s = []" "r_stage s = R_STAGE_NO_CHANGE" "nrec s = rec"
  using assms by (auto simp: session_create_def Let_def zero_sess_def upd_login_def split: if_splits)

lemma context_alloc_parts:
  assumes "iscsi_ev_context_alloc f s = (s', False)"
  shows "s' = s\<lparr>context_pool := replicate CONTEXT_POOL_MAX (Some fresh_context)\<rparr>"
proof -
  define n where "n = length (takeWhile f [0..<CONTEXT_POOL_MAX])"
  have n: "n \<le> CONTEXT_POOL_MAX" using length_takeWhile_le [of f "[0..<CONTEXT_POOL_MAX]"] by (simp add: n_def)
  have "s' = s\<lparr>context_pool := replicate n (Some fresh_context) @ replicate (CONTEXT_POOL_MAX - n) None\<rparr>" "\<not> n < CONTEXT_POOL_MAX"
    using assms by (auto simp: iscsi_ev_context_alloc_def Let_def n_def)
  with n show ?thesis by simp
qed

lemma conn_create_fresh:
  assumes c: "session_conn_create env s = (s', 0)" and "\<not> freed s" "transport s = t" "logout_qtask s = None" "nop_out_timer s = None"
    "login_timer s = None" "notify_qtask s = None" "trace s = []"
  shows "fresh t s'" "r_stage s' = r_stage s"
proof -
  obtain u f where u: "iscsi_ev_context_alloc (k_calloc env) (s\<lparr>conn_id := 0\<rparr>) = (u, f)" by force
  have f: "f = False" using c by (auto simp: session_conn_create_def u iscsi_err_defs)
  note a = context_alloc_parts [OF u [unfolded f]]
  show "fresh t s'" "r_stage s' = r_stage s"
    using c assms(2-) unfolding session_conn_create_def u f prod.case if_False a
    by (auto simp: iscsi_setup_portal_def iscsi_copy_operational_params_def conn_timeouts_def Let_def upd_login_def emit_def fresh_def
        iscsi_err_defs split: option.splits prod.splits)
qed

lemma try_login_starts:
  assumes "try_session_login env there (Some t) rec q = Inr s"
  obtains u where "fresh t u" "r_stage u = R_STAGE_NO_CHANGE" "s = start_session env q u"
proof -
  from assms obtain v rc u where v: "session_create env (clip_rec t rec) t = (Some v, rc)" and u: "session_conn_create env v = (u, 0)"
    "s = start_session env q u"
    by (auto simp: try_session_login_def Let_def split: if_splits prod.splits option.splits)
  note p = session_create_parts [OF v]
  from conn_create_fresh [OF u(1) p(1-7)] p(8) u(2) show thesis using that by simp
qed

lemma try_login_waiting:
  assumes "try_session_login env there (Some t) rec (Task n) = Inr s" "\<not> has_cap t CAP_LOGIN_OFFLOAD"
  shows "waiting s (Task n)" "answers (trace s) = []"
proof -
  from assms(1) obtain u where u: "fresh t u" "r_stage u = R_STAGE_NO_CHANGE" "s = start_session env (Task n) u"
    by (rule try_login_starts)
  define v where "v = u\<lparr>initial_connect_time := (case k_now env of Some now \<Rightarrow> now | None \<Rightarrow> initial_connect_time u),
     c_state := ISCSI_CONN_STATE_XPT_WAIT\<rparr>"
  have "waits (Task n) v s" using conn_connect_waits [of "Task n" v env] u(3) by (simp add: start_session_def v_def)
  moreover have "pool_ok (context_pool v)" "polls_ok (Task n) (context_pool v)" using u(1) pool_ok_fresh by (simp_all add: v_def fresh_def)
  moreover have "login_pre v (Task n)" "c_state v = ISCSI_CONN_STATE_XPT_WAIT" "answers (trace v) = []"
    using u assms(2) pool_ok_fresh by (simp_all add: v_def fresh_def login_pre_def stage_task_def initial_login_def)
  ultimately show "waiting s (Task n)" "answers (trace s) = []"
    by (auto simp: waits_def waiting_def login_pre_def timer_for_def stage_task_def initial_login_def)
qed

lemma sync_waiting:
  assumes "iscsi_sync_session env known (Some t) rec (Task n) nsid host = Inr s" "\<not> has_cap t CAP_LOGIN_OFFLOAD"
  shows "waiting s (Task n)" "answers (trace s) = []"
proof -
  from assms(1) obtain v rc u where v: "session_create env rec t = (Some v, rc)"
    and u: "session_conn_create env (v\<lparr>sid := nsid, hostno := snd host, r_stage := R_STAGE_SESSION_REOPEN\<rparr>) = (u, 0)"
    and s: "s = session_conn_reopen env (Task n) STOP_CONN_RECOVER
       (u\<lparr>c_state := ISCSI_CONN_STATE_CLEANUP_WAIT, notify_qtask := Some (Task n)\<rparr>)"
    by (auto simp: iscsi_sync_session_def Let_def split: if_splits prod.splits option.splits)
  note p = session_create_parts [OF v]
  note f = conn_create_fresh [OF u, of t]
  let ?u = "u\<lparr>c_state := ISCSI_CONN_STATE_CLEANUP_WAIT, notify_qtask := Some (Task n)\<rparr>"
  have fu: "fresh t u" "r_stage u = R_STAGE_SESSION_REOPEN" using f p by simp_all
  have "reopened (Task n) ?u s" unfolding s by (rule reopen_reopened) (use fu pool_ok_fresh in \<open>simp add: fresh_def\<close>)
  then show "waiting s (Task n)" "answers (trace s) = []"
    using fu assms(2) by (auto simp: reopened_def waiting_def login_pre_def timer_for_def stage_task_def initial_login_def fresh_def)
qed

end
