(* ===== verification/Session_Auth.thy ===== *)
theory Session_Auth
  imports Session_Handlers
begin

text \<open>
  Authentication of a session through all its reconnections. The login code keeps the configuration of
  authentication (\<open>login_cfg\<close>) on every path; \<open>authed\<close> says that the invariant of the login code holds while the session
  logs in, and that the target has been verified once it is past the login. \<open>session_step_auth\<close> shows it for every event, and the
  interpretation \<open>auth_runs\<close> for every run; \<open>heard\<close> is the set of texts of the login responses of a run.
\<close>

subsection \<open>The configuration of authentication is kept\<close>

interpretation login_cfg: digest_free_view login_cfg
  by unfold_locales (simp_all add: login_cfg_def upd_conn_def)

interpretation login_cfg: client_free_view login_cfg
  by unfold_locales (simp_all add: login_cfg_def upd_acl_def)

interpretation cfg_scan: text_scan "\<lambda>_. True" "\<lambda>s t. login_cfg t = login_cfg s"
  by unfold_locales
    (auto simp: stage_text_keys_def intro: login_cfg.view_op_keys login_cfg.view_security_keys split: if_splits)

lemma login_cfg_simps [simp]:
  "login_cfg (upd_acl a l) = login_cfg l" "login_cfg (upd_conn f l) = login_cfg l" "login_cfg (l\<lparr>def_time2wait := w\<rparr>) = login_cfg l"
  "login_cfg (record_rsp l rsp) = login_cfg l" "login_cfg (next_stage_rsp l rsp) = login_cfg l"
  "login_cfg (first_stage l) = login_cfg l"
  by (simp_all add: login_cfg_def upd_acl_def upd_conn_def record_rsp_def next_stage_rsp_def first_stage_def Let_def)

lemma security_status_cfg: "check_security_stage_status env l = (l', st) \<Longrightarrow> login_cfg l' = login_cfg l"
  by (auto simp: check_security_stage_status_def split: prod.splits if_splits)

lemma security_begin_cfg: "security_begin l b = (l', st) \<Longrightarrow> login_cfg l' = login_cfg l"
  by (auto simp: security_begin_def split: prod.splits if_splits)

lemma process_response_cfg:
  assumes "iscsi_process_login_response env l rsp data m = (l', st)"
  shows "login_cfg l' = login_cfg l"
proof -
  have 1: "login_cfg t = login_cfg u" if "(if in_security u then security_begin u b else (u, LOGIN_OK)) = (t, r)" for t u r b
    using that security_begin_cfg by (auto split: if_splits)
  have 2: "login_cfg t = login_cfg u" if "(if in_security u then check_security_stage_status env u else (u, LOGIN_OK)) = (t, r)" for t u r
    using that security_status_cfg by (auto split: if_splits)
  have 3: "login_cfg t = login_cfg u" if "scan_text env u pos = (t, r)" for t u r pos
    using cfg_scan.scan_text_keeps [OF TrueI that] by simp
  obtain u r where u: "(if in_security l then security_begin l (rsp_transit rsp) else (l, LOGIN_OK)) = (u, r)" by force
  obtain v r2 where v: "scan_text env u (take (ntoh24 (rsp_dlength rsp) + 1) data) = (v, r2)" by force
  obtain w r3 where w: "(if in_security v then check_security_stage_status env v else (v, LOGIN_OK)) = (w, r3)" by force
  have "login_cfg u = login_cfg l" "login_cfg v = login_cfg l" "login_cfg w = login_cfg l"
    using 1 [OF u] 3 [OF v] 2 [OF w] by simp_all
  with assms show ?thesis
    unfolding iscsi_process_login_response_def Let_def u v w prod.case
    by (auto split: if_splits option.splits)
qed

lemma finish_auth_cfg [simp]: "login_cfg (fst (finish_auth (l, c))) = login_cfg l"
  by (simp add: finish_auth_def split: prod.splits)

lemma login_rsp_cfg:
  assumes "iscsi_login_rsp env l c r = ((l', c'), err)" "\<not> have_auth_client c"
  shows "login_cfg l' = login_cfg l"
  using assms process_response_cfg
  by (auto simp: iscsi_login_rsp_def check_status_login_response_def Let_def split: recv_result.splits prod.splits if_splits)

lemma enum_auth_keys_cfg: "login_cfg (fst (enum_auth_keys m kt sp)) = login_cfg (fst sp)"
proof -
  obtain l hdr data where sp: "sp = (l, hdr, data)" by (cases sp) auto
  have "\<exists>a. fst (enum_auth_keys m kt sp) = upd_acl a l"
    unfolding sp enum_auth_keys_def Let_def by (auto simp: case_prod_beta)
  then show ?thesis by (auto simp: sp)
qed

lemma enum_keys_loop_cfg: "login_cfg (fst (enum_keys_loop m kt sp)) = login_cfg (fst sp)"
proof (induction m kt sp rule: enum_keys_loop.induct)
  case (1 m kt sp)
  then show ?case
    by (cases "acl_get_next_key_type kt") (simp_all add: enum_keys_loop.simps [of m kt] enum_auth_keys_cfg)
qed

lemma stage_pdu_cfg: "login_cfg (fst (stage_pdu l m pdu)) = login_cfg l"
proof -
  have "login_cfg (fst (fill_security_params_text l m pdu)) = login_cfg l"
    using enum_keys_loop_cfg [of m AUTH_KEY_TYPE_NONE]
    by (simp add: fill_security_params_text_def Let_def case_prod_beta split: option.split)
  then show ?thesis by (simp add: stage_pdu_def fill_op_params_text_def Let_def case_prod_beta)
qed

lemma login_req_cfg:
  assumes "iscsi_login_req l c ok = ((l', c'), failed)" "\<not> have_auth_client c"
  shows "login_cfg l' = login_cfg l"
proof -
  have "login_cfg (fst (iscsi_make_login_pdu l data m)) = login_cfg l" for data m
    using stage_pdu_cfg [of "first_stage l"] stage_pdu_cfg [of l] by (simp add: iscsi_make_login_pdu_def Let_def split: option.split)
  then have "login_cfg t = login_cfg l" if "iscsi_make_login_pdu l data m = (t, r)" for data m t r using that by (metis fst_conv)
  with assms show ?thesis by (auto simp: iscsi_login_req_def Let_def split: prod.splits option.splits if_splits)
qed

lemma login_begin_cfg:
  assumes "iscsi_login_begin env l c = ((l', c'), failed)" shows "login_cfg l' = login_cfg l"
proof -
  have c: "login_cfg t = login_cfg u" if "check_for_authentication env u = (t, r)" for t u r
    using that by (auto simp: check_for_authentication_def Let_def split: prod.splits if_splits)
  define u where "u = upd_conn (\<lambda>c. c\<lparr>current_stage := ISCSI_INITIAL_LOGIN_STAGE, partial_response := False\<rparr>)
    (l\<lparr>cmdsn := 1, exp_cmdsn := 1, max_cmdsn := 1\<rparr>)"
  have "login_cfg u = login_cfg l" by (simp add: u_def) (simp add: login_cfg_def)
  with assms c show ?thesis
    unfolding iscsi_login_begin_def Let_def u_def [symmetric] by (auto split: prod.splits if_splits)
qed

lemma login_ctx_begin: "iscsi_login_begin env l c = ((l', c'), failed) \<Longrightarrow> \<not> have_auth_client c'"
  by (auto simp: iscsi_login_begin_def Let_def split: prod.splits if_splits)

subsection \<open>Authentication of a session\<close>

text \<open>While the session logs in, the invariant of the login code holds; past the login, the target has been verified.\<close>

definition logging_in :: "digests \<Rightarrow> string set \<Rightarrow> sess \<Rightarrow> bool" where
  "logging_in D T s \<longleftrightarrow> login_inv D (peer_account (login s)) T (login s) \<and> \<not> have_auth_client (login_ctx s) \<and> \<not> final (login_ctx s)"

definition logged_in :: "digests \<Rightarrow> string set \<Rightarrow> sess \<Rightarrow> bool" where
  "logged_in D T s \<longleftrightarrow> login_inv D (peer_account (login s)) T (login s) \<and> current_stage (login_conn s) = ISCSI_FULL_FEATURE_PHASE"

definition authed :: "digests \<Rightarrow> string set \<Rightarrow> sess \<Rightarrow> bool" where
  "authed D T s \<longleftrightarrow>
     (c_state s = ISCSI_CONN_STATE_IN_LOGIN \<longrightarrow> logging_in D T s) \<and>
     (c_state s \<notin> {ISCSI_CONN_STATE_XPT_WAIT, ISCSI_CONN_STATE_IN_LOGIN} \<longrightarrow> logged_in D T s)"

definition auth_step :: "digests \<Rightarrow> string set \<Rightarrow> sess \<Rightarrow> sess \<Rightarrow> bool" where
  "auth_step D T s s' \<longleftrightarrow> freed s' \<or> login_cfg (login s') = login_cfg (login s) \<and> authed D T s'"

lemma auth_step_cong: "auth_step D T t s' \<Longrightarrow> login_cfg (login t) = login_cfg (login s) \<Longrightarrow> auth_step D T s s'"
  by (simp add: auth_step_def)

lemma reopened_auth: "reopened q s s' \<Longrightarrow> auth_step D T s s'"
  by (auto simp: reopened_def auth_step_def authed_def)

lemma shutdown_auth: "kernel_obeys env \<Longrightarrow> auth_step D T s (fst (session_conn_shutdown env q err s))"
  using shutdown_released [of env q s err] by (simp add: released_def auth_step_def)

lemma reopen_auth: "pool_ok (context_pool s) \<Longrightarrow> auth_step D T s (session_conn_reopen env q stop s)"
  using reopened_auth reopen_reopened by blast

lemma login_eh_auth:
  assumes pre: "login_pre s q" and k: "kernel_obeys env"
    and st: "c_state s = ISCSI_CONN_STATE_XPT_WAIT \<or> c_state s = ISCSI_CONN_STATE_IN_LOGIN"
  shows "auth_step D T s (iscsi_login_eh env q err s)"
proof -
  define t where "t = iscsi_flush_context_pool s"
  have pool: "pool_ok (context_pool s)" using pre by (simp add: login_pre_def)
  have t: "pool_ok (context_pool t)" "c_state t = c_state s" "login t = login s" "r_stage t = r_stage s"
    using flushed_idle [OF pool] by (simp_all add: t_def flush_eq)
  have r: "r_stage t = R_STAGE_NO_CHANGE \<or> r_stage t = R_STAGE_SESSION_REDIRECT \<or> r_stage t = R_STAGE_SESSION_REOPEN"
    using pre t(4) by (auto simp: login_pre_def stage_task_def initial_login_def split: if_splits)
  have s: "auth_step D T t (shutdown_login env q e t)" for e
    unfolding shutdown_login_def by (rule shutdown_auth [OF k])
  have "auth_step D T t (login_eh_xpt_wait env q err t)" "auth_step D T t (login_eh_in_login env q err t)"
    using r s reopen_auth [OF t(1)] by (auto simp: login_eh_xpt_wait_def login_eh_in_login_def)
  with st t show ?thesis unfolding iscsi_login_eh_def Let_def t_def [symmetric] by (auto intro: auth_step_cong)
qed

lemma ctx_login_eh_auth: "in_login s q \<Longrightarrow> kernel_obeys env \<Longrightarrow> auth_step D T s (ctx_login_eh env err s)"
  unfolding ctx_login_eh_def using login_eh_auth in_login_parts by simp

lemma login_redirect_auth:
  assumes "in_login s q" shows "auth_step D T s (iscsi_login_redirect env s)"
proof -
  define t where "t = (if r_stage s = R_STAGE_NO_CHANGE then s\<lparr>r_stage := R_STAGE_SESSION_REDIRECT\<rparr> else s)"
  have t: "pool_ok (context_pool t)" "ctx_qtask t = Some q" "login t = login s" using assms by (auto simp: t_def in_login_def login_pre_def)
  show ?thesis
    using auth_step_cong [OF reopened_auth [OF reopen_stop_reopened [OF t(1)]], of s] t(2,3)
    unfolding iscsi_login_redirect_def Let_def t_def [symmetric] by simp
qed

lemma recv_failed_auth: "in_login s q \<Longrightarrow> kernel_obeys env \<Longrightarrow> auth_step D T s (recv_failed env err s)"
  unfolding recv_failed_def by (rule auth_step_cong [OF ctx_login_eh_auth [of _ q]]) (auto simp: in_login_def timer_for_def)

lemma setup_full_auth:
  assumes i: "in_login s q" and k: "kernel_obeys env" and l: "logged_in D T s"
  shows "auth_step D T s (setup_full_feature_phase env s)"
proof -
  obtain t failed where t: "iscsi_session_set_neg_params (k_set_param env) (delete_login_timer s) = (t, failed)" by force
  note x = param_ext_ok [OF set_neg_params_ext [OF t]]
  note p = in_login_parts [OF i]
  have t': "login_pre t q" "ctx_qtask t = Some q" "c_state t = ISCSI_CONN_STATE_IN_LOGIN" "login t = login s"
    using x(1) [of q] x(3,4,6) p by (simp_all add: delete_login_timer_def)
  have eh: "auth_step D T s (ctx_login_eh env e u)" if "u = t \<or> u = emit START_CONN t" for e u
    using that t' login_eh_auth [OF _ k, of u q D T e] by (auto simp: ctx_login_eh_def intro: auth_step_cong)
  have fin: "auth_step D T s u" if "login u = login s" "c_state u = ISCSI_CONN_STATE_LOGGED_IN" for u
    using that l by (simp add: auth_step_def authed_def logged_in_def)
  have sc: "login (session_scan_host env q' v) = login v" "c_state (session_scan_host env q' v) = c_state v"
    "login (mgmt_ipc_write_rsp q' e v) = login v" "c_state (mgmt_ipc_write_rsp q' e v) = c_state v" for q' e v
    by (simp_all add: session_scan_host_def write_rsp_eq)
  show ?thesis
    unfolding setup_full_feature_phase_def t Let_def prod.case
    by (simp add: eh, intro impI conjI; rule fin; simp add: start_nop_out_timer_def finish_login_def sc t')
qed

text \<open>The surroundings of an event: the digests, and the texts that a login response brings.\<close>

definition hears :: "digests \<Rightarrow> string set \<Rightarrow> kenv \<Rightarrow> sess \<Rightarrow> bool" where
  "hears D T env s \<longleftrightarrow> digest_lengths D \<and> EVP_digest (auth_env (k_login env)) = D \<and>
     (\<forall>rsp bytes. k_recv env = RECV_PDU rsp bytes \<longrightarrow> c_state s = ISCSI_CONN_STATE_IN_LOGIN \<longrightarrow>
        rsp_text rsp (recv_data (max_data_length (login_ctx s)) bytes) \<in> T)"

lemma cfg_peer: "login_cfg l = login_cfg l' \<Longrightarrow> peer_account l = peer_account l'"
  by (simp add: login_cfg_def)

lemma recv_pdu_end_login [simp]: "login (recv_pdu_end s) = login s" "login_ctx (recv_pdu_end s) = login_ctx s"
  by (simp_all add: recv_pdu_end_def put_eq split: option.split)

lemma login_rsp_auth:
  assumes e: "recv_login_pdu env s = (t, err)" and l: "logging_in D T s" and st: "c_state s = ISCSI_CONN_STATE_IN_LOGIN" and h: "hears D T env s"
  shows "login_cfg (login t) = login_cfg (login s)" "\<not> err \<Longrightarrow> logging_in D T t"
    "err \<Longrightarrow> ret (login_ctx t) = LOGIN_OK \<Longrightarrow> ctx_class (login_ctx t) = ISCSI_STATUS_CLS_SUCCESS \<Longrightarrow> logging_in D T t"
proof -
  obtain l' c' r where r: "iscsi_login_rsp (k_login env) (login s) (login_ctx s) (k_recv env) = ((l', c'), r)" by (metis surj_pair)
  have a: "\<not> have_auth_client (login_ctx s)" "\<not> final (login_ctx s)" and inv: "login_inv D (peer_account (login s)) T (login s)"
    using l by (simp_all add: logging_in_def)
  note c = login_rsp_cases [OF r a]
  have t: "login t = l'" "login_ctx t = c'" "err = (r \<noteq> RSP_OK)" using e by (auto simp: recv_login_pdu_def r)
  show cfg: "login_cfg (login t) = login_cfg (login s)" using login_rsp_cfg [OF r a(1)] t by simp
  have "final c' \<Longrightarrow> r \<noteq> RSP_OK"
    using r a by (auto simp: iscsi_login_rsp_def Let_def split: recv_result.splits prod.splits if_splits)
  then show "\<not> err \<Longrightarrow> logging_in D T t"
    using c(1) c(4) [OF _ inv] h st t cfg_peer [OF cfg] by (auto simp: logging_in_def hears_def)
  show "logging_in D T t" if "err" "ret (login_ctx t) = LOGIN_OK" "ctx_class (login_ctx t) = ISCSI_STATUS_CLS_SUCCESS"
  proof (cases r)
    case RSP_EAGAIN
    then show ?thesis using c(2) l t by (simp add: logging_in_def)
  qed (use that c(3) t in auto)
qed

lemma login_req_auth:
  assumes e: "send_login_pdu env s = (t, failed)" and l: "login_inv D (peer_account (login s)) T (login s)" "\<not> have_auth_client (login_ctx s)"
  shows "login_cfg (login t) = login_cfg (login s)" "\<not> failed \<Longrightarrow> logging_in D T t"
proof -
  obtain l' c' r where r: "iscsi_login_req (login s) (login_ctx s) (k_send_ok env) = ((l', c'), r)" by (metis surj_pair)
  note c = login_req_cases [OF r l(2)]
  have t: "login t = l'" "login_ctx t = c'" "r = failed" using e r by (auto simp: send_login_pdu_def emit_def)
  show cfg: "login_cfg (login t) = login_cfg (login s)" using login_req_cfg [OF r l(2)] t by simp
  show "\<not> failed \<Longrightarrow> logging_in D T t" using c(1,3) c(4) [OF _ l(1)] t cfg_peer [OF cfg] by (simp add: logging_in_def)
qed

lemma in_login_auth: "c_state s' = ISCSI_CONN_STATE_IN_LOGIN \<Longrightarrow> logging_in D T s' \<Longrightarrow> login_cfg (login s') = login_cfg (login s) \<Longrightarrow>
  auth_step D T s s'"
  by (simp add: auth_step_def authed_def)

lemma recv_next_stage_auth:
  assumes i: "in_login s q" and k: "kernel_obeys env" and l: "logging_in D T s"
  shows "auth_step D T s (recv_next_stage env s)"
proof -
  let ?s = "s\<lparr>c_state := ISCSI_CONN_STATE_IN_LOGIN\<rparr>"
  obtain t failed where t: "send_login_pdu env ?s = (t, failed)" by force
  have i': "in_login ?s q" using i by (simp add: in_login_def)
  note j = login_req_in_login(1) [OF t i']
  have a: "login_cfg (login t) = login_cfg (login s)" "\<not> failed \<Longrightarrow> logging_in D T t"
    using login_req_auth [OF t, of D T] l by (simp_all add: logging_in_def)
  have "auth_step D T s (ctx_login_eh env ISCSI_ERR_LOGIN t)" using auth_step_cong [OF ctx_login_eh_auth [OF j k] a(1)] .
  moreover have "auth_step D T s t" if "\<not> failed" using in_login_auth [OF in_login_parts(3) [OF j] a(2) [OF that] a(1)] .
  moreover have "auth_step D T s (setup_full_feature_phase env s)" if "current_stage (login_conn s) = ISCSI_FULL_FEATURE_PHASE"
    using setup_full_auth [OF i k] l that by (simp add: logged_in_def logging_in_def)
  ultimately show ?thesis by (simp add: recv_next_stage_def t)
qed

lemma recv_status_auth:
  assumes i: "in_login s q" and k: "kernel_obeys env"
    and l: "ctx_class (login_ctx s) = ISCSI_STATUS_CLS_SUCCESS \<Longrightarrow> logging_in D T s"
  shows "auth_step D T s (recv_status env s)"
proof -
  obtain t st where t: "check_iscsi_status_class (ctx_class (login_ctx s)) (ctx_detail (login_ctx s)) s = (t, st)" by force
  then have j: "in_login t q" "login t = login s" "login_ctx t = login_ctx s"
    using i by (auto simp: check_iscsi_status_class_def in_login_def split: if_splits)
  have "st = CONN_LOGIN_SUCCESS \<or> st = CONN_LOGIN_IO_ERR \<Longrightarrow> ctx_class (login_ctx s) = ISCSI_STATUS_CLS_SUCCESS"
    using t by (auto simp: check_iscsi_status_class_def split: if_splits)
  then have n: "st = CONN_LOGIN_SUCCESS \<or> st = CONN_LOGIN_IO_ERR \<Longrightarrow> logging_in D T t"
    using l j(2,3) by (simp add: logging_in_def)
  have "auth_step D T t (case st of
             CONN_LOGIN_AUTH_FAILED \<Rightarrow> recv_failed env ISCSI_ERR_LOGIN_AUTH_FAILED t
           | CONN_LOGIN_FAILED \<Rightarrow> recv_failed env ISCSI_ERR_FATAL_LOGIN t
           | CONN_LOGIN_IMM_REDIRECT_RETRY \<Rightarrow> iscsi_login_redirect env t
           | CONN_LOGIN_IMM_RETRY \<Rightarrow> ctx_login_eh env ISCSI_ERR_LOGIN t
           | CONN_LOGIN_RETRY \<Rightarrow> ctx_login_eh env ISCSI_ERR_LOGIN t
           | _ \<Rightarrow> recv_next_stage env t)"
    using recv_failed_auth [OF j(1) k] login_redirect_auth [OF j(1)] ctx_login_eh_auth [OF j(1) k] recv_next_stage_auth [OF j(1) k n]
    by (cases st) simp_all
  with j(2) show ?thesis by (simp add: recv_status_def t auth_step_def)
qed

lemma recv_login_rsp_auth:
  assumes i: "in_login s q" and r: "\<And>i. recv_context s = Some i \<Longrightarrow> running i s" and k: "kernel_obeys env"
    and l: "logging_in D T s" and h: "hears D T env s"
  shows "auth_step D T s (iscsi_recv_login_rsp env s)"
proof -
  obtain t err where t: "recv_login_pdu env s = (t, err)" by force
  note j = login_rsp_ok(1) [OF t i r]
  note a = login_rsp_auth [OF t l in_login_parts(3) [OF i] h]
  have ok: "login_response_status x = CONN_LOGIN_SUCCESS \<Longrightarrow> x = LOGIN_OK" "login_response_status x \<noteq> CONN_LOGIN_IO_ERR"
    "login_response_status x \<noteq> CONN_LOGIN_IMM_RETRY" "login_response_status x \<noteq> CONN_LOGIN_AUTH_FAILED" for x
    by (cases x; simp)+
  have "auth_step D T t (recv_status env t)" if "err" "login_response_status (ret (login_ctx t)) = CONN_LOGIN_SUCCESS"
    using recv_status_auth [OF j k a(3) [OF that(1) ok(1) [OF that(2)]]] .
  then have "auth_step D T t (if err then
          (case login_response_status (ret (login_ctx t)) of
             CONN_LOGIN_FAILED \<Rightarrow> recv_failed env ISCSI_ERR_FATAL_LOGIN t
           | CONN_LOGIN_RETRY \<Rightarrow> ctx_login_eh env ISCSI_ERR_LOGIN t
           | CONN_LOGIN_IMM_REDIRECT_RETRY \<Rightarrow> iscsi_login_redirect env t
           | _ \<Rightarrow> recv_status env t)
        else recv_next_stage env t)"
    using recv_failed_auth [OF j k] login_redirect_auth [OF j] ctx_login_eh_auth [OF j k] recv_next_stage_auth [OF j k a(2)]
      ok(2-4) [of "ret (login_ctx t)"]
    by (cases "login_response_status (ret (login_ctx t))") simp_all
  with a(1) show ?thesis by (simp add: iscsi_recv_login_rsp_def t auth_step_def)
qed

definition wants_auth :: "iscsi_session \<Rightarrow> bool" where
  "wants_auth l \<longleftrightarrow> auth_buffers l \<noteq> [] \<and> bidirectional_auth l \<and> is_cstr (sess_username l)"

lemma wants_auth_cfg: "login_cfg l = login_cfg l' \<Longrightarrow> wants_auth l = wants_auth l'"
  by (simp add: login_cfg_def wants_auth_def)

lemma start_login_auth:
  assumes s: "waiting s q" "ctx_qtask s = Some q" and k: "kernel_obeys env" and w: "wants_auth (login s)"
  shows "auth_step D T s (start_login env q s)"
proof -
  obtain t1 f1 where t1: "iscsi_session_set_params (k_set_param env) (k_supports_nop env) s = (t1, f1)" by force
  obtain t2 f2 where t2: "iscsi_host_set_params (k_host_param env) t1 = (t2, f2)" by force
  obtain l' c' f3 where b: "iscsi_login_begin (k_login env) (login t2) (login_ctx t2) = ((l', c'), f3)" by (metis surj_pair)
  let ?t3 = "t2\<lparr>login := l', login_ctx := c'\<rparr>"
  obtain t4 f4 where t4: "send_login_pdu env (?t3\<lparr>c_state := ISCSI_CONN_STATE_IN_LOGIN\<rparr>) = (t4, f4)" by force
  note x1 = waiting_ext [OF set_params_ext [OF t1] s(1)]
  note x2 = waiting_ext [OF host_set_params_ext [OF t2] conjunct1 [OF x1]]
  have l: "login t1 = login s" "login t2 = login s"
    using param_ext_ok(6) [OF set_params_ext [OF t1]] param_ext_ok(6) [OF host_set_params_ext [OF t2]] by simp_all
  have x3: "waiting ?t3 q" "login_cfg (login ?t3) = login_cfg (login s)"
    using x2 login_begin_cfg [OF b] l by (simp_all add: waiting_def)
  have i: "in_login (?t3\<lparr>c_state := ISCSI_CONN_STATE_IN_LOGIN\<rparr>) q" using x1 x2 x3 s(2) by (simp add: in_login_def waiting_def)
  note x4 = login_req_in_login(1) [OF t4 i]
  have e: "auth_step D T s (iscsi_login_eh env q e u)" if "waiting u q \<or> in_login u q" "login_cfg (login u) = login_cfg (login s)" for e u
    by (rule auth_step_cong [OF login_eh_auth [OF _ k] that(2)]) (use that(1) in \<open>auto simp: waiting_def in_login_def\<close>)
  have v: "login_inv D (peer_account l') T l'" "\<not> have_auth_client c'" if "\<not> f3"
    using login_begin_inv [of "k_login env" "login t2" "login_ctx t2" l' c'] b that w l cfg_peer [OF login_begin_cfg [OF b]]
    by (simp_all add: wants_auth_def)
  have a: "login_cfg (login t4) = login_cfg (login s)" "\<not> f4 \<Longrightarrow> logging_in D T t4" if "\<not> f3"
    using login_req_auth [OF t4, of D T] v [OF that] x3(2) by simp_all
  have "auth_step D T s t4" if "\<not> f3" "\<not> f4" using in_login_auth [OF in_login_parts(3) [OF x4] a(2) [OF that] a(1) [OF that(1)]] .
  moreover have "login_begin env t2 = (?t3, f3)" by (simp add: login_begin_def b)
  ultimately show ?thesis
    using e [of t1] e [of t2] e [of ?t3] e [of t4] x1 x2 x3 x4 l a(1) t4 by (simp add: start_login_def t1 t2)
qed

lemma copy_params_cfg: "login_cfg (login (iscsi_copy_operational_params s)) = login_cfg (login s)"
proof -
  have 1: "login_cfg (fst (do_create_conn f (l, e))) = login_cfg l" for f l e
    by (cases f) (simp_all add: iser_create_conn_def cxgbi_create_conn_def be2iscsi_create_conn_def Let_def upd_conn_def login_cfg_def)
  have 2: "login_cfg (fst (copy_conn_params c l)) = login_cfg l" "login_cfg (fst (copy_session_params d l)) = login_cfg l"
    "login_cfg (discovery_params t l) = login_cfg l" for c d t l
    by (simp_all add: copy_conn_params_def copy_session_params_def discovery_params_def Let_def) (simp add: login_cfg_def)
  obtain l1 c1 where l1: "copy_conn_params (nr_conn_conf (nrec s)) (login s) = (l1, c1)" by force
  obtain l2 c2 where l2: "copy_session_params (nr_session_conf (nrec s)) l1 = (l2, c2)" by force
  obtain l3 e where l3: "do_create_conn (create_conn (template (transport s))) (discovery_params (transport s) l2, ERL c2) = (l3, e)" by force
  have "login_cfg l3 = login_cfg (login s)" using 1 [of "create_conn (template (transport s))" "discovery_params (transport s) l2" "ERL c2"]
      2(1) [of "nr_conn_conf (nrec s)" "login s"] 2(2) [of "nr_session_conf (nrec s)" l1] 2(3) [of "transport s" l2] l1 l2 l3 by simp
  then show ?thesis by (simp add: iscsi_copy_operational_params_def copy_operational_params_def l1 l2 l3)
qed

lemma bind_auth:
  assumes s: "waiting s q" and k: "kernel_obeys env" and w: "wants_auth (login s)"
  shows "auth_step D T s (bind_and_login env q s)"
proof -
  define t where "t = emit BIND_CONN (set_isid (iscsi_copy_operational_params s))"
  define u where "u = upd_login (upd_conn (\<lambda>c. c\<lparr>exp_statsn := k_exp_statsn env\<rparr>))
                     (t\<lparr>ctx_qtask := Some q, login_ctx := (login_ctx t)\<lparr>bufsize := unat ISCSI_DEF_MAX_RECV_SEG_LEN\<rparr>\<rparr>)"
  have t: "waiting t q"
    using s by (simp add: t_def set_isid_def iscsi_copy_operational_params_def waiting_def upd_login_def split: prod.splits)
  have ct: "login_cfg (login t) = login_cfg (login s)"
    using copy_params_cfg [of s] by (simp add: t_def set_isid_def upd_login_def) (simp add: login_cfg_def)
  have u: "waiting u q" "ctx_qtask u = Some q" using t by (simp_all add: u_def waiting_def upd_login_def)
  have o: "\<not> has_cap (transport u) CAP_LOGIN_OFFLOAD" using u(1) by (simp add: waiting_def login_pre_def)
  have cu: "login_cfg (login u) = login_cfg (login s)" using ct by (simp add: u_def upd_login_def)
  have "auth_step D T s (iscsi_login_eh env q e t)" for e
    by (rule auth_step_cong [OF login_eh_auth [OF _ k] ct]) (use t in \<open>simp_all add: waiting_def\<close>)
  moreover have "auth_step D T s (start_login env q u)"
    by (rule auth_step_cong [OF start_login_auth [OF u k] cu]) (use w wants_auth_cfg [OF cu] in simp)
  ultimately show ?thesis using o by (simp add: bind_and_login_def t_def [symmetric] Let_def u_def [symmetric])
qed

lemma conn_established_auth:
  assumes s: "waiting s q" and k: "kernel_obeys env" and w: "wants_auth (login s)"
  shows "auth_step D T s (conn_established env q s)"
proof -
  define t where "t = clear_login_context s"
  have t: "waiting t q" "login t = login s" using s by (simp_all add: t_def clear_login_context_def waiting_def timer_for_def)
  obtain u err where u: "(if conn_id t = 0 then session_ipc_create env t else (t, 0)) = (u, err)" by force
  have u': "waiting u q" "login u = login s" using u t by (auto simp: session_ipc_create_def Let_def waiting_def split: if_splits)
  let ?v = "(emit CREATE_CONN u)\<lparr>conn_id := snd (k_create_conn env)\<rparr>"
  have v: "waiting ?v q" using u'(1) k by (simp add: waiting_def login_pre_def stage_task_def initial_login_def kernel_obeys_def emit_def timer_for_def)
  show ?thesis
    using t(2) u'(2) w shutdown_auth [OF k, of D T u "Some q" ISCSI_ERR_INTERNAL]
      shutdown_auth [OF k, of D T "emit CREATE_CONN u" "Some q" ISCSI_ERR_INTERNAL] bind_auth [OF v k, of D T] bind_auth [OF t(1) k, of D T]
    by (simp add: conn_established_def t_def [symmetric] Let_def u auth_step_def split: prod.splits)
qed

lemma login_inv_time2wait [simp]: "login_inv D acct T (l\<lparr>def_time2wait := w\<rparr>) = login_inv D acct T l"
  by (simp add: login_inv_def)

definition login_same :: "sess \<Rightarrow> sess \<Rightarrow> bool" where
  "login_same s s' \<longleftrightarrow> (\<exists>w. login s' = (login s)\<lparr>def_time2wait := w\<rparr>) \<and> login_ctx s' = login_ctx s \<and>
     (c_state s' = c_state s \<or> {c_state s, c_state s'} \<inter> {ISCSI_CONN_STATE_XPT_WAIT, ISCSI_CONN_STATE_IN_LOGIN} = {})"

lemma login_sameI: "login s' = login s \<Longrightarrow> login_ctx s' = login_ctx s \<Longrightarrow> c_state s' = c_state s \<Longrightarrow> login_same s s'"
  unfolding login_same_def by (intro conjI exI [of _ "def_time2wait (login s)"]) simp_all

lemma login_same_auth: "login_same s s' \<Longrightarrow> authed D T s \<Longrightarrow> auth_step D T s s'"
  by (auto simp: login_same_def auth_step_def authed_def logging_in_def logged_in_def)

lemma authed_cong:
  "authed D T s \<Longrightarrow> login t = login s \<Longrightarrow> login_ctx t = login_ctx s \<Longrightarrow> c_state t = c_state s \<Longrightarrow> authed D T t"
  by (simp add: authed_def logging_in_def logged_in_def)

lemma error_auth:
  assumes s: "sess_ok s" and k: "kernel_obeys env" and a: "authed D T s"
  shows "auth_step D T s (conn_error_handle env s)"
proof -
  let ?u = "s\<lparr>c_state := ISCSI_CONN_STATE_CLEANUP_WAIT\<rparr>"
  let ?t = "?u\<lparr>r_stage := R_STAGE_SESSION_REOPEN\<rparr>"
  have p: "pool_ok (context_pool s)" by (rule sess_ok_pools(1) [OF s])
  have r: "auth_step D T s (session_conn_reopen env Reopen_qtask STOP_CONN_RECOVER t)" if "t = ?t \<or> t = ?u" for t
    by (rule auth_step_cong [OF reopen_auth]) (use that p in auto)
  have u: "auth_step D T s ?u" if "c_state s = ISCSI_CONN_STATE_IN_LOGOUT \<or> c_state s = ISCSI_CONN_STATE_LOGGED_IN"
  proof -
    have "login_same s ?u" unfolding login_same_def by (intro conjI exI [of _ "def_time2wait (login s)"]) (use that in auto)
    then show ?thesis by (rule login_same_auth [OF _ a])
  qed
  have id: "auth_step D T s s" by (rule login_same_auth [OF login_sameI a]) simp_all
  have e: "auth_step D T s (iscsi_login_eh env q err s)"
    if "c_state s = ISCSI_CONN_STATE_IN_LOGIN" "r_stage s = R_STAGE_SESSION_REOPEN" "q = (case notify_qtask s of Some q \<Rightarrow> q | None \<Rightarrow> Reopen_qtask)" for q err
  proof -
    have "login_pre s q" using that s by (auto simp: sess_ok_def waiting_def in_login_def settled_def login_pre_def stage_task_def initial_login_def)
    then show ?thesis using login_eh_auth [OF _ k] that(1) by blast
  qed
  show ?thesis
    using r u id e shutdown_auth [OF k] by (auto simp: conn_error_handle_def Let_def split: option.split)
qed

lemma send_logout_same:
  assumes "iscsi_send_logout env s = (t, rc)" shows "login_same s t"
proof -
  let ?s = "(emit SEND_LOGOUT s)\<lparr>c_state := ISCSI_CONN_STATE_IN_LOGOUT\<rparr>"
  have id: "login_same s s" "login_same s (emit SEND_LOGOUT s)" by (auto intro: login_sameI simp: emit_def)
  have l: "login_same s t" if "c_state s = ISCSI_CONN_STATE_LOGGED_IN" "login t = login s" "login_ctx t = login_ctx s"
      "c_state t = ISCSI_CONN_STATE_IN_LOGOUT"
    using that by (auto simp: login_same_def intro: exI [of _ "def_time2wait (login s)"])
  show ?thesis
  proof (cases "c_state s = ISCSI_CONN_STATE_LOGGED_IN \<and> k_send_ok env")
    case False
    then show ?thesis using assms id by (auto simp: iscsi_send_logout_def split: if_splits)
  next
    case True
    show ?thesis
      by (cases rule: ev_get_cases [of True ?s]; rule l)
         (use True assms in \<open>auto simp: iscsi_send_logout_def emit_def pend_def upd_context_def\<close>)
  qed
qed

lemma send_logout_pre: "iscsi_send_logout env s = (t, rc) \<Longrightarrow> authed D T s \<Longrightarrow> auth_step D T s t"
  by (rule login_same_auth [OF send_logout_same])

lemma session_pdu_auth:
  assumes s: "settled s" and r: "\<And>i. recv_context s = Some i \<Longrightarrow> running i s" and k: "kernel_obeys env" and a: "authed D T s"
  shows "auth_step D T s (recv_session_pdu env s)"
proof -
  define t where "t = recv_pdu_end s"
  note e = recv_pdu_end_settled [OF s r, folded t_def]
  have t: "login t = login s" "login_ctx t = login_ctx s" "c_state t = c_state s"
    by (simp_all add: t_def) (simp add: recv_pdu_end_def put_eq split: option.split)
  have at: "authed D T t" by (rule authed_cong [OF a t])
  have same: "auth_step D T s u" if "login_same t u" for u
    using login_same_auth [OF that at] t by (simp add: auth_step_def)
  have up: "login_same t (upd_login (def_time2wait_update (\<lambda>_. w)) t)" for w by (auto simp: login_same_def upd_login_def)
  have id: "login_same t t" "login_same t (session_scan_host env None t)" "login_same t (emit x t)"
    "login_same t (start_nop_out_timer d cb (delete_nop_out_timer t))" for x d cb
    by (auto intro!: login_sameI simp: session_scan_host_def start_nop_out_timer_def delete_nop_out_timer_def emit_def)
  have err: "auth_step D T s (conn_error_handle env u)" if "settled u" "login_same t u" for u
    by (rule auth_step_cong [OF error_auth [OF settled_sess_ok [OF that(1)] k]])
       (use login_same_auth [OF that(2) at] that t in \<open>auto simp: auth_step_def settled_def login_same_def\<close>)
  obtain v rc where v: "iscsi_send_logout env t = (v, rc)" by force
  have "auth_step D T s (iscsi_recv_nop_in env hdr t)" "auth_step D T s (iscsi_recv_logout_rsp env hdr t)"
    "auth_step D T s (iscsi_recv_async_msg env hdr t)" for hdr
    using same [OF id(1)] same [OF id(2)] same [OF id(3)] same [OF id(4)] same [OF up] err [OF e(1) id(1)] err [OF _ up]
      same [OF send_logout_same [OF v]] e(1) v
    by (simp_all add: iscsi_recv_nop_in_def iscsi_recv_logout_rsp_def iscsi_recv_async_msg_def split: option.split)
  then show ?thesis using same [OF id(1)] by (simp add: recv_session_pdu_def t_def [symmetric] Let_def split: option.split)
qed

lemma put_auth: "authed D T s \<Longrightarrow> auth_step D T s (iscsi_ev_context_put i s)"
  by (rule login_same_auth [OF login_sameI]) (simp_all add: put_eq)

lemma recv_pdu_auth:
  assumes s: "sess_ok s" and r: "running i s" and k: "kernel_obeys env" and a: "authed D T s" and h: "hears D T env s"
  shows "auth_step D T s (session_conn_recv_pdu env i s)"
proof -
  let ?s = "s\<lparr>recv_context := Some i\<rparr>"
  have r': "\<And>j. recv_context ?s = Some j \<Longrightarrow> running j ?s" using r by (simp add: running_def)
  have a': "authed D T ?s" by (rule authed_cong [OF a]) simp_all
  have h': "hears D T env ?s" using h by (simp add: hears_def)
  have "auth_step D T ?s (session_conn_recv_pdu env i s)"
  proof (cases "c_state s = ISCSI_CONN_STATE_IN_LOGIN")
    case True
    then obtain q where q: "in_login ?s q" using s by (auto simp: sess_ok_def waiting_def in_login_def settled_def)
    have "logging_in D T ?s" using a' True by (simp add: authed_def)
    then show ?thesis using recv_login_rsp_auth [OF q r' k _ h'] True by (simp add: session_conn_recv_pdu_def)
  next
    case False
    have "settled ?s" if "c_state s \<noteq> ISCSI_CONN_STATE_XPT_WAIT" using sess_ok_logged_in [OF s that False] by simp
    then show ?thesis
      using session_pdu_auth [OF _ r' k a'] put_auth [OF a'] False by (cases "c_state s") (simp_all add: session_conn_recv_pdu_def)
  qed
  then show ?thesis by (simp add: auth_step_def)
qed

lemma poll_auth:
  assumes s: "sess_ok s" and r: "running i s" and k: "kernel_obeys env" and a: "authed D T s" and w: "wants_auth (login s)"
    and d: "\<And>q. waiting s q \<Longrightarrow> ctx_data i s = Data_qtask q"
  shows "auth_step D T s (session_conn_poll env i s)"
proof (cases "c_state s = ISCSI_CONN_STATE_XPT_WAIT")
  case False
  then have "session_conn_poll env i s = iscsi_ev_context_put i s"
    using sess_ok_put(5) [OF s r] by (simp add: session_conn_poll_def Let_def split: ev_data.split)
  then show ?thesis using put_auth [OF a] by simp
next
  case True
  then obtain q where q: "waiting s q" using s by (auto simp: sess_ok_def in_login_def settled_def)
  define t where "t = iscsi_ev_context_put i s"
  have t: "waiting t q" "c_state t = ISCSI_CONN_STATE_XPT_WAIT" "login t = login s"
    using waiting_put [OF q r] True by (simp_all add: t_def put_eq)
  have x: "auth_step D T s u" if "c_state u = ISCSI_CONN_STATE_XPT_WAIT" "login u = login s" for u
    using that by (simp add: auth_step_def authed_def)
  have e: "auth_step D T s (iscsi_login_eh env q e t)" for e
    by (rule auth_step_cong [OF login_eh_auth [OF _ k]]) (use t in \<open>simp_all add: waiting_def\<close>)
  have "auth_step D T s (case iscsi_ev_context_get True t of
         (s, None) \<Rightarrow> iscsi_login_eh env q ISCSI_ERR_INTERNAL s
       | (s, Some j) \<Rightarrow> iscsi_sched_ev_context j 1 EV_CONN_POLL (set_ev_data j (Data_qtask q) s))"
    by (cases rule: ev_get_cases [of True t])
       (use e t in \<open>auto intro!: x simp: set_ev_data_def upd_context_def pend_def emit_def\<close>)
  moreover have "auth_step D T s (conn_established env q t)"
    by (rule auth_step_cong [OF conn_established_auth [OF t(1) k]]) (use w t in simp_all)
  moreover have "auth_step D T s (queue_delayed_reopen q n t)" for n
    by (rule x) (use t in \<open>simp_all add: queue_delayed_reopen_def login_timer_mod_def\<close>)
  ultimately show ?thesis
    using t(2) by (simp add: session_conn_poll_def d [OF q] t_def [symmetric] Let_def del: iscsi_sched_ev_context.simps One_nat_def)
qed

lemma ev_callback_auth:
  assumes s: "sess_ok s" and r: "running i s" and k: "kernel_obeys env" and a: "authed D T s" and h: "ev = EV_CONN_RECV_PDU \<Longrightarrow> hears D T env s"
    and w: "wants_auth (login s)" and d: "\<And>q. waiting s q \<Longrightarrow> ev = EV_CONN_POLL \<Longrightarrow> ctx_data i s = Data_qtask q"
    and n: "ctx_data i s \<noteq> Data_error ISCSI_ERR_INVALID_HOST"
  shows "auth_step D T s (ev_callback env ev i s)"
proof -
  define t where "t = iscsi_ev_context_put i s"
  have t: "login t = login s" "login_ctx t = login_ctx s" "c_state t = c_state s" by (simp_all add: t_def put_eq)
  note p = sess_ok_put [OF s r, folded t_def]
  have at: "authed D T t" by (rule authed_cong [OF a t])
  have err: "auth_step D T s (conn_error_handle env t)" using auth_step_cong [OF error_auth [OF p(1) k at]] t(1) by simp
  have id: "auth_step D T s s" "auth_step D T s t" using login_same_auth [OF login_sameI a] put_auth [OF a] by (simp_all add: t_def)
  obtain u rc where u: "iscsi_send_logout env t = (u, rc)" by force
  have "auth_step D T s u" using send_logout_pre [OF u at] t(1) by (simp add: auth_step_def)
  moreover have "auth_step D T s (fst (session_conn_shutdown env q e v))" for q e v
    using shutdown_released [OF k, of q v e] by (simp add: released_def auth_step_def)
  moreover have "\<not> has_cap (transport t) CAP_LOGIN_OFFLOAD" by (rule sess_ok_no_offload [OF p(1)])
  ultimately show ?thesis
    using recv_pdu_auth [OF s r k a h] poll_auth [OF s r k a w d] err id n
    by (cases ev) (simp_all add: session_conn_error_def iscsi_logout_timedout_def iscsi_stop_def session_conn_process_login_def
        t_def [symmetric] Let_def u)
qed

text \<open>An event in which a PDU is received.\<close>

fun receives :: "session_event \<Rightarrow> sess \<Rightarrow> bool" where
  "receives (Run_actor (Ev_actor i)) s \<longleftrightarrow> i < length (context_pool s) \<and>
     (case context_pool s ! i of Some c \<Rightarrow> map_option fst (ev_pending c) = Some EV_CONN_RECV_PDU | None \<Rightarrow> False)"
| "receives _ s \<longleftrightarrow> False"

lemma run_actor_auth:
  assumes s: "sess_ok s" and k: "kernel_obeys env" and a: "authed D T s" and h: "receives (Run_actor x) s \<Longrightarrow> hears D T env s" and w: "wants_auth (login s)"
  shows "auth_step D T s (run_actor env x s)"
proof (cases x)
  case Login_timer
  show ?thesis
  proof (cases "login_timer s")
    case None
    then show ?thesis using Login_timer login_same_auth [OF login_sameI a] by simp
  next
    case (Some p)
    let ?t = "emit (ACT Login_timer A_RUN) (s\<lparr>login_timer := None\<rparr>)"
    obtain d q where p: "p = (d, q)" by force
    then have q: "waiting s q \<or> in_login s q" using s Some by (auto simp: sess_ok_def waiting_def in_login_def settled_def timer_for_def)
    then have "login_pre ?t q" "c_state ?t = ISCSI_CONN_STATE_XPT_WAIT \<or> c_state ?t = ISCSI_CONN_STATE_IN_LOGIN"
      by (auto simp: waiting_def in_login_def)
    from login_eh_auth [OF this(1) k this(2)] q have "auth_step D T ?t (iscsi_login_timedout env q ?t)"
      by (auto simp: iscsi_login_timedout_def waiting_def in_login_def)
    then show ?thesis using Login_timer Some p by (simp add: auth_step_def)
  qed
next
  case Nop_out_timer
  let ?t = "emit (ACT Nop_out_timer A_RUN) (s\<lparr>nop_out_timer := None\<rparr>)"
  show ?thesis
  proof (cases "nop_out_timer s")
    case None
    then show ?thesis using Nop_out_timer login_same_auth [OF login_sameI a] by simp
  next
    case (Some p)
    have "settled s" using s Some by (auto simp: sess_ok_def waiting_def in_login_def login_pre_def)
    then have t: "sess_ok ?t" by (simp add: settled_sess_ok)
    have at: "authed D T ?t" by (rule authed_cong [OF a]) simp_all
    have "auth_step D T ?t (conn_send_nop_out ?t)"
      by (rule login_same_auth [OF login_sameI at]) (simp_all add: conn_send_nop_out_def start_nop_out_timer_def)
    with error_auth [OF t k at] have "auth_step D T ?t (nop_timer_callback env cb ?t)" for cb
      by (cases cb) (simp_all add: conn_nop_out_timeout_def)
    then show ?thesis using Nop_out_timer Some by (simp add: auth_step_def split: prod.split)
  qed
next
  case (Ev_actor i)
  have id: "auth_step D T s s" by (rule login_same_auth [OF login_sameI a]) simp_all
  show ?thesis
  proof (cases "\<exists>c ev d. i < length (context_pool s) \<and> context_pool s ! i = Some c \<and> ev_pending c = Some (ev, d)")
    case True
    then obtain c ev d where i: "i < length (context_pool s)" "context_pool s ! i = Some c" "ev_pending c = Some (ev, d)" by blast
    let ?t = "popped i c s"
    note p = popped_ok [OF s i]
    have l: "login ?t = login s" "login_ctx ?t = login_ctx s" "c_state ?t = c_state s" by (simp_all add: popped_def)
    have "auth_step D T ?t (ev_callback env ev i ?t)"
      by (rule ev_callback_auth [OF p(1,4) k authed_cong [OF a l]]) (use p(5-7) h Ev_actor i w l in \<open>simp_all add: hears_def\<close>)
    then show ?thesis using Ev_actor p(9) l(1) by (simp add: auth_step_def)
  next
    case False
    then show ?thesis using Ev_actor id by (auto split: option.split)
  qed
qed

lemma session_step_auth:
  assumes s: "sess_ok s" and k: "kernel_obeys env" and a: "authed D T s" and h: "receives ev s \<Longrightarrow> hears D T env s" and w: "wants_auth (login s)"
  shows "auth_step D T s (session_step env ev s)"
proof (cases ev)
  case (Kernel_event kev)
  have "login_same s (ctldev_handle env kev s)"
    by (cases rule: ev_get_cases [of "k_fits env" s]; rule login_sameI; cases kev)
       (simp_all add: ctldev_handle_def iscsi_ev_context_put_def set_ev_data_def upd_context_def pend_def)
  then show ?thesis using Kernel_event login_same_auth [OF _ a] by simp
next
  case (Logout n busy)
  let ?s = "s\<lparr>logout_qtask := Some (Task n)\<rparr>"
  obtain u rc where u: "iscsi_send_logout env (emit UNBIND_SESSION ?s) = (u, rc)" by force
  have b: "authed D T (emit UNBIND_SESSION ?s)" by (rule authed_cong [OF a]) simp_all
  have id: "auth_step D T s s" "auth_step D T s (emit UNBIND_SESSION ?s)" by (rule login_same_auth [OF login_sameI a]; simp)+
  have "auth_step D T s u" using send_logout_pre [OF u b] by (simp add: auth_step_def)
  moreover have sh: "auth_step D T s (fst (session_conn_shutdown env q e v))" for q e v
    using shutdown_released [OF k, of q v e] by (simp add: released_def auth_step_def)
  ultimately have "auth_step D T s (fst (session_logout_task env busy (Task n) s))"
    using id sess_ok_no_offload [OF s] by (simp add: session_logout_task_def Let_def u)
  then show ?thesis
    using Logout by (simp add: case_prod_beta write_rsp_eq auth_step_def authed_def logging_in_def logged_in_def)
next
  case (Run_actor x)
  then show ?thesis using run_actor_auth [OF s k a _ w] h by simp
qed

subsection \<open>The texts of a run\<close>

fun heard :: "(kenv \<times> session_event) list \<Rightarrow> sess \<Rightarrow> string set" where
  "heard [] s = {}"
| "heard ((env, ev) # evs) s =
     (if freed s then {}
      else (case k_recv env of
              RECV_PDU rsp bytes \<Rightarrow>
                if receives ev s \<and> c_state s = ISCSI_CONN_STATE_IN_LOGIN
                then {rsp_text rsp (recv_data (max_data_length (login_ctx s)) bytes)} else {}
            | _ \<Rightarrow> {}) \<union> heard evs (session_step env ev s))"

definition auth_fits :: "digests \<Rightarrow> string set \<Rightarrow> kenv \<Rightarrow> session_event \<Rightarrow> sess \<Rightarrow> bool" where
  "auth_fits D T env ev s \<longleftrightarrow> admits env ev s \<and> (receives ev s \<longrightarrow> hears D T env s)"

lemma heard_fits:
  assumes "runs admits evs s" "digest_lengths D" "list_all (\<lambda>(env, ev). EVP_digest (auth_env (k_login env)) = D) evs" "heard evs s \<subseteq> T"
  shows "runs (auth_fits D T) evs s"
  using assms
proof (induction evs arbitrary: s)
  case (Cons e evs)
  obtain env ev where e: "e = (env, ev)" by force
  show ?case
  proof (cases "freed s")
    case False
    have "receives ev s \<Longrightarrow> hears D T env s" using Cons.prems e False by (auto simp: hears_def split: if_splits)
    then show ?thesis using Cons False e by (auto simp: auth_fits_def)
  qed (use e in simp)
qed simp

definition auth_inv :: "digests \<Rightarrow> string set \<Rightarrow> iscsi_session \<Rightarrow> sess \<Rightarrow> bool" where
  "auth_inv D T l s \<longleftrightarrow> sess_ok s \<and> authed D T s \<and> wants_auth (login s) \<and> login_cfg (login s) = login_cfg l"

interpretation auth_runs: session_runs "auth_inv D T l" "auth_fits D T" for D T l
proof unfold_locales
  fix s env ev
  assume i: "auth_inv D T l s" and f: "auth_fits D T env ev s"
  have "auth_step D T s (session_step env ev s)" "step_ok (owed s @ request ev) s (session_step env ev s)"
    using session_step_auth [of s env D T ev] session_step_ok [of s env ev] i f by (auto simp: auth_inv_def auth_fits_def admits_def)
  then show "freed (session_step env ev s) \<or> auth_inv D T l (session_step env ev s)"
    using i wants_auth_cfg [of "login (session_step env ev s)" "login s"] by (auto simp: auth_step_def step_ok_def auth_inv_def)
qed

end
