(* ===== verification/Login_Message.thy ===== *)
theory Login_Message
  imports Login_Auth Auth_Handshake
begin

text \<open>
  A login response written as a list of key and value pairs. \<open>render\<close> is its text; the lemma
  \<open>security_message\<close> shows that processing the text in the security stage is the same as
  \<open>acl_recv_begin\<close>, one \<open>acl_recv_key_value\<close> per pair, \<open>acl_recv_transit_bit\<close> and \<open>acl_recv_end\<close>.
\<close>

subsection \<open>A rendered response is a message of the client\<close>

definition render_pair :: "int \<times> string \<Rightarrow> string" where
  "render_pair = (\<lambda>(k, v). the (acl_get_key_name k) @ ''='' @ v @ [NUL])"

definition render :: "(int \<times> string) list \<Rightarrow> string" where
  "render kvs = concat (map render_pair kvs)"

definition message_ok :: "(int \<times> string) list \<Rightarrow> bool" where
  "message_ok kvs \<longleftrightarrow> (\<forall>(k, v) \<in> set kvs. 0 \<le> k \<and> k < 6 \<and> is_cstr v)"

lemma find_pair:
  assumes "is_cstr v" "is_cstr n" "CHR ''='' \<notin> set n" "is_cstr m" "CHR ''='' \<notin> set m"
  shows "iscsi_find_key_value m (n @ ''='' @ v @ NUL # r) = (if m = n then Some (v, NUL # r) else None)"
proof (cases "m = n")
  case True
  with assms show ?thesis by (simp add: find_key_value_Some)
next
  case False
  have "m = n" if eq: "n @ CHR ''='' # x = m @ CHR ''='' # y" for x y
  proof -
    have "takeWhile (\<lambda>c. c \<noteq> CHR ''='') (n @ CHR ''='' # x) = n"
      "takeWhile (\<lambda>c. c \<noteq> CHR ''='') (m @ CHR ''='' # y) = m"
      using assms(3,5) by (auto simp: takeWhile_append)
    with eq show ?thesis by simp
  qed
  with False have "iscsi_find_key_value m (n @ ''='' @ v @ NUL # r) \<noteq> Some (a, b)" for a b
    by (auto simp: find_key_value_Some)
  with False show ?thesis by (cases "iscsi_find_key_value m (n @ ''='' @ v @ NUL # r)") auto
qed

lemma key_name_cases:
  assumes "0 \<le> k" "k < (6 :: int)"
  obtains n where "acl_get_key_name k = Some n" "is_cstr n" "CHR ''='' \<notin> set n"
    "n \<noteq> ''TargetAlias''" "n \<noteq> ''TargetAddress''" "n \<noteq> ''TargetPortalGroupTag''"
proof -
  from assms have "k = 0 \<or> k = 1 \<or> k = 2 \<or> k = 3 \<or> k = 4 \<or> k = 5" by arith
  then show thesis
    using that
    by (elim disjE) (simp_all add: acl_get_key_name_def AUTH_KEY_TYPE_FIRST_def AUTH_KEY_TYPE_LAST_def
        AUTH_KEY_TYPE_MAX_COUNT_def)
qed

lemma key_name_inj:
  assumes "0 \<le> k" "k < (6 :: int)" "0 \<le> j" "j < 6" "acl_get_key_name k = acl_get_key_name j"
  shows "k = j"
proof -
  from assms have "k = 0 \<or> k = 1 \<or> k = 2 \<or> k = 3 \<or> k = 4 \<or> k = 5" "j = 0 \<or> j = 1 \<or> j = 2 \<or> j = 3 \<or> j = 4 \<or> j = 5"
    by arith+
  with assms(5) show ?thesis
    by (elim disjE) (simp_all add: acl_get_key_name_def AUTH_KEY_TYPE_FIRST_def AUTH_KEY_TYPE_LAST_def
        AUTH_KEY_TYPE_MAX_COUNT_def)
qed

lemma auth_key_loop_pair:
  assumes k: "0 \<le> k" "k < 6" "acl_get_key_name k = Some n" and v: "is_cstr v" and j: "- 1 \<le> j" "j < k"
    and ok: "acl_recv_key_value (auth_client_block s) k v = (c, AUTH_STATUS_NO_ERROR)"
  shows "auth_key_loop s j (n @ ''='' @ v @ NUL # r) = (upd_acl c s, Inr (NUL # r))"
  using j
proof (induction "nat (k - j)" arbitrary: j rule: less_induct)
  case less
  obtain n' where n': "acl_get_key_name (j + 1) = Some n'" "is_cstr n'" "CHR ''='' \<notin> set n'"
  proof -
    have "0 \<le> j + 1" "j + 1 < 6" using less.prems k by arith+
    then show thesis by (rule key_name_cases) (rule that)
  qed
  have n: "is_cstr n" "CHR ''='' \<notin> set n" using k by (auto elim: key_name_cases)
  have next_: "acl_get_next_key_type j = Some (j + 1)"
    using less.prems k by (auto simp: acl_get_next_key_type_def AUTH_KEY_TYPE_LAST_def AUTH_KEY_TYPE_FIRST_def
        AUTH_KEY_TYPE_MAX_COUNT_def)
  show ?case
  proof (cases "j + 1 = k")
    case True
    with next_ k n' find_pair [OF v n n] ok show ?thesis by (subst auth_key_loop.simps) simp
  next
    case False
    with k n' less.prems have "n' \<noteq> n" using key_name_inj [of "j + 1" k] by auto
    with find_pair [OF v n n'(2,3)] have "iscsi_find_key_value n' (n @ ''='' @ v @ NUL # r) = None" by simp
    with next_ n'(1) have "auth_key_loop s j (n @ ''='' @ v @ NUL # r) = auth_key_loop s (j + 1) (n @ ''='' @ v @ NUL # r)"
      by (subst auth_key_loop.simps) simp
    with less.hyps [of "j + 1"] less.prems False show ?thesis by simp
  qed
qed

lemma security_keys_pair:
  assumes k: "0 \<le> k" "k < 6" and v: "is_cstr v"
    and ok: "acl_recv_key_value (auth_client_block s) k v = (c, AUTH_STATUS_NO_ERROR)"
  shows "get_security_text_keys env s (render_pair (k, v) @ r) = (upd_acl c s, Inr (NUL # r))"
proof -
  obtain n where n: "acl_get_key_name k = Some n" "is_cstr n" "CHR ''='' \<notin> set n"
    "n \<noteq> ''TargetAlias''" "n \<noteq> ''TargetAddress''" "n \<noteq> ''TargetPortalGroupTag''"
    using k by (rule key_name_cases)
  have f: "iscsi_find_key_value ''TargetAlias'' (n @ ''='' @ v @ NUL # r) = None"
    "iscsi_find_key_value ''TargetAddress'' (n @ ''='' @ v @ NUL # r) = None"
    "iscsi_find_key_value ''TargetPortalGroupTag'' (n @ ''='' @ v @ NUL # r) = None"
    using n v by (subst find_pair; simp)+
  have "get_auth_key_type s (n @ ''='' @ v @ NUL # r) = (upd_acl c s, Inr (NUL # r))"
    using auth_key_loop_pair [OF k n(1) v _ _ ok, of AUTH_KEY_TYPE_NONE] k
    by (simp add: get_auth_key_type_def AUTH_KEY_TYPE_NONE_def)
  with f show ?thesis by (simp add: get_security_text_keys_def render_pair_def n(1))
qed

definition receivable :: "iscsi_acl \<Rightarrow> bool" where
  "receivable c \<longleftrightarrow>
     signature c = ACL_SIGNATURE \<and> (phase c = AUTH_PHASE_NEGOTIATE \<or> phase c = AUTH_PHASE_AUTHENTICATE)"

definition recv_keys :: "(int \<times> string) list \<Rightarrow> iscsi_acl \<Rightarrow> iscsi_acl" where
  "recv_keys kvs = fold (\<lambda>(k, v) c. fst (acl_recv_key_value c k v)) kvs"

lemma recv_keys_simps [simp]:
  "recv_keys [] c = c" "recv_keys ((k, v) # kvs) c = recv_keys kvs (fst (acl_recv_key_value c k v))"
  by (simp_all add: recv_keys_def)

lemma recv_key_receivable:
  assumes "receivable c" "0 \<le> k" "k < 6"
  shows "acl_recv_key_value c k v = (fst (acl_recv_key_value c k v), AUTH_STATUS_NO_ERROR)"
    and "receivable (fst (acl_recv_key_value c k v))"
  using assms
  by (auto simp: receivable_def acl_recv_key_value_def key_type_ok_def AUTH_KEY_TYPE_FIRST_def AUTH_KEY_TYPE_LAST_def
      AUTH_KEY_TYPE_MAX_COUNT_def case_prod_beta Let_def)

lemma set_key_transit: "acl_set_key_value (set_transit t b) k v = set_transit t (acl_set_key_value b k v)"
  by (simp add: acl_set_key_value_def set_transit_def Let_def case_prod_beta split: option.split)

lemma recv_key_transit:
  assumes "receivable c" "0 \<le> k" "k < 6"
  shows "fst (acl_recv_key_value (fst (acl_recv_transit_bit c t)) k v) =
    fst (acl_recv_transit_bit (fst (acl_recv_key_value c k v)) t)"
proof -
  have sig: "signature c = ACL_SIGNATURE" "phase c = AUTH_PHASE_NEGOTIATE \<or> phase c = AUTH_PHASE_AUTHENTICATE"
    using assms(1) by (auto simp: receivable_def)
  have key: "fst (acl_recv_key_value c k v) =
      (if k = 5 then case acl_text_to_data v AUTH_LARGE_BINARY_MAX_LEN of (status, data) \<Rightarrow>
         c\<lparr>recv_chap_challenge_status := status,
           recv_chap_challenge := \<lparr>lb_length = (if status = 0 then length data else AUTH_LARGE_BINARY_MAX_LEN),
             large_binary = overlay (large_binary (recv_chap_challenge c)) 0 data\<rparr>,
           recv_key_block := acl_set_key_value (recv_key_block c) 5 (Some [])\<rparr>
       else c\<lparr>recv_key_block := acl_set_key_value (recv_key_block c) (nat k) (Some v)\<rparr>)"
    if "signature c = ACL_SIGNATURE" "phase c = AUTH_PHASE_NEGOTIATE \<or> phase c = AUTH_PHASE_AUTHENTICATE" for c
  proof (cases "k = 5")
    case True
    with that show ?thesis
      by (auto simp: acl_recv_key_value_def key_type_ok_def KEYS AUTH_KEY_TYPE_FIRST_def AUTH_KEY_TYPE_LAST_def
          case_prod_beta)
  qed (use that assms(2,3) in \<open>simp add: recv_key_eq\<close>)
  show ?thesis
  proof (cases "k = 5")
    case True
    with sig key show ?thesis
      by (cases "acl_text_to_data v AUTH_LARGE_BINARY_MAX_LEN") (simp add: recv_transit_eq set_key_transit)
  qed (use sig key in \<open>simp add: recv_transit_eq set_key_transit\<close>)
qed

lemma transit_receivable:
  assumes "receivable c"
  shows "acl_recv_transit_bit c t = (fst (acl_recv_transit_bit c t), AUTH_STATUS_NO_ERROR)"
    and "receivable (fst (acl_recv_transit_bit c t))"
  using assms by (auto simp: receivable_def acl_recv_transit_bit_def)

text \<open>The source hands over the T bit before the keys; the order does not matter.\<close>

lemma recv_keys_transit:
  assumes "receivable c" "message_ok kvs"
  shows "recv_keys kvs (fst (acl_recv_transit_bit c t)) = fst (acl_recv_transit_bit (recv_keys kvs c) t)"
  using assms
proof (induction kvs arbitrary: c)
  case (Cons kv kvs)
  then obtain k v where kv: "kv = (k, v)" "0 \<le> k" "k < 6" "message_ok kvs" by (cases kv) (auto simp: message_ok_def)
  with recv_key_receivable(2) [OF Cons.prems(1) kv(2,3), of v] Cons recv_key_transit [OF Cons.prems(1) kv(2,3)]
  show ?case by simp
qed simp

lemma begin_receivable:
  assumes "signature c = ACL_SIGNATURE" "\<not> recv_in_progress_flag c"
    and "phase c \<in> {AUTH_PHASE_CONFIGURE, AUTH_PHASE_NEGOTIATE, AUTH_PHASE_AUTHENTICATE}"
  shows "acl_recv_begin c = (fst (acl_recv_begin c), AUTH_STATUS_NO_ERROR)" and "receivable (fst (acl_recv_begin c))"
  using assms
  by (auto simp: receivable_def acl_recv_begin_def acl_next_phase_def recv_begin_reset_def Let_def)

lemma upd_acl_upd [simp]: "upd_acl c (upd_acl d s) = upd_acl c s" "upd_acl (auth_client_block s) s = s"
  by (simp_all add: upd_acl_def upd_conn_def)

lemma scan_text_NUL: "scan_text env s (NUL # r) = scan_text env s r"
  by (subst (1 2) scan_text.simps) simp

lemma scan_render:
  assumes "in_security s" "receivable (auth_client_block s)" "message_ok kvs"
  shows "scan_text env s (render kvs @ [NUL]) = (upd_acl (recv_keys kvs (auth_client_block s)) s, LOGIN_OK)"
  using assms
proof (induction kvs arbitrary: s)
  case Nil
  have "scan_text env s [NUL] = (s, LOGIN_OK)" by (subst scan_text.simps) simp
  with Nil show ?case by (simp add: render_def)
next
  case (Cons kv kvs)
  then obtain k v where kv: "kv = (k, v)" "0 \<le> k" "k < 6" "is_cstr v" and ok: "message_ok kvs"
    by (cases kv) (auto simp: message_ok_def)
  let ?c = "fst (acl_recv_key_value (auth_client_block s) k v)"
  have get: "get_security_text_keys env s (render_pair (k, v) @ render kvs @ [NUL]) =
      (upd_acl ?c s, Inr (NUL # render kvs @ [NUL]))"
    by (rule security_keys_pair [OF kv(2-4) recv_key_receivable(1) [OF Cons.prems(2) kv(2,3)]])
  obtain n where n: "acl_get_key_name k = Some n" "is_cstr n" "CHR ''='' \<notin> set n" using kv by (auto elim: key_name_cases)
  have drop: "dropWhile (\<lambda>c. c = NUL) (render_pair (k, v) @ r) = render_pair (k, v) @ r" for r
    using n by (cases n) (auto simp: render_pair_def)
  have ne: "render_pair (k, v) \<noteq> []" by (simp add: render_pair_def)
  have "scan_text env s (render (kv # kvs) @ [NUL]) = scan_text env (upd_acl ?c s) (render kvs @ [NUL])"
    using Cons.prems(1) drop get
    by (subst scan_text.simps) (simp add: render_def kv(1) stage_text_keys_def in_security_def scan_text_NUL ne
      del: scan_text.simps)
  also have "\<dots> = (upd_acl (recv_keys (kv # kvs) (auth_client_block s)) s, LOGIN_OK)"
    using Cons.IH [of "upd_acl ?c s"] Cons.prems(1) ok recv_key_receivable(2) [OF Cons.prems(2) kv(2,3)] kv(1)
    by (simp add: in_security_def)
  finally show ?case .
qed

lemma recv_message_eq: "acl_recv_message c kvs t = fst (acl_recv_transit_bit (recv_keys kvs (fst (acl_recv_begin c))) t)"
  by (simp add: acl_recv_message_def recv_keys_def)

lemma security_message:
  assumes sec: "in_security s" and bufs: "auth_buffers s \<noteq> []"
    and c: "signature (auth_client_block s) = ACL_SIGNATURE" "\<not> recv_in_progress_flag (auth_client_block s)"
      "phase (auth_client_block s) \<in> {AUTH_PHASE_CONFIGURE, AUTH_PHASE_NEGOTIATE, AUTH_PHASE_AUTHENTICATE}"
    and msg: "message_ok kvs" and sane: "rsp_sanity s rsp = None"
    and len: "ntoh24 (rsp_dlength rsp) = length (render kvs)" "length (render kvs) + 1 < m"
    and e: "acl_recv_end (auth_env env) (acl_recv_message (auth_client_block s) kvs (rsp_transit rsp))
      (Some (peer_account s)) = (e, status)"
  shows "iscsi_process_login_response env s rsp (recv_data m (render kvs)) m =
    (if status = AUTH_STATUS_CONTINUE \<or> status = AUTH_STATUS_PASS
     then (next_stage_rsp (record_rsp (upd_acl e s) rsp) rsp, LOGIN_OK)
     else (upd_acl (fst (acl_get_dbg_status e)) s, LOGIN_AUTHENTICATION_FAILED))"
proof -
  let ?c = "auth_client_block s" and ?b = "fst (acl_recv_begin (auth_client_block s))"
  let ?t = "fst (acl_recv_transit_bit ?b (rsp_transit rsp))"
  note b = begin_receivable [OF c]
  note t = transit_receivable [OF b(2), of "rsp_transit rsp"]
  have begin_: "security_begin s (rsp_transit rsp) = (upd_acl ?t s, LOGIN_OK)"
    unfolding security_begin_def by (subst b(1), simp, subst t(1)) (simp add: bufs)
  have "take (length (render kvs) + 1) (recv_data m (render kvs)) = render kvs @ [NUL]"
    using len(2) by (cases "m - length (render kvs)") (auto simp: recv_data_def)
  with scan_render [of "upd_acl ?t s" kvs env] sec t(2) msg
  have scan: "scan_text env (upd_acl ?t s) (take (length (render kvs) + 1) (recv_data m (render kvs))) =
      (upd_acl (acl_recv_message ?c kvs (rsp_transit rsp)) s, LOGIN_OK)"
    by (simp add: in_security_def recv_message_eq recv_keys_transit [OF b(2) msg])
  have sec': "in_security (upd_acl x s)" for x using sec by (simp add: in_security_def)
  show ?thesis
    using len sane sec sec' begin_ scan e
    by (simp add: iscsi_process_login_response_def check_security_stage_status_def)
qed

end
