(* ===== verification/Login_Honest.thy ===== *)
theory Login_Honest
  imports Login_Message Auth_Progress
begin

text \<open>
  A login with a target that knows both secrets goes through. The requests of the security stage can
  always be built, and building one changes the client only by marking keys as read
  (\<open>read_out\<close>, \<open>first_request_ok\<close>, \<open>later_request_ok\<close>); the answers move the client from \<open>ready\<close> over
  \<open>stage1\<close> and \<open>stage2\<close> to the status pass (\<open>round_one\<close>, \<open>round_two\<close>, \<open>round_three\<close>).
  \<open>honest_login\<close> puts the rounds together, from \<open>iscsi_login_begin\<close> to the full feature phase.
\<close>

subsection \<open>Sending the keys of the security stage\<close>

text \<open>A change of the send block that reading it out makes.\<close>

definition read_out :: "iscsi_acl \<Rightarrow> iscsi_acl \<Rightarrow> bool" where
  "read_out c d \<longleftrightarrow> (\<exists>blk. d = c\<lparr>send_key_block := blk\<rparr> \<and> key_blk_ok blk \<and>
     transit_bit blk = transit_bit (send_key_block c) \<and>
     key_value blk AUTH_KEY_TYPE_CHAP_CHALLENGE = key_value (send_key_block c) AUTH_KEY_TYPE_CHAP_CHALLENGE)"

lemma read_outE:
  assumes "read_out c d"
  obtains blk where "d = c\<lparr>send_key_block := blk\<rparr>" "key_blk_ok blk" "transit_bit blk = transit_bit (send_key_block c)"
    "key_value blk AUTH_KEY_TYPE_CHAP_CHALLENGE = key_value (send_key_block c) AUTH_KEY_TYPE_CHAP_CHALLENGE"
  using assms unfolding read_out_def by blast

lemma read_outI:
  "key_blk_ok blk \<Longrightarrow> transit_bit blk = transit_bit (send_key_block c) \<Longrightarrow>
   key_value blk AUTH_KEY_TYPE_CHAP_CHALLENGE = key_value (send_key_block c) AUTH_KEY_TYPE_CHAP_CHALLENGE \<Longrightarrow>
   read_out c (c\<lparr>send_key_block := blk\<rparr>)"
  unfolding read_out_def by blast

lemma read_out_trans: "read_out c d \<Longrightarrow> read_out d e \<Longrightarrow> read_out c e"
  by (elim read_outE) (simp add: read_outI)

lemma read_out_stages:
  assumes "read_out c d"
  shows "ready c \<Longrightarrow> ready d" "stage1 c \<Longrightarrow> stage1 d" "stage2 H a ib rb c \<Longrightarrow> stage2 H a ib rb d" "same_setup c d"
    "phase d = phase c" "recv_end_count d = recv_end_count c" "auth_rsp_flag d = auth_rsp_flag c"
    "auth_method_valid_list d = auth_method_valid_list c"
  by (rule read_outE [OF assms], simp add: ready_def cfg_ok_def strings_ok_def stage1_def stage2_def same_setup_def)+

text \<open>The challenge to be sent, when there is one, is a challenge that can be written out.\<close>

definition sendable :: "iscsi_acl \<Rightarrow> bool" where
  "sendable c \<longleftrightarrow> signature c = ACL_SIGNATURE \<and> phase c \<noteq> AUTH_PHASE_0 \<and> phase c \<noteq> AUTH_PHASE_ERROR \<and>
     key_blk_ok (send_key_block c) \<and>
     (key_value (send_key_block c) AUTH_KEY_TYPE_CHAP_CHALLENGE = None \<or>
      challenge_bytes (send_chap_challenge c) \<noteq> [] \<and> length (challenge_bytes (send_chap_challenge c)) \<le> 32)"

lemma read_out_sendable: "read_out c d \<Longrightarrow> sendable c \<Longrightarrow> sendable d"
  by (elim read_outE) (simp add: sendable_def)

lemma send_key_ok:
  assumes s: "sendable c" and k: "0 \<le> k" "k < 6" and m: "AUTH_STR_MAX_LEN \<le> m"
  obtains d v where "acl_send_key_val c k m = (d, AUTH_STATUS_NO_ERROR, v)" and "read_out c d"
    and "\<forall>t. v = Some t \<longrightarrow> length t < AUTH_STR_MAX_LEN"
proof -
  define B where "B = fst (acl_get_key_val (send_key_block c) (nat k))"
  have ok: "key_blk_ok (send_key_block c)" and kt: "nat k < AUTH_KEY_TYPE_MAX_COUNT" "key_type_ok k"
    using s k by (auto simp: sendable_def key_type_ok_def AUTH_KEY_TYPE_FIRST_def AUTH_KEY_TYPE_LAST_def
        AUTH_KEY_TYPE_MAX_COUNT_def)
  have b: "acl_get_key_val (send_key_block c) (nat k) = (B, key_value (send_key_block c) (nat k))"
    by (simp add: key_value_def B_def)
  have r: "read_out c (c\<lparr>send_key_block := B\<rparr>)"
    using ok by (intro read_outI) (simp_all add: B_def KEYS AUTH_KEY_TYPE_MAX_COUNT_def, simp add: acl_get_key_val_def)
  have s': "signature c = ACL_SIGNATURE" "phase c \<noteq> AUTH_PHASE_0" "phase c \<noteq> AUTH_PHASE_ERROR"
    using s by (auto simp: sendable_def)
  show thesis
  proof (cases "key_value (send_key_block c) (nat k)")
    case None
    with s' kt b have "acl_send_key_val c k m = (c\<lparr>send_key_block := B\<rparr>, AUTH_STATUS_NO_ERROR, None)"
      by (simp add: acl_send_key_val_def)
    with r that show ?thesis by blast
  next
    case (Some v)
    note v = key_value_Some [OF ok kt(1) Some]
    show ?thesis
    proof (cases "k = 5")
      case True
      with s Some have "challenge_bytes (send_chap_challenge c) \<noteq> []"
        "length (challenge_bytes (send_chap_challenge c)) \<le> 32" by (auto simp: sendable_def KEYS)
      moreover from this have "acl_data_to_text (challenge_bytes (send_chap_challenge c)) m =
          (0, Some (''0x'' @ hex_text (challenge_bytes (send_chap_challenge c))))"
        using m by (intro acl_data_to_text_eq) (auto simp: AUTH_STR_MAX_LEN_def)
      ultimately show ?thesis
        using that [of "c\<lparr>send_key_block := B\<rparr>"] s' kt b r Some True
        by (simp add: acl_send_key_val_def KEYS AUTH_STR_MAX_LEN_def)
    next
      case False
      have "length v < m" "length v \<le> m - Suc 0" using v m by auto
      with False s' kt b Some have "acl_send_key_val c k m = (c\<lparr>send_key_block := B\<rparr>, AUTH_STATUS_NO_ERROR, Some v)"
        by (simp add: acl_send_key_val_def KEYS strlcpy_eq)
      with that r v show ?thesis by blast
    qed
  qed
qed

text \<open>One key takes at most 270 bytes of the data segment.\<close>

definition pdu_used :: "login_pdu \<Rightarrow> nat" where
  "pdu_used pdu = ntoh24 (dlength (fst pdu))"

lemma enum_auth_keys_ok:
  assumes s: "sendable (auth_client_block s)" and k: "0 \<le> k" "k < 6"
    and m: "pdu_used pdu + 270 \<le> m" "m < 2 ^ 24"
  obtains d pdu' where "enum_auth_keys m k (s, pdu) = (upd_acl d s, pdu')" and "read_out (auth_client_block s) d"
    and "pdu_used pdu' \<le> pdu_used pdu + 270"
proof -
  obtain hdr data where pdu: "pdu = (hdr, data)" by force
  obtain n where n: "acl_get_key_name k = Some n" "length n \<le> 10"
  proof -
    have "k = 0 \<or> k = 1 \<or> k = 2 \<or> k = 3 \<or> k = 4 \<or> k = 5" using k by arith
    with that show thesis
      by (elim disjE) (simp_all add: acl_get_key_name_def AUTH_KEY_TYPE_FIRST_def AUTH_KEY_TYPE_LAST_def
          AUTH_KEY_TYPE_MAX_COUNT_def)
  qed
  define ml where "ml = m - (pdu_used pdu + length n + 1)"
  have ml: "nat ((int m - int (pdu_used pdu + length n + 1)) mod 2 ^ 32) = ml" "AUTH_STR_MAX_LEN \<le> ml"
    using m n(2) by (simp_all add: ml_def AUTH_STR_MAX_LEN_def mod_pos_pos_trivial nat_diff_distrib)
  obtain d v where d: "acl_send_key_val (auth_client_block s) k ml = (d, AUTH_STATUS_NO_ERROR, v)"
    "read_out (auth_client_block s) d" and v: "\<forall>t. v = Some t \<longrightarrow> length t < AUTH_STR_MAX_LEN"
    by (rule send_key_ok [OF s k ml(2)])
  show thesis
  proof (rule that [OF _ d(2)])
    let ?pdu = "case v of None \<Rightarrow> (hdr, data)
      | Some t \<Rightarrow> (hdr\<lparr>dlength := hton24 (pdu_used pdu + length n + 1 + (length t + 1))\<rparr>,
                   overlay data (pdu_used pdu) (n @ ''='' @ t @ [NUL]))"
    show "enum_auth_keys m k (s, pdu) = (upd_acl d s, ?pdu)"
      using ml(1) d(1) n(1) by (simp add: enum_auth_keys_def pdu pdu_used_def Let_def split: option.split)
    show "pdu_used ?pdu \<le> pdu_used pdu + 270"
      using v n(2) m by (auto simp: pdu pdu_used_def ntoh24_hton24 AUTH_STR_MAX_LEN_def split: option.split)
  qed
qed

lemma enum_keys_loop_ok:
  assumes "sendable (auth_client_block s)" "- 1 \<le> k" "k < 6" "pdu_used pdu + 270 * nat (5 - k) \<le> m" "m < 2 ^ 24"
  obtains d pdu' where "enum_keys_loop m k (s, pdu) = (upd_acl d s, pdu')" and "read_out (auth_client_block s) d"
  using assms
proof (induction "nat (5 - k)" arbitrary: thesis k s pdu)
  case 0
  then have "acl_get_next_key_type k = None"
    by (simp add: acl_get_next_key_type_def AUTH_KEY_TYPE_LAST_def AUTH_KEY_TYPE_FIRST_def AUTH_KEY_TYPE_MAX_COUNT_def)
  then have "enum_keys_loop m k (s, pdu) = (upd_acl (auth_client_block s) s, pdu)"
    by (simp add: enum_keys_loop.simps [of m k] upd_acl_upd)
  moreover have "read_out (auth_client_block s) (auth_client_block s)"
    using "0.prems"(2) by (auto simp: read_out_def sendable_def intro: exI [of _ "send_key_block (auth_client_block s)"])
  ultimately show ?case by (rule "0.prems"(1))
next
  case (Suc n)
  then have k: "- 1 \<le> k" "k < 5" "0 \<le> k + 1" "k + 1 < 6" and n: "n = nat (5 - (k + 1))" by arith+
  then have nk: "acl_get_next_key_type k = Some (k + 1)"
    by (simp add: acl_get_next_key_type_def AUTH_KEY_TYPE_LAST_def AUTH_KEY_TYPE_FIRST_def AUTH_KEY_TYPE_MAX_COUNT_def)
  have step: "nat (5 - k) = Suc n" using Suc.hyps(2) by simp
  have "pdu_used pdu + 270 \<le> m" using Suc.prems(5) by (simp add: step)
  from enum_auth_keys_ok [OF Suc.prems(2) k(3,4) this Suc.prems(6)] obtain d pdu' where
    d: "enum_auth_keys m (k + 1) (s, pdu) = (upd_acl d s, pdu')" "read_out (auth_client_block s) d"
      "pdu_used pdu' \<le> pdu_used pdu + 270" by blast
  have d': "sendable (auth_client_block (upd_acl d s))" using read_out_sendable [OF d(2) Suc.prems(2)] by simp
  have "pdu_used pdu' + 270 * nat (5 - (k + 1)) \<le> m" using d(3) Suc.prems(5) unfolding step n [symmetric] by simp
  with Suc.hyps(1) [OF n _ d', of pdu'] k Suc.prems(6) obtain e pdu'' where
    e: "enum_keys_loop m (k + 1) (upd_acl d s, pdu') = (upd_acl e (upd_acl d s), pdu'')" "read_out d e"
    by auto
  show ?case
    by (rule Suc.prems(1) [of e pdu''])
      (use e d(1) nk read_out_trans [OF d(2) e(2)] in \<open>simp_all add: enum_keys_loop.simps [of m k] upd_acl_upd\<close>)
qed

lemma fill_security_ok:
  assumes s: "sendable (auth_client_block s)" and bufs: "auth_buffers s \<noteq> []"
    and m: "pdu_used pdu + 1620 \<le> m" "m < 2 ^ 24"
  obtains d s1 r where "fill_security_params_text s m pdu = (upd_acl d s1, Some r)"
    and "read_out (auth_client_block s) d" and "s1 = upd_conn (next_stage_update (\<lambda>_. next_stage (conn s1))) s"
proof -
  let ?t = "transit_bit (send_key_block (auth_client_block s))"
  let ?s = "upd_conn (next_stage_update (\<lambda>_. security_next_stage s ?t)) s"
  have t: "acl_send_transit_bit (auth_client_block s) = (auth_client_block s, AUTH_STATUS_NO_ERROR, Some ?t)"
    using s by (simp add: acl_send_transit_bit_def sendable_def)
  have s': "sendable (auth_client_block ?s)" using s by simp
  obtain d pdu' where d: "enum_keys_loop m (- 1) (?s, pdu) = (upd_acl d ?s, pdu')" "read_out (auth_client_block s) d"
    using enum_keys_loop_ok [OF s', of "- 1" pdu m] m by auto
  show thesis
  proof (rule that [OF _ d(2)])
    show "fill_security_params_text s m pdu = (upd_acl d ?s, Some (?t, pdu'))"
      using t d(1) bufs by (simp add: fill_security_params_text_def upd_acl_upd AUTH_KEY_TYPE_NONE_def)
    show "?s = upd_conn (next_stage_update (\<lambda>_. next_stage (conn ?s))) s" by (simp add: upd_conn_def)
  qed
qed

text \<open>The session after a request: the fields the rest of the login depends on.\<close>

definition after_request :: "iscsi_session \<Rightarrow> iscsi_session \<Rightarrow> bool" where
  "after_request s s' \<longleftrightarrow> read_out (auth_client_block s) (auth_client_block s') \<and> in_security s' \<and>
     auth_buffers s' = auth_buffers s \<and> peer_account s' = peer_account s"

lemma stage_pdu_security:
  assumes "sendable (auth_client_block s)" "auth_buffers s \<noteq> []" "in_security s"
    and "pdu_used pdu + 1620 \<le> m" "m < 2 ^ 24"
  obtains s' pdu' where "stage_pdu s m pdu = (s', Some pdu')" "after_request s s'"
proof -
  obtain d s1 r where r: "fill_security_params_text s m pdu = (upd_acl d s1, Some r)"
    and d: "read_out (auth_client_block s) d" and s1: "s1 = upd_conn (next_stage_update (\<lambda>_. next_stage (conn s1))) s"
    by (rule fill_security_ok [OF assms(1,2,4,5)])
  obtain n where n: "s1 = upd_conn (next_stage_update (\<lambda>_. n)) s" using s1 by blast
  obtain t pdu1 where "r = (t, pdu1)" by (cases r) auto
  with r assms(3) have "stage_pdu s m pdu = (upd_acl d s1, Some (set_login_flags (upd_acl d s1) t pdu1))"
    by (simp add: stage_pdu_def in_security_def ISCSI_SECURITY_NEGOTIATION_STAGE_def ISCSI_OP_PARMS_NEGOTIATION_STAGE_def)
  moreover have "after_request s (upd_acl d s1)" using d assms(3) by (simp add: after_request_def in_security_def n)
  ultimately show thesis by (rule that)
qed

lemma add_texts_used:
  assumes "pdu_used pdu + (\<Sum>(k, v) \<leftarrow> kvs. length k + length v + 2) < m" "m < 2 ^ 24"
  shows "\<exists>pdu'. add_texts m kvs pdu = Some pdu' \<and>
    pdu_used pdu' = pdu_used pdu + (\<Sum>(k, v) \<leftarrow> kvs. length k + length v + 2)"
  using assms
proof (induction kvs arbitrary: pdu)
  case (Cons kv kvs)
  obtain k v where kv: "kv = (k, v)" by force
  obtain hdr data where pdu: "pdu = (hdr, data)" by force
  let ?n = "length k + length v + 2"
  let ?pdu = "(hdr\<lparr>dlength := hton24 (ntoh24 (dlength hdr) + (length k + 1 + length v + 1))\<rparr>,
      overlay data (ntoh24 (dlength hdr)) (k @ ''='' @ v @ [NUL]))"
  have lt: "pdu_used pdu + ?n < m" using Cons.prems by (simp add: kv)
  then have add: "iscsi_add_text m k v pdu = Some ?pdu" by (simp add: iscsi_add_text_def pdu pdu_used_def Let_def)
  have used: "pdu_used ?pdu = pdu_used pdu + ?n"
    using lt Cons.prems(2) by (simp add: pdu_used_def pdu ntoh24_hton24)
  with Cons.prems have "pdu_used ?pdu + (\<Sum>(k, v) \<leftarrow> kvs. length k + length v + 2) < m" by (simp add: kv)
  from Cons.IH [OF this Cons.prems(2)] add used show ?case by (auto simp: kv)
qed simp

text \<open>The texts of the first request and their length.\<close>

definition first_texts :: "iscsi_session \<Rightarrow> (string \<times> string) list" where
  "first_texts s =
     [(''InitiatorName'', the (initiator_name s))] @
     (if nonempty (initiator_alias s) then [(''InitiatorAlias'', the (initiator_alias s))] else []) @
     (if target_name s \<noteq> [] \<and> normal s then [(''TargetName'', target_name s)] else []) @
     [(''SessionType'', if sess_type s = ISCSI_SESSION_TYPE_DISCOVERY then ''Discovery'' else ''Normal'')]"

definition first_length :: "iscsi_session \<Rightarrow> nat" where
  "first_length s = (\<Sum>(k, v) \<leftarrow> first_texts s. length k + length v + 2)"

lemma first_request_ok:
  assumes "sendable (auth_client_block s)" "auth_buffers s \<noteq> []" "nonempty (initiator_name s)"
    and "current_stage (conn s) = ISCSI_INITIAL_LOGIN_STAGE" and "first_length s + 1620 \<le> m" "m < 2 ^ 24"
  obtains s' pdu' where "iscsi_make_login_pdu s data m = (s', Some pdu')" "after_request s s'"
proof -
  have z: "pdu_used (login_hdr_init s, data) = 0" by (simp add: pdu_used_def login_hdr_init_def ntoh24_def)
  obtain pdu where pdu: "add_texts m (first_texts s) (login_hdr_init s, data) = Some pdu" "pdu_used pdu = first_length s"
    using add_texts_used [of "(login_hdr_init s, data)" "first_texts s" m] assms(5,6)
    unfolding z first_length_def [symmetric] by auto
  have sec: "in_security (first_stage s)" using assms(2) by (simp add: first_stage_def in_security_def Let_def)
  obtain s' pdu' where s': "stage_pdu (first_stage s) m pdu = (s', Some pdu')" "after_request (first_stage s) s'"
    by (rule stage_pdu_security [of "first_stage s" pdu m])
      (use assms pdu sec in \<open>simp_all add: first_stage_def Let_def\<close>)
  show thesis
  proof (rule that)
    show "iscsi_make_login_pdu s data m = (s', Some pdu')"
      using assms(3,4) pdu(1) s'(1) by (simp add: iscsi_make_login_pdu_def first_pdu_text_def first_texts_def Let_def)
    show "after_request s s'" using s'(2) by (simp add: after_request_def first_stage_def Let_def)
  qed
qed

lemma later_request_ok:
  assumes "sendable (auth_client_block s)" "auth_buffers s \<noteq> []" "in_security s" and "1620 \<le> m" "m < 2 ^ 24"
  obtains s' pdu' where "iscsi_make_login_pdu s data m = (s', Some pdu')" "after_request s s'"
proof -
  have z: "pdu_used (login_hdr_init s, data) = 0" by (simp add: pdu_used_def login_hdr_init_def ntoh24_def)
  obtain s' pdu' where s': "stage_pdu s m (login_hdr_init s, data) = (s', Some pdu')" "after_request s s'"
    by (rule stage_pdu_security [of s "(login_hdr_init s, data)" m]) (use assms z in simp_all)
  show thesis
    by (rule that [OF _ s'(2)])
      (use assms(3) s'(1) in \<open>simp add: iscsi_make_login_pdu_def in_security_def ISCSI_SECURITY_NEGOTIATION_STAGE_def
        ISCSI_INITIAL_LOGIN_STAGE_def\<close>)
qed

subsection \<open>A round of the login in the security stage\<close>

definition login_rsp :: "byte \<Rightarrow> (int \<times> string) list \<Rightarrow> login_rsp_hdr" where
  "login_rsp fl kvs =
     \<lparr>rsp_opcode = ISCSI_OP_LOGIN_RSP, rsp_flags = fl, active_version = ISCSI_DRAFT20_VERSION,
      rsp_dlength = hton24 (length (render kvs)), rsp_tsih = 0, statsn = 0, rsp_exp_cmdsn = 0, rsp_max_cmdsn = 0,
      status_class = ISCSI_STATUS_CLS_SUCCESS, status_detail = 0\<rparr>"

definition answer :: "login_env \<Rightarrow> byte \<Rightarrow> (int \<times> string) list \<Rightarrow> login_event" where
  "answer env fl kvs = POLL env (POLL_READABLE (RECV_PDU (login_rsp fl kvs) (render kvs)))"

lemma login_rsp_simps [simp]:
  "rsp_opcode (login_rsp fl kvs) = ISCSI_OP_LOGIN_RSP" "rsp_flags (login_rsp fl kvs) = fl"
  "active_version (login_rsp fl kvs) = ISCSI_DRAFT20_VERSION" "status_class (login_rsp fl kvs) = ISCSI_STATUS_CLS_SUCCESS"
  "rsp_dlength (login_rsp fl kvs) = hton24 (length (render kvs))"
  by (simp_all add: login_rsp_def)

lemma login_rsp_flags [simp]:
  "rsp_transit (login_rsp 0 kvs) = False" "rsp_current_stage (login_rsp 0 kvs) = ISCSI_SECURITY_NEGOTIATION_STAGE"
  "rsp_transit (login_rsp 0x83 kvs) = True" "rsp_current_stage (login_rsp 0x83 kvs) = ISCSI_SECURITY_NEGOTIATION_STAGE"
  "rsp_next_stage (login_rsp 0x83 kvs) = ISCSI_FULL_FEATURE_PHASE"
  by (simp_all add: rsp_transit_def rsp_current_stage_def rsp_next_stage_def ISCSI_SECURITY_NEGOTIATION_STAGE_def
      ISCSI_FULL_FEATURE_PHASE_def ISCSI_FLAG_LOGIN_TRANSIT_def ISCSI_FLAG_LOGIN_CURRENT_STAGE_MASK_def
      ISCSI_FLAG_LOGIN_NEXT_STAGE_MASK_def)

lemma request_step:
  assumes "iscsi_make_login_pdu s (replicate (bufsize c) NUL) (bufsize c) = (s', Some pdu)"
  obtains c' where "login_loop False (s, c) (SEND True # evs) = login_loop True (s', c') evs"
    and "bufsize c' = bufsize c" "max_data_length c' = bufsize c" "final c' = False" "have_auth_client c' = have_auth_client c"
  using assms by (auto simp: iscsi_login_req_def Let_def)

lemma response_step:
  assumes ok: "iscsi_process_login_response env s (login_rsp fl kvs) (recv_data (max_data_length c) (render kvs))
      (max_data_length c) = (s', LOGIN_OK)" and nf: "\<not> final c"
  obtains c' where "iscsi_login_rsp env s c (RECV_PDU (login_rsp fl kvs) (render kvs)) = ((s', c'), RSP_OK)"
    and "bufsize c' = bufsize c" "have_auth_client c' = have_auth_client c" "ctx_class c' = ISCSI_STATUS_CLS_SUCCESS"
proof -
  have op: "ISCSI_OP_LOGIN_RSP \<noteq> ISCSI_OP_LOGIN_RSP OR 0xC0" by (simp add: ISCSI_OP_LOGIN_RSP_def)
  show thesis
    by (rule that [of "c\<lparr>received_pdu := True, ctx_class := ISCSI_STATUS_CLS_SUCCESS,
          ctx_detail := status_detail (login_rsp fl kvs), final := False, ret := LOGIN_OK\<rparr>"])
      (use ok nf op in \<open>simp_all add: iscsi_login_rsp_def check_status_login_response_def\<close>)
qed

lemma answer_processed:
  assumes s: "in_security s" "auth_buffers s \<noteq> []" and r: "ready (auth_client_block s)"
      "phase (auth_client_block s) \<in> {AUTH_PHASE_CONFIGURE, AUTH_PHASE_AUTHENTICATE}"
    and msg: "message_ok kvs" "length (render kvs) + 1 < m" "m < 2 ^ 24" and fl: "fl = (if t then 0x83 else 0)"
    and e: "acl_recv_end (auth_env env) (acl_recv_message (auth_client_block s) kvs t) (Some (peer_account s)) = (e, st)"
      "st = AUTH_STATUS_CONTINUE \<or> st = AUTH_STATUS_PASS"
  obtains s' where "iscsi_process_login_response env s (login_rsp fl kvs) (recv_data m (render kvs)) m = (s', LOGIN_OK)"
    and "auth_client_block s' = e" "auth_buffers s' = auth_buffers s" "peer_account s' = peer_account s"
      "current_stage (conn s') = (if t then ISCSI_FULL_FEATURE_PHASE else ISCSI_SECURITY_NEGOTIATION_STAGE)"
proof -
  let ?rsp = "login_rsp fl kvs"
  have t: "rsp_transit ?rsp = t" "rsp_current_stage ?rsp = ISCSI_SECURITY_NEGOTIATION_STAGE"
    "t \<Longrightarrow> rsp_next_stage ?rsp = ISCSI_FULL_FEATURE_PHASE"
    by (cases t; simp add: fl)+
  have sane: "rsp_sanity s ?rsp = None"
    using s(1) t by (auto simp: rsp_sanity_def in_security_def ISCSI_SECURITY_NEGOTIATION_STAGE_def ISCSI_FULL_FEATURE_PHASE_def)
  have c: "signature (auth_client_block s) = ACL_SIGNATURE" "\<not> recv_in_progress_flag (auth_client_block s)"
      "phase (auth_client_block s) \<in> {AUTH_PHASE_CONFIGURE, AUTH_PHASE_NEGOTIATE, AUTH_PHASE_AUTHENTICATE}"
    using r by (auto simp: ready_def cfg_ok_def)
  have len: "ntoh24 (rsp_dlength ?rsp) = length (render kvs)" using msg(2,3) by (simp add: ntoh24_hton24)
  have "iscsi_process_login_response env s ?rsp (recv_data m (render kvs)) m =
      (next_stage_rsp (record_rsp (upd_acl e s) ?rsp) ?rsp, LOGIN_OK)"
    using security_message [OF s c msg(1) sane len msg(2)] e t(1) by auto
  then show thesis
    by (rule that) (use s(1) t in \<open>simp_all add: in_security_def\<close>)
qed

subsection \<open>The configured client\<close>

definition login_client :: "login_env \<Rightarrow> iscsi_session \<Rightarrow> iscsi_acl" where
  "login_client env s =
     fst (acl_set_auth_rmt (fst (acl_set_ip_sec (initiator_client (sizeof_acl env) (auth_buffers s) (sess_username s)
       (take (password_length s) (sess_password s)) (acl_init_chap_digests (auth_env env) (chap_algs s))) True)) True)"

text \<open>A session that is set up for mutual authentication.\<close>

definition mutual_setup :: "login_env \<Rightarrow> iscsi_session \<Rightarrow> bool" where
  "mutual_setup env s \<longleftrightarrow>
     buf_desc_ok (sizeof_acl env) (auth_buffers s) \<and> bidirectional_auth s \<and> nonempty (initiator_name s) \<and>
     sess_username s \<noteq> [] \<and> is_cstr (sess_username s) \<and> length (sess_username s) < AUTH_STR_MAX_LEN \<and>
     sess_password s \<noteq> [] \<and> hd (sess_password s) \<noteq> 0 \<and>
     12 \<le> length (take (password_length s) (sess_password s)) \<and>
     length (take (password_length s) (sess_password s)) \<le> AUTH_STR_MAX_LEN \<and>
     algs_ok (acl_init_chap_digests (auth_env env) (chap_algs s))"

lemma set_key_present:
  "k \<noteq> j \<Longrightarrow> present (key (acl_set_key_value b k v) ! j) = present (key b ! j)"
  by (simp add: acl_set_key_value_def Let_def case_prod_beta nth_list_update split: option.split)

lemma fresh_challenge_absent:
  "key_value (send_key_block (acl_set_auth_method_valid c)) AUTH_KEY_TYPE_CHAP_CHALLENGE = None"
proof -
  have "\<not> present (key (send_key_block (acl_set_auth_method_valid c)) ! 5)"
    by (simp add: acl_set_auth_method_valid_def acl_set_auth_method_key_def acl_set_key_def set_send_key_def Let_def KEYS
        set_key_present set_transit_def acl_init_key_blk_def AUTH_KEY_TYPE_MAX_COUNT_def auth_key_zero_def)
  then show ?thesis by (simp add: key_value_eq KEYS)
qed

lemma login_client_ok:
  assumes "mutual_setup env s"
  defines "c \<equiv> login_client env s"
  shows "check_for_authentication env s = (upd_acl c s, LOGIN_OK)"
    and "ready c" and "phase c = AUTH_PHASE_CONFIGURE" and "recv_end_count c = 0"
    and "auth_method_valid_list c = [AUTH_METHOD_CHAP]" and "\<not> auth_rsp_flag c" and "sendable c"
    and "chap_alg_list c = acl_init_chap_digests (auth_env env) (chap_algs s)"
    and "passwd_data c = take (password_length s) (sess_password s)"
proof -
  let ?u = "sess_username s" and ?pw = "take (password_length s) (sess_password s)"
    and ?algs = "acl_init_chap_digests (auth_env env) (chap_algs s)"
  let ?c0 = "initiator_client (sizeof_acl env) (auth_buffers s) ?u ?pw ?algs"
  from assms(1) have m: "buf_desc_ok (sizeof_acl env) (auth_buffers s)" "is_cstr ?u" "length ?u < AUTH_STR_MAX_LEN"
      "12 \<le> length ?pw" "length ?pw \<le> AUTH_STR_MAX_LEN" "algs_ok ?algs"
    and m': "bidirectional_auth s" "?u \<noteq> []" "sess_password s \<noteq> []" "hd (sess_password s) \<noteq> 0"
    unfolding mutual_setup_def by blast+
  note f = initiator_client_fields [OF m(1,2,3,5,6)]
  note r0 = initiator_client_ready [OF m]
  have sig: "signature ?c0 = ACL_SIGNATURE" using r0 by (simp add: ready_def cfg_ok_def)
  have c: "c = acl_set_auth_method_valid (?c0\<lparr>ip_sec := True, auth_rmt := True\<rparr>)"
    by (simp add: c_def login_client_def acl_set_ip_sec_def acl_set_auth_rmt_def sig f(3))
  obtain i0 where i: "acl_init (sizeof_acl env) 1 (Some (auth_buffers s)) = (Some i0, AUTH_STATUS_NO_ERROR)"
    "signature i0 = ACL_SIGNATURE" "phase i0 = AUTH_PHASE_CONFIGURE"
    by (simp add: acl_init_initiator [OF m(1)] acl_init_client_def)
  have "configure (auth_calls env s) i0 = (c, True)"
    using m m' i sig f(3)
    by (simp add: auth_calls_def set_user_name_ok set_passwd_ok set_chap_alg_list_ok acl_set_ip_sec_def acl_set_auth_rmt_def
        c initiator_client_def)
  then show "check_for_authentication env s = (upd_acl c s, LOGIN_OK)"
    using i(1) by (simp add: check_for_authentication_def)
  show flds: "phase c = AUTH_PHASE_CONFIGURE" "recv_end_count c = 0" "\<not> auth_rsp_flag c" "chap_alg_list c = ?algs"
      "passwd_data c = ?pw"
    using f by (simp_all add: c)
  have "acl_run (\<lambda>_. None) undefined [] c"
    unfolding c_def login_client_def by (intro acl_run.rmt acl_run.sec initiator_client_run m(1,2))
  then have cfg: "cfg_ok c" by (rule acl_invD [OF acl_run_inv]) (simp add: digest_lengths_def)
  then show "ready c" using r0 f by (simp add: ready_def c)
  have "auth_method_list ?c0 = [AUTH_METHOD_CHAP, AUTH_OPTION_NONE]"
    using m by (simp add: initiator_client_eq)
  with f show "auth_method_valid_list c = [AUTH_METHOD_CHAP]"
    by (simp add: c auth_method_valid_def auth_option_defs)
  show "sendable c"
    using cfg fresh_challenge_absent [of "?c0\<lparr>ip_sec := True, auth_rmt := True\<rparr>"] flds(1)
    by (simp add: sendable_def cfg_ok_def strings_ok_def c [symmetric])
qed

subsection \<open>The whole exchange\<close>

text \<open>The three answers of a target that knows both secrets, as the events of \<open>iscsi_login\<close>.\<close>

definition target_answers ::
  "login_env \<Rightarrow> login_env \<Rightarrow> login_env \<Rightarrow> auth_session \<Rightarrow> nat \<Rightarrow> nat \<Rightarrow> byte list \<Rightarrow> byte list \<Rightarrow> login_event list"
where
  "target_answers env1 env2 env3 acct a i ch rsp =
     [SEND True, answer env1 0 [(0, ''CHAP'')],
      SEND True, answer env2 0 [(1, udec a), (4, udec i), (5, ''0x'' @ hex_text ch)],
      SEND True, answer env3 0x83 [(2, username_in acct), (3, ''0x'' @ hex_text rsp)]]"

lemma render_lengths:
  assumes "a < 10" "i \<le> 255" "length ch \<le> AUTH_LARGE_BINARY_MAX_LEN" "length u < AUTH_STR_MAX_LEN" "length rsp \<le> 32"
  shows "length (render [(0, ''CHAP'')]) + 1 < 4096"
    "length (render [(1, udec a), (4, udec i), (5, ''0x'' @ hex_text ch)]) + 1 < 4096"
    "length (render [(2, u), (3, ''0x'' @ hex_text rsp)]) + 1 < 4096"
  using assms length_udec [of i 3] length_udec [of a 1]
  by (simp_all add: render_def render_pair_def acl_get_key_name_def AUTH_KEY_TYPE_FIRST_def AUTH_KEY_TYPE_LAST_def
      AUTH_KEY_TYPE_MAX_COUNT_def AUTH_LARGE_BINARY_MAX_LEN_def AUTH_STR_MAX_LEN_def)

lemma honest_messages_ok:
  assumes "is_cstr u"
  shows "message_ok [(0, ''CHAP'')]" "message_ok [(1, udec a), (4, udec i), (5, ''0x'' @ hex_text ch)]"
    "message_ok [(2, u), (3, ''0x'' @ hex_text rsp)]"
  using assms hex_text_clean by (simp_all add: message_ok_def)

lemma stage_sendable:
  "stage1 c \<Longrightarrow> sendable c"
  "stage2 H a ib rb c \<Longrightarrow> rb \<noteq> [] \<Longrightarrow> length rb \<le> 32 \<Longrightarrow> sendable c"
  by (auto simp: stage1_def stage2_def ready_def sendable_def cfg_ok_def strings_ok_def)

lemma loop_answer:
  assumes "iscsi_login_rsp env s c (RECV_PDU (login_rsp fl kvs) (render kvs)) = ((s', c'), RSP_OK)"
  shows "login_loop True (s, c) (answer env fl kvs # evs) =
    (if current_stage (conn s') \<noteq> ISCSI_FULL_FEATURE_PHASE then login_loop False (s', c') evs
     else Some (finish_auth (with_ret LOGIN_OK (s', c'))))"
  using assms by (simp add: answer_def)

text \<open>One round: a request, and the answer to it.\<close>

lemma security_round:
  assumes req: "iscsi_make_login_pdu s (replicate m NUL) m = (s1, Some pdu)" "after_request s s1"
    and c: "bufsize c = m" "\<not> have_auth_client c" and bufs: "auth_buffers s \<noteq> []"
    and r: "ready (auth_client_block s1)" "phase (auth_client_block s1) \<in> {AUTH_PHASE_CONFIGURE, AUTH_PHASE_AUTHENTICATE}"
    and msg: "message_ok kvs" "length (render kvs) + 1 < m" "m < 2 ^ 24"
    and e: "acl_recv_end (auth_env env) (acl_recv_message (auth_client_block s1) kvs t) (Some (peer_account s)) = (e, st)"
      "st = AUTH_STATUS_CONTINUE \<or> st = AUTH_STATUS_PASS"
  obtains s2 c2 where "login_loop False (s, c) (SEND True # answer env (if t then 0x83 else 0) kvs # evs) =
      (if t then Some (s2, c2\<lparr>ret := LOGIN_OK\<rparr>) else login_loop False (s2, c2) evs)"
    and "auth_client_block s2 = e" "auth_buffers s2 = auth_buffers s" "peer_account s2 = peer_account s"
      "current_stage (conn s2) = (if t then ISCSI_FULL_FEATURE_PHASE else ISCSI_SECURITY_NEGOTIATION_STAGE)"
      "bufsize c2 = m" "\<not> have_auth_client c2" "ctx_class c2 = ISCSI_STATUS_CLS_SUCCESS"
proof -
  let ?fl = "if t then 0x83 else 0 :: byte"
  obtain c1 where c1: "login_loop False (s, c) (SEND True # answer env ?fl kvs # evs) =
      login_loop True (s1, c1) (answer env ?fl kvs # evs)" "max_data_length c1 = m" "\<not> final c1"
      "bufsize c1 = m" "\<not> have_auth_client c1"
    using request_step [of s c s1 pdu "answer env ?fl kvs # evs"] req(1) c by auto
  have s1: "in_security s1" "auth_buffers s1 \<noteq> []" "peer_account s1 = peer_account s" "auth_buffers s1 = auth_buffers s"
    using req(2) bufs by (auto simp: after_request_def)
  obtain s2 where s2: "iscsi_process_login_response env s1 (login_rsp ?fl kvs) (recv_data m (render kvs)) m = (s2, LOGIN_OK)"
    "auth_client_block s2 = e" "auth_buffers s2 = auth_buffers s1" "peer_account s2 = peer_account s1"
    "current_stage (conn s2) = (if t then ISCSI_FULL_FEATURE_PHASE else ISCSI_SECURITY_NEGOTIATION_STAGE)"
    using answer_processed [OF s1(1,2) r msg refl] e s1(3) by metis
  obtain c2 where c2: "iscsi_login_rsp env s1 c1 (RECV_PDU (login_rsp ?fl kvs) (render kvs)) = ((s2, c2), RSP_OK)"
    "bufsize c2 = m" "\<not> have_auth_client c2" "ctx_class c2 = ISCSI_STATUS_CLS_SUCCESS"
    using response_step [of env s1 ?fl kvs c1 s2] s2(1) c1 by metis
  show thesis
    by (rule that [of s2 c2])
      (use c1 loop_answer [OF c2(1)] c2 s2 s1 in \<open>simp_all add: finish_auth_def with_ret_def
        ISCSI_FULL_FEATURE_PHASE_def ISCSI_SECURITY_NEGOTIATION_STAGE_def\<close>)
qed

lemma login_begins:
  assumes "mutual_setup env s"
  obtains s0 c0 where "iscsi_login env s c m evs = login_loop False (s0, c0) evs" and "bufsize c0 = m"
    "\<not> have_auth_client c0" "auth_client_block s0 = login_client env s" "auth_buffers s0 = auth_buffers s"
    "peer_account s0 = peer_account s" "current_stage (conn s0) = ISCSI_INITIAL_LOGIN_STAGE"
    "first_length s0 = first_length s" "initiator_name s0 = initiator_name s"
proof -
  let ?t = "upd_conn (\<lambda>c. c\<lparr>current_stage := ISCSI_INITIAL_LOGIN_STAGE, partial_response := False\<rparr>)
    ((upd_conn (exp_statsn_update (\<lambda>_. 0)) s)\<lparr>cmdsn := 1, exp_cmdsn := 1, max_cmdsn := 1\<rparr>)"
  have t: "mutual_setup env ?t" "login_client env ?t = login_client env s" "first_length ?t = first_length s"
    using assms by (simp_all add: mutual_setup_def login_client_def first_length_def first_texts_def normal_def upd_conn_def)
  have bufs: "auth_buffers s \<noteq> []" using assms by (auto simp: mutual_setup_def buf_desc_ok_def)
  note chk = login_client_ok(1) [OF t(1)]
  show thesis
    by (rule that [of "upd_acl (login_client env s) ?t" "c\<lparr>bufsize := m, have_auth_client := False, received_pdu := False,
        ctx_timeout := 0, final := False, ret := LOGIN_OK\<rparr>"])
      (use chk t bufs in \<open>simp_all add: iscsi_login_def iscsi_login_begin_def Let_def first_length_def first_texts_def
        normal_def upd_acl_def upd_conn_def\<close>)
qed

text \<open>What the answers need of the session, the buffer and the surroundings.\<close>

definition login_config :: "login_env \<Rightarrow> iscsi_session \<Rightarrow> nat \<Rightarrow> bool" where
  "login_config env s m \<longleftrightarrow> mutual_setup env s \<and> first_length s + 1620 \<le> m \<and> 4096 \<le> m \<and> m < 2 ^ 24 \<and>
     username_in (peer_account s) \<noteq> [] \<and> is_cstr (username_in (peer_account s)) \<and>
     length (username_in (peer_account s)) < AUTH_STR_MAX_LEN \<and>
     password_in (peer_account s) \<noteq> [] \<and> hd (password_in (peer_account s)) \<noteq> 0"

lemma round_one:
  assumes c: "ready (auth_client_block s)" "phase (auth_client_block s) = AUTH_PHASE_CONFIGURE"
      "recv_end_count (auth_client_block s) = 0" "auth_method_valid_list (auth_client_block s) = [AUTH_METHOD_CHAP]"
      "\<not> auth_rsp_flag (auth_client_block s)" "sendable (auth_client_block s)"
    and s: "auth_buffers s \<noteq> []" "nonempty (initiator_name s)" "current_stage (conn s) = ISCSI_INITIAL_LOGIN_STAGE"
    and m: "first_length s + 1620 \<le> m" "4096 \<le> m" "m < 2 ^ 24" and ctx: "bufsize x = m" "\<not> have_auth_client x"
  obtains s' x' where "login_loop False (s, x) (SEND True # answer env 0 [(0, ''CHAP'')] # evs) = login_loop False (s', x') evs"
    and "stage1 (auth_client_block s')" "same_setup (auth_client_block s) (auth_client_block s')" "in_security s'"
      "auth_buffers s' = auth_buffers s" "peer_account s' = peer_account s" "bufsize x' = m" "\<not> have_auth_client x'"
proof -
  obtain s1 pdu where req: "iscsi_make_login_pdu s (replicate m NUL) m = (s1, Some pdu)" "after_request s s1"
    by (rule first_request_ok [OF c(6) s m(1,3)])
  have ro: "read_out (auth_client_block s) (auth_client_block s1)" using req(2) by (simp add: after_request_def)
  note rs = read_out_stages [OF ro]
  obtain e where e: "acl_recv_end (auth_env env) (acl_recv_message (auth_client_block s1) [(0, ''CHAP'')] False)
      (Some (peer_account s)) = (e, AUTH_STATUS_CONTINUE)" "same_setup (auth_client_block s1) e" "stage1 e"
    by (rule first_message_end [OF rs(1) [OF c(1)], unfolded rs(5-8), OF c(2-5)])
  have len: "length (render [(0, ''CHAP'')]) + 1 < m"
    using render_lengths(1) [of 0 0 "[]" "[]" "[]"] m(2) by (simp add: AUTH_STR_MAX_LEN_def)
  show thesis
    by (rule security_round [OF req ctx s(1) rs(1) [OF c(1)] _ honest_messages_ok(1) [of "[]"] len m(3) e(1), of evs])
      (use that e(2,3) rs(4,5) c(2) in \<open>auto simp: same_setup_def in_security_def\<close>)
qed

lemma round_two:
  assumes c: "stage1 (auth_client_block s)" and s: "auth_buffers s \<noteq> []" "in_security s"
    and m: "4096 \<le> m" "m < 2 ^ 24" and ctx: "bufsize x = m" "\<not> have_auth_client x"
    and env: "digest_lengths (EVP_digest (auth_env env))" "EVP_digest (auth_env env) (int a) = Some H"
    and alg: "int a \<in> set (chap_alg_list (auth_client_block s))" "chap_rsp_len (int a) = Some n" "a < 10"
    and rand: "RAND_bytes (auth_env env) 0 1 = Some [ib]" "RAND_bytes (auth_env env) 1 n = Some rb" "length rb = n"
    and peer: "ch \<noteq> []" "length ch \<le> AUTH_LARGE_BINARY_MAX_LEN" "i \<le> 255"
  obtains s' x' where "login_loop False (s, x)
      (SEND True # answer env 0 [(1, udec a), (4, udec i), (5, ''0x'' @ hex_text ch)] # evs) = login_loop False (s', x') evs"
    and "stage2 H a ib rb (auth_client_block s')" "passwd_data (auth_client_block s') = passwd_data (auth_client_block s)"
      "in_security s'" "auth_buffers s' = auth_buffers s" "peer_account s' = peer_account s" "bufsize x' = m"
      "\<not> have_auth_client x'"
proof -
  obtain s1 pdu where req: "iscsi_make_login_pdu s (replicate m NUL) m = (s1, Some pdu)" "after_request s s1"
    by (rule later_request_ok [OF stage_sendable(1) [OF c] s _ m(2)]) (use m(1) in simp)
  have ro: "read_out (auth_client_block s) (auth_client_block s1)" using req(2) by (simp add: after_request_def)
  note rs = read_out_stages [OF ro]
  have c1: "stage1 (auth_client_block s1)" and set1: "same_setup (auth_client_block s) (auth_client_block s1)"
    using rs(2) [OF c] rs(4) by blast+
  obtain e where e: "acl_recv_end (auth_env env) (acl_recv_message (auth_client_block s1)
      [(1, udec a), (4, udec i), (5, ''0x'' @ hex_text ch)] False) (Some (peer_account s)) = (e, AUTH_STATUS_CONTINUE)"
    "same_setup ((auth_client_block s1)\<lparr>send_chap_challenge := send_chap_challenge e\<rparr>) e" "stage2 H a ib rb e"
    by (rule second_message_end [OF c1 env _ alg(2) rand peer]) (use alg(1) set1 in \<open>auto simp: same_setup_def\<close>)
  have len: "length (render [(1, udec a), (4, udec i), (5, ''0x'' @ hex_text ch)]) + 1 < m"
    using render_lengths(2) [OF alg(3) peer(3,2), of "[]" "[]"] m(1) by (simp add: AUTH_STR_MAX_LEN_def)
  have r1: "ready (auth_client_block s1)" "phase (auth_client_block s1) = AUTH_PHASE_AUTHENTICATE"
    using c1 by (auto simp: stage1_def)
  show thesis
    by (rule security_round [OF req ctx s(1) r1(1) _ honest_messages_ok(2) [of "[]"] len m(2) e(1), of evs])
      (use that e(2,3) set1 r1(2) in \<open>auto simp: same_setup_def in_security_def\<close>)
qed

lemma round_three:
  assumes c: "stage2 H a ib rb (auth_client_block s)" and s: "auth_buffers s \<noteq> []" "in_security s"
    and m: "4096 \<le> m" "m < 2 ^ 24" and ctx: "bufsize x = m" "\<not> have_auth_client x" and rb: "rb \<noteq> []" "length rb \<le> 32"
    and env: "digest_lengths (EVP_digest (auth_env env))" "EVP_digest (auth_env env) (int a) = Some H"
    and acct: "username_in (peer_account s) \<noteq> []" "is_cstr (username_in (peer_account s))"
      "length (username_in (peer_account s)) < AUTH_STR_MAX_LEN"
      "password_in (peer_account s) \<noteq> []" "hd (password_in (peer_account s)) \<noteq> 0"
    and rsp: "rsp = chap_response H (unat ib) (password_in (peer_account s)) rb"
      "rsp \<noteq> chap_response H (unat ib) (passwd_data (auth_client_block s)) rb" "length rsp \<le> 32"
  obtains s' x' where "login_loop False (s, x)
      [SEND True, answer env 0x83 [(2, username_in (peer_account s)), (3, ''0x'' @ hex_text rsp)]] = Some (s', x')"
    and "ret x' = LOGIN_OK" "ctx_class x' = ISCSI_STATUS_CLS_SUCCESS" "current_stage (conn s') = ISCSI_FULL_FEATURE_PHASE"
proof -
  let ?kvs = "[(2, username_in (peer_account s)), (3, ''0x'' @ hex_text rsp)]"
  obtain s1 pdu where req: "iscsi_make_login_pdu s (replicate m NUL) m = (s1, Some pdu)" "after_request s s1"
    by (rule later_request_ok [OF stage_sendable(2) [OF c rb] s _ m(2)]) (use m(1) in simp)
  have ro: "read_out (auth_client_block s) (auth_client_block s1)" using req(2) by (simp add: after_request_def)
  note rs = read_out_stages [OF ro]
  have c1: "stage2 H a ib rb (auth_client_block s1)" "passwd_data (auth_client_block s1) = passwd_data (auth_client_block s)"
    using rs(3) [OF c] rs(4) by (auto simp: same_setup_def)
  obtain e where e: "acl_recv_end (auth_env env) (acl_recv_message (auth_client_block s1) ?kvs True) (Some (peer_account s)) =
      (e, AUTH_STATUS_PASS)"
    using third_message_end [OF c1(1) env acct rsp(1)] rsp(2) c1(2) by (metis prod.collapse)
  have len: "length (render ?kvs) + 1 < m"
    using render_lengths(3) [of 0 0 "[]", OF _ _ _ acct(3) rsp(3)] m(1) by simp
  have r1: "ready (auth_client_block s1)" "phase (auth_client_block s1) = AUTH_PHASE_AUTHENTICATE"
    using c1 by (auto simp: stage2_def)
  show thesis
    by (rule security_round [OF req ctx s(1) r1(1) _ honest_messages_ok(3) [OF acct(2)] len m(2) e, of "[]"])
      (use that r1(2) in auto)
qed

lemma honest_login:
  assumes cfg: "login_config env0 s m"
    and alg: "int a \<in> set (acl_init_chap_digests (auth_env env0) (chap_algs s))" "chap_rsp_len (int a) = Some n"
    and env: "digest_lengths D" "D (int a) = Some H" "EVP_digest (auth_env env2) = D" "EVP_digest (auth_env env3) = D"
    and rand: "RAND_bytes (auth_env env2) 0 1 = Some [ib]" "RAND_bytes (auth_env env2) 1 n = Some rb" "length rb = n"
    and peer: "ch \<noteq> []" "length ch \<le> AUTH_LARGE_BINARY_MAX_LEN" "i \<le> 255"
    and rsp: "rsp = chap_response H (unat ib) (password_in (peer_account s)) rb"
      "rsp \<noteq> chap_response H (unat ib) (take (password_length s) (sess_password s)) rb"
  obtains s' c' where "iscsi_login env0 s c m (target_answers env1 env2 env3 (peer_account s) a i ch rsp) = Some (s', c')"
    and "ret c' = LOGIN_OK" "ctx_class c' = ISCSI_STATUS_CLS_SUCCESS" "current_stage (conn s') = ISCSI_FULL_FEATURE_PHASE"
proof -
  from cfg have ms: "mutual_setup env0 s" and m: "first_length s + 1620 \<le> m" "4096 \<le> m" "m < 2 ^ 24"
    and u: "username_in (peer_account s) \<noteq> []" "is_cstr (username_in (peer_account s))"
      "length (username_in (peer_account s)) < AUTH_STR_MAX_LEN" "password_in (peer_account s) \<noteq> []"
      "hd (password_in (peer_account s)) \<noteq> 0"
    unfolding login_config_def by auto
  have bufs: "auth_buffers s \<noteq> []" and name: "nonempty (initiator_name s)" and a10: "a < 10"
    using ms alg(1) by (auto simp: mutual_setup_def buf_desc_ok_def algs_ok_def)
  have n: "n \<le> 32" "rb \<noteq> []" using alg(2) rand(3) by (auto simp: chap_rsp_len_def split: if_splits)
  have rl: "length rsp \<le> 32" using env(1,2) alg(2) rsp(1) n by (auto simp: digest_lengths_def chap_response_def)
  note lc = login_client_ok [OF ms]
  define evs3 where "evs3 = [SEND True, answer env3 0x83 [(2, username_in (peer_account s)), (3, ''0x'' @ hex_text rsp)]]"
  define evs2 where "evs2 = SEND True # answer env2 0 [(1, udec a), (4, udec i), (5, ''0x'' @ hex_text ch)] # evs3"
  define evs1 where "evs1 = SEND True # answer env1 0 [(0, ''CHAP'')] # evs2"
  obtain s0 c0 where s0: "iscsi_login env0 s c m evs1 = login_loop False (s0, c0) evs1" "bufsize c0 = m"
    "\<not> have_auth_client c0" "auth_client_block s0 = login_client env0 s" "auth_buffers s0 = auth_buffers s"
    "peer_account s0 = peer_account s" "current_stage (conn s0) = ISCSI_INITIAL_LOGIN_STAGE"
    "first_length s0 = first_length s" "initiator_name s0 = initiator_name s"
    by (rule login_begins [OF ms, of c m evs1])
  obtain s1 c1 where s1: "login_loop False (s0, c0) evs1 = login_loop False (s1, c1) evs2"
    "stage1 (auth_client_block s1)" "same_setup (auth_client_block s0) (auth_client_block s1)" "in_security s1"
      "auth_buffers s1 = auth_buffers s0" "peer_account s1 = peer_account s0" "bufsize c1 = m" "\<not> have_auth_client c1"
    using round_one [of s0 m c0 env1 evs2, unfolded s0(4,5,8,9), OF lc(2-7) bufs name s0(7) m s0(2,3)]
    unfolding evs1_def s0(4,5) by blast
  have alg1: "int a \<in> set (chap_alg_list (auth_client_block s1))" and pw1: "passwd_data (auth_client_block s1) =
      take (password_length s) (sess_password s)"
    using s1(3) s0(4) lc(8,9) alg(1) by (auto simp: same_setup_def)
  obtain s2 c2 where s2: "login_loop False (s1, c1) evs2 = login_loop False (s2, c2) evs3"
    "stage2 H a ib rb (auth_client_block s2)" "passwd_data (auth_client_block s2) = passwd_data (auth_client_block s1)"
    "in_security s2" "auth_buffers s2 = auth_buffers s1" "peer_account s2 = peer_account s1" "bufsize c2 = m"
    "\<not> have_auth_client c2"
    unfolding evs2_def
    by (rule round_two [OF s1(2) _ s1(4) m(2,3) s1(7,8) _ _ alg1 alg(2) a10 rand peer, of H])
      (use env s1(5) s0(5) bufs in auto)
  have acct: "peer_account s2 = peer_account s" "auth_buffers s2 \<noteq> []" using s2 s1 s0 bufs by auto
  obtain s3 c3 where s3: "login_loop False (s2, c2) evs3 = Some (s3, c3)" "ret c3 = LOGIN_OK"
    "ctx_class c3 = ISCSI_STATUS_CLS_SUCCESS" "current_stage (conn s3) = ISCSI_FULL_FEATURE_PHASE"
    using round_three [of H a ib rb s2 m c2 env3 rsp, unfolded acct(1), OF s2(2) acct(2) s2(4) m(2,3) s2(7,8) n(2) _ _ _ u rsp(1)]
      n(1) rand(3) env rsp(2) s2(3) pw1 rl unfolding evs3_def by auto
  show thesis
    by (rule that [of s3 c3])
      (use s0(1) s1(1) s2(1) s3 in \<open>simp_all add: target_answers_def evs1_def evs2_def evs3_def\<close>)
qed

end
