(* ===== verification/Auth_Properties.thy ===== *)
theory Auth_Properties
  imports Auth_Progress
begin

text \<open>
  The properties of the authentication client as a whole: soundness of the status pass, completion of
  an honest login, the bound on the number of messages and the meaning of the T bit. The sample
  login at the beginning is a concrete environment, a concrete target account and a concrete
  initiator on which the hypotheses of the properties hold.
\<close>

subsection \<open>A sample login\<close>

definition sample_digest :: digests where
  "sample_digest alg = map_option (\<lambda>n x. take n (x @ replicate n 0)) (chap_rsp_len alg)"

definition sample_env :: acl_env where
  "sample_env = \<lparr>EVP_digest = sample_digest, RAND_bytes = (\<lambda>k n. Some (replicate n 7)), stack_bytes = []\<rparr>"

definition sample_session :: auth_session where
  "sample_session = \<lparr>username_in = ''tgt'', password_in = [1, 2, 3]\<rparr>"

definition sample_hash :: "byte list \<Rightarrow> byte list" where
  "sample_hash x = take 16 (x @ replicate 16 0)"

definition sample_descs :: "auth_buffer_desc list" where
  "sample_descs = map (\<lambda>n. \<lparr>desc_length = n, desc_address = True\<rparr>) [64, 1024, 1024, 1024, 1024]"

definition sample_client :: iscsi_acl where
  "sample_client = initiator_client 64 sample_descs ''ini'' (replicate 12 9) [5]"

lemma sample_facts:
  "digest_lengths sample_digest" "sample_digest (int 5) = Some sample_hash" "EVP_digest sample_env = sample_digest"
  "chap_rsp_len (int 5) = Some 16" "buf_desc_ok 64 sample_descs" "algs_ok [5]" "is_cstr ''ini''"
  "RAND_bytes sample_env 0 1 = Some [7]" "RAND_bytes sample_env 1 16 = Some (replicate 16 7)"
proof -
  show "digest_lengths sample_digest" by (auto simp: digest_lengths_def sample_digest_def)
qed (simp_all add: sample_digest_def sample_env_def buf_desc_ok_def chap_rsp_len_def auth_option_defs
      sample_descs_def AUTH_STR_BLOCK_MAX_LEN_def AUTH_LARGE_BINARY_MAX_LEN_def algs_ok_def AUTH_CHAP_ALG_MAX_COUNT_def
      sample_hash_def fun_eq_iff)

lemma sample_peer:
  "username_in sample_session \<noteq> []" "is_cstr (username_in sample_session)"
  "length (username_in sample_session) < AUTH_STR_MAX_LEN" "password_in sample_session \<noteq> []"
  "hd (password_in sample_session) \<noteq> 0"
  "chap_response sample_hash (unat (7 :: 8 word)) (password_in sample_session) (replicate 16 7) \<noteq>
     chap_response sample_hash (unat (7 :: 8 word)) (replicate 12 9) (replicate 16 7)"
  by (simp_all add: sample_session_def AUTH_STR_MAX_LEN_def chap_response_def sample_hash_def numeral_eq_Suc)

lemma sample_bounds:
  "length ''ini'' < AUTH_STR_MAX_LEN" "12 \<le> length (replicate 12 9)" "length (replicate 12 9) \<le> AUTH_STR_MAX_LEN"
  "int 5 \<in> set [5]" "length (replicate 16 7) = 16" "[1, 2] \<noteq> ([] :: byte list)"
  "length [1, 2 :: byte] \<le> AUTH_LARGE_BINARY_MAX_LEN" "(17 :: nat) \<le> 255"
  by (simp_all add: AUTH_STR_MAX_LEN_def AUTH_LARGE_BINARY_MAX_LEN_def)

lemma sample_login:
  obtains e1 e2 e3 where
      "chap_login sample_env sample_env sample_env sample_session sample_client 5 17 [1, 2] sample_hash =
         [(e1, AUTH_STATUS_CONTINUE), (e2, AUTH_STATUS_CONTINUE), (e3, AUTH_STATUS_PASS)]"
  using chap_login_steps [OF sample_facts(5,7) sample_bounds(1-3) sample_facts(6) sample_bounds(4)
      sample_facts(4,1,2,3,3,8,9) sample_bounds(5-8) sample_peer, folded sample_client_def]
  by blast

lemmas sample_fields = initiator_client_fields [OF sample_facts(5,7) sample_bounds(1,3) sample_facts(6), folded sample_client_def]

lemma sample_client_run: "acl_run sample_digest sample_session [] sample_client"
  unfolding sample_client_def by (rule initiator_client_run [OF sample_facts(5,7)])

lemma chap_login_run:
  assumes "acl_run D sess tr c" "EVP_digest env1 = D" "EVP_digest env2 = D" "is_cstr (username_in sess)"
    and dl: "digest_lengths D" and eq: "chap_login env1 env2 env3 sess c a i ch H = [(e1, s1), (e2, s2), (e3, s3)]"
  obtains tr' d where "acl_run D sess tr' d" "acl_recv_end env3 d (Some sess) = (e3, s3)"
    "acl_setup d = acl_setup c"
proof -
  define rsp where "rsp = chap_response H (send_chap_identifier e2) (password_in sess) (challenge_bytes (send_chap_challenge e2))"
  have e: "acl_recv_end env1 (acl_recv_message c [(0, ''CHAP'')] False) (Some sess) = (e1, s1)"
    "acl_recv_end env2 (acl_recv_message e1 [(1, udec a), (4, udec i), (5, ''0x'' @ hex_text ch)] False) (Some sess) = (e2, s2)"
    "acl_recv_end env3 (acl_recv_message e2 [(2, username_in sess), (3, ''0x'' @ hex_text rsp)] True) (Some sess) = (e3, s3)"
    using eq unfolding chap_login_def rsp_def by (auto simp del: append.simps split: prod.splits)
  have r1: "acl_run D sess (rev [(0, ''CHAP'')] @ tr) (acl_recv_message c [(0, ''CHAP'')] False)"
    using recv_message_run [OF assms(1), of "[(0, ''CHAP'')]" False] by simp
  have e1: "acl_run D sess (rev [(0, ''CHAP'')] @ tr) e1" using acl_run.recv_end [OF r1 assms(2)] e(1) by simp
  have r2: "acl_run D sess (rev [(1, udec a), (4, udec i), (5, ''0x'' @ hex_text ch)] @ rev [(0, ''CHAP'')] @ tr)
      (acl_recv_message e1 [(1, udec a), (4, udec i), (5, ''0x'' @ hex_text ch)] False)"
    by (rule recv_message_run [OF e1]) (simp add: hex_text_clean)
  have e2: "acl_run D sess (rev [(1, udec a), (4, udec i), (5, ''0x'' @ hex_text ch)] @ rev [(0, ''CHAP'')] @ tr) e2"
    using acl_run.recv_end [OF r2 assms(3)] e(2) by simp
  then have "acl_run D sess (rev [(2, username_in sess), (3, ''0x'' @ hex_text rsp)] @
      rev [(1, udec a), (4, udec i), (5, ''0x'' @ hex_text ch)] @ rev [(0, ''CHAP'')] @ tr)
      (acl_recv_message e2 [(2, username_in sess), (3, ''0x'' @ hex_text rsp)] True)"
    using recv_message_run [of D sess _ e2 "[(2, username_in sess), (3, ''0x'' @ hex_text rsp)]" True] assms(4) hex_text_clean
    by simp
  moreover have "acl_setup e2 = acl_setup c"
    using acl_recv_end_fixed(1) [OF acl_run_inv [OF r1 dl] e(1)] acl_recv_end_fixed(1) [OF acl_run_inv [OF r2 dl] e(2)]
    by simp
  ultimately show thesis using that e(3) by simp
qed

lemma sample_run:
  obtains tr d e where "acl_run sample_digest sample_session tr d"
    "acl_recv_end sample_env d (Some sample_session) = (e, AUTH_STATUS_PASS)" "auth_rmt d"
proof -
  obtain e1 e2 e3 where login: "chap_login sample_env sample_env sample_env sample_session sample_client 5 17 [1, 2]
      sample_hash = [(e1, AUTH_STATUS_CONTINUE), (e2, AUTH_STATUS_CONTINUE), (e3, AUTH_STATUS_PASS)]"
    by (rule sample_login)
  from chap_login_run [OF sample_client_run sample_facts(3,3) sample_peer(2) sample_facts(1) login] that
    acl_setupD(2) sample_fields(2)
  show thesis by metis
qed

subsection \<open>Properties\<close>

text \<open>C4. Soundness of mutual authentication. Whatever sequence of calls brought the client to its
  state, when authentication of the peer is required and \<open>acl_recv_end\<close> returns pass, the peer has
  sent the user name configured for it and a response that decodes to the digest, under the
  negotiated algorithm, of our identifier, the peer's secret and the challenge we chose; and when we
  have a password ourselves, the response is not the one our own password gives.\<close>

theorem mutual_authentication_sound:
  assumes "acl_run D sess tr c" and "digest_lengths D" and "EVP_digest env = D" and "auth_rmt c"
    and "acl_recv_end env c (Some sess) = (d, AUTH_STATUS_PASS)"
  shows "\<exists>r H rsp. (3, r) \<in> set tr \<and> (2, username_in sess) \<in> set tr \<and> D (negotiated_chap_alg d) = Some H \<and>
     acl_text_to_data r AUTH_STR_MAX_LEN = (0, rsp) \<and>
     rsp = chap_response H (send_chap_identifier d) (password_in sess) (challenge_bytes (send_chap_challenge d)) \<and>
     (passwd_present d \<longrightarrow>
        rsp \<noteq> chap_response H (send_chap_identifier d) (passwd_data d) (challenge_bytes (send_chap_challenge d)))"
  using recv_end_pass_verified [OF acl_run_inv [OF assms(1,2)] assms(2-5)]
  unfolding verified_def response_ok_def KEYS by auto

theorem mutual_authentication_sound_witness:
  "\<exists>tr c d r H. acl_run sample_digest sample_session tr c \<and>
     acl_recv_end sample_env c (Some sample_session) = (d, AUTH_STATUS_PASS) \<and>
     (3, r) \<in> set tr \<and> sample_digest (negotiated_chap_alg d) = Some H \<and>
     acl_text_to_data r AUTH_STR_MAX_LEN =
       (0, chap_response H (send_chap_identifier d) [1, 2, 3] (challenge_bytes (send_chap_challenge d)))"
proof -
  obtain tr c d where run: "acl_run sample_digest sample_session tr c"
    and pass: "acl_recv_end sample_env c (Some sample_session) = (d, AUTH_STATUS_PASS)" and rmt: "auth_rmt c"
    by (rule sample_run)
  have "password_in sample_session = [1, 2, 3]" by (simp add: sample_session_def)
  with mutual_authentication_sound [OF run sample_facts(1,3) rmt pass] run pass show ?thesis by metis
qed

text \<open>C10. An honest login completes. An initiator configured by \<open>acl_init\<close>, a user name, a password of
  at least 12 bytes and a list of algorithms, talking to a target that follows the protocol and knows
  both secrets, gets the statuses continue, continue and pass for the three messages, and the response
  it sends is the digest of the target's identifier, the password and the target's challenge. The
  random source has to deliver, and the two secrets must not give the same response.\<close>

theorem honest_login_completes:
  assumes "buf_desc_ok sz descs" "is_cstr u" "length u < AUTH_STR_MAX_LEN"
      "12 \<le> length pw" "length pw \<le> AUTH_STR_MAX_LEN" "algs_ok algs"
    and "int a \<in> set algs" "chap_rsp_len (int a) = Some n"
    and "digest_lengths D" "D (int a) = Some H" "EVP_digest env2 = D" "EVP_digest env3 = D"
    and "RAND_bytes env2 0 1 = Some [ib]" "RAND_bytes env2 1 n = Some rb" "length rb = n"
    and "ch \<noteq> []" "length ch \<le> AUTH_LARGE_BINARY_MAX_LEN" "i \<le> 255"
    and "username_in sess \<noteq> []" "is_cstr (username_in sess)" "length (username_in sess) < AUTH_STR_MAX_LEN"
      "password_in sess \<noteq> []" "hd (password_in sess) \<noteq> 0"
    and "chap_response H (unat ib) (password_in sess) rb \<noteq> chap_response H (unat ib) pw rb"
  shows "\<exists>e1 e2 e3. chap_login env1 env2 env3 sess (initiator_client sz descs u pw algs) a i ch H =
       [(e1, AUTH_STATUS_CONTINUE), (e2, AUTH_STATUS_CONTINUE), (e3, AUTH_STATUS_PASS)] \<and>
     key_value (send_key_block e2) AUTH_KEY_TYPE_CHAP_RSP = Some (''0x'' @ hex_text (chap_response H i pw ch))"
  by (rule chap_login_steps [OF assms]) blast

theorem honest_login_completes_witness:
  "\<exists>e1 e2 e3. chap_login sample_env sample_env sample_env sample_session sample_client 5 17 [1, 2] sample_hash =
     [(e1, AUTH_STATUS_CONTINUE), (e2, AUTH_STATUS_CONTINUE), (e3, AUTH_STATUS_PASS)] \<and>
     key_value (send_key_block e2) AUTH_KEY_TYPE_CHAP_RSP =
       Some (''0x'' @ hex_text (chap_response sample_hash 17 (replicate 12 9) [1, 2]))"
  unfolding sample_client_def
  by (rule honest_login_completes [OF sample_facts(5,7) sample_bounds(1-3) sample_facts(6) sample_bounds(4)
        sample_facts(4,1,2,3,3,8,9) sample_bounds(5-8) sample_peer])

text \<open>C11. No dialogue goes on for ever: a client answers at most eleven messages with the status
  continue, whatever the peer sends.\<close>

theorem dialogue_bounded:
  assumes "acl_run D sess tr c" and "digest_lengths D"
    and "\<forall>(env, kvs, t) \<in> set msgs. EVP_digest env = D \<and> (\<forall>(k, v) \<in> set kvs. is_cstr v)"
    and "set (map snd (acl_dialogue sess c msgs)) \<subseteq> {AUTH_STATUS_CONTINUE}"
  shows "msgs = [] \<or> recv_end_count c + int (length msgs) \<le> AUTH_RECV_END_MAX_COUNT + 1"
  using assms by (rule acl_dialogue_bounded)

theorem dialogue_bounded_witness:
  "map snd (acl_dialogue sample_session sample_client [(sample_env, [(0, ''CHAP'')], False)]) = [AUTH_STATUS_CONTINUE] \<and>
   recv_end_count sample_client + 1 \<le> AUTH_RECV_END_MAX_COUNT + 1"
proof -
  obtain e1 e2 e3 where "chap_login sample_env sample_env sample_env sample_session sample_client 5 17 [1, 2]
      sample_hash = [(e1, AUTH_STATUS_CONTINUE), (e2, AUTH_STATUS_CONTINUE), (e3, AUTH_STATUS_PASS)]"
    by (rule sample_login)
  then have "acl_recv_end sample_env (acl_recv_message sample_client [(0, ''CHAP'')] False) (Some sample_session) =
      (e1, AUTH_STATUS_CONTINUE)"
    unfolding chap_login_def by (auto simp del: append.simps split: prod.splits)
  with dialogue_bounded [OF sample_client_run sample_facts(1), of "[(sample_env, [(0, ''CHAP'')], False)]"]
  show ?thesis by (simp add: sample_facts(3))
qed

text \<open>C14. A message with the T bit is the last one for an initiator: \<open>acl_recv_end\<close> returns pass, fail
  or error, never continue.\<close>

theorem transit_bit_final:
  assumes "acl_run D sess tr c" and "digest_lengths D" and "EVP_digest env = D"
    and "node_type c = TYPE_INITIATOR" and "transit_bit (recv_key_block c)"
  shows "snd (acl_recv_end env c (Some sess)) \<in> {AUTH_STATUS_PASS, AUTH_STATUS_FAIL, AUTH_STATUS_ERROR}"
  by (rule transit_bit_final_inv [OF acl_run_inv [OF assms(1,2)] assms(2-5)])

theorem transit_bit_final_witness:
  "\<exists>c. acl_run sample_digest sample_session [] c \<and> transit_bit (recv_key_block c) \<and>
     snd (acl_recv_end sample_env c (Some sample_session)) \<in> {AUTH_STATUS_PASS, AUTH_STATUS_FAIL, AUTH_STATUS_ERROR}"
proof -
  let ?c = "acl_recv_message sample_client [] True"
  have run: "acl_run sample_digest sample_session [] ?c"
    using recv_message_run [OF sample_client_run, of "[]" True] by simp
  have "signature sample_client = ACL_SIGNATURE"
    by (rule acl_invD(5) [OF acl_run_inv [OF sample_client_run sample_facts(1)]])
  then have t: "transit_bit (recv_key_block ?c)"
    using sample_fields
    by (simp add: acl_recv_message_def recv_begin_first recv_begin_reset_def acl_recv_transit_bit_def set_transit_def)
  have "node_type ?c = TYPE_INITIATOR" using acl_setupD(1) [OF recv_message_setup(1)] sample_fields(1) by simp
  from transit_bit_final [OF run sample_facts(1,3) this t] run t show ?thesis by blast
qed

end
