(* ===== verification/Login_Properties.thy ===== *)
theory Login_Properties
  imports Login_Honest Auth_Properties
begin

text \<open>
  The properties of the login: soundness and completion of a login with mutual authentication, the
  order of the stages, what an accepted response can and cannot change, the texts of a request, the
  redirection address, and the password a login leaves in memory. A sample session, a sample target and sample responses at the beginning of
  each part are the concrete inputs on which the hypotheses of the properties hold.
\<close>

subsection \<open>A sample session\<close>

definition sample_login_env :: login_env where
  "sample_login_env = \<lparr>auth_env = sample_env, getaddr = (\<lambda>h p. None), malloc_ok = (\<lambda>n. True), sizeof_acl = 64\<rparr>"

definition sample_conn :: iscsi_conn where
  "sample_conn = \<lparr>current_stage = 0, next_stage = 0, partial_response = False, saddr = [], login_timeout = 15,
     auth_timeout = 45, active_timeout = 5, exp_statsn = 0, hdrdgst_en = 0, datadgst_en = 0,
     max_recv_dlength = 8192, max_xmit_dlength = 8192\<rparr>"

definition sample_sess :: iscsi_session where
  "sample_sess = \<lparr>rdma = False, rec_MaxXmit = 0, irrelevant_keys_bitmap = 0, cmdsn = 0, exp_cmdsn = 0, max_cmdsn = 0,
     imm_data_en = 1, initial_r2t_en = 0, max_r2t = 1, first_burst = 65536, max_burst = 262144, pdu_inorder_en = 1,
     dataseq_inorder_en = 1, def_time2wait = 2, def_time2retain = 0, sess_type = ISCSI_SESSION_TYPE_DISCOVERY,
     portal_group_tag = - 1, isid = [0, 2, 0x3D, 0, 0, 0], tsih = 0, target_name = [], target_alias = None,
     initiator_name = Some ''iqn.2005-03.org.open-iscsi:a'', initiator_alias = None, auth_client_block = acl_zero,
     auth_buffers = sample_descs, bidirectional_auth = True, sess_username = ''ini'', sess_password = replicate 12 9,
     password_length = 12, peer_account = sample_session, chap_algs = [5], conn = sample_conn\<rparr>"

definition sample_context :: iscsi_login_context where
  "sample_context = \<lparr>bufsize = 0, ctx_class = 0, ctx_detail = 0, have_auth_client = False,
     ctx_pdu = (login_hdr_init sample_sess, []), received_pdu = False, max_data_length = 0, ctx_timeout = 0,
     final = False, ret = LOGIN_FAILED\<rparr>"

definition sample_rsp :: "byte list" where
  "sample_rsp = chap_response sample_hash 7 [1, 2, 3] (replicate 16 7)"

definition sample_events :: "login_event list" where
  "sample_events = target_answers sample_login_env sample_login_env sample_login_env sample_session 5 17 [1, 2] sample_rsp"

lemma sample_digests: "acl_init_chap_digests sample_env [5] = [5]"
  by (simp add: sample_env_def sample_digest_def chap_rsp_len_def auth_option_defs)

lemma sample_config: "login_config sample_login_env sample_sess 8192"
  using sample_facts(5,6,7) sample_peer(1-5) sample_digests
  by (simp add: login_config_def mutual_setup_def sample_login_env_def sample_sess_def nonempty_def first_length_def
      first_texts_def normal_def ISCSI_SESSION_TYPE_DISCOVERY_def ISCSI_SESSION_TYPE_NORMAL_def AUTH_STR_MAX_LEN_def)

lemma sample_events_ok: "events_ok sample_digest sample_events"
  by (auto simp: events_ok_def sample_events_def target_answers_def answer_def sample_login_env_def sample_facts(3))

lemma sample_secret: "chap_response sample_hash (unat (7 :: byte)) (password_in (peer_account sample_sess)) (replicate 16 7) = sample_rsp"
  "sample_rsp \<noteq> chap_response sample_hash (unat (7 :: byte)) (take (password_length sample_sess) (sess_password sample_sess)) (replicate 16 7)"
  using sample_peer(6) by (simp_all add: sample_rsp_def sample_sess_def sample_session_def)

lemma sample_account: "peer_account sample_sess = sample_session"
  by (simp add: sample_sess_def)

lemma sample_honest_login:
  obtains s' c' where "iscsi_login sample_login_env sample_sess sample_context 8192 sample_events = Some (s', c')"
    and "ret c' = LOGIN_OK" "ctx_class c' = ISCSI_STATUS_CLS_SUCCESS"
proof -
  have env: "auth_env sample_login_env = sample_env" by (simp add: sample_login_env_def)
  have alg: "int 5 \<in> set (acl_init_chap_digests (auth_env sample_login_env) (chap_algs sample_sess))"
    using sample_digests by (simp add: env sample_sess_def del: acl_init_chap_digests.simps)
  show thesis
    using honest_login [OF sample_config alg sample_facts(4,1,2), of sample_login_env sample_login_env 7 "replicate 16 7"
        "[1, 2]" 17 sample_rsp sample_context sample_login_env]
      sample_facts(3,8,9) sample_bounds(6,7) sample_secret that
    unfolding env sample_account sample_events_def by auto
qed

lemma login_success:
  assumes run: "iscsi_login env s c m evs = Some (s', c')" and ret: "ret c' = LOGIN_OK" "ctx_class c' = ISCSI_STATUS_CLS_SUCCESS"
    and cfg: "auth_buffers s \<noteq> []" "bidirectional_auth s" "is_cstr (sess_username s)"
    and D: "digest_lengths D" "events_ok D evs"
  shows "login_inv D (peer_account s) (event_texts evs) s' \<and> current_stage (conn s') = ISCSI_FULL_FEATURE_PHASE"
    and "sess_password s \<noteq> [] \<Longrightarrow> hd (sess_password s) \<noteq> 0 \<Longrightarrow>
      passwd_data (auth_client_block s') = take (password_length s) (sess_password s)"
proof -
  let ?s = "upd_conn (exp_statsn_update (\<lambda>_. 0)) s" and ?c = "c\<lparr>bufsize := m\<rparr>"
  obtain s0 c0 failed where b: "iscsi_login_begin env ?s ?c = ((s0, c0), failed)" by (metis surj_pair)
  have nf: "\<not> failed"
    using run ret(1) b cfg(1) by (auto simp: iscsi_login_def iscsi_login_begin_def Let_def split: if_splits prod.splits)
  with run b have l: "login_loop False (s0, c0) evs = Some (s', c')" by (simp add: iscsi_login_def)
  have cfg': "auth_buffers ?s \<noteq> []" "bidirectional_auth ?s" "is_cstr (sess_username ?s)"
    using cfg by (simp_all add: upd_conn_def)
  note bi = login_begin_inv [OF b [unfolded eq_False [THEN iffD2, OF nf]] cfg']
  have k: "(login_inv D (peer_account s) (event_texts evs) s' \<and>
      acl_setup (auth_client_block s') = acl_setup (auth_client_block s0)) \<and> current_stage (conn s') = ISCSI_FULL_FEATURE_PHASE"
    using login_loop_inv [OF l, of D "peer_account ?s" "event_texts evs"] bi(1,2) D ret by simp
  then show "login_inv D (peer_account s) (event_texts evs) s' \<and> current_stage (conn s') = ISCSI_FULL_FEATURE_PHASE" by simp
  show "passwd_data (auth_client_block s') = take (password_length s) (sess_password s)"
    if "sess_password s \<noteq> []" "hd (sess_password s) \<noteq> 0"
    using bi(3) that acl_setupD(5) [OF k [THEN conjunct1, THEN conjunct2]] by (simp add: upd_conn_def)
qed

subsection \<open>Properties of the login\<close>

text \<open>C2. End-to-end soundness of a login with mutual authentication. Whatever the target sends: when
  \<open>iscsi_login\<close> returns success for a session that requires authentication of the target, the session
  is in the full feature phase, and the responses it received contained, as text keys, the user name
  configured for the target and a CHAP response that decodes to the digest of the identifier and the
  challenge chosen by the initiator under the target's secret.\<close>

theorem login_success_authenticated:
  assumes "iscsi_login env s c m evs = Some (s', c')" and "ret c' = LOGIN_OK" and "ctx_class c' = ISCSI_STATUS_CLS_SUCCESS"
    and "auth_buffers s \<noteq> []" and "bidirectional_auth s" and "is_cstr (sess_username s)"
    and "digest_lengths D" and "events_ok D evs"
    and "auth_client_block s' = a"
  shows "current_stage (conn s') = ISCSI_FULL_FEATURE_PHASE \<and>
    (\<exists>r H. key_in (event_texts evs) (3, r) \<and> key_in (event_texts evs) (2, username_in (peer_account s)) \<and>
       D (negotiated_chap_alg a) = Some H \<and>
       acl_text_to_data r AUTH_STR_MAX_LEN =
         (0, chap_response H (send_chap_identifier a) (password_in (peer_account s)) (challenge_bytes (send_chap_challenge a))))"
proof -
  note l = login_success(1) [OF assms(1-8)]
  then obtain tr where tr: "\<forall>kv \<in> set tr. key_in (event_texts evs) kv" "verified D (peer_account s) tr a"
    by (auto simp: login_inv_def stage_defs assms(9))
  then obtain r where "(3, r) \<in> set tr" "(2, username_in (peer_account s)) \<in> set tr"
      "response_ok D (peer_account s) a r (username_in (peer_account s))"
    by (auto simp: verified_def KEYS)
  with tr(1) l show ?thesis by (auto simp: response_ok_def)
qed

theorem login_success_authenticated_witness:
  "\<exists>s' c' r H. iscsi_login sample_login_env sample_sess sample_context 8192 sample_events = Some (s', c') \<and>
     ret c' = LOGIN_OK \<and> current_stage (conn s') = ISCSI_FULL_FEATURE_PHASE \<and> key_in (event_texts sample_events) (3, r) \<and>
     sample_digest (negotiated_chap_alg (auth_client_block s')) = Some H \<and>
     acl_text_to_data r AUTH_STR_MAX_LEN =
       (0, chap_response H (send_chap_identifier (auth_client_block s')) [1, 2, 3]
         (challenge_bytes (send_chap_challenge (auth_client_block s'))))"
proof -
  obtain s' c' where l: "iscsi_login sample_login_env sample_sess sample_context 8192 sample_events = Some (s', c')"
    "ret c' = LOGIN_OK" "ctx_class c' = ISCSI_STATUS_CLS_SUCCESS"
    by (rule sample_honest_login)
  have cfg: "auth_buffers sample_sess \<noteq> []" "bidirectional_auth sample_sess" "is_cstr (sess_username sample_sess)"
    and pw: "password_in (peer_account sample_sess) = [1, 2, 3]"
    by (simp_all add: sample_sess_def sample_descs_def sample_session_def)
  from login_success_authenticated [OF l cfg sample_facts(1) sample_events_ok refl] l(1,2) show ?thesis
    unfolding pw by blast
qed

subsection \<open>Digests\<close>

text \<open>A digest that is required stays required, one that is switched off stays off, and a choice is only
  narrowed.\<close>

definition digest_kept :: "32 word \<Rightarrow> 32 word \<Rightarrow> bool" where
  "digest_kept d d' \<longleftrightarrow> d' = d \<or>
     d' = ISCSI_DIGEST_NONE \<and> d \<noteq> ISCSI_DIGEST_CRC32C \<or> d' = ISCSI_DIGEST_CRC32C \<and> d \<noteq> ISCSI_DIGEST_NONE"

definition digests_kept :: "iscsi_session \<Rightarrow> iscsi_session \<Rightarrow> bool" where
  "digests_kept s t \<longleftrightarrow> digest_kept (hdrdgst_en (conn s)) (hdrdgst_en (conn t)) \<and>
     digest_kept (datadgst_en (conn s)) (datadgst_en (conn t))"

lemma digest_key_kept: "digest_key d v = Some d' \<Longrightarrow> digest_kept d d'"
  by (auto simp: digest_key_def digest_kept_def split: if_splits)

lemma digest_kept_trans: "digest_kept d e \<Longrightarrow> digest_kept e f \<Longrightarrow> digest_kept d f"
  by (auto simp: digest_kept_def ISCSI_DIGEST_NONE_def ISCSI_DIGEST_CRC32C_def)

definition conn_digests :: "iscsi_session \<Rightarrow> 32 word \<times> 32 word" where
  "conn_digests s = (hdrdgst_en (conn s), datadgst_en (conn s))"

lemma digests_same: "conn_digests t = conn_digests s \<Longrightarrow> digests_kept s t"
  by (simp add: conn_digests_def digests_kept_def digest_kept_def)

interpretation conn_digests: client_free_view conn_digests
  by unfold_locales (simp_all add: conn_digests_def upd_conn_def upd_acl_def)

lemma op_keys_digests:
  assumes "get_op_params_text_keys env s pos = (t, r)"
  shows "digests_kept s t"
proof -
  have same: "digests_kept s s" by (rule digests_same) simp
  have "digests_kept s (upd_conn (hdrdgst_en_update (\<lambda>_. d)) s)" if "digest_key (hdrdgst_en (conn s)) v = Some d" for v d
    using that digest_key_kept by (auto simp: digests_kept_def digest_kept_def upd_conn_def)
  moreover have "digests_kept s (upd_conn (datadgst_en_update (\<lambda>_. d)) s)" if "digest_key (datadgst_en (conn s)) v = Some d" for v d
    using that digest_key_kept by (auto simp: digests_kept_def digest_kept_def upd_conn_def)
  ultimately show ?thesis
    using assms same digests_same [OF conn_digests.view_param_value]
      digests_same [OF conn_digests.view_update_address]
    by (auto simp: get_op_params_text_keys_def redirect_key_def header_digest_key_def data_digest_key_def
        split: option.splits prod.splits if_splits)
qed

interpretation digest_scan: text_scan "\<lambda>_. True" digests_kept
proof unfold_locales
  show "digests_kept s t \<and> True" if "stage_text_keys env s pos = (t, r)" for env s pos t r
    using that op_keys_digests digests_same [OF conn_digests.view_security_keys] digests_same [of s s]
    by (auto simp: stage_text_keys_def split: if_splits)
qed (auto simp: digests_kept_def intro: digest_kept_trans, simp_all add: digest_kept_def)

subsection \<open>Texts\<close>

definition pair_text :: "string \<times> string \<Rightarrow> string" where
  "pair_text = (\<lambda>(k, v). k @ ''='' @ v @ [NUL])"

lemma add_texts_layout:
  assumes "add_texts m kvs (hdr, data) = Some (hdr', data')" and "m \<le> length data" and "m \<le> 2 ^ 24"
    and "ntoh24 (dlength hdr) \<le> m"
  shows "take (ntoh24 (dlength hdr')) data' = take (ntoh24 (dlength hdr)) data @ concat (map pair_text kvs) \<and>
    ntoh24 (dlength hdr') = ntoh24 (dlength hdr) + length (concat (map pair_text kvs)) \<and>
    drop (ntoh24 (dlength hdr')) data' = drop (ntoh24 (dlength hdr')) data \<and>
    length data' = length data \<and> (kvs \<noteq> [] \<longrightarrow> ntoh24 (dlength hdr') < m)"
  using assms
proof (induction kvs arbitrary: hdr data)
  case (Cons kv kvs)
  obtain k v where kv: "kv = (k, v)" by force
  let ?n = "ntoh24 (dlength hdr)" and ?t = "pair_text (k, v)"
  let ?h = "hdr\<lparr>dlength := hton24 (?n + length ?t)\<rparr>" and ?d = "overlay data ?n ?t"
  have lt: "?n + length ?t < m" and rest: "add_texts m kvs (?h, ?d) = Some (hdr', data')"
    using Cons.prems(1) by (auto simp: kv iscsi_add_text_def pair_text_def Let_def algebra_simps split: option.splits if_splits)
  have used: "ntoh24 (dlength ?h) = ?n + length ?t" using lt Cons.prems(3) by (simp add: ntoh24_hton24)
  have len: "length ?d = length data" using lt Cons.prems(2) by (simp add: length_overlay)
  have d: "take (?n + length ?t) ?d = take ?n data @ ?t" "drop i ?d = drop i data" if "?n + length ?t \<le> i" for i
    using lt that Cons.prems(2) by (simp_all add: overlay_def)
  have le: "ntoh24 (dlength ?h) \<le> m" using used lt by simp
  note ih = Cons.IH [OF rest _ Cons.prems(3) le, unfolded len, OF Cons.prems(2), unfolded used]
  have "drop (ntoh24 (dlength hdr')) ?d = drop (ntoh24 (dlength hdr')) data" using ih by (intro d(2)) simp
  with ih d(1) [OF order_refl] lt show ?case by (cases "kvs = []") (auto simp: kv)
qed simp

text \<open>C7. A login with a target that knows both secrets completes. For a session set up for mutual
  authentication, a buffer that holds the texts, and a target that answers the method, the algorithm
  and challenge, and the response it computes from the initiator's challenge, \<open>iscsi_login\<close> returns
  success with the session in the full feature phase.\<close>

theorem honest_login_full_feature:
  assumes "login_config env0 s m"
    and "int a \<in> set (acl_init_chap_digests (auth_env env0) (chap_algs s))" and "chap_rsp_len (int a) = Some n"
    and "digest_lengths D" and "D (int a) = Some H" and "EVP_digest (auth_env env2) = D" and "EVP_digest (auth_env env3) = D"
    and "RAND_bytes (auth_env env2) 0 1 = Some [ib]" and "RAND_bytes (auth_env env2) 1 n = Some rb" and "length rb = n"
    and "ch \<noteq> []" and "length ch \<le> AUTH_LARGE_BINARY_MAX_LEN" and "i \<le> 255"
    and "rsp = chap_response H (unat ib) (password_in (peer_account s)) rb"
    and "rsp \<noteq> chap_response H (unat ib) (take (password_length s) (sess_password s)) rb"
  shows "\<exists>s' c'. iscsi_login env0 s c m (target_answers env1 env2 env3 (peer_account s) a i ch rsp) = Some (s', c') \<and>
     ret c' = LOGIN_OK \<and> ctx_class c' = ISCSI_STATUS_CLS_SUCCESS \<and> current_stage (conn s') = ISCSI_FULL_FEATURE_PHASE"
  by (rule honest_login [OF assms, of c env1]) blast

theorem honest_login_full_feature_witness:
  "\<exists>s' c'. iscsi_login sample_login_env sample_sess sample_context 8192 sample_events = Some (s', c') \<and>
     ret c' = LOGIN_OK \<and> current_stage (conn s') = ISCSI_FULL_FEATURE_PHASE"
proof -
  have env: "auth_env sample_login_env = sample_env" by (simp add: sample_login_env_def)
  have alg: "int 5 \<in> set (acl_init_chap_digests (auth_env sample_login_env) (chap_algs sample_sess))"
    using sample_digests by (simp add: env sample_sess_def del: acl_init_chap_digests.simps)
  from honest_login_full_feature [OF sample_config alg sample_facts(4,1,2), of sample_login_env sample_login_env 7
      "replicate 16 7" "[1, 2]" 17 sample_rsp sample_context sample_login_env]
    sample_facts(3,8,9) sample_bounds(6,7) sample_secret show ?thesis
    unfolding env sample_account sample_events_def by auto
qed

text \<open>C16. The text of a response is the message. In the security stage, processing a response whose data
  segment renders a list of keys is the same as handing the keys and the T bit to the authentication
  client and ending the message; the response is accepted exactly when the client continues or
  passes, and then the stage follows the response.\<close>

theorem security_response_is_message:
  assumes "in_security s" and "auth_buffers s \<noteq> []"
    and "signature (auth_client_block s) = ACL_SIGNATURE" and "\<not> recv_in_progress_flag (auth_client_block s)"
    and "phase (auth_client_block s) \<in> {AUTH_PHASE_CONFIGURE, AUTH_PHASE_NEGOTIATE, AUTH_PHASE_AUTHENTICATE}"
    and "message_ok kvs" and "rsp_sanity s rsp = None"
    and "ntoh24 (rsp_dlength rsp) = length (render kvs)" and "length (render kvs) + 1 < m"
    and "acl_recv_end (auth_env env) (acl_recv_message (auth_client_block s) kvs (rsp_transit rsp))
      (Some (peer_account s)) = (e, status)"
  shows "iscsi_process_login_response env s rsp (recv_data m (render kvs)) m =
    (if status = AUTH_STATUS_CONTINUE \<or> status = AUTH_STATUS_PASS
     then (next_stage_rsp (record_rsp (upd_acl e s) rsp) rsp, LOGIN_OK)
     else (upd_acl (fst (acl_get_dbg_status e)) s, LOGIN_AUTHENTICATION_FAILED))"
  by (rule security_message [OF assms])

theorem security_response_is_message_witness:
  "\<exists>e. acl_recv_end sample_env (acl_recv_message sample_client [(0, ''CHAP'')] False) (Some sample_session) =
       (e, AUTH_STATUS_CONTINUE) \<and>
     iscsi_process_login_response sample_login_env (upd_acl sample_client sample_sess) (login_rsp 0 [(0, ''CHAP'')])
         (recv_data 8192 (render [(0, ''CHAP'')])) 8192 =
       (next_stage_rsp (record_rsp (upd_acl e sample_sess) (login_rsp 0 [(0, ''CHAP'')])) (login_rsp 0 [(0, ''CHAP'')]), LOGIN_OK)"
proof -
  have r: "ready sample_client"
    unfolding sample_client_def by (rule initiator_client_ready [OF sample_facts(5,7) sample_bounds(1-3) sample_facts(6)])
  obtain e where e: "acl_recv_end sample_env (acl_recv_message sample_client [(0, ''CHAP'')] False) (Some sample_session) =
       (e, AUTH_STATUS_CONTINUE)"
    using first_message_end [OF r sample_fields(3,10,13,11)] by blast
  let ?s = "upd_acl sample_client sample_sess" and ?kvs = "[(0, ''CHAP'')]"
  have s: "in_security ?s" "auth_buffers ?s \<noteq> []" "auth_client_block ?s = sample_client" "peer_account ?s = sample_session"
    "auth_env sample_login_env = sample_env" "current_stage (conn ?s) = ISCSI_SECURITY_NEGOTIATION_STAGE"
    by (simp_all add: in_security_def sample_sess_def sample_conn_def sample_descs_def sample_login_env_def
        ISCSI_SECURITY_NEGOTIATION_STAGE_def)
  have c: "signature sample_client = ACL_SIGNATURE" "\<not> recv_in_progress_flag sample_client"
    "phase sample_client \<in> {AUTH_PHASE_CONFIGURE, AUTH_PHASE_NEGOTIATE, AUTH_PHASE_AUTHENTICATE}"
    using r sample_fields(3) by (auto simp: ready_def cfg_ok_def)
  have len: "length (render ?kvs) = 16"
    by (simp add: render_def render_pair_def acl_get_key_name_def AUTH_KEY_TYPE_FIRST_def AUTH_KEY_TYPE_LAST_def
        AUTH_KEY_TYPE_MAX_COUNT_def)
  have sane: "rsp_sanity ?s (login_rsp 0 ?kvs) = None" using s(6) by (simp add: rsp_sanity_def)
  show ?thesis
    using security_response_is_message [OF s(1,2) _ _ _ honest_messages_ok(1) [of "[]"] sane, of 8192 sample_login_env e
        AUTH_STATUS_CONTINUE, unfolded s c(1)] c e len
    by (simp add: ntoh24_hton24)
qed

definition op_rsp :: "byte \<Rightarrow> string \<Rightarrow> login_rsp_hdr" where
  "op_rsp fl keys = (login_rsp fl [])\<lparr>rsp_dlength := hton24 (length keys)\<rparr>"

definition op_sess :: iscsi_session where
  "op_sess = sample_sess\<lparr>conn := sample_conn\<lparr>current_stage := 1, hdrdgst_en := ISCSI_DIGEST_CRC32C_NONE\<rparr>\<rparr>"

lemma rsp_stage_range: "0 \<le> rsp_current_stage rsp" "rsp_current_stage rsp \<le> 3" "0 \<le> rsp_next_stage rsp" "rsp_next_stage rsp \<le> 3"
proof -
  have "(w AND 3 :: byte) \<le> 3" for w by (rule word_and_le1)
  then have "uint (w AND 3 :: byte) \<le> 3" for w by (simp add: word_le_def)
  then show "rsp_next_stage rsp \<le> 3" "rsp_current_stage rsp \<le> 3"
    by (simp_all add: rsp_next_stage_def ISCSI_FLAG_LOGIN_NEXT_STAGE_MASK_def rsp_current_stage_def
        ISCSI_FLAG_LOGIN_CURRENT_STAGE_MASK_def)
qed (simp_all add: rsp_current_stage_def rsp_next_stage_def)

lemma op_rsp_stage:
  "rsp_transit (op_rsp 0x87 t)" "rsp_current_stage (op_rsp 0x87 t) = 1" "rsp_next_stage (op_rsp 0x87 t) = ISCSI_FULL_FEATURE_PHASE"
  "status_class (op_rsp fl t) = ISCSI_STATUS_CLS_SUCCESS" "active_version (op_rsp fl t) = ISCSI_DRAFT20_VERSION"
  "rsp_dlength (op_rsp fl t) = hton24 (length t)"
  by (simp_all add: op_rsp_def rsp_transit_def rsp_current_stage_def rsp_next_stage_def ISCSI_FULL_FEATURE_PHASE_def
      ISCSI_FLAG_LOGIN_TRANSIT_def ISCSI_FLAG_LOGIN_CURRENT_STAGE_MASK_def ISCSI_FLAG_LOGIN_NEXT_STAGE_MASK_def)

lemma recv_data_take: "length t < m \<Longrightarrow> take (length t + 1) (recv_data m t) = t @ [NUL]"
  by (cases "m - length t") (auto simp: recv_data_def)

lemma process_response_keeps:
  assumes "iscsi_process_login_response env s rsp data m = (s', LOGIN_OK)"
  obtains t where "rsp_sanity s rsp = None" "current_stage (conn t) = current_stage (conn s)" "digests_kept s t"
    "s' = next_stage_rsp (record_rsp t rsp) rsp"
proof -
  obtain s1 s2 s3 where sane: "rsp_sanity s rsp = None"
    and b: "(if in_security s then security_begin s (rsp_transit rsp) else (s, LOGIN_OK)) = (s1, LOGIN_OK)"
    and k: "scan_text env s1 (rsp_text rsp data) = (s2, LOGIN_OK)"
    and e: "(if in_security s2 then check_security_stage_status env s2 else (s2, LOGIN_OK)) = (s3, LOGIN_OK)"
    and s': "s' = next_stage_rsp (record_rsp s3 rsp) rsp"
    by (rule process_response_OK [OF assms])
  have "conn s1 = conn s"
    using b by (auto simp: security_begin_def upd_acl_def split: if_splits prod.splits)
  moreover have "conn s3 = conn s2"
    using e by (auto simp: check_security_stage_status_def upd_acl_def split: if_splits prod.splits)
  moreover have "digests_kept s1 s2" using digest_scan.scan_text_keeps [OF TrueI k] by simp
  moreover have "current_stage (conn s2) = current_stage (conn s1)"
  proof (cases "in_security s1")
    case True
    with scan_text_steps [OF this k] show ?thesis by (auto simp: key_steps_def session_frame_def)
  qed (use scan_text_frame [OF _ k] op_frameD(4) in blast)
  ultimately show thesis using that [OF sane _ _ s'] by (simp add: digests_kept_def)
qed

text \<open>C17. The login never goes back a stage. A successful response leaves the connection in the stage it
  was in, unless the T bit is set; with the T bit the stage is the next stage of the response, a later
  one, and never beyond the full feature phase.\<close>

theorem login_stage_advances:
  assumes "iscsi_process_login_response env s rsp data m = (s', LOGIN_OK)" and "status_class rsp = ISCSI_STATUS_CLS_SUCCESS"
  shows "current_stage (conn s) \<in> {0..3} \<and> current_stage (conn s') \<in> {0..3} \<and>
    (if rsp_transit rsp then current_stage (conn s) < current_stage (conn s') \<and> current_stage (conn s') = rsp_next_stage rsp
     else current_stage (conn s') = current_stage (conn s))"
proof -
  obtain t where sane: "rsp_sanity s rsp = None" and t: "current_stage (conn t) = current_stage (conn s)"
      "s' = next_stage_rsp (record_rsp t rsp) rsp"
    using process_response_keeps [OF assms(1)] by blast
  have le: "rsp_current_stage rsp \<in> {0..3}" "rsp_next_stage rsp \<in> {0..3}" by (simp_all add: rsp_stage_range)
  from sane assms(2) have "rsp_current_stage rsp = current_stage (conn s)"
    and "rsp_transit rsp \<Longrightarrow> current_stage (conn s) < rsp_next_stage rsp"
    by (auto simp: rsp_sanity_def split: if_splits)
  with le t show ?thesis by auto
qed

lemma op_sample:
  "iscsi_process_login_response sample_login_env op_sess (op_rsp 0x87 ''HeaderDigest=CRC32C'')
     (recv_data 8192 ''HeaderDigest=CRC32C'') 8192 =
   (next_stage_rsp (record_rsp (upd_conn (hdrdgst_en_update (\<lambda>_. ISCSI_DIGEST_CRC32C)) op_sess)
     (op_rsp 0x87 ''HeaderDigest=CRC32C'')) (op_rsp 0x87 ''HeaderDigest=CRC32C''), LOGIN_OK)"
proof -
  let ?r = "op_rsp 0x87 ''HeaderDigest=CRC32C''" and ?s = "upd_conn (hdrdgst_en_update (\<lambda>_. ISCSI_DIGEST_CRC32C)) op_sess"
  have l19: "length ''HeaderDigest=CRC32C'' = 19" by simp
  have len: "ntoh24 (rsp_dlength ?r) = 19" by (simp add: op_rsp_stage ntoh24_hton24)
  have sane: "rsp_sanity op_sess ?r = None" "\<not> in_security op_sess" "\<not> in_security ?s"
    by (simp_all add: rsp_sanity_def op_rsp_stage op_sess_def in_security_def upd_conn_def stage_defs)
  have "take (19 + 1) (recv_data 8192 ''HeaderDigest=CRC32C'') = ''HeaderDigest=CRC32C'' @ [NUL]"
    using recv_data_take [of "''HeaderDigest=CRC32C''" 8192, unfolded l19] by simp
  moreover have "scan_text sample_login_env op_sess (''HeaderDigest=CRC32C'' @ [NUL]) = (?s, LOGIN_OK)"
  proof -
    have "stage_text_keys sample_login_env op_sess (''HeaderDigest=CRC32C'' @ [NUL]) = (?s, Inr [NUL])"
      by (simp add: stage_text_keys_def get_op_params_text_keys_def op_keys_def iscsi_find_key_value_def op_sess_def
          header_digest_key_def digest_key_def stage_defs ISCSI_DIGEST_NONE_def ISCSI_DIGEST_CRC32C_NONE_def)
    moreover have "scan_text sample_login_env ?s [NUL] = (?s, LOGIN_OK)" by (subst scan_text.simps) simp
    ultimately show ?thesis by (subst scan_text.simps) (simp del: scan_text.simps)
  qed
  ultimately show ?thesis
    using len sane by (simp add: iscsi_process_login_response_def)
qed

theorem login_stage_advances_witness:
  "\<exists>s'. iscsi_process_login_response sample_login_env op_sess (op_rsp 0x87 ''HeaderDigest=CRC32C'')
     (recv_data 8192 ''HeaderDigest=CRC32C'') 8192 = (s', LOGIN_OK) \<and> current_stage (conn s') = ISCSI_FULL_FEATURE_PHASE"
  using login_stage_advances [OF op_sample] op_sample by (auto simp: op_rsp_stage)

text \<open>C19. A required digest is never given up. Whatever keys a response contains, when it is accepted a
  header or data digest the initiator requires stays CRC32C, one it has switched off stays off, and a
  digest it left open is decided for CRC32C or none.\<close>

theorem required_digests_kept:
  assumes "iscsi_process_login_response env s rsp data m = (s', LOGIN_OK)"
  shows "digests_kept s s'"
proof -
  obtain t where t: "digests_kept s t" "s' = next_stage_rsp (record_rsp t rsp) rsp"
    by (rule process_response_keeps [OF assms])
  have "conn_digests s' = conn_digests t"
    by (simp add: t(2) conn_digests_def next_stage_rsp_def record_rsp_def upd_conn_def Let_def)
  with t(1) show ?thesis by (simp add: digests_kept_def conn_digests_def)
qed

theorem required_digests_kept_witness:
  "\<exists>s'. iscsi_process_login_response sample_login_env op_sess (op_rsp 0x87 ''HeaderDigest=CRC32C'')
     (recv_data 8192 ''HeaderDigest=CRC32C'') 8192 = (s', LOGIN_OK) \<and> digests_kept op_sess s'"
  using required_digests_kept [OF op_sample] op_sample by blast

text \<open>A response that does not fit is refused and leaves the session as it was: one that is longer
  than the buffer, and a successful one for another protocol version, for another stage, or with a
  next stage that is not later than the present one.\<close>

theorem unfit_response_refused:
  assumes "ntoh24 (rsp_dlength rsp) + 1 \<ge> m \<or> status_class rsp = ISCSI_STATUS_CLS_SUCCESS \<and>
      (active_version rsp \<noteq> ISCSI_DRAFT20_VERSION \<or> rsp_current_stage rsp \<noteq> current_stage (conn s) \<or>
       rsp_transit rsp \<and> rsp_next_stage rsp \<le> current_stage (conn s))"
  shows "\<exists>status. iscsi_process_login_response env s rsp data m = (s, status) \<and>
     status \<in> {LOGIN_FAILED, LOGIN_VERSION_MISMATCH, LOGIN_INVALID_PDU}"
  using assms by (auto simp: iscsi_process_login_response_def rsp_sanity_def Let_def)


text \<open>C39. The reserved stage is a dead end. A target may end a stage with the reserved stage 2 as the next
  one: the response is accepted and the connection is in stage 2, but no request can be made there, so the
  login returns failure right after it, without sending anything, whatever would have come next.\<close>

theorem reserved_stage_fails:
  assumes "iscsi_login_rsp env s c (RECV_PDU rsp bytes) = ((s', c'), RSP_OK)" and "rsp_transit rsp" and "rsp_next_stage rsp = 2"
    and "\<not> have_auth_client c" and "\<not> final c"
  shows "current_stage (conn s') = 2 \<and>
    (\<exists>c2. login_loop True (s, c) (POLL env (POLL_READABLE (RECV_PDU rsp bytes)) # SEND ok # evs) = Some (s', c2) \<and>
       ret c2 = LOGIN_FAILED \<and> ctx_pdu c2 = ctx_pdu c)"
proof -
  obtain data m where p: "iscsi_process_login_response env s rsp data m = (s', LOGIN_OK)"
    and k: "ctx_pdu c' = ctx_pdu c" "\<not> have_auth_client c'"
    using assms(1,4,5) by (auto simp: iscsi_login_rsp_def check_status_login_response_def Let_def split: prod.splits if_splits)
  obtain t where "s' = next_stage_rsp (record_rsp t rsp) rsp" by (rule process_response_keeps [OF p])
  then have st: "current_stage (conn s') = 2" using assms(2,3) by simp
  have "iscsi_make_login_pdu s' data m = (s', None)" for data m
    using st by (simp add: iscsi_make_login_pdu_def stage_pdu_def stage_defs Let_def)
  then have "\<exists>c2. login_loop False (s', c') (SEND ok # evs) = Some (s', c2) \<and> ret c2 = LOGIN_FAILED \<and> ctx_pdu c2 = ctx_pdu c"
    using k by (simp add: iscsi_login_req_def Let_def)
  with st assms(1) show ?thesis by (simp add: stage_defs del: login_loop.simps(2))
qed

lemma reserved_sample:
  "\<exists>s' c'. iscsi_login_rsp sample_login_env op_sess (sample_context\<lparr>max_data_length := 8192\<rparr>) (RECV_PDU (op_rsp 0x86 []) []) =
     ((s', c'), RSP_OK)" "rsp_transit (op_rsp 0x86 t)" "rsp_next_stage (op_rsp 0x86 t) = 2"
proof -
  show r: "rsp_transit (op_rsp 0x86 t)" "rsp_next_stage (op_rsp 0x86 t) = 2" for t
    by (simp_all add: op_rsp_def rsp_transit_def rsp_next_stage_def ISCSI_FLAG_LOGIN_TRANSIT_def
        ISCSI_FLAG_LOGIN_NEXT_STAGE_MASK_def)
  have c: "rsp_current_stage (op_rsp 0x86 []) = 1"
    by (simp add: op_rsp_def rsp_current_stage_def ISCSI_FLAG_LOGIN_CURRENT_STAGE_MASK_def)
  have len: "ntoh24 (rsp_dlength (op_rsp 0x86 [])) = 0" by (simp add: op_rsp_stage ntoh24_hton24)
  have sane: "rsp_sanity op_sess (op_rsp 0x86 []) = None" "\<not> in_security op_sess"
    by (simp_all add: rsp_sanity_def op_rsp_stage r c op_sess_def in_security_def stage_defs)
  have "take 1 (recv_data 8192 []) = [NUL]" using recv_data_take [of "[]" 8192] by simp
  moreover have "scan_text sample_login_env op_sess [NUL] = (op_sess, LOGIN_OK)" by (subst scan_text.simps) simp
  ultimately have "\<exists>s'. iscsi_process_login_response sample_login_env op_sess (op_rsp 0x86 []) (recv_data 8192 []) 8192 = (s', LOGIN_OK)"
    using len sane by (simp add: iscsi_process_login_response_def)
  moreover have "rsp_opcode (op_rsp 0x86 []) = ISCSI_OP_LOGIN_RSP" by (simp add: op_rsp_def login_rsp_def)
  ultimately show "\<exists>s' c'. iscsi_login_rsp sample_login_env op_sess (sample_context\<lparr>max_data_length := 8192\<rparr>)
      (RECV_PDU (op_rsp 0x86 []) []) = ((s', c'), RSP_OK)"
    by (auto simp: iscsi_login_rsp_def check_status_login_response_def op_rsp_stage sample_context_def ISCSI_OP_LOGIN_RSP_def)
qed

theorem reserved_stage_fails_witness:
  "\<exists>s' c2. login_loop True (op_sess, sample_context\<lparr>max_data_length := 8192\<rparr>)
       [POLL sample_login_env (POLL_READABLE (RECV_PDU (op_rsp 0x86 []) [])), SEND True] = Some (s', c2) \<and>
     current_stage (conn s') = 2 \<and> ret c2 = LOGIN_FAILED"
proof -
  obtain s' c' where r: "iscsi_login_rsp sample_login_env op_sess (sample_context\<lparr>max_data_length := 8192\<rparr>)
      (RECV_PDU (op_rsp 0x86 []) []) = ((s', c'), RSP_OK)"
    using reserved_sample(1) by blast
  have "\<not> have_auth_client (sample_context\<lparr>max_data_length := 8192\<rparr>)" "\<not> final (sample_context\<lparr>max_data_length := 8192\<rparr>)"
    by (simp_all add: sample_context_def)
  from reserved_stage_fails [OF r reserved_sample(2,3) this, of True "[]"] show ?thesis by blast
qed

text \<open>C34. The texts of a request lie one after the other in the data segment. Adding a list of keys and
  values appends their texts to what the segment held, stays below the size of the buffer unless there was
  nothing to add, and leaves the bytes behind the segment as they were.\<close>

theorem request_text_layout:
  assumes "add_texts m kvs (hdr, data) = Some (hdr', data')" and "m \<le> length data" and "m \<le> 2 ^ 24"
    and "ntoh24 (dlength hdr) \<le> m"
  shows "take (ntoh24 (dlength hdr')) data' = take (ntoh24 (dlength hdr)) data @ concat (map pair_text kvs) \<and>
    drop (ntoh24 (dlength hdr')) data' = drop (ntoh24 (dlength hdr')) data \<and>
    length data' = length data \<and> (if kvs = [] then hdr' = hdr \<and> data' = data else ntoh24 (dlength hdr') < m)"
proof -
  have "hdr' = hdr \<and> data' = data" if "kvs = []" using that assms(1) by simp
  then have "if kvs = [] then hdr' = hdr \<and> data' = data else ntoh24 (dlength hdr') < m" using add_texts_layout [OF assms] by auto
  with add_texts_layout [OF assms] show ?thesis by blast
qed

lemma sample_bound: "64 \<le> length (replicate 64 NUL)" "(64 :: nat) \<le> 2 ^ 24"
  "ntoh24 (dlength (login_hdr_init sample_sess)) \<le> 64"
  by (simp_all add: login_hdr_init_def ntoh24_def)

lemma sample_small: "(64 :: nat) < 2 ^ 24"
  by simp

lemma sample_add:
  "\<exists>hdr data. add_texts 64 [(''SessionType'', ''Normal''), (''InitialR2T'', ''No'')] (login_hdr_init sample_sess, replicate 64 NUL) =
     Some (hdr, data)"
proof -
  have z: "pdu_used (login_hdr_init s, d) = 0" for s d
    by (simp add: pdu_used_def login_hdr_init_def ntoh24_def)
  show ?thesis
    using add_texts_used [of "(login_hdr_init sample_sess, replicate 64 NUL)"
        "[(''SessionType'', ''Normal''), (''InitialR2T'', ''No'')]" 64, OF _ sample_small]
    unfolding z by (simp del: add_texts.simps) blast
qed

lemma sample_pair_length: "length (pair_text (''SessionType'', ''Normal'')) = 19"
  by (simp add: pair_text_def)

theorem request_text_layout_witness:
  "\<exists>hdr data. add_texts 64 [(''SessionType'', ''Normal''), (''InitialR2T'', ''No'')] (login_hdr_init sample_sess, replicate 64 NUL) =
       Some (hdr, data) \<and>
     take (ntoh24 (dlength hdr)) data = ''SessionType=Normal'' @ [NUL] @ ''InitialR2T=No'' @ [NUL]"
proof -
  obtain hdr data where a: "add_texts 64 [(''SessionType'', ''Normal''), (''InitialR2T'', ''No'')]
      (login_hdr_init sample_sess, replicate 64 NUL) = Some (hdr, data)"
    using sample_add by blast
  have z: "ntoh24 (dlength (login_hdr_init sample_sess)) = 0" by (simp add: login_hdr_init_def ntoh24_def)
  have "take (ntoh24 (dlength hdr)) data = ''SessionType=Normal'' @ [NUL] @ ''InitialR2T=No'' @ [NUL]"
    using request_text_layout [OF a sample_bound, THEN conjunct1] by (simp add: z pair_text_def)
  with a show ?thesis by blast
qed

text \<open>C35. What a request offers can be read back. For every key of the list, \<open>iscsi_find_key_value\<close> at the
  place where its text starts finds the value that was added.\<close>

theorem request_text_round_trip:
  assumes "add_texts m (kvs @ (k, v) # rest) (hdr, data) = Some (hdr', data')" and "m \<le> length data" and "m \<le> 2 ^ 24"
    and "ntoh24 (dlength hdr) \<le> m" and "is_cstr k" and "is_cstr v"
  shows "iscsi_find_key_value k (drop (ntoh24 (dlength hdr) + length (concat (map pair_text kvs)))
       (take (ntoh24 (dlength hdr')) data')) = Some (v, NUL # concat (map pair_text rest))"
proof -
  let ?n = "ntoh24 (dlength hdr)" and ?p = "concat (map pair_text kvs)"
  have "take (ntoh24 (dlength hdr')) data' = (take ?n data @ ?p) @ pair_text (k, v) @ concat (map pair_text rest)"
    using add_texts_layout [OF assms(1-4), THEN conjunct1] by simp
  moreover have "length (take ?n data @ ?p) = ?n + length ?p" using assms(2,4) by simp
  ultimately have "drop (?n + length ?p) (take (ntoh24 (dlength hdr')) data') = pair_text (k, v) @ concat (map pair_text rest)"
    by (metis append_eq_conv_conj)
  with assms(5,6) show ?thesis by (simp add: find_key_value_Some pair_text_def)
qed

theorem request_text_round_trip_witness:
  "\<exists>hdr data. add_texts 64 [(''SessionType'', ''Normal''), (''InitialR2T'', ''No'')] (login_hdr_init sample_sess, replicate 64 NUL) =
       Some (hdr, data) \<and>
     iscsi_find_key_value ''InitialR2T'' (drop 19 (take (ntoh24 (dlength hdr)) data)) = Some (''No'', [NUL])"
proof -
  obtain hdr data where a: "add_texts 64 ([(''SessionType'', ''Normal'')] @ (''InitialR2T'', ''No'') # [])
      (login_hdr_init sample_sess, replicate 64 NUL) = Some (hdr, data)"
    using sample_add by (auto simp del: add_texts.simps)
  have z: "ntoh24 (dlength (login_hdr_init sample_sess)) = 0" by (simp add: login_hdr_init_def ntoh24_def)
  have "iscsi_find_key_value ''InitialR2T'' (drop 19 (take (ntoh24 (dlength hdr)) data)) = Some (''No'', [NUL])"
    using request_text_round_trip [OF a sample_bound] by (simp add: z sample_pair_length)
  with a show ?thesis by auto
qed

subsection \<open>The redirection address\<close>

text \<open>C36. Every form of a redirection address with a port is taken apart as written: a host name or
  IPv4 address, or an IPv6 address in brackets, a port, and the portal group tag where there is one;
  a host name alone gets the iSCSI port.\<close>

theorem redirect_address_parsed:
  assumes "plain host" and "plain port" and "plain tag" and "bracketed v6"
  shows "parse_address host = Some (host, ''3260'', None) \<and>
    parse_address (host @ '':'' @ port) = Some (host, port, None) \<and>
    parse_address (host @ '':'' @ port @ '','' @ tag) = Some (host, port, Some tag) \<and>
    parse_address (''['' @ v6 @ '']:'' @ port) = Some (v6, port, None) \<and>
    parse_address (''['' @ v6 @ '']:'' @ port @ '','' @ tag) = Some (v6, port, Some tag)"
proof -
  note h = plainD [OF assms(1)] and p = plainD [OF assms(2)] and t = plainD [OF assms(3)] and v = bracketedD [OF assms(4)]
  have host: "(case host of c # r \<Rightarrow> if c = CHR ''['' then f c r else Some (host, q, tg) | [] \<Rightarrow> Some (host, q, tg)) =
      Some (host, q, tg)" for f q tg
    using h by (cases host) auto
  have 1: "parse_address host = Some (host, ''3260'', None)"
    using h udec_3260 by (cases host) (auto simp: parse_address_def split_last_none Let_def)
  have c1: "split_last CHR '','' (host @ '':'' @ port) = (host @ '':'' @ port, None)"
    using h p by (intro split_last_none) auto
  have 2: "parse_address (host @ '':'' @ port) = Some (host, port, None)"
    using p host split_last_found [of "CHR '':''" port host] unfolding parse_address_def c1 by simp
  have c3: "split_last CHR '','' (host @ '':'' @ port @ '','' @ tag) = (host @ '':'' @ port, Some tag)"
    using t split_last_found [of "CHR '',''" tag "host @ '':'' @ port"] by simp
  have 3: "parse_address (host @ '':'' @ port @ '','' @ tag) = Some (host, port, Some tag)"
    using p host split_last_found [of "CHR '':''" port host] unfolding parse_address_def c3 by simp
  have b: "strchr_from (''['' @ v6 @ '']'') CHR '']'' 0 = Some (Suc (length v6))"
    using v strchr_from_first [of "CHR '']''" "CHR ''['' # v6" "[]" 0] by simp
  have b2: "split_last CHR '':'' (''['' @ v6 @ '']:'' @ port) = (''['' @ v6 @ '']'', Some port)"
    using p split_last_found [of "CHR '':''" port "''['' @ v6 @ '']''"] by simp
  have c4: "split_last CHR '','' (''['' @ v6 @ '']:'' @ port) = (''['' @ v6 @ '']:'' @ port, None)"
    using v p by (intro split_last_none) auto
  have 4: "parse_address (''['' @ v6 @ '']:'' @ port) = Some (v6, port, None)"
    using b b2 unfolding parse_address_def c4 by simp
  have c5: "split_last CHR '','' (''['' @ v6 @ '']:'' @ port @ '','' @ tag) = (''['' @ v6 @ '']:'' @ port, Some tag)"
    using t split_last_found [of "CHR '',''" tag "''['' @ v6 @ '']:'' @ port"] by simp
  have 5: "parse_address (''['' @ v6 @ '']:'' @ port @ '','' @ tag) = Some (v6, port, Some tag)"
    using b b2 unfolding parse_address_def c5 by simp
  from 1 2 3 4 5 show ?thesis by blast
qed

theorem redirect_address_parsed_witness:
  "parse_address ''10.0.0.1:3261,2'' = Some (''10.0.0.1'', ''3261'', Some ''2'') \<and>
   parse_address ''[fe80::1]:860'' = Some (''fe80::1'', ''860'', None)"
  using redirect_address_parsed [of "''10.0.0.1''" "''3261''" "''2''" "''fe80::1''"]
    redirect_address_parsed [of "''10.0.0.1''" "''860''" "''2''" "''fe80::1''"]
  by (simp add: plain_def bracketed_def)

text \<open>C37. An IPv6 address in brackets without a port is not understood: its last colon is taken for the
  port separator, the bracket is then missing, and the redirection is refused.\<close>

theorem redirect_ipv6_needs_port:
  assumes "bracketed v6" and "CHR '':'' \<in> set v6"
  shows "iscsi_update_address env s (''['' @ v6 @ '']'') = (s, False)"
proof -
  note v = bracketedD [OF assms(1)]
  obtain a b where ab: "v6 = a @ CHR '':'' # b" "CHR '':'' \<notin> set b" using assms(2) by (metis split_list_last)
  have 1: "split_last CHR '','' (''['' @ v6 @ '']'') = (''['' @ v6 @ '']'', None)"
    using v by (intro split_last_none) auto
  have 2: "split_last CHR '':'' (''['' @ v6 @ '']'') = (''['' @ a, Some (b @ '']''))"
    using ab split_last_found [of "CHR '':''" "b @ '']''" "''['' @ a"] by simp
  have 3: "strchr_from (''['' @ a) CHR '']'' 0 = None" using v ab by (intro strchr_from_none) auto
  have "parse_address (''['' @ v6 @ '']'') = None" using 2 3 unfolding parse_address_def 1 by simp
  then show ?thesis unfolding iscsi_update_address_def by simp
qed

theorem redirect_ipv6_needs_port_witness:
  "iscsi_update_address sample_login_env sample_sess ''[fe80::1]'' = (sample_sess, False)"
  using redirect_ipv6_needs_port [of "''fe80::1''" sample_login_env sample_sess] by (simp add: bracketed_def)

subsection \<open>What a login leaves in the client\<close>

text \<open>C40. The password stays in memory after a login. The login code means to clear the authentication client with
  \<open>acl_finish\<close> when it is done, but the pointer it tests, \<open>c->auth_client\<close>, is never set: after a login that
  succeeded the client still holds the password of the initiator, in the clear, which the call would
  have erased.\<close>

theorem password_kept_after_login:
  assumes "iscsi_login env s c m evs = Some (s', c')" and "ret c' = LOGIN_OK" and "ctx_class c' = ISCSI_STATUS_CLS_SUCCESS"
    and "auth_buffers s \<noteq> []" and "bidirectional_auth s" and "is_cstr (sess_username s)"
    and "digest_lengths D" and "events_ok D evs" and "sess_password s \<noteq> []" and "hd (sess_password s) \<noteq> 0"
  shows "passwd_data (auth_client_block s') = take (password_length s) (sess_password s) \<and>
    passwd_data (fst (acl_finish (auth_client_block s'))) = []"
proof -
  obtain tr where "acl_run D (peer_account s) tr (auth_client_block s')"
    using login_success(1) [OF assms(1-8)] by (auto simp: login_inv_def)
  then have "signature (auth_client_block s') = ACL_SIGNATURE" using acl_invD(5) acl_run_inv assms(7) by blast
  then have "passwd_data (fst (acl_finish (auth_client_block s'))) = []" by (simp add: acl_finish_def acl_zero_def)
  with login_success(2) [OF assms(1-10)] show ?thesis by simp
qed

theorem password_kept_after_login_witness:
  "\<exists>s' c'. iscsi_login sample_login_env sample_sess sample_context 8192 sample_events = Some (s', c') \<and>
     passwd_data (auth_client_block s') = replicate 12 9"
proof -
  obtain s' c' where l: "iscsi_login sample_login_env sample_sess sample_context 8192 sample_events = Some (s', c')"
    "ret c' = LOGIN_OK" "ctx_class c' = ISCSI_STATUS_CLS_SUCCESS"
    by (rule sample_honest_login)
  have cfg: "auth_buffers sample_sess \<noteq> []" "bidirectional_auth sample_sess" "is_cstr (sess_username sample_sess)"
    and pw: "sess_password sample_sess = replicate 12 9" "password_length sample_sess = 12"
    by (simp_all add: sample_sess_def sample_descs_def)
  have "passwd_data (auth_client_block s') = take 12 (replicate 12 9)"
    using password_kept_after_login [OF l cfg sample_facts(1) sample_events_ok] by (simp add: pw)
  with l(1) show ?thesis by simp
qed

end
