(* ===== verification/Session_Login.thy ===== *)
theory Session_Login
  imports Session_Auth Login_Properties
begin

text \<open>
  The daemon's login by events and the blocking login of \<open>usr/login.c\<close>. \<open>arrivals\<close> are the events by which the responses of a
  target reach a session and \<open>exchange\<close> the same responses as the blocking \<open>iscsi_login\<close> reads them; \<open>loop_response\<close> and
  \<open>loop_request\<close> take its loop apart, and \<open>arrivals_reach\<close> follows it with the events. \<open>daemon_logs_in\<close>: where the blocking
  login succeeds, the session whose connection is being polled reaches the full feature phase with the same parameters.
\<close>

subsection \<open>The daemon and the blocking login\<close>

text \<open>Surroundings in which nothing fails: a context for the event, the kernel takes every parameter, binds and starts
  the connection and sends PDUs.\<close>

definition grants :: "kenv \<Rightarrow> bool" where
  "grants env \<longleftrightarrow> k_fits env \<and> k_read_ok env \<and> k_send_ok env \<and> (\<forall>p. k_set_param env p = 0) \<and> (\<forall>v. k_host_param env v = 0) \<and>
     \<not> fst (k_start env) \<and> snd (k_start env) = 0 \<and> \<not> fst (k_bind env) \<and> snd (k_bind env) = 0 \<and>
     (\<forall>b. fst (k_create_session env b) = 0) \<and> fst (k_create_conn env) = 0 \<and> kernel_obeys env"

text \<open>A response arrives: the message of the kernel, and the actor it queues. The same response for the blocking login.\<close>

definition arrival :: "kenv \<Rightarrow> (kenv \<times> session_event) list" where
  "arrival env = [(env, Kernel_event KEVENT_RECV_PDU), (env, Run_actor (Ev_actor 0))]"

definition arrivals :: "kenv list \<Rightarrow> (kenv \<times> session_event) list" where
  "arrivals envs = concat (map arrival envs)"

definition exchange :: "kenv list \<Rightarrow> login_event list" where
  "exchange envs = concat (map (\<lambda>env. [SEND True, POLL (k_login env) (POLL_READABLE (k_recv env))]) envs)"

definition pool_ready :: "sess \<Rightarrow> bool" where
  "pool_ready s \<longleftrightarrow> (\<exists>c cs. context_pool s = Some c # cs \<and> \<not> allocated c)"

lemma set_param_loop_grants: "(\<And>p. f p = 0) \<Longrightarrow> \<not> snd (set_param_loop f m nop tbl s)"
proof (induction tbl arbitrary: s)
  case (Cons r tbl)
  then show ?case by (cases r) (simp add: Let_def ENOSYS_def)
qed simp

lemma host_param_loop_grants: "(\<And>v. f v = 0) \<Longrightarrow> \<not> snd (host_param_loop f vs s)"
  by (induction vs arbitrary: s) (simp_all add: Let_def host_set_param_fails_def)

lemma params_granted:
  "grants env \<Longrightarrow> iscsi_session_set_neg_params (k_set_param env) s = (t, f) \<Longrightarrow> \<not> f"
  "grants env \<Longrightarrow> iscsi_session_set_params (k_set_param env) b s = (t, f) \<Longrightarrow> \<not> f"
  "grants env \<Longrightarrow> iscsi_host_set_params (k_host_param env) s = (t, f) \<Longrightarrow> \<not> f"
  using set_param_loop_grants [of "k_set_param env"] host_param_loop_grants [of "k_host_param env"]
  unfolding grants_def iscsi_session_set_neg_params_def iscsi_session_set_params_def iscsi_host_set_params_def Let_def
  by (metis snd_conv)+

text \<open>What the two events of an arrival come to.\<close>

definition arrived :: "sess \<Rightarrow> sess" where
  "arrived s = s\<lparr>context_pool := Some (fresh_context\<lparr>allocated := True\<rparr>) # tl (context_pool s),
     trace := trace s @ [ACT (Ev_actor 0) A_RESET, ACT (Ev_actor 0) A_INIT, ACT (Ev_actor 0) A_SCHEDULE, ACT (Ev_actor 0) A_RUN],
     recv_context := Some 0\<rparr>"

lemma arrival_run:
  assumes "pool_ready s" "\<not> freed s" "c_state s = ISCSI_CONN_STATE_IN_LOGIN" "k_fits env" "k_read_ok env"
  shows "session_run (arrival env) s = iscsi_recv_login_rsp env (arrived s)"
proof -
  obtain c cs where p: "context_pool s = Some c # cs" "\<not> allocated c" using assms(1) by (auto simp: pool_ready_def)
  let ?c = "c\<lparr>allocated := True, ev_data := Data_none, ev_pending := Some (EV_CONN_RECV_PDU, 0)\<rparr>"
  let ?t = "s\<lparr>context_pool := Some ?c # cs, trace := trace s @ [ACT (Ev_actor 0) A_RESET, ACT (Ev_actor 0) A_INIT, ACT (Ev_actor 0) A_SCHEDULE]\<rparr>"
  have 1: "session_step env (Kernel_event KEVENT_RECV_PDU) s = ?t"
    using p assms(4,5) by (simp add: ctldev_handle_def iscsi_ev_context_get_def upd_context_def set_ev_data_def pend_def emit_def)
  have c: "?c\<lparr>ev_pending := None\<rparr> = fresh_context\<lparr>allocated := True\<rparr>" by (cases c) (simp add: fresh_context_def)
  have "session_step env (Run_actor (Ev_actor 0)) ?t = iscsi_recv_login_rsp env (arrived s)"
    using assms(3) c by (simp add: upd_context_def emit_def session_conn_recv_pdu_def arrived_def p)
  with 1 assms(2) show ?thesis by (simp add: arrival_def)
qed

lemma session_run_append: "session_run (evs @ evs') s = session_run evs' (session_run evs s)"
  by (induction evs s rule: session_run.induct) simp_all

lemma exchange_Cons: "exchange (env # envs) = SEND True # POLL (k_login env) (POLL_READABLE (k_recv env)) # exchange envs"
  by (simp add: exchange_def)

text \<open>The loop of the blocking login succeeds only by a response that is taken: it is the last, or a request follows.\<close>

lemma loop_response:
  assumes "login_loop True (l, c) (POLL e (POLL_READABLE (RECV_PDU rsp bytes)) # exchange envs) = Some (l', c')"
    and "ret c' = LOGIN_OK" "ctx_class c' = ISCSI_STATUS_CLS_SUCCESS" and c: "\<not> have_auth_client c" "\<not> final c"
  obtains l1 c1 where "iscsi_login_rsp e l c (RECV_PDU rsp bytes) = ((l1, c1), RSP_OK)"
      "current_stage (conn l1) = ISCSI_FULL_FEATURE_PHASE" "l' = l1"
  | (more) l1 c1 env envs' where "iscsi_login_rsp e l c (RECV_PDU rsp bytes) = ((l1, c1), RSP_OK)"
      "current_stage (conn l1) \<noteq> ISCSI_FULL_FEATURE_PHASE" "envs = env # envs'"
      "login_loop False (l1, c1) (exchange (env # envs')) = Some (l', c')"
proof -
  obtain l1 c1 r where r: "iscsi_login_rsp e l c (RECV_PDU rsp bytes) = ((l1, c1), r)" by (metis surj_pair)
  note cs = login_rsp_cases [OF r c]
  have "r \<noteq> RSP_EAGAIN" using r by (auto simp: iscsi_login_rsp_def Let_def split: prod.splits if_splits)
  moreover have "r \<noteq> RSP_FAIL" using assms(1-3) cs(3) r by auto
  ultimately have k: "r = RSP_OK" by (cases r) auto
  have loop: "(if current_stage (conn l1) \<noteq> ISCSI_FULL_FEATURE_PHASE then login_loop False (l1, c1) (exchange envs)
      else Some (finish_auth (with_ret LOGIN_OK (l1, c1)))) = Some (l', c')"
    using assms(1) r k by simp
  show thesis
  proof (cases "current_stage (conn l1) = ISCSI_FULL_FEATURE_PHASE")
    case True
    with loop cs(1) have "l' = l1" by (simp add: with_ret_def)
    with that(1) r k True show thesis by simp
  next
    case False
    with loop obtain env envs' where "envs = env # envs'" by (cases envs) (auto simp: exchange_def)
    with that(2) r k False loop show thesis by simp
  qed
qed

lemma loop_request:
  assumes "login_loop False (l, c) (exchange (env # envs)) = Some (l', c')" and "ret c' = LOGIN_OK" and "\<not> have_auth_client c"
  obtains l1 c1 where "iscsi_login_req l c True = ((l1, c1), False)" "\<not> have_auth_client c1" "\<not> final c1"
    "login_loop True (l1, c1) (POLL (k_login env) (POLL_READABLE (k_recv env)) # exchange envs) = Some (l', c')"
proof -
  obtain l1 c1 f where r: "iscsi_login_req l c True = ((l1, c1), f)" by (metis surj_pair)
  note cs = login_req_cases [OF r assms(3)]
  have "\<not> f" using assms(1,2) cs(2) r by (auto simp: exchange_Cons)
  with that [OF _ cs(1,3)] assms(1) r show thesis by (simp add: exchange_Cons)
qed

lemma setup_full_granted:
  assumes "in_login s q" "grants env"
  shows "c_state (setup_full_feature_phase env s) = ISCSI_CONN_STATE_LOGGED_IN" "login (setup_full_feature_phase env s) = login s"
    "\<not> freed (setup_full_feature_phase env s)" "logout_qtask (setup_full_feature_phase env s) = None"
proof -
  obtain t failed where t: "iscsi_session_set_neg_params (k_set_param env) (delete_login_timer s) = (t, failed)" by force
  have f: "\<not> failed" by (rule params_granted(1) [OF assms(2) t])
  note x = param_ext_ok [OF set_neg_params_ext [OF t]]
  have pre: "login_pre t q" using x(1) [of q] assms(1) by (simp add: in_login_def)
  then have u: "\<not> freed t" "logout_qtask t = None" "conn_id t = 0" by (simp_all add: login_pre_def)
  have l: "login t = login s" using x(6) by (simp add: delete_login_timer_def)
  have k: "\<not> fst (k_start env)" "snd (k_start env) = 0" using assms(2) by (simp_all add: grants_def)
  have sc: "c_state (session_scan_host env q' v) = c_state v" "login (session_scan_host env q' v) = login v"
    "freed (session_scan_host env q' v) = freed v" "logout_qtask (session_scan_host env q' v) = logout_qtask v"
    "c_state (mgmt_ipc_write_rsp q' e v) = c_state v" "login (mgmt_ipc_write_rsp q' e v) = login v"
    "freed (mgmt_ipc_write_rsp q' e v) = freed v" "logout_qtask (mgmt_ipc_write_rsp q' e v) = logout_qtask v" for q' e v
    by (simp_all add: session_scan_host_def write_rsp_eq)
  have "c_state r = ISCSI_CONN_STATE_LOGGED_IN \<and> login r = login s \<and> \<not> freed r \<and> logout_qtask r = None"
    if "r = setup_full_feature_phase env s" for r
    unfolding that setup_full_feature_phase_def t Let_def prod.case
    by (simp add: f k start_nop_out_timer_def finish_login_def sc u l)
  then show "c_state (setup_full_feature_phase env s) = ISCSI_CONN_STATE_LOGGED_IN" "login (setup_full_feature_phase env s) = login s"
    "\<not> freed (setup_full_feature_phase env s)" "logout_qtask (setup_full_feature_phase env s) = None"
    by simp_all
qed

text \<open>A session that is logging in, with a context at hand for the next response.\<close>

definition ready_login :: "sess \<Rightarrow> queue_task \<Rightarrow> bool" where
  "ready_login s q \<longleftrightarrow> in_login s q \<and> pool_ready s \<and> \<not> have_auth_client (login_ctx s) \<and> \<not> final (login_ctx s)"

lemma pools_Cons:
  "pool_ok (x # cs) \<longleftrightarrow> pool_ok [x] \<and> pool_ok cs" "polls_ok q (x # cs) \<longleftrightarrow> polls_ok q [x] \<and> polls_ok q cs"
  unfolding pool_ok_def polls_ok_def list.set by blast+

lemma arrived_in_login: "in_login s q \<Longrightarrow> pool_ready s \<Longrightarrow> in_login (arrived s) q"
proof -
  assume i: "in_login s q" and p: "pool_ready s"
  obtain c cs where c: "context_pool s = Some c # cs" using p by (auto simp: pool_ready_def)
  have "pool_ok (Some c # cs)" "polls_ok q (Some c # cs)" using i by (simp_all add: in_login_def login_pre_def c)
  then have "pool_ok (Some (fresh_context\<lparr>allocated := True\<rparr>) # cs)" "polls_ok q (Some (fresh_context\<lparr>allocated := True\<rparr>) # cs)"
    using pools_Cons(1) [of _ cs] pools_Cons(2) [of q _ cs]
    by (simp_all add: pool_ok_def [of "[_]"] polls_ok_def [of _ "[_]"] fresh_context_def)
  moreover have "context_pool (arrived s) = Some (fresh_context\<lparr>allocated := True\<rparr>) # cs" by (simp add: arrived_def c)
  ultimately have "pool_ok (context_pool (arrived s))" "polls_ok q (context_pool (arrived s))" by simp_all
  with i show ?thesis
    by (auto simp: arrived_def in_login_def login_pre_def stage_task_def initial_login_def timer_for_def)
qed

lemma arrival_taken:
  assumes s: "ready_login s q" and g: "grants env" and r: "iscsi_login_rsp (k_login env) (login s) (login_ctx s) (k_recv env) = ((l1, c1), RSP_OK)"
    and pdu: "k_recv env \<noteq> RECV_EAGAIN"
  obtains t where "session_run (arrival env) s = recv_next_stage env t" "in_login t q" "pool_ready t" "login t = l1" "login_ctx t = c1"
    "answers (trace t) = answers (trace s)" "r_stage t = r_stage s"
proof -
  define t where "t = recv_pdu_end ((arrived s)\<lparr>login := l1, login_ctx := c1\<rparr>)"
  have i: "in_login s q" "pool_ready s" using s by (simp_all add: ready_login_def)
  have f: "\<not> freed s" "c_state s = ISCSI_CONN_STATE_IN_LOGIN" using i(1) by (simp_all add: in_login_def login_pre_def)
  have e: "recv_login_pdu env (arrived s) = (t, False)"
    using r pdu by (simp add: recv_login_pdu_def arrived_def t_def)
  have run: "running j (arrived s)" if "recv_context (arrived s) = Some j" for j
    using that by (simp add: arrived_def running_def fresh_context_def)
  show thesis
  proof (rule that [of t])
    show "session_run (arrival env) s = recv_next_stage env t"
      using arrival_run [OF i(2) f] g e by (simp add: grants_def iscsi_recv_login_rsp_def)
    show "in_login t q" by (rule login_rsp_ok(1) [OF e arrived_in_login [OF i] run])
    show "answers (trace t) = answers (trace s)"
      using login_rsp_ok(2) [OF e arrived_in_login [OF i] run] by (simp add: arrived_def)
    show "pool_ready t" "r_stage t = r_stage s"
      by (simp_all add: t_def arrived_def recv_pdu_end_def put_eq put_pool_def pool_ready_def)
  qed (simp_all add: t_def)
qed

lemma login_req_granted:
  assumes r: "iscsi_login_req (login s) (login_ctx s) True = ((l1, c1), False)" and g: "grants env" and i: "in_login s q" "pool_ready s"
    and c: "\<not> have_auth_client c1" "\<not> final c1"
  obtains t where "send_login_pdu env (s\<lparr>c_state := ISCSI_CONN_STATE_IN_LOGIN\<rparr>) = (t, False)" "ready_login t q" "login t = l1" "login_ctx t = c1"
    "answers (trace t) = answers (trace s)" "r_stage t = r_stage s"
proof -
  let ?t = "emit SEND_LOGIN (s\<lparr>c_state := ISCSI_CONN_STATE_IN_LOGIN, login := l1, login_ctx := c1\<rparr>)"
  have e: "send_login_pdu env (s\<lparr>c_state := ISCSI_CONN_STATE_IN_LOGIN\<rparr>) = (?t, False)"
    using r g by (simp add: send_login_pdu_def grants_def)
  show thesis
    by (rule that [OF e]) (use i c in \<open>simp_all add: ready_login_def in_login_def pool_ready_def\<close>)
qed

definition session_reaches :: "(kenv \<times> session_event) list \<Rightarrow> sess \<Rightarrow> queue_task \<Rightarrow> iscsi_session \<Rightarrow> bool" where
  "session_reaches evs s q l \<longleftrightarrow> (let t = session_run evs s in
     c_state t = ISCSI_CONN_STATE_LOGGED_IN \<and> \<not> freed t \<and> login t = l \<and>
     mset (answers (trace t)) = mset (answers (trace s)) + mset (task_list (Some q)))"

lemma arrivals_Cons: "arrivals (env # envs) = arrival env @ arrivals envs"
  by (simp add: arrivals_def)

lemma arrival_last:
  assumes s: "ready_login s q" and g: "grants env" and r: "iscsi_login_rsp (k_login env) (login s) (login_ctx s) (k_recv env) = ((l1, c1), RSP_OK)"
    and pdu: "k_recv env \<noteq> RECV_EAGAIN" and st: "current_stage (conn l1) = ISCSI_FULL_FEATURE_PHASE"
  shows "session_reaches (arrival env) s q l1"
proof -
  obtain t where t: "session_run (arrival env) s = recv_next_stage env t" "in_login t q" "login t = l1"
    "answers (trace t) = answers (trace s)" using arrival_taken [OF s g r pdu] by metis
  let ?u = "setup_full_feature_phase env t"
  note f = setup_full_granted [OF t(2) g]
  have k: "kernel_obeys env" using g by (simp add: grants_def)
  have "owed ?u = []" using f by (simp add: owed_def login_task_def)
  with setup_full_ok [OF in_login_parts [OF t(2)] k] have "mset (answers (trace ?u)) = mset (answers (trace t)) + mset (task_list (Some q))"
    by (simp add: step_ok_def)
  moreover have "session_run (arrival env) s = ?u" using t(1,3) st by (simp add: recv_next_stage_def)
  ultimately show ?thesis using f t(3,4) by (simp add: session_reaches_def Let_def)
qed

lemma arrival_more:
  assumes s: "ready_login s q" and g: "grants env" and r: "iscsi_login_rsp (k_login env) (login s) (login_ctx s) (k_recv env) = ((l1, c1), RSP_OK)"
    and pdu: "k_recv env \<noteq> RECV_EAGAIN" and st: "current_stage (conn l1) \<noteq> ISCSI_FULL_FEATURE_PHASE"
    and rq: "iscsi_login_req l1 c1 True = ((l2, c2), False)" "\<not> have_auth_client c2" "\<not> final c2"
  obtains t where "session_run (arrival env) s = t" "ready_login t q" "login t = l2" "login_ctx t = c2" "answers (trace t) = answers (trace s)"
proof -
  obtain t where t: "session_run (arrival env) s = recv_next_stage env t" "in_login t q" "pool_ready t" "login t = l1" "login_ctx t = c1"
    "answers (trace t) = answers (trace s)" using arrival_taken [OF s g r pdu] by metis
  obtain u where u: "send_login_pdu env (t\<lparr>c_state := ISCSI_CONN_STATE_IN_LOGIN\<rparr>) = (u, False)" "ready_login u q" "login u = l2" "login_ctx u = c2"
    "answers (trace u) = answers (trace t)"
    using login_req_granted [of t l2 c2 env q] rq g t(2-5) by metis
  have "session_run (arrival env) s = u" using t(1,4) u(1) st by (simp add: recv_next_stage_def)
  with that u(2-5) t(6) show thesis by simp
qed

lemma arrivals_reach:
  assumes "ready_login s q" and "\<forall>e \<in> set (env # envs). grants e \<and> (\<exists>rsp bytes. k_recv e = RECV_PDU rsp bytes)"
    and "login_loop True (login s, login_ctx s) (POLL (k_login env) (POLL_READABLE (k_recv env)) # exchange envs) = Some (l', c')"
    and "ret c' = LOGIN_OK" "ctx_class c' = ISCSI_STATUS_CLS_SUCCESS"
  shows "\<exists>n. session_reaches (arrivals (take n (env # envs))) s q l'"
  using assms
proof (induction envs arbitrary: s env)
  case (Nil s env)
  have c: "\<not> have_auth_client (login_ctx s)" "\<not> final (login_ctx s)" using Nil(1) by (simp_all add: ready_login_def)
  obtain rsp bytes where p: "k_recv env = RECV_PDU rsp bytes" using Nil(2) by auto
  note loop = Nil(3) [unfolded p]
  from loop Nil(4,5) c show ?case
  proof (cases rule: loop_response)
    case (1 l1 c1)
    have "session_reaches (arrival env) s q l1"
      by (rule arrival_last [OF Nil(1) _ _ _ 1(2)]) (use Nil(2) 1 p in auto)
    then show ?thesis using 1(3) by (intro exI [of _ 1]) (simp add: arrivals_def)
  qed simp
next
  case (Cons e' envs s env)
  have c: "\<not> have_auth_client (login_ctx s)" "\<not> final (login_ctx s)" using Cons.prems(1) by (simp_all add: ready_login_def)
  obtain rsp bytes where p: "k_recv env = RECV_PDU rsp bytes" using Cons.prems(2) by auto
  note loop = Cons.prems(3) [unfolded p]
  from loop Cons.prems(4,5) c show ?case
  proof (cases rule: loop_response)
    case (1 l1 c1)
    have "session_reaches (arrival env) s q l1"
      by (rule arrival_last [OF Cons.prems(1) _ _ _ 1(2)]) (use Cons.prems(2) 1 p in auto)
    then show ?thesis using 1(3) by (intro exI [of _ 1]) (simp add: arrivals_def)
  next
    case (more l1 c1 x xs)
    have "\<not> have_auth_client c1" by (rule login_rsp_cases(1) [OF more(1) c])
    then obtain l2 c2 where rq: "iscsi_login_req l1 c1 True = ((l2, c2), False)" "\<not> have_auth_client c2" "\<not> final c2"
      and lp: "login_loop True (l2, c2) (POLL (k_login e') (POLL_READABLE (k_recv e')) # exchange envs) = Some (l', c')"
      using loop_request [OF more(4) Cons.prems(4)] more(3) by blast
    obtain t where t: "session_run (arrival env) s = t" "ready_login t q" "login t = l2" "login_ctx t = c2" "answers (trace t) = answers (trace s)"
      by (rule arrival_more [OF Cons.prems(1) _ _ _ more(2) rq]) (use Cons.prems(2) more(1) p in auto)
    from Cons.IH [OF t(2), of e'] Cons.prems(2,4,5) lp t(3,4) obtain n where "session_reaches (arrivals (take n (e' # envs))) t q l'" by auto
    then have "session_reaches (arrivals (take (Suc n) (env # e' # envs))) s q l'"
      using t(1,5) by (simp add: session_reaches_def arrivals_Cons session_run_append)
    then show ?thesis by blast
  qed
qed

text \<open>The part of the session that the login code is given when the connection of a new session is established.\<close>

definition login_prepared :: "kenv \<Rightarrow> sess \<Rightarrow> iscsi_session" where
  "login_prepared env s = login (set_isid (iscsi_copy_operational_params (fst (session_ipc_create env (clear_login_context s)))))"

definition start_context :: "sess \<Rightarrow> iscsi_login_context" where
  "start_context s = (login_ctx (clear_login_context s))\<lparr>bufsize := unat ISCSI_DEF_MAX_RECV_SEG_LEN\<rparr>"

definition polling :: "sess \<Rightarrow> queue_task \<Rightarrow> bool" where
  "polling s q \<longleftrightarrow> waiting s q \<and> sid s = INVALID_SESSION_ID \<and>
     (\<exists>c cs d. context_pool s = Some c # cs \<and> ev_pending c = Some (EV_CONN_POLL, d) \<and> ev_data c = Data_qtask q)"

lemma try_login_polling:
  assumes "try_session_login env there (Some t) rec (Task n) = Inr s" "\<not> has_cap t CAP_LOGIN_OFFLOAD" "k_connect_ok env"
  shows "polling s (Task n)"
proof -
  from assms(1) obtain v rc u where v: "session_create env (clip_rec t rec) t = (Some v, rc)" and u: "session_conn_create env v = (u, 0)"
    "s = start_session env (Task n) u"
    by (auto simp: try_session_login_def Let_def split: if_splits prod.splits option.splits)
  note p = session_create_parts [OF v]
  have f: "fresh t u" by (rule conn_create_fresh(1) [OF u(1) p(1-7)])
  have "sid v = INVALID_SESSION_ID" using v by (auto simp: session_create_def Let_def zero_sess_def upd_login_def split: if_splits)
  then have i: "sid u = INVALID_SESSION_ID"
    using u(1) by (auto simp: session_conn_create_def iscsi_ev_context_alloc_def Let_def iscsi_setup_portal_def
        iscsi_copy_operational_params_def conn_timeouts_def upd_login_def emit_def split: option.splits prod.splits if_splits)
  have c: "context_pool u = Some fresh_context # replicate 31 (Some fresh_context)"
    using f by (simp add: fresh_def CONTEXT_POOL_MAX_def numeral_eq_Suc)
  have "\<exists>c cs d. context_pool s = Some c # cs \<and> ev_pending c = Some (EV_CONN_POLL, d) \<and> ev_data c = Data_qtask (Task n)" "sid s = sid u"
    using assms(3) c
    by (simp_all add: u(2) start_session_def conn_connect_or_wait_def iscsi_conn_connect_def iscsi_ev_context_get_def upd_context_def
        set_ev_data_def pend_def login_timer_mod_def emit_def fresh_context_def)
  with try_login_waiting(1) [OF assms(1,2)] i show ?thesis by (simp add: polling_def)
qed

lemma start_login_granted:
  assumes s: "waiting s q" "ctx_qtask s = Some q" "pool_ready s" and g: "grants env"
    and b: "iscsi_login_begin (k_login env) (login s) (login_ctx s) = ((l0, c0), False)"
    and r: "iscsi_login_req l0 c0 True = ((l1, c1), False)" "\<not> have_auth_client c1" "\<not> final c1"
  shows "ready_login (start_login env q s) q" "login (start_login env q s) = l1" "login_ctx (start_login env q s) = c1"
    "answers (trace (start_login env q s)) = answers (trace s)"
proof -
  obtain t1 f1 where t1: "iscsi_session_set_params (k_set_param env) (k_supports_nop env) s = (t1, f1)" by force
  obtain t2 f2 where t2: "iscsi_host_set_params (k_host_param env) t1 = (t2, f2)" by force
  have f: "\<not> f1" "\<not> f2" using params_granted(2) [OF g t1] params_granted(3) [OF g t2] by simp_all
  obtain b1 tr1 b2 tr2 where x: "t1 = s\<lparr>userspace_nop := b1, trace := trace s @ tr1\<rparr>" "list_all param_effect tr1"
    "t2 = t1\<lparr>userspace_nop := b2, trace := trace t1 @ tr2\<rparr>" "list_all param_effect tr2"
    using set_params_ext [OF t1] host_set_params_ext [OF t2] unfolding param_ext_def by metis
  let ?t = "t2\<lparr>login := l0, login_ctx := c0\<rparr>"
  have lb: "login_begin env t2 = (?t, False)" using b x by (simp add: login_begin_def)
  have i: "in_login (?t\<lparr>c_state := ISCSI_CONN_STATE_IN_LOGIN\<rparr>) q" "pool_ready (?t\<lparr>c_state := ISCSI_CONN_STATE_IN_LOGIN\<rparr>)"
    using s x by (simp_all add: waiting_def in_login_def login_pre_def stage_task_def initial_login_def timer_for_def pool_ready_def)
  obtain u where u: "send_login_pdu env (?t\<lparr>c_state := ISCSI_CONN_STATE_IN_LOGIN\<rparr>) = (u, False)" "ready_login u q" "login u = l1"
    "login_ctx u = c1" "answers (trace u) = answers (trace ?t)"
    using login_req_granted [of "?t\<lparr>c_state := ISCSI_CONN_STATE_IN_LOGIN\<rparr>" l1 c1 env q] r g i by auto
  have "start_login env q s = u" by (simp add: start_login_def t1 t2 f lb u(1))
  then show "ready_login (start_login env q s) q" "login (start_login env q s) = l1" "login_ctx (start_login env q s) = c1"
    "answers (trace (start_login env q s)) = answers (trace s)"
    using u x by simp_all
qed

lemma prepared_cong:
  assumes "transport a = transport b" "nrec a = nrec b" "login a = login b" "sid a = sid b"
  shows "login (set_isid (iscsi_copy_operational_params a)) = login (set_isid (iscsi_copy_operational_params b))"
  using assms by (simp add: set_isid_def iscsi_copy_operational_params_def upd_login_def split: prod.split)

lemma prepared_ctx: "login_ctx (set_isid (iscsi_copy_operational_params a)) = login_ctx a"
  by (simp add: set_isid_def iscsi_copy_operational_params_def upd_login_def split: prod.split)

lemma connected_logs_in:
  assumes s: "polling s q" and g: "grants env" "k_poll env > 0" "k_exp_statsn env = 0"
    and b: "iscsi_login_begin (k_login env) (upd_conn (exp_statsn_update (\<lambda>_. 0)) (login_prepared env s)) (start_context s) = ((l0, c0), False)"
    and r: "iscsi_login_req l0 c0 True = ((l1, c1), False)" "\<not> have_auth_client c1" "\<not> final c1"
  obtains t where "session_step env (Run_actor (Ev_actor 0)) s = t" "ready_login t q" "login t = l1" "login_ctx t = c1"
    "answers (trace t) = answers (trace s)"
proof -
  obtain c cs d where c: "context_pool s = Some c # cs" "ev_pending c = Some (EV_CONN_POLL, d)" "ev_data c = Data_qtask q"
    and w: "waiting s q" and sid: "sid s = INVALID_SESSION_ID" using s by (auto simp: polling_def)
  have so: "sess_ok s" using w by (auto simp: sess_ok_def)
  note p = popped_ok [OF so, of 0 c EV_CONN_POLL d]
  define t where "t = iscsi_ev_context_put 0 (popped 0 c s)"
  have pw: "waiting (popped 0 c s) q"
    using p(1) w c by (auto simp: popped_def sess_ok_def waiting_def in_login_def settled_def timer_for_def)
  have t: "waiting t q" "sid t = INVALID_SESSION_ID" "answers (trace t) = answers (trace s)" "login t = login s" "login_ctx t = login_ctx s"
    "transport t = transport s" "nrec t = nrec s" "conn_id t = conn_id s" "pool_ready t" "erl t = erl s" "hostno t = hostno s"
    using waiting_put [OF pw p(4)] c sid by (simp_all add: t_def put_eq put_pool_def popped_def pool_ready_def)
  have id: "conn_id s = 0" using w by (simp add: waiting_def login_pre_def)
  define u where "u = (emit CREATE_CONN (fst (session_ipc_create env (clear_login_context t))))\<lparr>conn_id := snd (k_create_conn env)\<rparr>"
  define v where "v = upd_login (upd_conn (\<lambda>c. c\<lparr>exp_statsn := k_exp_statsn env\<rparr>))
     ((emit BIND_CONN (set_isid (iscsi_copy_operational_params u)))\<lparr>ctx_qtask := Some q,
        login_ctx := (login_ctx (emit BIND_CONN (set_isid (iscsi_copy_operational_params u))))\<lparr>bufsize := unat ISCSI_DEF_MAX_RECV_SEG_LEN\<rparr>\<rparr>)"
  have k: "snd (k_create_conn env) = 0" "fst (k_create_conn env) = 0" "\<And>b. fst (k_create_session env b) = 0" "\<not> fst (k_bind env)" "snd (k_bind env) = 0"
    using g(1) by (simp_all add: grants_def kernel_obeys_def)
  have ce: "session_ipc_create env (clear_login_context t) = (fst (session_ipc_create env (clear_login_context t)), 0)"
    by (simp add: session_ipc_create_def Let_def k ENOSYS_def EINVAL_def)
  have uw: "waiting u q" "pool_ready u" "answers (trace u) = answers (trace s)"
    using t k by (simp_all add: u_def session_ipc_create_def ENOSYS_def EINVAL_def Let_def clear_login_context_def emit_def waiting_def login_pre_def
        stage_task_def initial_login_def timer_for_def pool_ready_def)
  have vw: "waiting v q" "pool_ready v" "answers (trace v) = answers (trace s)" "ctx_qtask v = Some q"
    using uw by (simp_all add: v_def upd_login_def set_isid_def iscsi_copy_operational_params_def waiting_def pool_ready_def
        split: prod.splits)
  let ?x = "fst (session_ipc_create env (clear_login_context s))"
  have x: "transport u = transport ?x" "nrec u = nrec ?x" "login u = login ?x" "sid u = sid ?x" "login_ctx u = login_ctx (clear_login_context s)"
    using t(4-7) k(3) by (simp_all add: u_def session_ipc_create_def ENOSYS_def EINVAL_def Let_def clear_login_context_def emit_def)
  have vl: "login v = upd_conn (exp_statsn_update (\<lambda>_. 0)) (login_prepared env s)" "login_ctx v = start_context s"
    using prepared_cong [OF x(1-4)] x(5) g(3) by (simp_all add: v_def upd_login_def login_prepared_def start_context_def prepared_ctx)
  have "session_step env (Run_actor (Ev_actor 0)) s = session_conn_poll env 0 (popped 0 c s)" using p(9) c by simp
  also have "\<dots> = conn_established env q t"
    using p(5) c g(2) t(1) by (simp add: session_conn_poll_def t_def [symmetric] Let_def waiting_def)
  also have "\<dots> = bind_and_login env q u"
  proof -
    have cl: "sid (clear_login_context t) = INVALID_SESSION_ID" "conn_id (clear_login_context t) = 0"
      using t(2,8) id by (simp_all add: clear_login_context_def)
    obtain w where w: "session_ipc_create env (clear_login_context t) = (w, 0)" using ce by metis
    then show ?thesis using cl k(2) by (simp add: conn_established_def Let_def u_def)
  qed
  also have "\<dots> = start_login env q v"
    using vw(1) k by (simp add: bind_and_login_def Let_def v_def waiting_def login_pre_def upd_login_def)
  finally have e: "session_step env (Run_actor (Ev_actor 0)) s = start_login env q v" .
  show thesis
    using that [OF e] start_login_granted [OF vw(1,4,2) g(1) b [folded vl] r] vw(3) by simp
qed

lemma daemon_logs_in:
  assumes s: "polling s q" and g: "\<forall>e \<in> set (env # envs). grants e" and r: "\<forall>e \<in> set envs. \<exists>rsp bytes. k_recv e = RECV_PDU rsp bytes"
    and k: "k_poll env > 0" "k_exp_statsn env = 0"
    and l: "iscsi_login (k_login env) (login_prepared env s) (start_context s) (unat ISCSI_DEF_MAX_RECV_SEG_LEN) (exchange envs) = Some (l', c')"
    and ok: "ret c' = LOGIN_OK" "ctx_class c' = ISCSI_STATUS_CLS_SUCCESS"
  shows "\<exists>k. session_reaches ((env, Run_actor (Ev_actor 0)) # arrivals (take k envs)) s q l'"
proof -
  let ?l = "upd_conn (exp_statsn_update (\<lambda>_. 0)) (login_prepared env s)"
  obtain l0 c0 f where b: "iscsi_login_begin (k_login env) ?l (start_context s) = ((l0, c0), f)" by (metis surj_pair)
  have c: "(start_context s)\<lparr>bufsize := unat ISCSI_DEF_MAX_RECV_SEG_LEN\<rparr> = start_context s" by (simp add: start_context_def)
  have nf: "\<not> f"
    using l ok(1) b c by (auto simp: iscsi_login_def iscsi_login_begin_def Let_def split: if_splits prod.splits)
  then have lp: "login_loop False (l0, c0) (exchange envs) = Some (l', c')" using l b c by (simp add: iscsi_login_def Let_def)
  then obtain e es where es: "envs = e # es" by (cases envs) (auto simp: exchange_def)
  have h: "\<not> have_auth_client c0" by (rule login_ctx_begin [OF b])
  obtain l1 c1 where q: "iscsi_login_req l0 c0 True = ((l1, c1), False)" "\<not> have_auth_client c1" "\<not> final c1"
    "login_loop True (l1, c1) (POLL (k_login e) (POLL_READABLE (k_recv e)) # exchange es) = Some (l', c')"
    by (rule loop_request [OF lp [unfolded es] ok(1) h])
  obtain t where t: "session_step env (Run_actor (Ev_actor 0)) s = t" "ready_login t q" "login t = l1" "login_ctx t = c1"
    "answers (trace t) = answers (trace s)"
    by (rule connected_logs_in [OF s _ k _ q(1-3)]) (use g b nf in simp_all)
  obtain n where n: "session_reaches (arrivals (take n (e # es))) t q l'"
    using arrivals_reach [OF t(2), of e es l' c'] g r es q(4) ok t(3,4) by auto
  have "\<not> freed s" using s by (simp add: polling_def waiting_def login_pre_def)
  with n t have "session_reaches ((env, Run_actor (Ev_actor 0)) # arrivals (take n envs)) s q l'"
    by (simp add: session_reaches_def es del: session_step.simps)
  then show ?thesis ..
qed

end
