(* ===== verification/Session_Sample.thy ===== *)
theory Session_Sample
  imports Session_Login
begin

text \<open>
  The configuration of a new session, and a sample node. \<open>try_login_parts\<close> takes the creation of a session apart; \<open>login_setup\<close> are the
  members that are fixed then, and \<open>login_deadline\<close> the time after which the initial login is given up. The sample node, transport and
  kernel at the end are the concrete input on which the hypotheses of the properties of sessions hold.
\<close>

subsection \<open>The configuration of a new session\<close>

text \<open>The members of a session that the login reads before it negotiates: they are fixed when the session is created.\<close>

definition login_setup where
  "login_setup l = (auth_buffers l, bidirectional_auth l, initiator_name l, initiator_alias l, target_name l, sess_type l,
     sess_username l, sess_password l, password_length l, peer_account l, chap_algs l)"

definition new_login :: "kenv \<Rightarrow> node_rec_t \<Rightarrow> iscsi_transport \<Rightarrow> iscsi_session" where
  "new_login env rec t =
     fst (iscsi_setup_authentication (k_auth_buffers env) (nr_auth rec)
       ((zero_login rec t)\<lparr>initiator_name := (if nr_iname rec \<noteq> [] then Some (nr_iname rec) else k_initiator_name env),
          initiator_alias := (if nr_alias rec \<noteq> [] then Some (nr_alias rec) else k_initiator_alias env)\<rparr>))"

lemma do_create_conn_setup: "login_setup (fst (do_create_conn f se)) = login_setup (fst se)"
  by (cases f; cases se)
     (simp_all add: login_setup_def iser_create_conn_def cxgbi_create_conn_def be2iscsi_create_conn_def upd_conn_def Let_def)

lemma copy_params_setup: "login_setup (login (iscsi_copy_operational_params s)) = login_setup (login s)"
proof -
  obtain l1 cc where c: "copy_conn_params (nr_conn_conf (nrec s)) (login s) = (l1, cc)" by force
  obtain l2 sc where d: "copy_session_params (nr_session_conf (nrec s)) l1 = (l2, sc)" by force
  have "login_setup l1 = login_setup (login s)"
    using c by (auto simp: copy_conn_params_def login_setup_def upd_conn_def Let_def)
  moreover have "login_setup l2 = login_setup l1" using d by (auto simp: copy_session_params_def login_setup_def Let_def)
  moreover have "login_setup (discovery_params (transport s) l2) = login_setup l2"
    by (simp add: discovery_params_def login_setup_def upd_conn_def)
  ultimately show ?thesis
    using do_create_conn_setup [of "create_conn (template (transport s))" "(discovery_params (transport s) l2, ERL sc)"]
    by (simp add: iscsi_copy_operational_params_def copy_operational_params_def c d case_prod_beta)
qed

lemma clip_rec_simps [simp]:
  "nr_auth (clip_rec t rec) = nr_auth rec" "nr_iname (clip_rec t rec) = nr_iname rec" "nr_alias (clip_rec t rec) = nr_alias rec"
  "nr_name (clip_rec t rec) = nr_name rec"
  by (simp_all add: clip_rec_def Let_def)

text \<open>The steps from the request to the session that connects.\<close>

lemma try_login_parts:
  assumes "try_session_login env there (Some t) rec q = Inr s"
  obtains v z a where "session_create env (clip_rec t rec) t = (Some v, 0)"
    "z = conn_timeouts (emit (ACT Login_timer A_INIT) (v\<lparr>conn_id := 0, context_pool := replicate CONTEXT_POOL_MAX (Some fresh_context),
       reopen_max := nr_reopen_max (nrec v), c_state := ISCSI_CONN_STATE_FREE\<rparr>))"
    "s = start_session env q ((upd_login (upd_conn (\<lambda>c. c\<lparr>saddr := a\<rparr>)) (iscsi_copy_operational_params z))\<lparr>failback_saddr := a\<rparr>)"
proof -
  from assms obtain v rc u where v: "session_create env (clip_rec t rec) t = (Some v, rc)" and u: "session_conn_create env v = (u, 0)"
    "s = start_session env q u"
    by (auto simp: try_session_login_def Let_def split: if_splits prod.splits option.splits)
  have rc: "rc = 0" using v by (auto simp: session_create_def Let_def split: if_splits)
  obtain w f where w: "iscsi_ev_context_alloc (k_calloc env) (v\<lparr>conn_id := 0\<rparr>) = (w, f)" by force
  have f: "f = False" using u(1) by (auto simp: session_conn_create_def w iscsi_err_defs)
  note a = context_alloc_parts [OF w [unfolded f]]
  obtain p where "u = (upd_login (upd_conn (\<lambda>c. c\<lparr>saddr := p\<rparr>)) (iscsi_copy_operational_params (conn_timeouts (emit (ACT Login_timer A_INIT)
      (v\<lparr>conn_id := 0, context_pool := replicate CONTEXT_POOL_MAX (Some fresh_context), reopen_max := nr_reopen_max (nrec v),
        c_state := ISCSI_CONN_STATE_FREE\<rparr>)))))\<lparr>failback_saddr := p\<rparr>"
    using u(1) by (auto simp: session_conn_create_def w f a iscsi_setup_portal_def iscsi_err_defs split: option.splits)
  with that [OF v [unfolded rc] refl] u(2) show thesis by simp
qed

lemma start_session_parts:
  shows "login (start_session env q u) = login u" "nrec (start_session env q u) = nrec u" "r_stage (start_session env q u) = r_stage u"
    "initial_connect_time (start_session env q u) = (case k_now env of Some now \<Rightarrow> now | None \<Rightarrow> initial_connect_time u)"
  using conn_connect_waits [of q "u\<lparr>initial_connect_time := (case k_now env of Some now \<Rightarrow> now | None \<Rightarrow> initial_connect_time u),
     c_state := ISCSI_CONN_STATE_XPT_WAIT\<rparr>" env] by (auto simp: start_session_def waits_def)

lemma try_login_setup:
  assumes "try_session_login env there (Some t) rec q = Inr s"
  shows "login_setup (login s) = login_setup (new_login env (clip_rec t rec) t)"
proof -
  obtain v z a where v: "session_create env (clip_rec t rec) t = (Some v, 0)"
    and z: "z = conn_timeouts (emit (ACT Login_timer A_INIT) (v\<lparr>conn_id := 0, context_pool := replicate CONTEXT_POOL_MAX (Some fresh_context),
       reopen_max := nr_reopen_max (nrec v), c_state := ISCSI_CONN_STATE_FREE\<rparr>))"
    and s: "s = start_session env q ((upd_login (upd_conn (\<lambda>c. c\<lparr>saddr := a\<rparr>)) (iscsi_copy_operational_params z))\<lparr>failback_saddr := a\<rparr>)"
    by (rule try_login_parts [OF assms])
  have "login v = new_login env (clip_rec t rec) t"
    using v by (auto simp: session_create_def Let_def new_login_def upd_login_def zero_sess_def split: if_splits)
  moreover have "login_setup (login z) = login_setup (login v)"
    by (simp add: z conn_timeouts_def Let_def login_setup_def upd_login_def upd_conn_def emit_def)
  moreover have "login_setup (login s) = login_setup (login (iscsi_copy_operational_params z))"
    by (simp add: s start_session_parts login_setup_def upd_login_def upd_conn_def)
  ultimately show ?thesis using copy_params_setup [of z] by simp
qed

lemma prepared_setup: "login_setup (login_prepared env s) = login_setup (login s)"
proof -
  have i: "login_setup (login (set_isid x)) = login_setup (login x)" for x by (simp add: set_isid_def upd_login_def login_setup_def)
  have "login (fst (session_ipc_create env (clear_login_context s))) = login s"
    by (simp add: session_ipc_create_def Let_def clear_login_context_def emit_def)
  then show ?thesis by (simp add: login_prepared_def i copy_params_setup)
qed

text \<open>The last time at which the daemon tries the initial login again.\<close>

definition login_deadline :: "sess \<Rightarrow> timeval" where
  "login_deadline s = timeradd (initial_connect_time s)
     \<lparr>tv_sec = nr_initial_login_retry_max (nrec s) * login_timeout (login_conn s), tv_usec = 0\<rparr>"

lemma do_create_conn_timeout: "login_timeout (conn (fst (do_create_conn f se))) = login_timeout (conn (fst se))"
  by (cases f; cases se)
     (simp_all add: iser_create_conn_def cxgbi_create_conn_def be2iscsi_create_conn_def upd_conn_def Let_def)

lemma copy_params_retry:
  "login_timeout (login_conn (iscsi_copy_operational_params s)) = login_timeout (login_conn s)"
  "nr_initial_login_retry_max (nrec (iscsi_copy_operational_params s)) = nr_initial_login_retry_max (nrec s)"
  "r_stage (iscsi_copy_operational_params s) = r_stage s"
proof -
  obtain l1 cc where c: "copy_conn_params (nr_conn_conf (nrec s)) (login s) = (l1, cc)" by force
  obtain l2 sc where d: "copy_session_params (nr_session_conf (nrec s)) l1 = (l2, sc)" by force
  have "login_timeout (conn l1) = login_timeout (login_conn s)"
    using c by (auto simp: copy_conn_params_def upd_conn_def Let_def)
  moreover have "login_timeout (conn l2) = login_timeout (conn l1)" using d by (auto simp: copy_session_params_def Let_def)
  moreover have "login_timeout (conn (discovery_params (transport s) l2)) = login_timeout (conn l2)"
    by (simp add: discovery_params_def upd_conn_def)
  ultimately show "login_timeout (login_conn (iscsi_copy_operational_params s)) = login_timeout (login_conn s)"
    "nr_initial_login_retry_max (nrec (iscsi_copy_operational_params s)) = nr_initial_login_retry_max (nrec s)"
    "r_stage (iscsi_copy_operational_params s) = r_stage s"
    using do_create_conn_timeout [of "create_conn (template (transport s))" "(discovery_params (transport s) l2, ERL sc)"]
    by (simp_all add: iscsi_copy_operational_params_def copy_operational_params_def c d case_prod_beta)
qed

lemma try_login_deadline:
  assumes "try_session_login env there (Some t) rec q = Inr s" "k_now env = Some now"
  shows "login_deadline s = timeradd now
     \<lparr>tv_sec = nr_initial_login_retry_max rec * or_default DEF_LOGIN_TIMEO (nr_login_timeout rec), tv_usec = 0\<rparr>"
    "r_stage s = R_STAGE_NO_CHANGE"
proof -
  obtain v z a where v: "session_create env (clip_rec t rec) t = (Some v, 0)"
    and z: "z = conn_timeouts (emit (ACT Login_timer A_INIT) (v\<lparr>conn_id := 0, context_pool := replicate CONTEXT_POOL_MAX (Some fresh_context),
       reopen_max := nr_reopen_max (nrec v), c_state := ISCSI_CONN_STATE_FREE\<rparr>))"
    and s: "s = start_session env q ((upd_login (upd_conn (\<lambda>c. c\<lparr>saddr := a\<rparr>)) (iscsi_copy_operational_params z))\<lparr>failback_saddr := a\<rparr>)"
    by (rule try_login_parts [OF assms(1)])
  note n = session_create_parts(8,9) [OF v]
  note c = copy_params_retry [of z]
  have zp: "nr_initial_login_retry_max (nrec z) = nr_initial_login_retry_max rec" "r_stage z = R_STAGE_NO_CHANGE"
    "login_timeout (login_conn z) = or_default DEF_LOGIN_TIMEO (nr_login_timeout rec)"
    by (simp_all add: z conn_timeouts_def Let_def upd_login_def upd_conn_def emit_def n clip_rec_def)
  show "login_deadline s = timeradd now
     \<lparr>tv_sec = nr_initial_login_retry_max rec * or_default DEF_LOGIN_TIMEO (nr_login_timeout rec), tv_usec = 0\<rparr>"
    "r_stage s = R_STAGE_NO_CHANGE"
    using c zp by (simp_all add: s login_deadline_def start_session_parts assms(2) upd_login_def upd_conn_def)
qed

subsection \<open>A sample node\<close>

definition sample_transport :: iscsi_transport where
  "sample_transport = \<lparr>caps = 0x3B, t_name = ''tcp'', template = (tmpl ''tcp'')\<lparr>kernel_ep := False\<rparr>\<rparr>"

definition sample_auth :: iscsi_auth_config where
  "sample_auth = \<lparr>cfg_username = ''ini'', cfg_password = replicate 12 9, cfg_password_length = 12, cfg_username_in = ''tgt'',
     cfg_password_in = [1, 2, 3], cfg_password_in_length = 3, cfg_chap_algs = [5]\<rparr>"

definition sample_node :: node_rec_t where
  "sample_node = \<lparr>nr_name = ''iqn.2003-01.org:disk'', nr_tpgt = 1, nr_iface_name = ''default'', nr_iname = [], nr_alias = [], nr_netdev = [],
     nr_hwaddress = [], nr_ipaddress = [], nr_transport_name = ''tcp'', nr_multiple = False, nr_initial_login_retry_max = 4,
     nr_reopen_max = 0, nr_scan = True, nr_replacement_timeout = 120, nr_abort_timeout = 15, nr_lu_reset_timeout = 30,
     nr_tgt_reset_timeout = 30, nr_auth = sample_auth,
     nr_session_conf = \<lparr>InitialR2T = 0, ImmediateData = 1, FirstBurstLength = 262144, MaxBurstLength = 16776192, DefaultTime2Wait = 2,
       DefaultTime2Retain = 0, MaxOutstandingR2T = 1, ERL = 0, FastAbort = 1\<rparr>,
     nr_conn_conf = \<lparr>MaxRecvDataSegmentLength = 262144, MaxXmitDataSegmentLength = 0, HeaderDigest = 0, DataDigest = 0,
       IFMarker = 0, OFMarker = 0\<rparr>,
     nr_address = ''10.0.0.1'', nr_port = 3260, nr_login_timeout = 15, nr_logout_timeout = 15, nr_auth_timeout = 45,
     nr_noop_out_interval = 5, nr_noop_out_timeout = 5, nr_boot_root = [], nr_boot_nic = [], nr_boot_target = []\<rparr>"

definition node_env :: login_env where
  "node_env = sample_login_env\<lparr>getaddr := (\<lambda>h p. Some [10, 0, 0, 1])\<rparr>"

text \<open>The kernel, at a time, with a response of the target.\<close>

definition sample_kenv :: "int \<Rightarrow> recv_result \<Rightarrow> kenv" where
  "sample_kenv now r = \<lparr>k_new_session = True, k_calloc = (\<lambda>i. True), k_fits = True, k_read_ok = True, k_connect_ok = True, k_poll = 1, k_create_session = (\<lambda>b. (0, 1, 0)),
     k_create_conn = (0, 0), k_bind = (False, 0), k_start = (False, 0), k_stop_ok = True, k_destroy_conn_ok = True,
     k_destroy_session_ok = True, k_unbind_ok = True, k_leadconn = True, k_set_param = (\<lambda>p. 0), k_host_param = (\<lambda>v. 0),
     k_supports_nop = True, k_net_config = 0, k_login = node_env, k_send_ok = True, k_recv = r, k_pdu = None,
     k_now = Some \<lparr>tv_sec = now, tv_usec = 0\<rparr>, k_exp_statsn = 0, k_pid = 1, k_stack = 0, k_hwinfo = (0, 0),
     k_initiator_name = Some ''iqn.2005-03.org.open-iscsi:a'', k_initiator_alias = None, k_auth_buffers = sample_descs\<rparr>"

definition sample_kernels :: "kenv list" where
  "sample_kernels =
     [sample_kenv 1 (RECV_PDU (login_rsp 0 [(0, ''CHAP'')]) (render [(0, ''CHAP'')])),
      sample_kenv 1 (RECV_PDU (login_rsp 0 [(1, udec 5), (4, udec 17), (5, ''0x'' @ hex_text [1, 2])])
        (render [(1, udec 5), (4, udec 17), (5, ''0x'' @ hex_text [1, 2])])),
      sample_kenv 1 (RECV_PDU (login_rsp 0x83 [(2, ''tgt''), (3, ''0x'' @ hex_text sample_rsp)])
        (render [(2, ''tgt''), (3, ''0x'' @ hex_text sample_rsp)]))]"

abbreviation "idle_kenv now \<equiv> sample_kenv now RECV_EAGAIN"

lemma sample_grants: "grants (sample_kenv now r)"
  by (simp add: grants_def kernel_obeys_def sample_kenv_def)

lemma sample_started: "\<exists>s. try_session_login (idle_kenv 0) False (Some sample_transport) sample_node (Task 7) = Inr s"
proof -
  obtain s where s: "session_create (idle_kenv 0) (clip_rec sample_transport sample_node) sample_transport = (Some s, 0)" "nrec s = clip_rec sample_transport sample_node"
    by (simp add: session_create_def Let_def sample_kenv_def sample_transport_def sample_node_def tmpl_def upd_login_def zero_sess_def)
  have "takeWhile (\<lambda>i. True) xs = xs" for xs :: "nat list" by (induction xs) auto
  then obtain u where u: "session_conn_create (idle_kenv 0) s = (u, 0)"
    by (auto simp: session_conn_create_def iscsi_ev_context_alloc_def Let_def iscsi_setup_portal_def sample_kenv_def node_env_def)
  have "iscsi_host_set_net_params (idle_kenv 0) (clip_rec sample_transport sample_node) sample_transport = 0"
    by (simp add: iscsi_host_set_net_params_def sample_transport_def tmpl_def)
  then show ?thesis using s u by (simp add: try_session_login_def ISCSI_ERR_AGAIN_def)
qed

lemma sample_no_offload: "\<not> has_cap sample_transport CAP_LOGIN_OFFLOAD"
  by (simp add: has_cap_def sample_transport_def cap_defs)

lemma sample_exchange: "exchange sample_kernels = target_answers node_env node_env node_env sample_session 5 17 [1, 2] sample_rsp"
  by (simp add: exchange_def sample_kernels_def target_answers_def answer_def sample_kenv_def sample_session_def)

lemma login_config_setup:
  assumes "login_setup l = login_setup l'"
  shows "login_config env l m = login_config env l' m" "chap_algs l = chap_algs l'" "peer_account l = peer_account l'"
    "take (password_length l) (sess_password l) = take (password_length l') (sess_password l')"
  using assms unfolding login_setup_def login_config_def mutual_setup_def first_length_def first_texts_def normal_def by simp_all

lemma sample_new_login:
  "peer_account (new_login (idle_kenv 0) (clip_rec sample_transport sample_node) sample_transport) = sample_session"
  "chap_algs (new_login (idle_kenv 0) (clip_rec sample_transport sample_node) sample_transport) = [5]"
  "let l = new_login (idle_kenv 0) (clip_rec sample_transport sample_node) sample_transport
   in take (password_length l) (sess_password l) = replicate 12 9"
  "login_config node_env (new_login (idle_kenv 0) (clip_rec sample_transport sample_node) sample_transport) 8192"
proof -
  define l where "l = new_login (idle_kenv 0) (clip_rec sample_transport sample_node) sample_transport"
  have l: "auth_buffers l = sample_descs" "bidirectional_auth l" "initiator_name l = Some ''iqn.2005-03.org.open-iscsi:a''" "initiator_alias l = None"
    "target_name l = ''iqn.2003-01.org:disk''" "sess_type l = ISCSI_SESSION_TYPE_NORMAL" "sess_username l = ''ini''"
    "sess_password l = replicate 12 9 @ replicate 244 0" "password_length l = 12" "peer_account l = sample_session" "chap_algs l = [5]"
    by (simp_all add: l_def new_login_def iscsi_setup_authentication_def zero_login_def sample_auth_def sample_kenv_def Let_def
        strlcpy_eq AUTH_STR_MAX_LEN_def overlay_def sample_session_def, simp_all add: sample_node_def sample_auth_def strlcpy_eq)
  have p: "take (password_length l) (sess_password l) = replicate 12 9" by (simp add: l)
  show "peer_account l = sample_session" "chap_algs l = [5]" "let l = l in take (password_length l) (sess_password l) = replicate 12 9"
    using l p by simp_all
  show "login_config node_env l 8192"
    using sample_facts(5,6,7) sample_peer(1-5) sample_digests
    by (simp add: login_config_def mutual_setup_def l p node_env_def sample_login_env_def nonempty_def first_length_def
      first_texts_def normal_def ISCSI_SESSION_TYPE_DISCOVERY_def ISCSI_SESSION_TYPE_NORMAL_def AUTH_STR_MAX_LEN_def)
qed

lemma sample_login_returns:
  assumes s: "try_session_login (idle_kenv 0) False (Some sample_transport) sample_node (Task 7) = Inr s"
  obtains l' c' where "iscsi_login node_env (login_prepared (idle_kenv 1) s) (start_context s) 8192 (exchange sample_kernels) = Some (l', c')"
    "ret c' = LOGIN_OK" "ctx_class c' = ISCSI_STATUS_CLS_SUCCESS"
proof -
  let ?l = "login_prepared (idle_kenv 1) s"
  have e: "login_setup ?l = login_setup (new_login (idle_kenv 0) (clip_rec sample_transport sample_node) sample_transport)"
    using prepared_setup try_login_setup [OF s] by simp
  note c = login_config_setup [OF e] sample_new_login [unfolded Let_def]
  have env: "auth_env node_env = sample_env" by (simp add: node_env_def sample_login_env_def)
  have alg: "int 5 \<in> set (acl_init_chap_digests (auth_env node_env) (chap_algs ?l))"
    using sample_digests c by (simp add: env del: acl_init_chap_digests.simps)
  have sec: "sample_rsp = chap_response sample_hash (unat (7 :: byte)) (password_in (peer_account ?l)) (replicate 16 7)"
    "sample_rsp \<noteq> chap_response sample_hash (unat (7 :: byte)) (take (password_length ?l) (sess_password ?l)) (replicate 16 7)"
    using sample_peer(6) c by (simp_all add: sample_rsp_def sample_session_def)
  have cfg: "login_config node_env ?l 8192" using c by simp
  have acct: "peer_account ?l = sample_session" using c by simp
  show thesis
    using honest_login [OF cfg alg sample_facts(4,1,2), of node_env node_env 7 "replicate 16 7"
        "[1, 2]" 17 sample_rsp "start_context s" node_env]
      sample_facts(3,8,9) sample_bounds(6,7) sec that
    unfolding env acct sample_exchange by auto
qed

lemma sample_kernels_ok:
  "\<forall>e \<in> set (idle_kenv 1 # sample_kernels). grants e" "\<forall>e \<in> set sample_kernels. \<exists>rsp bytes. k_recv e = RECV_PDU rsp bytes"
  by (auto simp: sample_kernels_def sample_grants) (simp_all add: sample_kenv_def)

lemma sample_reaches:
  assumes s: "try_session_login (idle_kenv 0) False (Some sample_transport) sample_node (Task 7) = Inr s"
  obtains k l where "session_reaches ((idle_kenv 1, Run_actor (Ev_actor 0)) # arrivals (take k sample_kernels)) s (Task 7) l"
proof -
  obtain l' c' where l: "iscsi_login node_env (login_prepared (idle_kenv 1) s) (start_context s) 8192 (exchange sample_kernels) = Some (l', c')"
    "ret c' = LOGIN_OK" "ctx_class c' = ISCSI_STATUS_CLS_SUCCESS" by (rule sample_login_returns [OF s])
  have p: "polling s (Task 7)" by (rule try_login_polling [OF s sample_no_offload]) (simp add: sample_kenv_def)
  show thesis
    using daemon_logs_in [OF p sample_kernels_ok, of l' c'] l that by (auto simp: ISCSI_DEF_MAX_RECV_SEG_LEN_def sample_kenv_def)
qed

lemma runs_arrivals: "\<forall>e \<in> set envs. grants e \<Longrightarrow> runs admits (arrivals envs) s"
proof (induction envs arbitrary: s)
  case (Cons e envs)
  then show ?case by (simp add: arrivals_Cons arrival_def admits_def grants_def del: session_step.simps)
qed (simp add: arrivals_def)

lemma runs_login:
  assumes "grants env" "\<forall>e \<in> set envs. grants e"
  shows "runs admits ((env, Run_actor (Ev_actor 0)) # arrivals (take k envs)) s"
proof -
  have "\<forall>e \<in> set (take k envs). grants e" using assms(2) set_take_subset [of k envs] by blast
  then have "runs admits (arrivals (take k envs)) u" for u by (rule runs_arrivals)
  with assms(1) show ?thesis by (simp add: admits_def grants_def del: session_step.simps)
qed

lemma no_requests: "requests (arrivals envs) s = []"
proof (induction envs arbitrary: s)
  case (Cons e envs)
  then show ?case by (simp add: arrivals_Cons arrival_def del: session_step.simps)
qed (simp add: arrivals_def)

end
