(* ===== verification/Session_Properties.thy ===== *)
theory Session_Properties
  imports Session_Sample
begin

text \<open>
  The properties of the sessions of the daemon: every request is answered once, a login has its timer, a session in use has an
  authenticated target, the login by events does what the blocking login does, the bounds of the operational parameters, and two errors.
\<close>

subsection \<open>Requests\<close>

lemma login_run_ok:
  assumes "try_session_login env there (Some t) rec (Task n) = Inr s" "\<not> has_cap t CAP_LOGIN_OFFLOAD" "runs admits evs s"
  shows "step_ok (n # requests evs s) s (session_run evs s)" "answers (trace s) = []"
proof -
  note w = try_login_waiting [OF assms(1,2)]
  then have "sess_ok s" "owed s = [n]" using login_owed [of s "Task n"] by (auto simp: sess_ok_def)
  with session_run_ok [OF _ assms(3)] w show "step_ok (n # requests evs s) s (session_run evs s)" "answers (trace s) = []" by simp_all
qed

text \<open>C3. Where the kernel does what it is told, every request is answered exactly once. From the request that creates a
  session on, whatever the target sends, however often the connection fails and the session is opened again, whichever requests
  to log out arrive: the requests that have been answered, together with those that the session still owes an answer to, are
  the request to log in and the requests to log out, each once. A session that has been released owes nothing, so by then every
  request has its answer. The hypotheses: every stop of a connection and every destruction of a connection or session that
  the daemon asks the kernel for succeeds (\<open>kernel_obeys\<close>), no event reports the host as removed or a session as unbound
  that the daemon did not unbind (\<open>event_fits\<close>), and the transport does not do the login itself. Where the kernel
  refuses to destroy a connection, and where the host is removed, the code can leave a request without an answer.\<close>

theorem every_request_answered_once:
  assumes "try_session_login env there (Some t) rec (Task n) = Inr s" and "\<not> has_cap t CAP_LOGIN_OFFLOAD" and "runs admits evs s"
  shows "mset (answers (trace (session_run evs s))) + mset (owed (session_run evs s)) = mset (n # requests evs s)"
  using login_run_ok [OF assms] by (simp add: step_ok_def)

lemma shutdown_answers:
  assumes "kernel_obeys env"
  shows "freed (shutdown_login env (Task m) err s) \<and> RSP m err \<in> set (trace (shutdown_login env (Task m) err s))"
proof -
  have c: "RSP m err \<in> set (trace (fst (shutdown_cleanup env (Some (Task m)) err s)))" for s
    using assms by (simp add: shutdown_cleanup_def session_destroy_def session_release_def flush_eq conn_delete_timers_def
      delete_nop_out_timer_def delete_login_timer_def emit_def Let_def kernel_obeys_def)
  have "RSP m err \<in> set (trace (shutdown_login env (Task m) err s))"
    using assms c by (simp add: shutdown_login_def session_conn_shutdown_def Let_def kernel_obeys_def)
  with shutdown_released [OF assms] show ?thesis by (simp add: shutdown_login_def released_def)
qed

lemma login_deadline_gives_up:
  assumes "initial_login s" "c_state s = ISCSI_CONN_STATE_XPT_WAIT \<or> c_state s = ISCSI_CONN_STATE_IN_LOGIN" "kernel_obeys env"
    and "k_now env = Some now" "timer_later now (login_deadline s)"
  shows "freed (iscsi_login_eh env (Task m) err s) \<and> RSP m err \<in> set (trace (iscsi_login_eh env (Task m) err s))"
proof -
  define u where "u = iscsi_flush_context_pool s"
  have u: "initial_login u" "c_state u = c_state s" "login_deadline u = login_deadline s"
    using assms(1) by (simp_all add: u_def flush_eq initial_login_def login_deadline_def)
  have "\<not> iscsi_retry_initial_login env u" using assms(4,5) u(3) by (simp add: iscsi_retry_initial_login_def login_deadline_def)
  then show ?thesis
    using shutdown_answers [OF assms(3), of m err u] u(1,2) assms(2)
    by (auto simp: iscsi_login_eh_def u_def [symmetric] login_eh_xpt_wait_def login_eh_in_login_def initial_login_def)
qed

text \<open>C6. Where the kernel does what it is told, no login of a session waits without a timer. In every run of a session, under
  the hypotheses of the previous property (the kernel stops and destroys when told to, no event reports the host as removed
  or an unbinding the daemon did not ask for, the transport does not do the login itself): while the session connects
  or logs in, the login timer is queued, for the request the session works on; and when this timer fires during the
  initial login, with a clock that can be read and stands after the end of the time for retries, the request is answered with
  an error and the session is released. A login that the transport does itself is left out: its timer is deleted when it
  starts.\<close>

theorem login_never_hangs:
  assumes "try_session_login env0 there (Some t) rec (Task n) = Inr s0" and "\<not> has_cap t CAP_LOGIN_OFFLOAD" and "runs admits evs s0"
    and "s = session_run evs s0" and "\<not> freed s" and "c_state s \<in> {ISCSI_CONN_STATE_XPT_WAIT, ISCSI_CONN_STATE_IN_LOGIN}"
  shows "\<exists>d q. login_timer s = Some (d, q) \<and> owed s = task_list (Some q) \<and>
    (\<forall>env now. initial_login s \<longrightarrow> kernel_obeys env \<longrightarrow> k_now env = Some now \<longrightarrow> timer_later now (login_deadline s) \<longrightarrow>
      (\<exists>m err. q = Task m \<and> err \<noteq> ISCSI_SUCCESS \<and> freed (session_step env (Run_actor Login_timer) s) \<and>
        RSP m err \<in> set (trace (session_step env (Run_actor Login_timer) s))))"
proof -
  have "sess_ok s" using login_run_ok(1) [OF assms(1-3)] assms(4,5) by (auto simp: step_ok_def)
  then obtain q where q: "waiting s q \<or> in_login s q" "owed s = task_list (Some q)"
    by (cases rule: sess_ok_cases) (use assms(6) in \<open>auto simp: settled_def\<close>)
  then obtain d where d: "login_timer s = Some (d, q)" by (auto simp: waiting_def in_login_def timer_for_def)
  have "\<exists>m err. q = Task m \<and> err \<noteq> ISCSI_SUCCESS \<and> freed (session_step env (Run_actor Login_timer) s) \<and>
        RSP m err \<in> set (trace (session_step env (Run_actor Login_timer) s))"
    if i: "initial_login s" and k: "kernel_obeys env" "k_now env = Some now" "timer_later now (login_deadline s)" for env now
  proof -
    obtain m where m: "q = Task m" using q i by (auto simp: waiting_def in_login_def login_pre_def stage_task_def)
    let ?u = "emit (ACT Login_timer A_RUN) (s\<lparr>login_timer := None\<rparr>)"
    have u: "initial_login ?u" "c_state ?u = ISCSI_CONN_STATE_XPT_WAIT \<or> c_state ?u = ISCSI_CONN_STATE_IN_LOGIN" "login_deadline ?u = login_deadline s"
      using i assms(6) by (auto simp: initial_login_def login_deadline_def emit_def)
    obtain err where e: "session_step env (Run_actor Login_timer) s = iscsi_login_eh env (Task m) err ?u" "err \<noteq> ISCSI_SUCCESS"
      using u(2) d m by (auto simp: iscsi_login_timedout_def iscsi_err_defs)
    have "timer_later now (login_deadline ?u)" using k(3) u(3) by simp
    from login_deadline_gives_up [OF u(1,2) k(1,2) this, of m err] e m show ?thesis by auto
  qed
  then show ?thesis using q d by blast
qed

theorem every_request_answered_once_witness:
  "\<exists>s evs. try_session_login (idle_kenv 0) False (Some sample_transport) sample_node (Task 7) = Inr s \<and> runs admits evs s \<and>
     c_state (session_run evs s) = ISCSI_CONN_STATE_LOGGED_IN \<and>
     mset (answers (trace (session_run evs s))) + mset (owed (session_run evs s)) = {#7#}"
proof -
  obtain s where s: "try_session_login (idle_kenv 0) False (Some sample_transport) sample_node (Task 7) = Inr s"
    using sample_started by blast
  obtain k l where r: "session_reaches ((idle_kenv 1, Run_actor (Ev_actor 0)) # arrivals (take k sample_kernels)) s (Task 7) l"
    by (rule sample_reaches [OF s])
  define evs where "evs = (idle_kenv 1, Run_actor (Ev_actor 0)) # arrivals (take k sample_kernels)"
  have a: "runs admits evs s" unfolding evs_def by (rule runs_login) (use sample_kernels_ok(1) in simp_all)
  have "requests evs s = []" using no_requests by (simp add: evs_def del: session_step.simps)
  with every_request_answered_once [OF s sample_no_offload a] s a r [folded evs_def] show ?thesis
    unfolding session_reaches_def Let_def by (intro exI [of _ s] exI [of _ evs]) simp
qed

theorem login_never_hangs_witness:
  "\<exists>s. try_session_login (idle_kenv 0) False (Some sample_transport) sample_node (Task 7) = Inr s \<and>
     freed (session_step (idle_kenv 100) (Run_actor Login_timer) s) \<and>
     (\<exists>err. err \<noteq> ISCSI_SUCCESS \<and> RSP 7 err \<in> set (trace (session_step (idle_kenv 100) (Run_actor Login_timer) s)))"
proof -
  obtain s where s: "try_session_login (idle_kenv 0) False (Some sample_transport) sample_node (Task 7) = Inr s"
    using sample_started by blast
  note w = try_login_waiting(1) [OF s sample_no_offload]
  have o: "owed s = [7]" using login_owed [of s "Task 7"] w by simp
  have i: "\<not> freed s" "c_state s \<in> {ISCSI_CONN_STATE_XPT_WAIT, ISCSI_CONN_STATE_IN_LOGIN}"
    using w by (auto simp: waiting_def login_pre_def)
  have now: "k_now (idle_kenv 0) = Some \<lparr>tv_sec = 0, tv_usec = 0\<rparr>" by (simp add: sample_kenv_def)
  have d: "initial_login s" "login_deadline s = \<lparr>tv_sec = 60, tv_usec = 0\<rparr>"
    using try_login_deadline [OF s now] by (simp_all add: initial_login_def timeradd_def or_default_def sample_node_def)
  have k: "kernel_obeys (idle_kenv 100)" "k_now (idle_kenv 100) = Some \<lparr>tv_sec = 100, tv_usec = 0\<rparr>"
    "timer_later \<lparr>tv_sec = 100, tv_usec = 0\<rparr> (login_deadline s)"
    by (simp_all add: kernel_obeys_def sample_kenv_def timer_later_def d)
  have "runs admits [] s" "s = session_run [] s" by simp_all
  from login_never_hangs [OF s sample_no_offload this i] d(1) k have
    "\<exists>m err. owed s = task_list (Some (Task m)) \<and> err \<noteq> ISCSI_SUCCESS \<and> freed (session_step (idle_kenv 100) (Run_actor Login_timer) s) \<and>
       RSP m err \<in> set (trace (session_step (idle_kenv 100) (Run_actor Login_timer) s))"
    by (elim exE conjE allE [of _ "idle_kenv 100"] allE [of _ "\<lparr>tv_sec = 100, tv_usec = 0\<rparr>"]) blast
  with s o show ?thesis by (auto simp del: session_step.simps)
qed

subsection \<open>Authentication of a session\<close>

text \<open>C1. A session of the daemon is only ever in use with a target that authenticated itself. For a node whose record
  has credentials for both directions, whatever happens to its session, through every reconnection: while the session is
  logged in, the login responses it has received contained, as text keys, the name configured for the target and a
  response that is the digest of the identifier and challenge of the last login under the secret configured for the target.
  The kernel stops and destroys when told to, no event reports the host as removed or an unbinding the daemon did not ask
  for, and the transport does not do the login itself.\<close>

theorem session_authenticated:
  assumes "try_session_login env there (Some t) rec (Task n) = Inr s0" and "\<not> has_cap t CAP_LOGIN_OFFLOAD"
    and "k_auth_buffers env \<noteq> []" and "cfg_password_length (nr_auth rec) \<noteq> 0" and "is_cstr (cfg_username (nr_auth rec))"
    and "cfg_username_in (nr_auth rec) = u" and "u \<noteq> []" and "length u < AUTH_STR_MAX_LEN"
    and "take (cfg_password_in_length (nr_auth rec)) (cfg_password_in (nr_auth rec)) = secret"
    and "digest_lengths D" and "list_all (\<lambda>(e, ev). EVP_digest (auth_env (k_login e)) = D) evs" and "runs admits evs s0"
    and "s = session_run evs s0" and "\<not> freed s" and "c_state s = ISCSI_CONN_STATE_LOGGED_IN" and "auth_client_block (login s) = a"
  shows "\<exists>r H. key_in (heard evs s0) (2, u) \<and> key_in (heard evs s0) (3, r) \<and> D (negotiated_chap_alg a) = Some H \<and>
    acl_text_to_data r AUTH_STR_MAX_LEN =
      (0, chap_response H (send_chap_identifier a) secret (challenge_bytes (send_chap_challenge a)))"
proof -
  let ?l = "new_login env (clip_rec t rec) t"
  have l: "auth_buffers ?l \<noteq> []" "bidirectional_auth ?l" "is_cstr (sess_username ?l)"
    "username_in (peer_account ?l) = u" "password_in (peer_account ?l) = secret"
    using assms(3-9) by (auto simp: new_login_def iscsi_setup_authentication_def Let_def strlcpy_eq AUTH_STR_MAX_LEN_def)
  have e: "login_setup (login s0) = login_setup ?l" by (rule try_login_setup [OF assms(1)])
  then have cfg: "wants_auth (login s0)" "peer_account (login s0) = peer_account ?l"
    using l(1-3) by (simp_all add: login_setup_def wants_auth_def)
  have w: "waiting s0 (Task n)" by (rule try_login_waiting(1) [OF assms(1,2)])
  then have "auth_inv D (heard evs s0) (login s0) s0" using cfg by (auto simp: auth_inv_def sess_ok_def authed_def waiting_def)
  from auth_runs.run_keeps [OF this heard_fits [OF assms(12,10,11) order_refl]] assms(13,14)
  have "auth_inv D (heard evs s0) (login s0) s" by simp
  then have "logged_in D (heard evs s0) s" "peer_account (login s) = peer_account ?l"
    using assms(15) cfg(2) by (auto simp: auth_inv_def authed_def login_cfg_def)
  then obtain tr where tr: "\<forall>kv \<in> set tr. key_in (heard evs s0) kv" "verified D (peer_account ?l) tr a"
    by (auto simp: logged_in_def login_inv_def stage_defs assms(16))
  then obtain r where "(3, r) \<in> set tr" "(2, username_in (peer_account ?l)) \<in> set tr"
      "response_ok D (peer_account ?l) a r (username_in (peer_account ?l))"
    by (auto simp: verified_def KEYS)
  with tr(1) l(4,5) show ?thesis by (auto simp: response_ok_def)
qed

theorem session_authenticated_witness:
  "\<exists>s evs r H. try_session_login (idle_kenv 0) False (Some sample_transport) sample_node (Task 7) = Inr s \<and>
     c_state (session_run evs s) = ISCSI_CONN_STATE_LOGGED_IN \<and> key_in (heard evs s) (2, ''tgt'') \<and> key_in (heard evs s) (3, r) \<and>
     acl_text_to_data r AUTH_STR_MAX_LEN =
       (0, chap_response H (send_chap_identifier (auth_client_block (login (session_run evs s)))) [1, 2, 3]
         (challenge_bytes (send_chap_challenge (auth_client_block (login (session_run evs s))))))"
proof -
  obtain s where s: "try_session_login (idle_kenv 0) False (Some sample_transport) sample_node (Task 7) = Inr s"
    using sample_started by blast
  obtain k l where r: "session_reaches ((idle_kenv 1, Run_actor (Ev_actor 0)) # arrivals (take k sample_kernels)) s (Task 7) l"
    by (rule sample_reaches [OF s])
  define evs where "evs = (idle_kenv 1, Run_actor (Ev_actor 0)) # arrivals (take k sample_kernels)"
  have a: "runs admits evs s" unfolding evs_def by (rule runs_login) (use sample_kernels_ok(1) in simp_all)
  have "\<forall>e \<in> set (take k sample_kernels). k_login e = node_env"
    using set_take_subset [of k sample_kernels] by (auto simp: sample_kernels_def sample_kenv_def)
  then have d: "list_all (\<lambda>(e, ev). EVP_digest (auth_env (k_login e)) = sample_digest) evs"
    using sample_facts(3) by (auto simp: evs_def list_all_iff arrivals_def arrival_def sample_kenv_def node_env_def sample_login_env_def)
  have n: "k_auth_buffers (idle_kenv 0) \<noteq> []" "cfg_password_length (nr_auth sample_node) \<noteq> 0" "is_cstr (cfg_username (nr_auth sample_node))"
    "cfg_username_in (nr_auth sample_node) = ''tgt''" "''tgt'' \<noteq> []" "length ''tgt'' < AUTH_STR_MAX_LEN"
    "take (cfg_password_in_length (nr_auth sample_node)) (cfg_password_in (nr_auth sample_node)) = [1, 2, 3]"
    by (simp_all add: sample_kenv_def sample_node_def sample_auth_def sample_descs_def AUTH_STR_MAX_LEN_def)
  from session_authenticated [OF s sample_no_offload n sample_facts(1) d a refl] r [folded evs_def] s show ?thesis
    unfolding session_reaches_def Let_def by metis
qed

subsection \<open>The login of the daemon\<close>

text \<open>C5. The daemon's login by events does what the blocking login does. When \<open>iscsi_login\<close>, given the session as the daemon
  prepares it and the responses of a target, succeeds, then the session that the daemon created for the request, whose connection
  is established and to which the same responses arrive one event after the other, becomes logged in after some of
  them, with the same negotiated session, and exactly the request to log in has been answered.\<close>

theorem daemon_login_as_blocking_login:
  assumes "try_session_login env0 there (Some t) rec (Task n) = Inr s" and "\<not> has_cap t CAP_LOGIN_OFFLOAD" and "k_connect_ok env0"
    and "\<forall>e \<in> set (env # envs). grants e" and "\<forall>e \<in> set envs. \<exists>rsp bytes. k_recv e = RECV_PDU rsp bytes"
    and "k_poll env > 0" and "k_exp_statsn env = 0"
    and "iscsi_login (k_login env) (login_prepared env s) (start_context s) (unat ISCSI_DEF_MAX_RECV_SEG_LEN) (exchange envs) = Some (l', c')"
    and "ret c' = LOGIN_OK" and "ctx_class c' = ISCSI_STATUS_CLS_SUCCESS"
  shows "\<exists>k u. session_run ((env, Run_actor (Ev_actor 0)) # arrivals (take k envs)) s = u \<and> c_state u = ISCSI_CONN_STATE_LOGGED_IN \<and>
    \<not> freed u \<and> login u = l' \<and> answers (trace u) = [n]"
  using daemon_logs_in [OF try_login_polling [OF assms(1-3)] assms(4-10)] try_login_waiting(2) [OF assms(1,2)]
  by (auto simp: session_reaches_def Let_def simp del: session_run.simps)

theorem daemon_login_as_blocking_login_witness:
  "\<exists>s k u. try_session_login (idle_kenv 0) False (Some sample_transport) sample_node (Task 7) = Inr s \<and>
     session_run ((idle_kenv 1, Run_actor (Ev_actor 0)) # arrivals (take k sample_kernels)) s = u \<and>
     c_state u = ISCSI_CONN_STATE_LOGGED_IN \<and> answers (trace u) = [7]"
proof -
  obtain s where s: "try_session_login (idle_kenv 0) False (Some sample_transport) sample_node (Task 7) = Inr s"
    using sample_started by blast
  obtain l' c' where l: "iscsi_login node_env (login_prepared (idle_kenv 1) s) (start_context s) 8192 (exchange sample_kernels) = Some (l', c')"
    "ret c' = LOGIN_OK" "ctx_class c' = ISCSI_STATUS_CLS_SUCCESS" by (rule sample_login_returns [OF s])
  have k: "k_connect_ok (idle_kenv 0)" "k_poll (idle_kenv 1) > 0" "k_exp_statsn (idle_kenv 1) = 0" "k_login (idle_kenv 1) = node_env"
    "unat ISCSI_DEF_MAX_RECV_SEG_LEN = 8192"
    by (simp_all add: sample_kenv_def ISCSI_DEF_MAX_RECV_SEG_LEN_def)
  from daemon_login_as_blocking_login [OF s sample_no_offload k(1) sample_kernels_ok k(2,3), unfolded k(4,5), OF l] s show ?thesis
    by blast
qed

subsection \<open>Operational parameters\<close>

lemma within_bounds: "lo \<le> d \<Longrightarrow> d \<le> hi \<Longrightarrow> lo \<le> within lo hi d v \<and> within lo hi d v \<le> hi"
  by (auto simp: within_def not_less)

text \<open>C18. Whatever a record says, the parameters of a session are in the limits of the protocol: the lengths of
  data segments and of bursts are between 512 and 16777215, the first burst is no longer than a burst, and no adapter's adjustment
  breaks that.\<close>

theorem operational_params_bounds:
  assumes "copy_operational_params t session_conf conn_conf s = ((l, e), sc, cc)"
  shows "max_recv_dlength (conn l) \<in> {512..16777215} \<and> max_xmit_dlength (conn l) \<in> {512..16777215} \<and>
    first_burst l \<in> {512..16777215} \<and> max_burst l \<in> {512..16777215} \<and> first_burst l \<le> max_burst l"
proof -
  obtain l1 cc1 where c: "copy_conn_params conn_conf s = (l1, cc1)" by force
  obtain l2 sc1 where d: "copy_session_params session_conf l1 = (l2, sc1)" by force
  note w = within_bounds [of 512 "262144 :: 32 word" 16777215] within_bounds [of 512 "16776192 :: 32 word" 16777215]
  have 1: "max_recv_dlength (conn l1) \<in> {512..16777215}" "max_xmit_dlength (conn l1) \<in> {512..16777215}"
    using c w by (auto simp: copy_conn_params_def Let_def upd_conn_def op_limit_defs)
  have 2: "first_burst l2 \<in> {512..16777215}" "max_burst l2 \<in> {512..16777215}" "first_burst l2 \<le> max_burst l2" "conn l2 = conn l1"
    using d w by (auto simp: copy_session_params_def Let_def op_limit_defs min_def)
  let ?l = "discovery_params t l2"
  have 3: "max_recv_dlength (conn ?l) \<in> {512..16777215}" "max_xmit_dlength (conn ?l) \<in> {512..16777215}"
    "first_burst ?l = first_burst l2" "max_burst ?l = max_burst l2"
    using 1 2(4) by (auto simp: discovery_params_def upd_conn_def ISCSI_DEF_MAX_RECV_SEG_LEN_def)
  have "do_create_conn (create_conn (template t)) (?l, ERL sc1) = (l, e)"
    using assms unfolding copy_operational_params_def c d prod.case by auto
  then have l: "l = fst (do_create_conn (create_conn (template t)) (?l, ERL sc1))" by simp
  have m: "(if k < v then k else v) \<in> {512..16777215}" if "v \<in> {512..16777215}" "k \<in> {512..16777215}" for k v :: "32 word"
    using that by simp
  have f: "(if 8192 < v then 8192 else v) \<le> (if 262144 < w then 262144 else w)" if "v \<le> w" for v w :: "32 word"
    using that by (simp add: not_less order_trans [of _ 8192])
  have k: "8192 \<in> {512..16777215 :: 32 word}" "65536 \<in> {512..16777215 :: 32 word}" "262144 \<in> {512..16777215 :: 32 word}" by simp_all
  show ?thesis
  proof (cases "create_conn (template t)")
    case be2iscsi_create
    let ?c = "conn ?l"
    have "max_recv_dlength (conn l) = (if 65536 < max_recv_dlength ?c then 65536 else max_recv_dlength ?c)"
      "max_xmit_dlength (conn l) = (if 65536 < max_xmit_dlength ?c then 65536 else max_xmit_dlength ?c)"
      "first_burst l = (if 8192 < first_burst ?l then 8192 else first_burst ?l)"
      "max_burst l = (if 262144 < max_burst ?l then 262144 else max_burst ?l)"
      by (simp_all add: l be2iscsi_create be2iscsi_create_conn_def upd_conn_def Let_def)
    then show ?thesis
      using m [OF 3(1) k(2)] m [OF 3(2) k(2)] m [OF 2(1) k(1)] m [OF 2(2) k(3)] f [OF 2(3)] by (simp only: 3(3,4) simp_thms)
  next
    case cxgbi_create
    then have "max_recv_dlength (conn l) = (if 8192 < max_recv_dlength (conn ?l) then 8192 else max_recv_dlength (conn ?l))"
      "max_xmit_dlength (conn l) = max_xmit_dlength (conn ?l)" "first_burst l = first_burst ?l" "max_burst l = max_burst ?l"
      by (simp_all add: l cxgbi_create_conn_def upd_conn_def)
    then show ?thesis using m [OF 3(1) k(1)] 2 3 by (simp only: simp_thms)
  qed (use 2 3 in \<open>simp_all add: l iser_create_conn_def upd_conn_def\<close>)
qed

theorem operational_params_bounds_witness:
  "\<exists>l e sc cc. copy_operational_params sample_transport (nr_session_conf sample_node) (nr_conn_conf sample_node) sample_sess = ((l, e), sc, cc) \<and>
     first_burst l \<in> {512..16777215} \<and> first_burst l \<le> max_burst l"
proof -
  obtain l e sc cc where c: "copy_operational_params sample_transport (nr_session_conf sample_node) (nr_conn_conf sample_node) sample_sess = ((l, e), sc, cc)"
    by (metis surj_pair)
  from operational_params_bounds [OF c] c show ?thesis by blast
qed

subsection \<open>Two errors\<close>



text \<open>C32. Incoming credentials without outgoing ones switch authentication off. The set-up refuses such a record, but the
  error is ignored: the session is created, does not ask the target to authenticate itself, and has no buffers for authentication, so
  that the login starts without the security stage.\<close>

theorem incoming_credentials_ignored:
  assumes "cfg_username_in (nr_auth rec) \<noteq> [] \<or> cfg_password_in_length (nr_auth rec) \<noteq> 0" and "cfg_password_length (nr_auth rec) = 0"
    and "session_create env rec t = (Some s, rc)"
  shows "snd (iscsi_setup_authentication (k_auth_buffers env) (nr_auth rec) l) \<and> rc = 0 \<and> auth_buffers (login s) = [] \<and>
    \<not> bidirectional_auth (login s) \<and> current_stage (conn (first_stage (login s))) = ISCSI_OP_PARMS_NEGOTIATION_STAGE"
proof -
  have "rc = 0" "auth_buffers (login s) = []" "\<not> bidirectional_auth (login s)"
    using assms by (auto simp: session_create_def iscsi_setup_authentication_def Let_def upd_login_def zero_sess_def zero_login_def
        split: if_splits)
  then show ?thesis using assms(1,2) by (auto simp: iscsi_setup_authentication_def Let_def first_stage_def upd_conn_def)
qed

theorem incoming_credentials_ignored_witness:
  "let rec = sample_node\<lparr>nr_auth := sample_auth\<lparr>cfg_password := [], cfg_password_length := 0\<rparr>\<rparr>
   in \<exists>s. session_create (idle_kenv 0) rec sample_transport = (Some s, 0) \<and> \<not> bidirectional_auth (login s) \<and> auth_buffers (login s) = []"
proof -
  define rec where "rec = sample_node\<lparr>nr_auth := sample_auth\<lparr>cfg_password := [], cfg_password_length := 0\<rparr>\<rparr>"
  have r: "cfg_username_in (nr_auth rec) \<noteq> [] \<or> cfg_password_in_length (nr_auth rec) \<noteq> 0" "cfg_password_length (nr_auth rec) = 0"
    by (simp_all add: rec_def sample_auth_def)
  obtain s rc where s: "session_create (idle_kenv 0) rec sample_transport = (Some s, rc)"
    by (simp add: session_create_def Let_def sample_kenv_def sample_transport_def tmpl_def rec_def sample_node_def)
  from incoming_credentials_ignored [OF r s] s show ?thesis unfolding rec_def [symmetric] Let_def by auto
qed

end
