(* ===== verification/Kernel_List.thy ===== *)
theory Kernel_List
  imports Iscsi_Prelude
begin

text \<open>
  The doubly linked lists of \<open>include/list.h\<close>, at the level of their pointers: a heap of \<open>list_head\<close>
  nodes with a next and a previous pointer, and each inline function as the pointer writes it does, in
  its order. \<open>dlist h a xs\<close> says that the nodes \<open>xs\<close> are linked in both directions in a ring through the
  anchor \<open>a\<close>; \<open>lists_ok\<close> that several such lists share no node. Every operation is shown to act on the
  represented lists as the list operation it stands for; the locale \<open>op_simulation\<close> lifts that to
  sequences of operations.
\<close>

subsection \<open>The heap\<close>

text \<open>A list node is the anchor of a list or is embedded in an entry; \<open>NULL_NODE\<close> is the null pointer.\<close>

datatype node = NULL_NODE | Head nat | Entry nat

record list_head =
  nxt :: node
  prv :: node

type_synonym heap = "node \<Rightarrow> list_head"

definition set_nxt :: "node \<Rightarrow> node \<Rightarrow> heap \<Rightarrow> heap" where
  "set_nxt p q h = h(p := (h p)\<lparr>nxt := q\<rparr>)"

definition set_prv :: "node \<Rightarrow> node \<Rightarrow> heap \<Rightarrow> heap" where
  "set_prv p q h = h(p := (h p)\<lparr>prv := q\<rparr>)"

definition INIT_LIST_HEAD :: "node \<Rightarrow> heap \<Rightarrow> heap" where
  "INIT_LIST_HEAD l h = set_prv l l (set_nxt l l h)"

definition list_empty :: "node \<Rightarrow> heap \<Rightarrow> bool" where
  "list_empty head h \<longleftrightarrow> nxt (h head) = head"

definition list_first_entry :: "node \<Rightarrow> heap \<Rightarrow> node" where
  "list_first_entry head h = nxt (h head)"

definition list_add_between :: "node \<Rightarrow> node \<Rightarrow> node \<Rightarrow> heap \<Rightarrow> heap" where
  "list_add_between new p n h = set_nxt p new (set_prv new p (set_nxt new n (set_prv n new h)))"

definition list_add :: "node \<Rightarrow> node \<Rightarrow> heap \<Rightarrow> heap" where
  "list_add new head h = list_add_between new head (nxt (h head)) h"

definition list_add_tail :: "node \<Rightarrow> node \<Rightarrow> heap \<Rightarrow> heap" where
  "list_add_tail new head h = list_add_between new (prv (h head)) head h"

definition list_del_between :: "node \<Rightarrow> node \<Rightarrow> heap \<Rightarrow> heap" where
  "list_del_between p n h = set_nxt p n (set_prv n p h)"

definition list_del :: "node \<Rightarrow> heap \<Rightarrow> heap" where
  "list_del e h = set_nxt e NULL_NODE (set_prv e NULL_NODE (list_del_between (prv (h e)) (nxt (h e)) h))"

definition list_del_init :: "node \<Rightarrow> heap \<Rightarrow> heap" where
  "list_del_init e h = INIT_LIST_HEAD e (list_del_between (prv (h e)) (nxt (h e)) h)"

definition list_move_tail :: "node \<Rightarrow> node \<Rightarrow> heap \<Rightarrow> heap" where
  "list_move_tail l head h = list_add_tail l head (list_del_between (prv (h l)) (nxt (h l)) h)"

subsection \<open>Well-formed lists\<close>

text \<open>\<open>links h xs\<close>: neighbours in \<open>xs\<close> point to each other.\<close>

fun links :: "heap \<Rightarrow> node list \<Rightarrow> bool" where
  "links h (x # y # xs) \<longleftrightarrow> nxt (h x) = y \<and> prv (h y) = x \<and> links h (y # xs)"
| "links h xs \<longleftrightarrow> True"

definition dlist :: "heap \<Rightarrow> node \<Rightarrow> node list \<Rightarrow> bool" where
  "dlist h head xs \<longleftrightarrow> distinct (head # xs) \<and> links h ((head # xs) @ [head])"

lemma set_simps [simp]:
  "nxt (set_nxt p q h x) = (if x = p then q else nxt (h x))" "prv (set_nxt p q h x) = prv (h x)"
  "prv (set_prv p q h x) = (if x = p then q else prv (h x))" "nxt (set_prv p q h x) = nxt (h x)"
  by (simp_all add: set_nxt_def set_prv_def)

lemma links_append:
  "us \<noteq> [] \<Longrightarrow> vs \<noteq> [] \<Longrightarrow> links h (us @ vs) \<longleftrightarrow>
     links h us \<and> nxt (h (last us)) = hd vs \<and> prv (h (hd vs)) = last us \<and> links h vs"
proof (induction us)
  case (Cons x us)
  then show ?case by (cases us; cases vs) auto
qed simp

lemma links_cong:
  "(\<And>x. x \<in> set (butlast xs) \<Longrightarrow> nxt (h' x) = nxt (h x)) \<Longrightarrow> (\<And>x. x \<in> set (tl xs) \<Longrightarrow> prv (h' x) = prv (h x)) \<Longrightarrow>
   links h' xs = links h xs"
  by (induction h xs rule: links.induct) (auto split: if_splits)

lemma dlist_frame:
  assumes "\<And>x. x \<in> set (head # xs) \<Longrightarrow> h' x = h x"
  shows "dlist h' head xs = dlist h head xs"
proof -
  have "links h' ((head # xs) @ [head]) = links h ((head # xs) @ [head])"
    by (rule links_cong) (use assms in \<open>auto simp: butlast_append\<close>)
  then show ?thesis by (simp add: dlist_def)
qed

text \<open>The neighbours of a place in a list.\<close>

lemma dlist_split:
  "dlist h head (xs @ ys) \<longleftrightarrow> distinct (head # xs @ ys) \<and> links h (head # xs) \<and> links h (ys @ [head]) \<and>
     nxt (h (last (head # xs))) = hd (ys @ [head]) \<and> prv (h (hd (ys @ [head]))) = last (head # xs)"
  using links_append [of "head # xs" "ys @ [head]" h] by (auto simp: dlist_def)

lemma dlist_nbrs:
  assumes "dlist h head (xs @ e # ys)"
  shows "prv (h e) = last (head # xs)" and "nxt (h e) = hd (ys @ [head])"
  using assms dlist_split [of h head xs "e # ys"] dlist_split [of h head "xs @ [e]" ys] by auto

lemma add_between_other: "x \<notin> {new, p, n} \<Longrightarrow> list_add_between new p n h x = h x"
  by (simp add: list_add_between_def set_nxt_def set_prv_def)

lemma del_between_other: "x \<notin> {p, n} \<Longrightarrow> list_del_between p n h x = h x"
  by (simp add: list_del_between_def set_nxt_def set_prv_def)

lemma not_last_butlast: "distinct xs \<Longrightarrow> x \<in> set (butlast xs) \<Longrightarrow> x \<noteq> last xs"
  by (induction xs) (auto split: if_splits)

lemma dlist_insert:
  assumes d: "dlist h head (xs @ ys)" and new: "new \<notin> set (head # xs @ ys)"
  shows "dlist (list_add_between new (last (head # xs)) (hd (ys @ [head])) h) head (xs @ new # ys)"
proof -
  let ?p = "last (head # xs)" and ?n = "hd (ys @ [head])"
  define h' where "h' = list_add_between new ?p ?n h"
  from d have dist: "distinct (head # xs @ ys)" and l: "links h (head # xs)" "links h (ys @ [head])"
    by (auto simp: dlist_split)
  have p: "?p \<in> set (head # xs)" by (rule last_in_set) simp
  have n: "?n \<in> set (ys @ [head])" by (rule hd_in_set) simp
  have nx: "nxt (h' x) = (if x = ?p then new else if x = new then ?n else nxt (h x))" for x
    by (auto simp: h'_def list_add_between_def)
  have pv: "prv (h' x) = (if x = new then ?p else if x = ?n then new else prv (h x))" for x
    by (auto simp: h'_def list_add_between_def)
  have "links h' (head # xs) = links h (head # xs)"
  proof (rule links_cong)
    show "nxt (h' x) = nxt (h x)" if "x \<in> set (butlast (head # xs))" for x
      using that dist new nx not_last_butlast [of "head # xs" x] in_set_butlastD [OF that] by auto
    show "prv (h' x) = prv (h x)" if "x \<in> set (tl (head # xs))" for x
      using that dist new pv n by auto
  qed
  moreover have "links h' (ys @ [head]) = links h (ys @ [head])"
  proof (rule links_cong)
    show "nxt (h' x) = nxt (h x)" if "x \<in> set (butlast (ys @ [head]))" for x
      using that dist new nx p by (auto simp: butlast_append)
    show "prv (h' x) = prv (h x)" if "x \<in> set (tl (ys @ [head]))" for x
      using that dist new pv by (cases ys) auto
  qed
  moreover have "links h' (new # ys @ [head])"
    using links_append [of "[new]" "ys @ [head]" h'] calculation(2) l(2) nx pv new n p by auto
  ultimately have "dlist h' head (xs @ new # ys)"
    using l(1) dist new nx [of ?p] pv [of new] p unfolding dlist_split by auto
  then show ?thesis by (simp only: h'_def)
qed

lemma dlist_remove:
  assumes d: "dlist h head (xs @ e # ys)"
  shows "dlist (list_del_between (prv (h e)) (nxt (h e)) h) head (xs @ ys)"
proof -
  let ?p = "last (head # xs)" and ?n = "hd (ys @ [head])"
  define h' where "h' = list_del_between ?p ?n h"
  have dist: "distinct (head # xs @ e # ys)" and l: "links h (head # xs)" and "links h (e # ys @ [head])"
    using d by (auto simp: dlist_split)
  then have l2: "links h (ys @ [head])" using links_append [of "[e]" "ys @ [head]" h] by auto
  have p: "?p \<in> set (head # xs)" by (rule last_in_set) simp
  have n: "?n \<in> set (ys @ [head])" by (rule hd_in_set) simp
  have nx: "nxt (h' x) = (if x = ?p then ?n else nxt (h x))" for x by (auto simp: h'_def list_del_between_def)
  have pv: "prv (h' x) = (if x = ?n then ?p else prv (h x))" for x by (auto simp: h'_def list_del_between_def)
  have "links h' (head # xs) = links h (head # xs)"
  proof (rule links_cong)
    show "nxt (h' x) = nxt (h x)" if "x \<in> set (butlast (head # xs))" for x
      using that dist nx not_last_butlast [of "head # xs" x] by auto
    show "prv (h' x) = prv (h x)" if "x \<in> set (tl (head # xs))" for x
      using that dist pv n by auto
  qed
  moreover have "links h' (ys @ [head]) = links h (ys @ [head])"
  proof (rule links_cong)
    show "nxt (h' x) = nxt (h x)" if "x \<in> set (butlast (ys @ [head]))" for x
      using that dist nx p by (auto simp: butlast_append)
    show "prv (h' x) = prv (h x)" if "x \<in> set (tl (ys @ [head]))" for x
      using that dist pv by (cases ys) auto
  qed
  ultimately have "dlist h' head (xs @ ys)"
    using l l2 dist nx [of ?p] pv [of ?n] unfolding dlist_split by simp
  then show ?thesis by (simp only: h'_def dlist_nbrs [OF d])
qed

subsection \<open>Several lists\<close>

text \<open>The lists with the anchors \<open>H\<close>, none sharing a node with another.\<close>

definition lists_ok :: "node set \<Rightarrow> heap \<Rightarrow> (node \<Rightarrow> node list) \<Rightarrow> bool" where
  "lists_ok H h L \<longleftrightarrow> (\<forall>a \<in> H. dlist h a (L a)) \<and>
     (\<forall>a \<in> H. \<forall>b \<in> H. a \<noteq> b \<longrightarrow> set (a # L a) \<inter> set (b # L b) = {})"

definition listed :: "node set \<Rightarrow> (node \<Rightarrow> node list) \<Rightarrow> node set" where
  "listed H L = (\<Union>a \<in> H. set (a # L a))"

lemma lists_okD: "lists_ok H h L \<Longrightarrow> a \<in> H \<Longrightarrow> dlist h a (L a)"
  by (simp add: lists_ok_def)

lemma lists_ok_distinct: "lists_ok H h L \<Longrightarrow> a \<in> H \<Longrightarrow> distinct (a # L a)"
  by (simp add: lists_ok_def dlist_def)

lemma lists_ok_update:
  assumes ok: "lists_ok H h L" and a: "a \<in> H" and d: "dlist h' a zs"
    and new: "set zs \<subseteq> set (L a) \<union> N" and N: "N \<inter> listed H L = {}"
    and frame: "\<And>x. x \<notin> set (a # L a) \<union> N \<Longrightarrow> h' x = h x"
  shows "lists_ok H h' (L(a := zs))"
proof -
  have dis: "set (a # L a) \<inter> set (b # L b) = {}" "N \<inter> set (b # L b) = {}" if "b \<in> H" "b \<noteq> a" for b
    using ok a that N by (auto simp: lists_ok_def listed_def)
  have "dlist h' b (L b)" if "b \<in> H" "b \<noteq> a" for b
  proof -
    have "h' x = h x" if "x \<in> set (b # L b)" for x
      using dis [OF \<open>b \<in> H\<close> \<open>b \<noteq> a\<close>] that by (intro frame) blast
    then show ?thesis using dlist_frame [of b "L b" h' h] ok that by (simp add: lists_ok_def)
  qed
  moreover have "set (a # zs) \<inter> set (b # L b) = {}" if "b \<in> H" "b \<noteq> a" for b
    using dis [OF that] new by auto
  ultimately show ?thesis
    using ok d unfolding lists_ok_def by (auto simp del: list.set)
qed

lemma dlist_last: "dlist h a xs \<Longrightarrow> prv (h a) = last (a # xs)"
  using dlist_split [of h a xs "[]"] by simp

lemma dlist_first: "dlist h a xs \<Longrightarrow> nxt (h a) = hd (xs @ [a])"
  using dlist_split [of h a "[]" xs] by simp

lemma last_in: "last (a # xs) \<in> set (a # xs)"
  by (rule last_in_set) simp

lemma hd_in: "hd (xs @ [a]) \<in> set (a # xs)"
  using hd_in_set [of "xs @ [a]"] by auto

lemma insert_ok:
  assumes ok: "lists_ok H h L" and a: "a \<in> H" and L: "L a = xs @ ys" and new: "new \<notin> listed H L"
  shows "lists_ok H (list_add_between new (last (a # xs)) (hd (ys @ [a])) h) (L(a := xs @ new # ys))"
proof (rule lists_ok_update [OF ok a, where N = "{new}"])
  have n: "new \<notin> set (a # xs @ ys)" using new a L by (auto simp: listed_def)
  show "dlist (list_add_between new (last (a # xs)) (hd (ys @ [a])) h) a (xs @ new # ys)"
    using lists_okD [OF ok a] n unfolding L by (rule dlist_insert)
  show "list_add_between new (last (a # xs)) (hd (ys @ [a])) h x = h x" if "x \<notin> set (a # L a) \<union> {new}" for x
    using that last_in [of a xs] hd_in [of ys a] by (intro add_between_other) (auto simp: L simp del: last.simps)
qed (use L new in auto)

lemma list_add_ok:
  assumes "lists_ok H h L" "a \<in> H" "new \<notin> listed H L"
  shows "lists_ok H (list_add new a h) (L(a := new # L a))"
  using insert_ok [OF assms(1,2) _ assms(3), of "[]" "L a"] dlist_first [OF lists_okD [OF assms(1,2)]]
  by (simp add: list_add_def)

lemma list_add_tail_ok:
  assumes "lists_ok H h L" "a \<in> H" "new \<notin> listed H L"
  shows "lists_ok H (list_add_tail new a h) (L(a := L a @ [new]))"
  using insert_ok [OF assms(1,2) _ assms(3), of "L a" "[]"] dlist_last [OF lists_okD [OF assms(1,2)]]
  by (simp add: list_add_tail_def del: last.simps)

lemma list_add_before_ok:
  assumes "lists_ok H h L" "a \<in> H" "L a = xs @ e # ys" "new \<notin> listed H L"
  shows "lists_ok H (list_add_between new (prv (h e)) e h) (L(a := xs @ new # e # ys))"
  using insert_ok [OF assms(1,2) _ assms(4), of xs "e # ys"] dlist_nbrs(1) [of h a xs e ys] lists_okD [OF assms(1,2)] assms(3)
  by (simp del: last.simps)

lemma set_links_other: "x \<noteq> e \<Longrightarrow> set_nxt e p h x = h x" "x \<noteq> e \<Longrightarrow> set_prv e p h x = h x"
  by (simp_all add: set_nxt_def set_prv_def)

text \<open>Taking a node out of its list and then writing only the node itself.\<close>

lemma remove_ok:
  assumes ok: "lists_ok H h L" and a: "a \<in> H" and L: "L a = xs @ e # ys"
    and f: "\<And>g x. x \<noteq> e \<Longrightarrow> f g x = g x"
  shows "lists_ok H (f (list_del_between (prv (h e)) (nxt (h e)) h)) (L(a := xs @ ys))"
proof (rule lists_ok_update [OF ok a, where N = "{}"])
  let ?h = "list_del_between (prv (h e)) (nxt (h e)) h"
  have d: "dlist h a (xs @ e # ys)" using lists_okD [OF ok a] L by simp
  then have e: "e \<notin> set (a # xs @ ys)" by (auto simp: dlist_def)
  have "f ?h x = ?h x" if "x \<in> set (a # xs @ ys)" for x using that e by (intro f) auto
  then show "dlist (f ?h) a (xs @ ys)" using dlist_frame [of a "xs @ ys" "f ?h" ?h] dlist_remove [OF d] by simp
  show "f ?h x = h x" if "x \<notin> set (a # L a) \<union> {}" for x
  proof -
    have "x \<noteq> e" "x \<noteq> prv (h e)" "x \<noteq> nxt (h e)"
      using that dlist_nbrs [OF d] last_in [of a xs] hd_in [of ys a] by (auto simp: L simp del: last.simps)
    then show ?thesis by (simp add: f del_between_other)
  qed
qed (auto simp: L)

lemma list_del_init_ok:
  assumes "lists_ok H h L" "a \<in> H" "L a = xs @ e # ys"
  shows "lists_ok H (list_del_init e h) (L(a := xs @ ys))"
  unfolding list_del_init_def by (rule remove_ok [OF assms]) (simp add: INIT_LIST_HEAD_def set_links_other)

lemma list_del_ok:
  assumes "lists_ok H h L" "a \<in> H" "L a = xs @ e # ys"
  shows "lists_ok H (list_del e h) (L(a := xs @ ys))"
  unfolding list_del_def
  by (rule remove_ok [OF assms, where f = "\<lambda>g. set_nxt e NULL_NODE (set_prv e NULL_NODE g)"]) (simp add: set_links_other)

lemma init_unlisted_ok:
  assumes "lists_ok H h L" "l \<notin> listed H L"
  shows "lists_ok H (INIT_LIST_HEAD l h) L"
proof -
  have "dlist (INIT_LIST_HEAD l h) a (L a) = dlist h a (L a)" if "a \<in> H" for a
    by (rule dlist_frame) (use assms(2) that in \<open>fastforce simp: listed_def INIT_LIST_HEAD_def set_nxt_def set_prv_def\<close>)
  with assms(1) show ?thesis by (simp add: lists_ok_def)
qed

lemma list_empty_iff: "lists_ok H h L \<Longrightarrow> a \<in> H \<Longrightarrow> list_empty a h \<longleftrightarrow> L a = []"
  using dlist_first [of h a "L a"] by (cases "L a") (auto simp: lists_ok_def dlist_def list_empty_def)

lemma list_first: "lists_ok H h L \<Longrightarrow> a \<in> H \<Longrightarrow> L a = x # xs \<Longrightarrow> list_first_entry a h = x"
  using dlist_first [OF lists_okD] by (fastforce simp: list_first_entry_def)

lemma list_next: "lists_ok H h L \<Longrightarrow> a \<in> H \<Longrightarrow> L a = xs @ x # ys \<Longrightarrow> nxt (h x) = hd (ys @ [a])"
  using dlist_nbrs(2) [of h a xs x ys] lists_okD [of H h L a] by simp

subsection \<open>Sequences of operations\<close>

datatype list_op = Add node node | Add_tail node node | Add_before node node | Del_init node | Move_tail node node

fun heap_op :: "list_op \<Rightarrow> heap \<Rightarrow> heap" where
  "heap_op (Add x a) h = list_add x a h"
| "heap_op (Add_tail x a) h = list_add_tail x a h"
| "heap_op (Add_before x y) h = list_add_between x (prv (h y)) y h"
| "heap_op (Del_init x) h = list_del_init x h"
| "heap_op (Move_tail x a) h = list_move_tail x a h"

fun insert_before :: "node \<Rightarrow> node \<Rightarrow> node list \<Rightarrow> node list" where
  "insert_before x y [] = []"
| "insert_before x y (z # zs) = (if z = y then x # z # zs else z # insert_before x y zs)"

fun spec_op :: "list_op \<Rightarrow> (node \<Rightarrow> node list) \<Rightarrow> node \<Rightarrow> node list" where
  "spec_op (Add x a) L = L(a := x # L a)"
| "spec_op (Add_tail x a) L = L(a := L a @ [x])"
| "spec_op (Add_before x y) L = (\<lambda>a. insert_before x y (L a))"
| "spec_op (Del_init x) L = (\<lambda>a. remove1 x (L a))"
| "spec_op (Move_tail x a) L = (let L' = (\<lambda>b. remove1 x (L b)) in L'(a := L' a @ [x]))"

text \<open>What each operation needs: a node that is added is on no list, one that is removed or inserted
  before is on one.\<close>

fun op_ok :: "node set \<Rightarrow> list_op \<Rightarrow> (node \<Rightarrow> node list) \<Rightarrow> bool" where
  "op_ok H (Add x a) L \<longleftrightarrow> a \<in> H \<and> x \<notin> listed H L"
| "op_ok H (Add_tail x a) L \<longleftrightarrow> a \<in> H \<and> x \<notin> listed H L"
| "op_ok H (Add_before x y) L \<longleftrightarrow> (\<exists>a \<in> H. y \<in> set (L a)) \<and> x \<notin> listed H L"
| "op_ok H (Del_init x) L \<longleftrightarrow> (\<exists>a \<in> H. x \<in> set (L a))"
| "op_ok H (Move_tail x a) L \<longleftrightarrow> a \<in> H \<and> (\<exists>b \<in> H. x \<in> set (L b))"

subsection \<open>Simulation of operations\<close>

fun run_ok :: "('o \<Rightarrow> 's \<Rightarrow> bool) \<Rightarrow> ('o \<Rightarrow> 's \<Rightarrow> 's) \<Rightarrow> 'o list \<Rightarrow> 's \<Rightarrow> bool" where
  "run_ok pre spec [] l \<longleftrightarrow> True"
| "run_ok pre spec (oper # ops) l \<longleftrightarrow> pre oper l \<and> run_ok pre spec ops (spec oper l)"

text \<open>An implementation whose every operation, applied where its precondition holds, follows the
  specification; then so does every sequence of operations.\<close>

locale op_simulation =
  fixes rep :: "'h \<Rightarrow> 'l \<Rightarrow> bool" and pre :: "'o \<Rightarrow> 'l \<Rightarrow> bool"
    and impl :: "'o \<Rightarrow> 'h \<Rightarrow> 'h" and spec :: "'o \<Rightarrow> 'l \<Rightarrow> 'l"
  assumes step: "rep h l \<Longrightarrow> pre oper l \<Longrightarrow> rep (impl oper h) (spec oper l)"
begin

lemma run: "rep h l \<Longrightarrow> run_ok pre spec ops l \<Longrightarrow> rep (fold impl ops h) (fold spec ops l)"
  by (induction ops arbitrary: h l) (auto intro: step)

end

lemma lists_ok_cong: "(\<And>a. a \<in> H \<Longrightarrow> L a = L' a) \<Longrightarrow> lists_ok H h L = lists_ok H h L'"
  unfolding lists_ok_def by (intro conj_cong ball_cong refl) simp_all

lemma other_list:
  assumes "lists_ok H h L" "a \<in> H" "b \<in> H" "a \<noteq> b" "x \<in> set (L a)"
  shows "x \<notin> set (L b)"
proof -
  have "set (a # L a) \<inter> set (b # L b) = {}" using assms(1-4) unfolding lists_ok_def by blast
  with assms(5) show ?thesis by auto
qed

lemma insert_before_split: "y \<notin> set xs \<Longrightarrow> insert_before x y (xs @ y # ys) = xs @ x # y # ys"
  by (induction xs) auto

lemma insert_before_other: "y \<notin> set xs \<Longrightarrow> insert_before x y xs = xs"
  by (induction xs) auto

lemma remove1_split: "e \<notin> set xs \<Longrightarrow> remove1 e (xs @ e # ys) = xs @ ys"
  by (simp add: remove1_append)

lemma on_one_list:
  assumes ok: "lists_ok H h L" and a: "a \<in> H" and e: "e \<in> set (L a)"
  obtains xs ys where "L a = xs @ e # ys" and "e \<notin> set xs" and "e \<notin> set ys"
    and "\<forall>b \<in> H. remove1 e (L b) = (L(a := xs @ ys)) b"
    and "\<forall>b \<in> H. \<forall>x. insert_before x e (L b) = (L(a := xs @ x # e # ys)) b"
proof -
  obtain xs ys where L: "L a = xs @ e # ys" using e by (metis split_list)
  have d: "e \<notin> set xs" "e \<notin> set ys" using lists_ok_distinct [OF ok a] L by auto
  have r: "remove1 e (L b) = (L(a := xs @ ys)) b" "insert_before x e (L b) = (L(a := xs @ x # e # ys)) b" if "b \<in> H" for b x
  proof -
    show "remove1 e (L b) = (L(a := xs @ ys)) b"
      using other_list [OF ok a that _ e] L d by (cases "b = a") (auto simp: remove1_split remove1_idem)
    show "insert_before x e (L b) = (L(a := xs @ x # e # ys)) b"
      using other_list [OF ok a that _ e] L d by (cases "b = a") (auto simp: insert_before_split insert_before_other)
  qed
  show thesis by (rule that [OF L d]) (use r in blast)+
qed

lemma listed_remove: "listed H (\<lambda>b. remove1 e (L b)) \<subseteq> listed H L"
  using set_remove1_subset by (fastforce simp: listed_def)

lemma heap_op_refines:
  assumes ok: "lists_ok H h L" and "op_ok H oper L"
  shows "lists_ok H (heap_op oper h) (spec_op oper L)"
  using assms(2)
proof (cases oper)
  case (Add_before x y)
  with assms(2) obtain a where a: "a \<in> H" "y \<in> set (L a)" and x: "x \<notin> listed H L" by auto
  obtain xs ys where L: "L a = xs @ y # ys" and s: "\<forall>b \<in> H. \<forall>x. insert_before x y (L b) = (L(a := xs @ x # y # ys)) b"
    using on_one_list [OF ok a] by metis
  show ?thesis
    using list_add_before_ok [OF ok a(1) L x] lists_ok_cong [of H "\<lambda>b. insert_before x y (L b)" "L(a := xs @ x # y # ys)"] s
    by (simp add: Add_before)
next
  case (Del_init x)
  with assms(2) obtain a where a: "a \<in> H" "x \<in> set (L a)" by auto
  obtain xs ys where L: "L a = xs @ x # ys" and s: "\<forall>b \<in> H. remove1 x (L b) = (L(a := xs @ ys)) b"
    using on_one_list [OF ok a] by metis
  show ?thesis
    using list_del_init_ok [OF ok a(1) L] lists_ok_cong [of H "\<lambda>b. remove1 x (L b)" "L(a := xs @ ys)"] s
    by (simp add: Del_init)
next
  case (Move_tail x b)
  with assms(2) obtain a where a: "a \<in> H" "x \<in> set (L a)" and b: "b \<in> H" by auto
  obtain xs ys where L: "L a = xs @ x # ys" "x \<notin> set xs" "x \<notin> set ys"
    and s: "\<forall>b \<in> H. remove1 x (L b) = (L(a := xs @ ys)) b"
    using on_one_list [OF ok a] by metis
  let ?h = "list_del_between (prv (h x)) (nxt (h x)) h" and ?L = "\<lambda>b. remove1 x (L b)"
  have del: "lists_ok H ?h ?L"
    using remove_ok [OF ok a(1) L(1), of "\<lambda>g. g"] lists_ok_cong [of H ?L "L(a := xs @ ys)"] s by simp
  have "x \<notin> set (?L c)" "x \<noteq> c" if "c \<in> H" for c
  proof -
    show "x \<notin> set (?L c)" using s that L(2,3) other_list [OF ok a(1) that _ a(2)] by auto
    show "x \<noteq> c"
    proof (cases "c = a")
      case False
      then have "set (a # L a) \<inter> set (c # L c) = {}" using ok a(1) that unfolding lists_ok_def by blast
      with a(2) show ?thesis by auto
    qed (use lists_ok_distinct [OF ok a(1)] a(2) in auto)
  qed
  then have "x \<notin> listed H ?L" by (auto simp: listed_def)
  from list_add_tail_ok [OF del b this] show ?thesis by (simp add: Move_tail list_move_tail_def Let_def)
qed (use ok list_add_ok list_add_tail_ok in auto)

interpretation kl: op_simulation "lists_ok H" "op_ok H" heap_op spec_op
  by unfold_locales (rule heap_op_refines)

text \<open>C20. The pointer operations of \<open>include/list.h\<close> implement lists. For any sequence of additions,
  insertions, removals and moves, each applied to nodes it is meant for, the doubly linked heap
  represents the lists that the same sequence of list operations gives, all lists staying well
  linked in both directions and apart from each other.\<close>

theorem kernel_list_refines:
  assumes "lists_ok H h L" and "run_ok (op_ok H) spec_op ops L"
  shows "lists_ok H (fold heap_op ops h) (fold spec_op ops L)"
  using assms by (rule kl.run)

definition empty_heap :: heap where
  "empty_heap n = \<lparr>nxt = n, prv = n\<rparr>"

lemma empty_heap_ok: "lists_ok {Head 0, Head 1} empty_heap (\<lambda>_. [])"
  by (simp add: lists_ok_def dlist_def empty_heap_def)

theorem kernel_list_refines_witness:
  "lists_ok {Head 0, Head 1}
     (fold heap_op [Add_tail (Entry 1) (Head 0), Add_before (Entry 2) (Entry 1), Move_tail (Entry 1) (Head 1)] empty_heap)
     ((\<lambda>_. [])(Head 0 := [Entry 2], Head 1 := [Entry 1]))"
proof -
  let ?ops = "[Add_tail (Entry 1) (Head 0), Add_before (Entry 2) (Entry 1), Move_tail (Entry 1) (Head 1)]"
  have "run_ok (op_ok {Head 0, Head 1}) spec_op ?ops (\<lambda>_. [])" by (simp add: listed_def)
  moreover have "fold spec_op ?ops (\<lambda>_. []) = (\<lambda>_. [])(Head 0 := [Entry 2], Head 1 := [Entry 1])"
    by (rule ext) (simp add: Let_def)
  ultimately show ?thesis using kernel_list_refines [OF empty_heap_ok, of ?ops] by (simp only:)
qed

end
