(* ===== verification/Actor.thy ===== *)
theory Actor
  imports Kernel_List "HOL-Library.Monad_Syntax"
begin

text \<open>
  The event scheduler of \<open>usr/actor.c\<close> and \<open>usr/actor.h\<close>: actors with their state and due time, the two
  lists \<open>pend_list\<close> and \<open>ready_list\<close> in the heap of \<open>Kernel_List\<close>, the \<open>SIGALRM\<close> timer, and the calls of the
  interface. An actor is named by a number, which also names the list node embedded in it. Times are the
  seconds of the monotonic clock, as integers; a delay is a 32-bit word. A loop over a list follows the
  pointers and is a \<open>partial_function\<close>, so that a ring that never comes back to its anchor is the result
  \<open>None\<close>. Log output is left out. Callbacks are a parameter: the list of calls each one makes.
\<close>

subsection \<open>Actors and the scheduler\<close>

datatype actor_state = ACTOR_INVALID | ACTOR_WAITING | ACTOR_SCHEDULED | ACTOR_NOTSCHEDULED

record actor =
  state :: actor_state
  actor_data :: nat
  callback :: nat
  ttschedule :: int

text \<open>\<open>alarm_at\<close> is the time at which the pending \<open>alarm\<close> goes off; \<open>calls\<close> lists the threads whose
  callback has been called, the latest last.\<close>

record sched =
  heap :: heap
  actors :: "nat \<Rightarrow> actor"
  alarm_at :: "int option"
  poll_in_progress :: bool
  calls :: "nat list"

definition pend_list :: node where "pend_list = Head 0"
definition ready_list :: node where "ready_list = Head 1"

fun thread_of :: "node \<Rightarrow> nat" where
  "thread_of (Entry t) = t"
| "thread_of _ = 0"

definition upd_actor :: "nat \<Rightarrow> (actor \<Rightarrow> actor) \<Rightarrow> sched \<Rightarrow> sched" where
  "upd_actor t f s = s\<lparr>actors := (actors s)(t := f (actors s t))\<rparr>"

definition upd_heap :: "(heap \<Rightarrow> heap) \<Rightarrow> sched \<Rightarrow> sched" where
  "upd_heap f s = s\<lparr>heap := f (heap s)\<rparr>"

definition set_state :: "nat \<Rightarrow> actor_state \<Rightarrow> sched \<Rightarrow> sched" where
  "set_state t st = upd_actor t (\<lambda>a. a\<lparr>state := st\<rparr>)"

text \<open>\<open>alarm(secs)\<close> called at time \<open>now\<close>; its argument is an \<open>unsigned int\<close>.\<close>

definition set_alarm :: "int \<Rightarrow> 32 word \<Rightarrow> sched \<Rightarrow> sched" where
  "set_alarm now secs s = s\<lparr>alarm_at := if secs = 0 then None else Some (now + uint secs)\<rparr>"

definition actor_time_left :: "actor \<Rightarrow> int \<Rightarrow> int" where
  "actor_time_left thread current_time =
     (if current_time > ttschedule thread then 0 else ttschedule thread - current_time)"

definition time_after :: "int \<Rightarrow> int \<Rightarrow> bool" where
  "time_after a b \<longleftrightarrow> b - a < 0"

definition actor_init :: "nat \<Rightarrow> nat \<Rightarrow> nat \<Rightarrow> sched \<Rightarrow> sched" where
  "actor_init thread cb data s =
     upd_actor thread (\<lambda>a. a\<lparr>state := ACTOR_NOTSCHEDULED, callback := cb, actor_data := data\<rparr>)
       (upd_heap (INIT_LIST_HEAD (Entry thread)) s)"

definition actor_delete :: "nat \<Rightarrow> sched \<Rightarrow> sched" where
  "actor_delete thread s =
     set_state thread ACTOR_NOTSCHEDULED
       (if state (actors s thread) = ACTOR_WAITING \<or> state (actors s thread) = ACTOR_SCHEDULED
        then let s = upd_heap (list_del_init (Entry thread)) s
             in if list_empty pend_list (heap s) then s\<lparr>alarm_at := None\<rparr> else s
        else s)"

text \<open>The first entry from \<open>pos\<close> on that is due later than \<open>due\<close>; the inner \<open>None\<close> when the loop reaches
  the anchor. The outer \<open>None\<close> is a loop that never does.\<close>

partial_function (option) later_thread :: "sched \<Rightarrow> int \<Rightarrow> node \<Rightarrow> node option option" where
  "later_thread s due pos =
     (if pos = pend_list then Some None
      else if time_after (ttschedule (actors s (thread_of pos))) due then Some (Some pos)
      else later_thread s due (nxt (heap s pos)))"

declare later_thread.simps [code]

definition actor_insert_on_pend_list :: "nat \<Rightarrow> 32 word \<Rightarrow> int \<Rightarrow> sched \<Rightarrow> sched option" where
  "actor_insert_on_pend_list thread delay_secs now s =
     (let orig_head = (if list_empty pend_list (heap s) then None else Some (list_first_entry pend_list (heap s)))
      in Option.bind (later_thread s (ttschedule (actors s thread)) (nxt (heap s pend_list))) (\<lambda>pos.
        let s = (case pos of
                   Some next_thread \<Rightarrow>
                     upd_heap (\<lambda>h. list_add_between (Entry thread) (prv (h next_thread)) next_thread h) s
                 | None \<Rightarrow> upd_heap (list_add_tail (Entry thread) pend_list) s)
        in Some (if orig_head \<noteq> Some (list_first_entry pend_list (heap s)) then set_alarm now delay_secs s else s)))"

text \<open>\<open>clock\<close> is what \<open>clock_gettime\<close> reads, \<open>None\<close> when it fails.\<close>

definition schedule_unlinked :: "nat \<Rightarrow> 32 word \<Rightarrow> bool \<Rightarrow> int \<Rightarrow> sched \<Rightarrow> sched option" where
  "schedule_unlinked thread delay_secs head now s =
     (let s = upd_heap (INIT_LIST_HEAD (Entry thread)) s
      in if delay_secs = 0
         then Some (upd_heap ((if head then list_add else list_add_tail) (Entry thread) ready_list)
                (set_state thread ACTOR_SCHEDULED s))
         else actor_insert_on_pend_list thread delay_secs now
                (upd_actor thread (\<lambda>a. a\<lparr>state := ACTOR_WAITING, ttschedule := now + uint delay_secs\<rparr>) s))"

definition actor_schedule_private :: "nat \<Rightarrow> 32 word \<Rightarrow> bool \<Rightarrow> int option \<Rightarrow> sched \<Rightarrow> sched option" where
  "actor_schedule_private thread delay_secs head clock s =
     (case clock of
        None \<Rightarrow> Some s
      | Some now \<Rightarrow>
          (case state (actors s thread) of
             ACTOR_WAITING \<Rightarrow> schedule_unlinked thread delay_secs head now (upd_heap (list_del (Entry thread)) s)
           | ACTOR_NOTSCHEDULED \<Rightarrow> schedule_unlinked thread delay_secs head now s
           | ACTOR_SCHEDULED \<Rightarrow> Some s
           | ACTOR_INVALID \<Rightarrow> Some s))"

definition actor_schedule_head :: "nat \<Rightarrow> int option \<Rightarrow> sched \<Rightarrow> sched option" where
  "actor_schedule_head thread = actor_schedule_private thread 0 True"

definition actor_schedule :: "nat \<Rightarrow> int option \<Rightarrow> sched \<Rightarrow> sched option" where
  "actor_schedule thread = actor_schedule_private thread 0 False"

definition actor_timer :: "nat \<Rightarrow> 32 word \<Rightarrow> nat \<Rightarrow> nat \<Rightarrow> int option \<Rightarrow> sched \<Rightarrow> sched option" where
  "actor_timer thread timeout_secs cb data clock s =
     actor_schedule_private thread timeout_secs False clock (actor_init thread cb data s)"

definition actor_timer_mod :: "nat \<Rightarrow> 32 word \<Rightarrow> nat \<Rightarrow> int option \<Rightarrow> sched \<Rightarrow> sched option" where
  "actor_timer_mod thread new_timeout_secs data clock s =
     actor_schedule_private thread new_timeout_secs False clock
       (upd_actor thread (\<lambda>a. a\<lparr>actor_data := data\<rparr>) (actor_delete thread s))"

subsection \<open>Calls and callbacks\<close>

text \<open>The calls of the interface, each with the clock it reads. A callback is the list of calls it makes.\<close>

datatype sched_call =
    Init nat nat nat
  | Delete nat
  | Schedule nat "int option"
  | Schedule_head nat "int option"
  | Timer nat "32 word" nat nat "int option"
  | Timer_mod nat "32 word" nat "int option"

fun do_call :: "sched_call \<Rightarrow> sched \<Rightarrow> sched option" where
  "do_call (Init t cb d) s = Some (actor_init t cb d s)"
| "do_call (Delete t) s = Some (actor_delete t s)"
| "do_call (Schedule t clock) s = actor_schedule t clock s"
| "do_call (Schedule_head t clock) s = actor_schedule_head t clock s"
| "do_call (Timer t secs cb d clock) s = actor_timer t secs cb d clock s"
| "do_call (Timer_mod t secs d clock) s = actor_timer_mod t secs d clock s"

fun do_calls :: "sched_call list \<Rightarrow> sched \<Rightarrow> sched option" where
  "do_calls [] s = Some s"
| "do_calls (c # cs) s = Option.bind (do_call c s) (do_calls cs)"

text \<open>The loop that moves ripe entries, with the two cursors of \<open>list_for_each_entry_safe\<close>. \<open>None\<close> is a
  loop that does not end or a failed assertion.\<close>

partial_function (option) move_ripe :: "int \<Rightarrow> node \<Rightarrow> node \<Rightarrow> sched \<Rightarrow> sched option" where
  "move_ripe now thread tmp s =
     (if thread = pend_list then Some s
      else if actor_time_left (actors s (thread_of thread)) now \<noteq> 0
      then Some (set_alarm now (word_of_int (actor_time_left (actors s (thread_of thread)) now)) s)
      else
        let s = upd_heap (list_add_tail thread ready_list) (upd_heap (list_del_init thread) s)
        in if state (actors s (thread_of thread)) \<noteq> ACTOR_WAITING then None
           else
             let s = set_state (thread_of thread) ACTOR_SCHEDULED s
             in move_ripe now tmp (nxt (heap s tmp)) s)"

declare move_ripe.simps [code]

text \<open>What \<open>actor_poll\<close> does up to its second loop, and one turn of that loop up to the callback.\<close>

definition poll_begin :: "int \<Rightarrow> sched \<Rightarrow> sched option" where
  "poll_begin now s =
     (let thread = nxt (heap s pend_list)
      in Option.bind (move_ripe now thread (nxt (heap s thread)) s) (\<lambda>s.
         Some ((if list_empty pend_list (heap s) then s\<lparr>alarm_at := None\<rparr> else s)\<lparr>poll_in_progress := True\<rparr>)))"

definition take_ready :: "sched \<Rightarrow> sched" where
  "take_ready s =
     (let thread = list_first_entry ready_list (heap s)
      in set_state (thread_of thread) ACTOR_NOTSCHEDULED (upd_heap (list_del_init thread) s)
           \<lparr>calls := calls s @ [thread_of thread]\<rparr>)"

text \<open>\<open>cbs f d n\<close> are the calls that the callback \<open>f\<close> makes on the data \<open>d\<close> when it is the \<open>n\<close>-th callback run.\<close>

partial_function (option) run_ready :: "(nat \<Rightarrow> nat \<Rightarrow> nat \<Rightarrow> sched_call list) \<Rightarrow> sched \<Rightarrow> sched option" where
  "run_ready cbs s =
     (if list_empty ready_list (heap s) then Some s
      else
        let thread = actors s (thread_of (list_first_entry ready_list (heap s)))
        in Option.bind (do_calls (cbs (callback thread) (actor_data thread) (length (calls s))) (take_ready s)) (run_ready cbs))"

declare run_ready.simps [code]

definition actor_poll :: "(nat \<Rightarrow> nat \<Rightarrow> nat \<Rightarrow> sched_call list) \<Rightarrow> int option \<Rightarrow> sched \<Rightarrow> sched option" where
  "actor_poll cbs clock s =
     (if poll_in_progress s then Some s
      else case clock of
        None \<Rightarrow> Some s
      | Some now \<Rightarrow>
          Option.bind (poll_begin now s) (\<lambda>s.
          Option.bind (run_ready cbs s) (\<lambda>s. Some (s\<lparr>poll_in_progress := False\<rparr>))))"

end
