(* ===== verification/Actor_Invariant.thy ===== *)
theory Actor_Invariant
  imports Actor
begin

text \<open>
  The invariant of the scheduler and that every operation keeps it: \<open>queues\<close> ties the heap, the states of
  the actors and the two lists together, \<open>alarm_set\<close> says that the alarm covers the first pending actor, and
  \<open>sched_ok\<close> adds that no actor is due further ahead than a delay reaches. \<open>sched_run\<close> is the set of
  states reached by calls, polls and callbacks.
\<close>

subsection \<open>The queues a scheduler state represents\<close>

definition anchors :: "node set" where
  "anchors = {pend_list, ready_list}"

definition queue_map :: "nat list \<Rightarrow> nat list \<Rightarrow> node \<Rightarrow> node list" where
  "queue_map P R = (\<lambda>_. [])(pend_list := map Entry P, ready_list := map Entry R)"

abbreviation due :: "sched \<Rightarrow> nat \<Rightarrow> int" where
  "due s t \<equiv> ttschedule (actors s t)"

abbreviation st :: "sched \<Rightarrow> nat \<Rightarrow> actor_state" where
  "st s t \<equiv> state (actors s t)"

definition queues :: "sched \<Rightarrow> nat list \<Rightarrow> nat list \<Rightarrow> bool" where
  "queues s P R \<longleftrightarrow>
     lists_ok anchors (heap s) (queue_map P R) \<and> sorted (map (due s) P) \<and>
     (\<forall>t. st s t = ACTOR_WAITING \<longleftrightarrow> t \<in> set P) \<and> (\<forall>t. st s t = ACTOR_SCHEDULED \<longleftrightarrow> t \<in> set R)"

text \<open>While an actor is pending, an alarm is set that goes off no later than the first one is due.\<close>

definition alarm_set :: "sched \<Rightarrow> nat list \<Rightarrow> bool" where
  "alarm_set s P \<longleftrightarrow> (P \<noteq> [] \<longrightarrow> (\<exists>d. alarm_at s = Some d \<and> d \<le> due s (hd P)))"

text \<open>\<open>c\<close> is the last time the clock was read: no actor is due beyond the range of a delay from then.\<close>

definition sched_ok :: "sched \<Rightarrow> int \<Rightarrow> nat list \<Rightarrow> nat list \<Rightarrow> bool" where
  "sched_ok s c P R \<longleftrightarrow> queues s P R \<and> alarm_set s P \<and> (\<forall>t \<in> set P. due s t < c + 2 ^ 32)"

lemma anchors_distinct [simp]: "pend_list \<noteq> ready_list" "ready_list \<noteq> pend_list" "pend_list \<noteq> Entry t" "ready_list \<noteq> Entry t"
  "Entry t \<noteq> pend_list" "Entry t \<noteq> ready_list"
  by (simp_all add: pend_list_def ready_list_def)

lemma queue_map_simps [simp]: "queue_map P R pend_list = map Entry P" "queue_map P R ready_list = map Entry R"
  by (simp_all add: queue_map_def)

lemma queue_map_upd: "(queue_map P R)(pend_list := map Entry P') = queue_map P' R"
  "(queue_map P R)(ready_list := map Entry R') = queue_map P R'"
  by (auto simp: queue_map_def fun_eq_iff)

lemma in_anchors [simp]: "pend_list \<in> anchors" "ready_list \<in> anchors"
  by (simp_all add: anchors_def)

lemma entry_listed: "Entry t \<in> listed anchors (queue_map P R) \<longleftrightarrow> t \<in> set P \<or> t \<in> set R"
  by (auto simp: listed_def anchors_def)

lemma upd_simps [simp]:
  "heap (upd_actor t f s) = heap s" "alarm_at (upd_actor t f s) = alarm_at s" "calls (upd_actor t f s) = calls s"
  "poll_in_progress (upd_actor t f s) = poll_in_progress s"
  "actors (upd_actor t f s) = (actors s)(t := f (actors s t))"
  "heap (upd_heap g s) = g (heap s)" "actors (upd_heap g s) = actors s" "alarm_at (upd_heap g s) = alarm_at s"
  "calls (upd_heap g s) = calls s" "poll_in_progress (upd_heap g s) = poll_in_progress s"
  by (simp_all add: upd_actor_def upd_heap_def)

lemma set_state_simps [simp]:
  "heap (set_state t x s) = heap s" "alarm_at (set_state t x s) = alarm_at s" "calls (set_state t x s) = calls s"
  "poll_in_progress (set_state t x s) = poll_in_progress s"
  "st (set_state t x s) u = (if u = t then x else st s u)" "due (set_state t x s) u = due s u"
  "callback (actors (set_state t x s) u) = callback (actors s u)"
  "actor_data (actors (set_state t x s) u) = actor_data (actors s u)"
  by (simp_all add: set_state_def)

lemma set_alarm_simps [simp]:
  "heap (set_alarm n x s) = heap s" "actors (set_alarm n x s) = actors s" "calls (set_alarm n x s) = calls s"
  "poll_in_progress (set_alarm n x s) = poll_in_progress s"
  by (simp_all add: set_alarm_def)

lemma set_alarm_due: "secs \<noteq> 0 \<Longrightarrow> alarm_at (set_alarm now secs s) = Some (now + uint secs)"
  by (simp add: set_alarm_def)

lemma queuesD:
  assumes "queues s P R"
  shows "lists_ok anchors (heap s) (queue_map P R)" "sorted (map (due s) P)"
    "st s t = ACTOR_WAITING \<longleftrightarrow> t \<in> set P" "st s t = ACTOR_SCHEDULED \<longleftrightarrow> t \<in> set R"
  using assms by (simp_all add: queues_def)

lemma queues_distinct:
  assumes "queues s P R"
  shows "distinct P" "distinct R" "set P \<inter> set R = {}"
proof -
  have d: "distinct (map Entry P)" "distinct (map Entry R)"
    using lists_ok_distinct [OF queuesD(1) [OF assms], of pend_list] lists_ok_distinct [OF queuesD(1) [OF assms], of ready_list]
    by simp_all
  then show "distinct P" "distinct R" by (simp_all add: distinct_map)
  show "set P \<inter> set R = {}" using assms by (force simp: queues_def)
qed

lemma sorted_hd: "sorted (map f (x # xs)) \<Longrightarrow> y \<in> set xs \<Longrightarrow> f x \<le> (f y :: int)"
  by simp

lemma remove1_map_Entry: "remove1 (Entry t) (map Entry P) = map Entry (remove1 t P)"
  by (induction P) auto

lemma del_init_queues:
  assumes "lists_ok anchors h (queue_map P R)" "t \<in> set P \<or> t \<in> set R"
  shows "lists_ok anchors (list_del_init (Entry t) h) (queue_map (remove1 t P) (remove1 t R))"
proof -
  have "op_ok anchors (Del_init (Entry t)) (queue_map P R)" using assms(2) by (auto simp: anchors_def)
  from heap_op_refines [OF assms(1) this]
  have "lists_ok anchors (list_del_init (Entry t) h) (\<lambda>a. remove1 (Entry t) (queue_map P R a))" by simp
  moreover have "lists_ok anchors (list_del_init (Entry t) h) (\<lambda>a. remove1 (Entry t) (queue_map P R a)) =
      lists_ok anchors (list_del_init (Entry t) h) (queue_map (remove1 t P) (remove1 t R))"
    by (rule lists_ok_cong) (auto simp: anchors_def remove1_map_Entry)
  ultimately show ?thesis by simp
qed

lemma remove1_alarm:
  assumes "alarm_set s P" "sorted (map (due s) P)"
  shows "alarm_set s (remove1 t P)"
proof (cases "remove1 t P = []")
  case False
  obtain p ps where P: "P = p # ps" using False by (cases P) auto
  have "due s p \<le> due s (hd (remove1 t P))"
    using assms(2) False P hd_in_set [OF False] set_remove1_subset [of t P] by (auto split: if_splits)
  with assms(1) P show ?thesis by (force simp: alarm_set_def)
qed (simp add: alarm_set_def)

text \<open>The parts of \<open>queues\<close> other than the heap, after a change of one actor.\<close>

lemma queuesI:
  assumes "lists_ok anchors (heap s') (queue_map P' R')" and "sorted (map (due s') P')"
    and "\<And>t. st s' t = ACTOR_WAITING \<longleftrightarrow> t \<in> set P'" and "\<And>t. st s' t = ACTOR_SCHEDULED \<longleftrightarrow> t \<in> set R'"
  shows "queues s' P' R'"
  using assms by (simp add: queues_def)

lemma sorted_map_cong: "(\<And>t. t \<in> set P \<Longrightarrow> f t = g t) \<Longrightarrow> sorted (map f P) = sorted (map (g :: nat \<Rightarrow> int) P)"
  by (metis map_cong)

lemma alarm_set_cong: "alarm_at s' = alarm_at s \<Longrightarrow> (P \<noteq> [] \<Longrightarrow> due s' (hd P) = due s (hd P)) \<Longrightarrow> alarm_set s' P = alarm_set s P"
  by (auto simp: alarm_set_def)

lemma pend_empty: "queues s P R \<Longrightarrow> list_empty pend_list (heap s) \<longleftrightarrow> P = []"
  using list_empty_iff [OF queuesD(1), of s P R pend_list] by simp

lemma ready_empty: "queues s P R \<Longrightarrow> list_empty ready_list (heap s) \<longleftrightarrow> R = []"
  using list_empty_iff [OF queuesD(1), of s P R ready_list] by simp

lemma unlink_queues:
  assumes q: "queues s P R" and t: "t \<in> set P \<or> t \<in> set R"
  shows "queues (set_state t ACTOR_NOTSCHEDULED (upd_heap (list_del_init (Entry t)) s)) (remove1 t P) (remove1 t R)"
proof (rule queuesI)
  note d = queues_distinct [OF q]
  show "lists_ok anchors (heap (set_state t ACTOR_NOTSCHEDULED (upd_heap (list_del_init (Entry t)) s)))
      (queue_map (remove1 t P) (remove1 t R))"
    using del_init_queues [OF queuesD(1) [OF q] t] by simp
  have "sorted (map (due s) (remove1 t P))" by (rule sorted_map_remove1 [OF queuesD(2) [OF q]])
  then show "sorted (map (due (set_state t ACTOR_NOTSCHEDULED (upd_heap (list_del_init (Entry t)) s))) (remove1 t P))"
    by (rule iffD1 [OF sorted_map_cong, rotated]) simp
qed (use q queuesD(3,4) [OF q] queues_distinct [OF q] in auto)

lemma sched_okD:
  assumes "sched_ok s c P R"
  shows "queues s P R" "alarm_set s P" "t \<in> set P \<Longrightarrow> due s t < c + 2 ^ 32"
  using assms by (simp_all add: sched_ok_def)

lemma alarm_set_Nil [simp]: "alarm_set s []"
  by (simp add: alarm_set_def)

lemma queues_alarm [simp]: "queues (s\<lparr>alarm_at := x\<rparr>) P R = queues s P R"
  by (simp add: queues_def)

lemma actor_delete_ok:
  assumes "sched_ok s c P R"
  shows "sched_ok (actor_delete t s) c (remove1 t P) (remove1 t R)"
proof (cases "t \<in> set P \<or> t \<in> set R")
  case True
  note q = sched_okD(1) [OF assms] and a = sched_okD(2) [OF assms]
  let ?s1 = "upd_heap (list_del_init (Entry t)) s"
  let ?s2 = "set_state t ACTOR_NOTSCHEDULED ?s1"
  note q2 = unlink_queues [OF q True]
  have e: "list_empty pend_list (heap ?s1) \<longleftrightarrow> remove1 t P = []" using pend_empty [OF q2] by simp
  have s: "actor_delete t s = (if remove1 t P = [] then ?s2\<lparr>alarm_at := None\<rparr> else ?s2)"
    using True queuesD(3,4) [OF q, of t] e by (auto simp: actor_delete_def Let_def set_state_def upd_actor_def)
  have "alarm_set ?s2 (remove1 t P)"
    using remove1_alarm [OF a queuesD(2) [OF q]] by (subst alarm_set_cong [of _ s]) simp_all
  moreover have "due ?s2 u < c + 2 ^ 32" if "u \<in> set (remove1 t P)" for u
    using sched_okD(3) [OF assms] that set_remove1_subset [of t P] by auto
  ultimately show ?thesis
    using q2 s by (cases "remove1 t P = []") (simp_all add: sched_ok_def)
next
  case False
  then have "actor_delete t s = set_state t ACTOR_NOTSCHEDULED s" "remove1 t P = P" "remove1 t R = R"
    using queuesD(3,4) [OF sched_okD(1) [OF assms], of t] by (auto simp: actor_delete_def remove1_idem)
  with False assms show ?thesis
    by (auto simp: sched_ok_def queues_def alarm_set_def cong: map_cong)
qed

lemma actor_init_ok:
  assumes "sched_ok s c P R" "t \<notin> set P" "t \<notin> set R"
  shows "sched_ok (actor_init t cb d s) c P R"
proof -
  note q = sched_okD(1) [OF assms(1)] and a = sched_okD(2) [OF assms(1)]
  have due: "due (actor_init t cb d s) u = due s u" for u by (simp add: actor_init_def)
  have "queues (actor_init t cb d s) P R"
  proof (rule queuesI)
    show "lists_ok anchors (heap (actor_init t cb d s)) (queue_map P R)"
      using init_unlisted_ok [OF queuesD(1) [OF q], of "Entry t"] assms(2,3) by (simp add: actor_init_def entry_listed)
  qed (use queuesD(2-4) [OF q] assms(2,3) due in \<open>auto simp: actor_init_def cong: map_cong\<close>)
  moreover have "alarm_set (actor_init t cb d s) P"
    using a by (subst alarm_set_cong [of _ s]) (simp_all add: actor_init_def)
  ultimately show ?thesis using assms(1) due by (simp add: sched_ok_def)
qed

subsection \<open>Insertion in the pending list\<close>

lemma later_thread_finds:
  assumes "lists_ok anchors (heap s) (queue_map (xs @ ys) R)"
  shows "later_thread s d (hd (map Entry ys @ [pend_list])) =
     Some (case dropWhile (\<lambda>u. due s u \<le> d) ys of [] \<Rightarrow> None | u # _ \<Rightarrow> Some (Entry u))"
  using assms
proof (induction ys arbitrary: xs)
  case Nil
  then show ?case by (simp add: later_thread.simps)
next
  case (Cons u ys)
  have "nxt (heap s (Entry u)) = hd (map Entry ys @ [pend_list])"
    using list_next [OF Cons.prems, of pend_list "map Entry xs" "Entry u" "map Entry ys"] by simp
  moreover have "later_thread s d (hd (map Entry ys @ [pend_list])) =
      Some (case dropWhile (\<lambda>u. due s u \<le> d) ys of [] \<Rightarrow> None | u # _ \<Rightarrow> Some (Entry u))"
    using Cons.IH [of "xs @ [u]"] Cons.prems by simp
  ultimately show ?case by (subst later_thread.simps) (simp add: time_after_def)
qed

definition insert_due :: "(nat \<Rightarrow> int) \<Rightarrow> nat \<Rightarrow> nat list \<Rightarrow> nat list" where
  "insert_due f t P = takeWhile (\<lambda>u. f u \<le> f t) P @ t # dropWhile (\<lambda>u. f u \<le> f t) P"

lemma set_insert_due [simp]: "set (insert_due f t P) = insert t (set P)"
  unfolding insert_due_def by (metis Un_insert_right list.simps(15) set_append takeWhile_dropWhile_id)

lemma sorted_insert_due:
  assumes "sorted (map f P)"
  shows "sorted (map f (insert_due f t P))"
proof -
  have "sorted (map f (takeWhile (\<lambda>u. f u \<le> f t) P))" by (metis assms sorted_append map_append takeWhile_dropWhile_id)
  moreover have "sorted (map f (dropWhile (\<lambda>u. f u \<le> f t) P))" by (metis assms sorted_append map_append takeWhile_dropWhile_id)
  moreover have "f t \<le> f u" if "u \<in> set (dropWhile (\<lambda>u. f u \<le> f t) P)" for u
    using that assms
  proof (induction P)
    case (Cons p P)
    then show ?case by (fastforce split: if_splits)
  qed simp
  moreover have "f u \<le> f t" if "u \<in> set (takeWhile (\<lambda>u. f u \<le> f t) P)" for u
    using set_takeWhileD [OF that] by simp
  ultimately show ?thesis by (force simp: insert_due_def sorted_append)
qed

lemma insert_due_heap:
  assumes ok: "lists_ok anchors (heap s) (queue_map P R)" and t: "t \<notin> set P" "t \<notin> set R"
  obtains f where
    "(case (case dropWhile (\<lambda>u. due s u \<le> due s t) P of [] \<Rightarrow> None | u # _ \<Rightarrow> Some (Entry u)) of
       Some nt \<Rightarrow> upd_heap (\<lambda>h. list_add_between (Entry t) (prv (h nt)) nt h) s
     | None \<Rightarrow> upd_heap (list_add_tail (Entry t) pend_list) s) = upd_heap f s"
    and "lists_ok anchors (f (heap s)) (queue_map (insert_due (due s) t P) R)"
proof (cases "dropWhile (\<lambda>u. due s u \<le> due s t) P")
  case Nil
  then have "insert_due (due s) t P = P @ [t]"
    unfolding insert_due_def by (metis append_Nil2 takeWhile_dropWhile_id)
  moreover have "Entry t \<notin> listed anchors (queue_map P R)" using t by (simp add: entry_listed)
  ultimately show ?thesis
    using that [of "list_add_tail (Entry t) pend_list"] list_add_tail_ok [OF ok, of pend_list "Entry t"] Nil
      queue_map_upd(1) [of P R "P @ [t]"] by simp
next
  case (Cons u us)
  let ?xs = "takeWhile (\<lambda>u. due s u \<le> due s t) P"
  have P: "P = ?xs @ u # us" using Cons takeWhile_dropWhile_id [of "\<lambda>u. due s u \<le> due s t" P] by simp
  have ins: "insert_due (due s) t P = ?xs @ t # u # us" by (simp add: insert_due_def Cons)
  have "Entry t \<notin> listed anchors (queue_map P R)" using t by (simp add: entry_listed)
  moreover have "queue_map P R pend_list = map Entry ?xs @ Entry u # map Entry us"
    by (subst P) simp
  ultimately have "lists_ok anchors (list_add_between (Entry t) (prv (heap s (Entry u))) (Entry u) (heap s))
      (queue_map (insert_due (due s) t P) R)"
    using list_add_before_ok [OF ok, of pend_list "map Entry ?xs" "Entry u" "map Entry us" "Entry t"]
      queue_map_upd(1) [of P R "insert_due (due s) t P"] by (simp add: ins)
  then show ?thesis
    using that [of "\<lambda>h. list_add_between (Entry t) (prv (h (Entry u))) (Entry u) h"] Cons by simp
qed

lemma hd_insert_due:
  "hd (insert_due f t P) = (if P \<noteq> [] \<and> f (hd P) \<le> f t then hd P else t)"
  by (cases P) (auto simp: insert_due_def)

lemma insert_due_ne [simp]: "insert_due f t P \<noteq> []"
  by (simp add: insert_due_def)

text \<open>What insertion does: the actor is placed behind the actors that are due no later than it, and the
  alarm is set again only if the actor became the first.\<close>

lemma actor_insert_result:
  assumes ok: "lists_ok anchors (heap s) (queue_map P R)" and t: "t \<notin> set P" "t \<notin> set R"
  obtains f where
    "actor_insert_on_pend_list t delay now s =
       Some (if P \<noteq> [] \<and> due s (hd P) \<le> due s t then upd_heap f s else set_alarm now delay (upd_heap f s))"
    and "lists_ok anchors (f (heap s)) (queue_map (insert_due (due s) t P) R)"
proof -
  obtain f where f: "(case (case dropWhile (\<lambda>u. due s u \<le> due s t) P of [] \<Rightarrow> None | u # _ \<Rightarrow> Some (Entry u)) of
       Some nt \<Rightarrow> upd_heap (\<lambda>h. list_add_between (Entry t) (prv (h nt)) nt h) s
     | None \<Rightarrow> upd_heap (list_add_tail (Entry t) pend_list) s) = upd_heap f s"
    and ok': "lists_ok anchors (f (heap s)) (queue_map (insert_due (due s) t P) R)"
    by (rule insert_due_heap [OF assms])
  have first: "nxt (heap s pend_list) = hd (map Entry P @ [pend_list])"
    using dlist_first [OF lists_okD [OF ok, of pend_list]] by simp
  have later: "later_thread s (due s t) (nxt (heap s pend_list)) =
     Some (case dropWhile (\<lambda>u. due s u \<le> due s t) P of [] \<Rightarrow> None | u # _ \<Rightarrow> Some (Entry u))"
    unfolding first using later_thread_finds [of s "[]" P R "due s t"] ok by simp
  have orig: "(if list_empty pend_list (heap s) then None else Some (list_first_entry pend_list (heap s))) =
      (if P = [] then None else Some (Entry (hd P)))"
    using list_empty_iff [OF ok, of pend_list] first by (cases P) (auto simp: list_first_entry_def)
  have new: "list_first_entry pend_list (f (heap s)) = Entry (hd (insert_due (due s) t P))"
    using list_first [OF ok', of pend_list "Entry (hd (insert_due (due s) t P))" "map Entry (tl (insert_due (due s) t P))"]
    by (simp flip: list.map(2))
  have "P \<noteq> [] \<Longrightarrow> hd P \<noteq> t" using t by auto
  then have "actor_insert_on_pend_list t delay now s =
       Some (if P \<noteq> [] \<and> due s (hd P) \<le> due s t then upd_heap f s else set_alarm now delay (upd_heap f s))"
    unfolding actor_insert_on_pend_list_def Let_def later orig bind.simps f upd_simps new hd_insert_due by (cases "P = []") (simp_all split: if_split)
  with ok' show ?thesis using that by blast
qed

text \<open>The queues after scheduling an actor that is on none of them.\<close>

definition schedule_queues :: "(nat \<Rightarrow> int) \<Rightarrow> nat \<Rightarrow> 32 word \<Rightarrow> bool \<Rightarrow> int \<Rightarrow> nat list \<Rightarrow> nat list \<Rightarrow> nat list \<times> nat list" where
  "schedule_queues f t delay head now P R =
     (if delay = 0 then (P, if head then t # R else R @ [t])
      else (insert_due (f(t := now + uint delay)) t P, R))"

lemma schedule_ready:
  assumes ok: "lists_ok anchors (heap s) (queue_map P R)" and t: "t \<notin> set P" "t \<notin> set R"
  shows "\<exists>s'. schedule_unlinked t 0 head now s = Some s' \<and>
      lists_ok anchors (heap s') (queue_map P (if head then t # R else R @ [t])) \<and>
      actors s' = (actors s)(t := (actors s t)\<lparr>state := ACTOR_SCHEDULED\<rparr>) \<and>
      alarm_at s' = alarm_at s \<and> calls s' = calls s \<and> poll_in_progress s' = poll_in_progress s"
proof -
  have n: "Entry t \<notin> listed anchors (queue_map P R)" using t by (simp add: entry_listed)
  note i = init_unlisted_ok [OF ok n]
  show ?thesis
    using list_add_ok [OF i _ n, of ready_list] list_add_tail_ok [OF i _ n, of ready_list]
      queue_map_upd(2) [of P R "t # R"] queue_map_upd(2) [of P R "R @ [t]"]
    by (simp add: schedule_unlinked_def set_state_def)
qed

lemma schedule_delayed:
  assumes ok: "lists_ok anchors (heap s) (queue_map P R)" and t: "t \<notin> set P" "t \<notin> set R" and d: "delay \<noteq> 0"
    and f_def: "f = (due s)(t := now + uint delay)"
  shows "\<exists>s'. schedule_unlinked t delay head now s = Some s' \<and>
      lists_ok anchors (heap s') (queue_map (insert_due f t P) R) \<and>
      actors s' = (actors s)(t := (actors s t)\<lparr>state := ACTOR_WAITING, ttschedule := now + uint delay\<rparr>) \<and>
      alarm_at s' = (if P \<noteq> [] \<and> f (hd P) \<le> f t then alarm_at s else Some (now + uint delay)) \<and>
      calls s' = calls s \<and> poll_in_progress s' = poll_in_progress s"
proof -
  let ?s = "upd_actor t (\<lambda>a. a\<lparr>state := ACTOR_WAITING, ttschedule := now + uint delay\<rparr>)
      (upd_heap (INIT_LIST_HEAD (Entry t)) s)"
  have "Entry t \<notin> listed anchors (queue_map P R)" using t by (simp add: entry_listed)
  then have ok': "lists_ok anchors (heap ?s) (queue_map P R)" using init_unlisted_ok [OF ok] by simp
  have due: "due ?s u = f u" for u by (simp add: f_def)
  then have dues: "due ?s = f" by blast
  obtain g where g: "actor_insert_on_pend_list t delay now ?s =
       Some (if P \<noteq> [] \<and> due ?s (hd P) \<le> due ?s t then upd_heap g ?s else set_alarm now delay (upd_heap g ?s))"
    and l: "lists_ok anchors (g (heap ?s)) (queue_map (insert_due (due ?s) t P) R)"
    using actor_insert_result [OF ok' t] by metis
  have "schedule_unlinked t delay head now s = actor_insert_on_pend_list t delay now ?s"
    using d by (simp add: schedule_unlinked_def)
  then show ?thesis using g l d unfolding dues due by (simp add: set_alarm_due)
qed

lemma schedule_unlinked_ok:
  assumes ok: "lists_ok anchors (heap s) (queue_map P R)" and t: "t \<notin> set P" "t \<notin> set R"
    and sorted: "sorted (map (due s) P)" and alarm: "alarm_set s P" and bound: "\<And>u. u \<in> set P \<Longrightarrow> due s u < c + 2 ^ 32"
    and st: "\<And>u. u \<noteq> t \<Longrightarrow> st s u = ACTOR_WAITING \<longleftrightarrow> u \<in> set P" "\<And>u. u \<noteq> t \<Longrightarrow> st s u = ACTOR_SCHEDULED \<longleftrightarrow> u \<in> set R"
    and clk: "c \<le> now"
  shows "\<exists>s'. schedule_unlinked t delay head now s = Some s' \<and>
      sched_ok s' now (fst (schedule_queues (due s) t delay head now P R)) (snd (schedule_queues (due s) t delay head now P R)) \<and>
      calls s' = calls s \<and> poll_in_progress s' = poll_in_progress s"
proof (cases "delay = 0")
  case True
  obtain s' where s': "schedule_unlinked t 0 head now s = Some s'"
      "lists_ok anchors (heap s') (queue_map P (if head then t # R else R @ [t]))"
      "actors s' = (actors s)(t := (actors s t)\<lparr>state := ACTOR_SCHEDULED\<rparr>)"
      "alarm_at s' = alarm_at s" "calls s' = calls s" "poll_in_progress s' = poll_in_progress s"
    using schedule_ready [OF ok t] by metis
  have due: "due s' = due s" using s'(3) by (auto simp: fun_eq_iff)
  have "queues s' P (if head then t # R else R @ [t])"
    by (rule queuesI) (use s' sorted st t due in \<open>auto split: if_splits\<close>)
  moreover have "alarm_set s' P" using alarm s'(4) due by (simp add: alarm_set_def fun_eq_iff)
  moreover have "due s' u < now + 2 ^ 32" if "u \<in> set P" for u using bound [OF that] clk due by (simp add: fun_eq_iff)
  ultimately show ?thesis using s' True by (simp add: sched_ok_def schedule_queues_def)
next
  case False
  let ?f = "(due s)(t := now + uint delay)"
  obtain s' where s': "schedule_unlinked t delay head now s = Some s'"
      "lists_ok anchors (heap s') (queue_map (insert_due ?f t P) R)"
      "actors s' = (actors s)(t := (actors s t)\<lparr>state := ACTOR_WAITING, ttschedule := now + uint delay\<rparr>)"
      "alarm_at s' = (if P \<noteq> [] \<and> ?f (hd P) \<le> ?f t then alarm_at s else Some (now + uint delay))"
      "calls s' = calls s" "poll_in_progress s' = poll_in_progress s"
    using schedule_delayed [OF ok t False refl] by blast
  have due: "due s' = ?f" using s'(3) by (auto simp: fun_eq_iff)
  have "map ?f P = map (due s) P" using t by auto
  then have sorted': "sorted (map ?f P)" using sorted by metis
  have "queues s' (insert_due ?f t P) R"
  proof (rule queuesI)
    show "sorted (map (due s') (insert_due ?f t P))" unfolding due by (rule sorted_insert_due [OF sorted'])
  qed (use s' st t in auto)
  moreover have "alarm_set s' (insert_due ?f t P)"
    using alarm s'(4) t due by (auto simp: alarm_set_def hd_insert_due fun_eq_iff)
  moreover have "due s' u < now + 2 ^ 32" if "u \<in> set (insert_due ?f t P)" for u
    using bound [of u] clk that uint_lt2p [of delay] due t by (auto simp: fun_eq_iff)
  ultimately show ?thesis using s'(1,5,6) False by (simp add: sched_ok_def schedule_queues_def)
qed

lemma list_del_queues:
  assumes "queues s P R" "t \<in> set P"
  shows "lists_ok anchors (list_del (Entry t) (heap s)) (queue_map (remove1 t P) R)"
proof -
  obtain xs ys where P: "P = xs @ t # ys" "t \<notin> set xs"
    using assms(2) by (metis split_list_first)
  have "lists_ok anchors (list_del (Entry t) (heap s)) ((queue_map P R)(pend_list := map Entry xs @ map Entry ys))"
    by (rule list_del_ok [OF queuesD(1) [OF assms(1)]]) (simp_all add: P)
  then show ?thesis using queue_map_upd(1) [of P R "xs @ ys"] P by (simp add: remove1_append)
qed

text \<open>The queues after a call of \<open>actor_schedule_private\<close>.\<close>

definition sched_queues :: "sched \<Rightarrow> nat \<Rightarrow> 32 word \<Rightarrow> bool \<Rightarrow> int option \<Rightarrow> nat list \<Rightarrow> nat list \<Rightarrow> nat list \<times> nat list" where
  "sched_queues s t delay head clock P R =
     (case clock of None \<Rightarrow> (P, R)
      | Some now \<Rightarrow>
          if st s t = ACTOR_WAITING \<or> st s t = ACTOR_NOTSCHEDULED
          then schedule_queues (due s) t delay head now (remove1 t P) R else (P, R))"

definition clock_after :: "int \<Rightarrow> int option \<Rightarrow> int" where
  "clock_after c clock = (case clock of None \<Rightarrow> c | Some now \<Rightarrow> now)"

lemma clock_after_simps [simp]: "clock_after c None = c" "clock_after c (Some now) = now"
  by (simp_all add: clock_after_def)

lemma sched_ok_later: "sched_ok s c P R \<Longrightarrow> c \<le> c' \<Longrightarrow> sched_ok s c' P R"
  by (fastforce simp: sched_ok_def)

lemma schedule_private_ok:
  assumes ok: "sched_ok s c P R" and clk: "c \<le> clock_after c clock"
  shows "\<exists>s'. actor_schedule_private t delay head clock s = Some s' \<and>
      sched_ok s' (clock_after c clock) (fst (sched_queues s t delay head clock P R)) (snd (sched_queues s t delay head clock P R)) \<and>
      calls s' = calls s \<and> poll_in_progress s' = poll_in_progress s"
proof (cases clock)
  case None
  with ok show ?thesis by (simp add: actor_schedule_private_def sched_queues_def)
next
  case (Some now)
  note q = sched_okD(1) [OF ok]
  have now: "c \<le> now" using clk Some by simp
  show ?thesis
  proof (cases "st s t")
    case ACTOR_WAITING
    let ?s = "upd_heap (list_del (Entry t)) s"
    have t: "t \<in> set P" using ACTOR_WAITING queuesD(3) [OF q] by blast
    have "\<exists>s'. schedule_unlinked t delay head now ?s = Some s' \<and>
        sched_ok s' now (fst (schedule_queues (due s) t delay head now (remove1 t P) R)) (snd (schedule_queues (due s) t delay head now (remove1 t P) R)) \<and>
        calls s' = calls s \<and> poll_in_progress s' = poll_in_progress s"
    proof (rule schedule_unlinked_ok [where s = ?s, OF _ _ _ _ _ _ _ _ now, unfolded upd_simps])
      show "lists_ok anchors (list_del (Entry t) (heap s)) (queue_map (remove1 t P) R)" using list_del_queues [OF q t] by simp
      show "sorted (map (due s) (remove1 t P))" using sorted_map_remove1 [OF queuesD(2) [OF q]] by simp
      show "alarm_set ?s (remove1 t P)"
        using remove1_alarm [OF sched_okD(2) [OF ok] queuesD(2) [OF q], of t] by (simp add: alarm_set_def)
      show "due s u < c + 2 ^ 32" if "u \<in> set (remove1 t P)" for u
        using sched_okD(3) [OF ok] that set_remove1_subset [of t P] by auto
    qed (use t queues_distinct [OF q] queuesD(3,4) [OF q] in auto)
    then show ?thesis
      by (simp add: actor_schedule_private_def sched_queues_def Some ACTOR_WAITING)
  next
    case ACTOR_NOTSCHEDULED
    have t: "t \<notin> set P" "t \<notin> set R" using ACTOR_NOTSCHEDULED queuesD(3,4) [OF q, of t] by auto
    have "\<exists>s'. schedule_unlinked t delay head now s = Some s' \<and>
        sched_ok s' now (fst (schedule_queues (due s) t delay head now P R)) (snd (schedule_queues (due s) t delay head now P R)) \<and>
        calls s' = calls s \<and> poll_in_progress s' = poll_in_progress s"
      by (rule schedule_unlinked_ok [OF queuesD(1) [OF q] t queuesD(2) [OF q] sched_okD(2) [OF ok] sched_okD(3) [OF ok] _ _ now])
        (use queuesD(3,4) [OF q] in auto)
    then show ?thesis
      using t by (simp add: actor_schedule_private_def sched_queues_def Some ACTOR_NOTSCHEDULED remove1_idem)
  qed (use ok sched_ok_later [OF ok now] in \<open>simp_all add: actor_schedule_private_def sched_queues_def Some\<close>)
qed

subsection \<open>Every call returns and keeps the invariant\<close>

text \<open>The clock a call reads, and what a call needs: a clock that does not run backwards, and for
  the two calls that initialise an actor that it is on no queue.\<close>

fun call_clock :: "sched_call \<Rightarrow> int option" where
  "call_clock (Init t cb d) = None"
| "call_clock (Delete t) = None"
| "call_clock (Schedule t clock) = clock"
| "call_clock (Schedule_head t clock) = clock"
| "call_clock (Timer t secs cb d clock) = clock"
| "call_clock (Timer_mod t secs d clock) = clock"

definition idle :: "sched \<Rightarrow> nat \<Rightarrow> bool" where
  "idle s t \<longleftrightarrow> st s t \<noteq> ACTOR_WAITING \<and> st s t \<noteq> ACTOR_SCHEDULED"

fun call_fits :: "int \<Rightarrow> sched \<Rightarrow> sched_call \<Rightarrow> bool" where
  "call_fits c s (Init t cb d) \<longleftrightarrow> idle s t"
| "call_fits c s (Timer t secs cb d clock) \<longleftrightarrow> idle s t \<and> c \<le> clock_after c clock"
| "call_fits c s call \<longleftrightarrow> c \<le> clock_after c (call_clock call)"

lemma idle_off: "queues s P R \<Longrightarrow> idle s t \<longleftrightarrow> t \<notin> set P \<and> t \<notin> set R"
  using queuesD(3,4) by (auto simp: idle_def)

lemma upd_data_ok: "sched_ok (upd_actor t (\<lambda>a. a\<lparr>actor_data := d\<rparr>) s) c P R = sched_ok s c P R"
proof -
  have "due (upd_actor t (\<lambda>a. a\<lparr>actor_data := d\<rparr>) s) = due s" "st (upd_actor t (\<lambda>a. a\<lparr>actor_data := d\<rparr>) s) = st s" by auto
  then show ?thesis by (simp add: sched_ok_def queues_def alarm_set_def fun_eq_iff)
qed

lemma do_call_ok:
  assumes ok: "sched_ok s c P R" and fits: "call_fits c s call"
  shows "\<exists>s' P' R'. do_call call s = Some s' \<and> sched_ok s' (clock_after c (call_clock call)) P' R' \<and>
     calls s' = calls s \<and> poll_in_progress s' = poll_in_progress s"
  using fits
proof (cases call)
  case (Init t cb d)
  then have "sched_ok (actor_init t cb d s) c P R"
    using actor_init_ok [OF ok] fits idle_off [OF sched_okD(1) [OF ok]] by auto
  moreover have "calls (actor_init t cb d s) = calls s" "poll_in_progress (actor_init t cb d s) = poll_in_progress s"
    by (simp_all add: actor_init_def)
  ultimately show ?thesis using Init by auto
next
  case (Delete t)
  have "calls (actor_delete t s) = calls s" "poll_in_progress (actor_delete t s) = poll_in_progress s"
    by (simp_all add: actor_delete_def Let_def)
  then show ?thesis using actor_delete_ok [OF ok, of t] Delete by auto
next
  case (Timer t secs cb d clock)
  then have "sched_ok (actor_init t cb d s) c P R"
    using actor_init_ok [OF ok] fits idle_off [OF sched_okD(1) [OF ok]] by auto
  from schedule_private_ok [OF this, of clock t secs False] show ?thesis
    using fits Timer by (fastforce simp: actor_timer_def actor_init_def)
next
  case (Timer_mod t secs d clock)
  have "calls (actor_delete t s) = calls s" "poll_in_progress (actor_delete t s) = poll_in_progress s"
    by (simp_all add: actor_delete_def Let_def)
  moreover have "sched_ok (upd_actor t (\<lambda>a. a\<lparr>actor_data := d\<rparr>) (actor_delete t s)) c (remove1 t P) (remove1 t R)"
    using actor_delete_ok [OF ok] by (simp add: upd_data_ok)
  from schedule_private_ok [OF this, of clock t secs False] calculation show ?thesis
    using fits Timer_mod by (fastforce simp: actor_timer_mod_def)
next
  case (Schedule t clock)
  then show ?thesis using schedule_private_ok [OF ok, of clock t 0 False] fits by (fastforce simp: actor_schedule_def)
next
  case (Schedule_head t clock)
  then show ?thesis using schedule_private_ok [OF ok, of clock t 0 True] fits by (fastforce simp: actor_schedule_head_def)
qed

subsection \<open>Polling\<close>

lemma move_one:
  assumes q: "queues s (t # P) R"
  shows "queues (set_state t ACTOR_SCHEDULED (upd_heap (list_add_tail (Entry t) ready_list) (upd_heap (list_del_init (Entry t)) s)))
     P (R @ [t])" (is "queues ?s _ _")
proof (rule queuesI)
  have t: "t \<notin> set P" "t \<notin> set R" using queues_distinct [OF q] by auto
  have l: "lists_ok anchors (list_del_init (Entry t) (heap s)) (queue_map P R)"
    using del_init_queues [OF queuesD(1) [OF q], of t] t by (simp add: remove1_idem)
  show "lists_ok anchors (heap ?s) (queue_map P (R @ [t]))"
    using list_add_tail_ok [OF l, of ready_list "Entry t"] queue_map_upd(2) [of P R "R @ [t]"] t by (simp add: entry_listed)
  show "sorted (map (due ?s) P)" using queuesD(2) [OF q] by simp
  show "st ?s u = ACTOR_WAITING \<longleftrightarrow> u \<in> set P" "st ?s u = ACTOR_SCHEDULED \<longleftrightarrow> u \<in> set (R @ [t])" for u
    using queuesD(3,4) [OF q, of u] t by auto
qed

lemma time_left_zero: "actor_time_left a now = 0 \<longleftrightarrow> ttschedule a \<le> now"
  by (simp add: actor_time_left_def)

lemma pend_next:
  assumes "queues s (t # P) R"
  shows "nxt (heap s (Entry t)) = hd (map Entry P @ [pend_list])"
  using list_next [OF queuesD(1) [OF assms], of pend_list "[]" "Entry t" "map Entry P"] by simp

lemma pend_first:
  assumes "queues s P R"
  shows "nxt (heap s pend_list) = hd (map Entry P @ [pend_list])"
  using dlist_first [OF lists_okD [OF queuesD(1) [OF assms], of pend_list]] by simp

lemma move_ripe_result:
  assumes "queues s P R"
  shows "\<exists>s'. move_ripe now (hd (map Entry P @ [pend_list])) (nxt (heap s (hd (map Entry P @ [pend_list])))) s = Some s' \<and>
     queues s' (dropWhile (\<lambda>t. due s t \<le> now) P) (R @ takeWhile (\<lambda>t. due s t \<le> now) P) \<and>
     due s' = due s \<and> callback \<circ> actors s' = callback \<circ> actors s \<and> actor_data \<circ> actors s' = actor_data \<circ> actors s \<and>
     calls s' = calls s \<and> poll_in_progress s' = poll_in_progress s \<and>
     (dropWhile (\<lambda>t. due s t \<le> now) P \<noteq> [] \<longrightarrow>
        alarm_at s' = alarm_at (set_alarm now (word_of_int (due s (hd (dropWhile (\<lambda>t. due s t \<le> now) P)) - now)) s'))"
  using assms
proof (induction P arbitrary: s R)
  case Nil
  then show ?case by (simp add: move_ripe.simps)
next
  case (Cons t P)
  show ?case
  proof (cases "due s t \<le> now")
    case False
    have "queues (set_alarm now x s) (t # P) R" for x using Cons.prems by (simp add: queues_def)
    then show ?thesis
      using False by (simp add: move_ripe.simps [of now "Entry t"] time_left_zero)
        (simp add: set_alarm_def actor_time_left_def)
  next
    case True
    let ?s = "set_state t ACTOR_SCHEDULED (upd_heap (list_add_tail (Entry t) ready_list) (upd_heap (list_del_init (Entry t)) s))"
    have q: "queues ?s P (R @ [t])" by (rule move_one [OF Cons.prems])
    have "st s t = ACTOR_WAITING" using queuesD(3) [OF Cons.prems] by simp
    then have step: "move_ripe now (Entry t) (nxt (heap s (Entry t))) s =
        move_ripe now (hd (map Entry P @ [pend_list])) (nxt (heap ?s (hd (map Entry P @ [pend_list])))) ?s"
      using True by (subst move_ripe.simps) (simp add: time_left_zero Let_def pend_next [OF Cons.prems])
    have frame: "due ?s = due s" "callback \<circ> actors ?s = callback \<circ> actors s" "actor_data \<circ> actors ?s = actor_data \<circ> actors s"
      by (auto simp: comp_def)
    show ?thesis using Cons.IH [OF q] True step unfolding frame by simp
  qed
qed

lemma word_delay: "0 < x \<Longrightarrow> x < 2 ^ 32 \<Longrightarrow> uint (word_of_int x :: 32 word) = x"
  by (simp add: uint_word_of_int)

text \<open>The first half of a poll: the ripe actors are at the end of the ready list and the alarm is set for
  the first actor that is left.\<close>

lemma poll_begin_ok:
  assumes ok: "sched_ok s c P R" and clk: "c \<le> now"
  shows "\<exists>s'. poll_begin now s = Some s' \<and>
     sched_ok s' now (dropWhile (\<lambda>t. due s t \<le> now) P) (R @ takeWhile (\<lambda>t. due s t \<le> now) P) \<and>
     due s' = due s \<and> callback \<circ> actors s' = callback \<circ> actors s \<and> actor_data \<circ> actors s' = actor_data \<circ> actors s \<and>
     calls s' = calls s \<and> poll_in_progress s'"
proof -
  let ?rest = "dropWhile (\<lambda>t. due s t \<le> now) P"
  note q = sched_okD(1) [OF ok]
  obtain s1 where s1: "move_ripe now (hd (map Entry P @ [pend_list])) (nxt (heap s (hd (map Entry P @ [pend_list])))) s = Some s1"
     "queues s1 ?rest (R @ takeWhile (\<lambda>t. due s t \<le> now) P)"
     "due s1 = due s" "callback \<circ> actors s1 = callback \<circ> actors s" "actor_data \<circ> actors s1 = actor_data \<circ> actors s"
     "calls s1 = calls s" "poll_in_progress s1 = poll_in_progress s"
     "?rest \<noteq> [] \<longrightarrow> alarm_at s1 = alarm_at (set_alarm now (word_of_int (due s (hd ?rest) - now)) s1)"
    using move_ripe_result [OF q] by blast
  define s2 where "s2 = (if ?rest = [] then s1\<lparr>alarm_at := None\<rparr> else s1)\<lparr>poll_in_progress := True\<rparr>"
  have s2: "poll_begin now s = Some s2"
    using s1(1) pend_first [OF q] pend_empty [OF s1(2)] by (simp add: poll_begin_def Let_def s2_def)
  have a: "actors s2 = actors s1" "calls s2 = calls s1" "heap s2 = heap s1" by (simp_all add: s2_def)
  have due: "due s2 t = due s t" for t using s1(3) a by (simp add: fun_eq_iff)
  have bound: "due s t < now + 2 ^ 32" if "t \<in> set ?rest" for t
    using sched_okD(3) [OF ok, of t] that clk by (auto dest: set_dropWhileD)
  have "queues s2 ?rest (R @ takeWhile (\<lambda>t. due s t \<le> now) P)" using s1(2) a by (simp add: queues_def)
  moreover have "alarm_set s2 ?rest"
  proof (cases "?rest = []")
    case False
    then have late: "now < due s (hd ?rest)" using hd_dropWhile [OF False] by simp
    have "uint (word_of_int (due s (hd ?rest) - now) :: 32 word) = due s (hd ?rest) - now"
      using late bound [of "hd ?rest"] False by (intro word_delay) auto
    then have "alarm_at s1 = Some (due s (hd ?rest))"
      using s1(8) False late by (auto simp: set_alarm_def simp del: uint_word_of_int)
    then show ?thesis using False due by (simp add: alarm_set_def s2_def)
  next
    case True
    then show ?thesis by (simp only: alarm_set_Nil)
  qed
  moreover have "due s2 t < now + 2 ^ 32" if "t \<in> set ?rest" for t using bound [OF that] due by simp
  ultimately show ?thesis using s2 s1 a due by (simp add: sched_ok_def fun_eq_iff) (simp add: s2_def)
qed

lemma ready_first:
  assumes "queues s P (t # R)"
  shows "list_first_entry ready_list (heap s) = Entry t"
  using list_first [OF queuesD(1) [OF assms], of ready_list "Entry t" "map Entry R"] by simp

lemma take_ready_ok:
  assumes ok: "sched_ok s c P (t # R)"
  shows "sched_ok (take_ready s) c P R" and "calls (take_ready s) = calls s @ [t]"
    and "poll_in_progress (take_ready s) = poll_in_progress s"
    and "callback (actors (take_ready s) u) = callback (actors s u)" and "actor_data (actors (take_ready s) u) = actor_data (actors s u)"
proof -
  note q = sched_okD(1) [OF ok]
  let ?s = "set_state t ACTOR_NOTSCHEDULED (upd_heap (list_del_init (Entry t)) s)"
  have s: "take_ready s = ?s\<lparr>calls := calls s @ [t]\<rparr>" by (simp add: take_ready_def Let_def ready_first [OF q])
  have t: "t \<notin> set P" using queues_distinct [OF q] by auto
  have "queues ?s P R" using unlink_queues [OF q, of t] t by (simp add: remove1_idem)
  moreover have "due ?s u = due s u" "alarm_at ?s = alarm_at s" for u by simp_all
  ultimately show "sched_ok (take_ready s) c P R"
    using ok unfolding s by (simp add: sched_ok_def queues_def alarm_set_def)
qed (simp_all add: take_ready_def Let_def ready_first [OF sched_okD(1) [OF ok]])

subsection \<open>Reachable scheduler states\<close>

definition sched_start :: sched where
  "sched_start = \<lparr>heap = (\<lambda>n. \<lparr>nxt = n, prv = n\<rparr>),
     actors = (\<lambda>_. \<lparr>state = ACTOR_INVALID, actor_data = 0, callback = 0, ttschedule = 0\<rparr>),
     alarm_at = None, poll_in_progress = False, calls = []\<rparr>"

text \<open>The states the scheduler passes through, with the last clock reading. A poll is split at its callbacks,
  so calls made by a callback stand between \<open>Run_first\<close> and the next step of the poll.\<close>

inductive sched_run :: "sched \<Rightarrow> int \<Rightarrow> bool" where
  Start: "sched_run sched_start c"
| Call: "sched_run s c \<Longrightarrow> call_fits c s call \<Longrightarrow> do_call call s = Some s' \<Longrightarrow>
    sched_run s' (clock_after c (call_clock call))"
| Poll_begin: "sched_run s c \<Longrightarrow> \<not> poll_in_progress s \<Longrightarrow> c \<le> now \<Longrightarrow> poll_begin now s = Some s' \<Longrightarrow> sched_run s' now"
| Run_first: "sched_run s c \<Longrightarrow> poll_in_progress s \<Longrightarrow> \<not> list_empty ready_list (heap s) \<Longrightarrow> sched_run (take_ready s) c"
| Poll_end: "sched_run s c \<Longrightarrow> poll_in_progress s \<Longrightarrow> list_empty ready_list (heap s) \<Longrightarrow>
    sched_run (s\<lparr>poll_in_progress := False\<rparr>) c"

lemma start_ok: "sched_ok sched_start c [] []"
  by (simp add: sched_ok_def queues_def lists_ok_def anchors_def sched_start_def dlist_def)

lemma sched_ok_poll [simp]: "sched_ok (s\<lparr>poll_in_progress := b\<rparr>) c P R = sched_ok s c P R"
  by (simp add: sched_ok_def queues_def alarm_set_def)

lemma sched_run_ok: "sched_run s c \<Longrightarrow> \<exists>P R. sched_ok s c P R"
proof (induction rule: sched_run.induct)
  case (Start c)
  then show ?case using start_ok by blast
next
  case (Call s c call s')
  then show ?case using do_call_ok by (metis option.inject)
next
  case (Poll_begin s c now s')
  then obtain P R where "sched_ok s c P R" by blast
  from poll_begin_ok [OF this Poll_begin.hyps(3)] Poll_begin.hyps(4) show ?case by auto
next
  case (Run_first s c)
  then obtain P R where ok: "sched_ok s c P R" by blast
  then obtain t R' where "R = t # R'" using ready_empty [OF sched_okD(1) [OF ok]] Run_first.hyps(3) by (cases R) auto
  then show ?case using take_ready_ok(1) ok by blast
next
  case (Poll_end s c)
  then show ?case by simp
qed

subsection \<open>A poll runs to its end\<close>

text \<open>The calls of a callback of the actor \<open>t\<close> that makes no actor ready: it deletes actors or restarts their timers, with a
  delay, and may set up its own timer anew while that is on no queue, which \<open>off\<close> says. All calls read the same clock.\<close>

fun quiet_calls :: "bool \<Rightarrow> nat \<Rightarrow> int \<Rightarrow> sched_call list \<Rightarrow> bool" where
  "quiet_calls off t now [] \<longleftrightarrow> True"
| "quiet_calls off t now (Delete u # cs) \<longleftrightarrow> quiet_calls (off \<or> u = t) t now cs"
| "quiet_calls off t now (Timer_mod u secs d clock # cs) \<longleftrightarrow>
     secs \<noteq> 0 \<and> clock = Some now \<and> quiet_calls (off \<and> u \<noteq> t) t now cs"
| "quiet_calls off t now (Timer u secs cb d clock # cs) \<longleftrightarrow>
     u = t \<and> off \<and> secs \<noteq> 0 \<and> clock = Some now \<and> quiet_calls False t now cs"
| "quiet_calls off t now (_ # cs) \<longleftrightarrow> False"

fun call_actor :: "sched_call \<Rightarrow> nat" where
  "call_actor (Init t cb d) = t"
| "call_actor (Delete t) = t"
| "call_actor (Schedule t clock) = t"
| "call_actor (Schedule_head t clock) = t"
| "call_actor (Timer t secs cb d clock) = t"
| "call_actor (Timer_mod t secs d clock) = t"

text \<open>What such calls leave of the ready list and of the other actors.\<close>

lemma delete_frame: "u \<noteq> t \<Longrightarrow> actors (actor_delete t s) u = actors s u"
  by (simp add: actor_delete_def Let_def set_state_def)

lemma insert_frame: "actor_insert_on_pend_list t delay now s = Some s' \<Longrightarrow> actors s' = actors s"
  by (auto simp: actor_insert_on_pend_list_def Let_def bind_eq_Some_conv split: option.splits if_splits)

lemma schedule_frame: "actor_schedule_private t delay head clock s = Some s' \<Longrightarrow> u \<noteq> t \<Longrightarrow> actors s' u = actors s u"
  by (auto simp: actor_schedule_private_def schedule_unlinked_def Let_def set_state_def
      dest!: insert_frame split: option.splits actor_state.splits if_splits)

lemma remove1_filter: "distinct R \<Longrightarrow> remove1 u R = filter (\<lambda>v. v \<noteq> u) R"
  by (induction R) (auto intro: filter_True [symmetric])

lemma delayed_result:
  assumes ok: "sched_ok s c P R" and secs: "secs \<noteq> 0" and clk: "c \<le> now"
    and t: "st s t = ACTOR_WAITING \<or> st s t = ACTOR_NOTSCHEDULED"
  shows "\<exists>s' P'. actor_schedule_private t secs False (Some now) s = Some s' \<and> sched_ok s' now P' R \<and> set P' = insert t (set P) \<and>
     calls s' = calls s \<and> poll_in_progress s' = poll_in_progress s \<and> (\<forall>u. u \<noteq> t \<longrightarrow> actors s' u = actors s u)"
proof -
  have "fst (sched_queues s t secs False (Some now) P R) = insert_due ((due s)(t := now + uint secs)) t (remove1 t P)"
    "snd (sched_queues s t secs False (Some now) P R) = R"
    using secs t by (auto simp: sched_queues_def schedule_queues_def)
  moreover have "set (insert_due f t (remove1 t P)) = insert t (set P)" for f
    using queues_distinct [OF sched_okD(1) [OF ok]] by auto
  ultimately show ?thesis
    using schedule_private_ok [OF ok, of "Some now" t secs False] clk schedule_frame [of t secs False "Some now" s] by fastforce
qed

lemma quiet_delete:
  assumes "sched_ok s c P R" "c \<le> now"
  shows "sched_ok (actor_delete u s) now (remove1 u P) (filter (\<lambda>v. v \<noteq> u) R)"
    and "calls (actor_delete u s) = calls s" and "poll_in_progress (actor_delete u s) = poll_in_progress s"
proof -
  have "distinct R" using queues_distinct [OF sched_okD(1) [OF assms(1)]] by simp
  then show "sched_ok (actor_delete u s) now (remove1 u P) (filter (\<lambda>v. v \<noteq> u) R)"
    using sched_ok_later [OF actor_delete_ok [OF assms(1), of u] assms(2)] by (simp add: remove1_filter)
qed (simp_all add: actor_delete_def Let_def)

lemma quiet_timer_mod:
  assumes ok: "sched_ok s c P R" and "secs \<noteq> 0" "c \<le> now"
  shows "\<exists>s' P'. do_call (Timer_mod u secs d (Some now)) s = Some s' \<and> sched_ok s' now P' (filter (\<lambda>v. v \<noteq> u) R) \<and>
     set P' = insert u (set P) \<and> calls s' = calls s \<and> poll_in_progress s' = poll_in_progress s \<and>
     (\<forall>v. v \<noteq> u \<longrightarrow> actors s' v = actors s v)"
proof -
  let ?s = "upd_actor u (\<lambda>a. a\<lparr>actor_data := d\<rparr>) (actor_delete u s)"
  note del = quiet_delete [OF ok assms(3), of u]
  have sok: "sched_ok ?s now (remove1 u P) (filter (\<lambda>v. v \<noteq> u) R)" using del(1) by (simp add: upd_data_ok)
  have st: "st ?s u = ACTOR_WAITING \<or> st ?s u = ACTOR_NOTSCHEDULED" by (simp add: actor_delete_def set_state_def)
  have k: "calls ?s = calls s" "poll_in_progress ?s = poll_in_progress s" "\<forall>v. v \<noteq> u \<longrightarrow> actors ?s v = actors s v"
    using del(2,3) by (simp_all add: delete_frame)
  have "insert u (set (remove1 u P)) = insert u (set P)"
    using queues_distinct [OF sched_okD(1) [OF ok]] by auto
  with delayed_result [OF sok assms(2) order_refl st] k show ?thesis by (auto simp: actor_timer_mod_def)
qed

lemma quiet_timer:
  assumes ok: "sched_ok s c P R" and "secs \<noteq> 0" "c \<le> now" and t: "t \<notin> set P" "t \<notin> set R"
  shows "\<exists>s' P'. do_call (Timer t secs cb d (Some now)) s = Some s' \<and> sched_ok s' now P' R \<and>
     calls s' = calls s \<and> poll_in_progress s' = poll_in_progress s \<and> (\<forall>v. v \<noteq> t \<longrightarrow> actors s' v = actors s v)"
proof -
  have sok: "sched_ok (actor_init t cb d s) c P R" by (rule actor_init_ok [OF ok t])
  have "st (actor_init t cb d s) t = ACTOR_WAITING \<or> st (actor_init t cb d s) t = ACTOR_NOTSCHEDULED"
    by (simp add: actor_init_def)
  from delayed_result [OF sok assms(2,3) this] show ?thesis by (auto simp: actor_timer_def actor_init_def)
qed

lemma quiet_calls_result:
  assumes "sched_ok s c P R" "t \<notin> set R" "off \<longrightarrow> t \<notin> set P" "quiet_calls off t now cs" "c \<le> now"
  shows "\<exists>s' P'. do_calls cs s = Some s' \<and> sched_ok s' now P' (filter (\<lambda>u. u \<notin> call_actor ` set cs) R) \<and>
     calls s' = calls s \<and> poll_in_progress s' = poll_in_progress s \<and> (\<forall>u. u \<notin> call_actor ` set cs \<longrightarrow> actors s' u = actors s u)"
  using assms
proof (induction cs arbitrary: s c P R off)
  case Nil
  then show ?case using sched_ok_later [OF Nil.prems(1,5)] by auto
next
  case (Cons a cs)
  have step: ?case if s1: "do_call a s = Some s1" "sched_ok s1 now P1 (filter (\<lambda>v. v \<noteq> call_actor a) R)" "calls s1 = calls s"
      "poll_in_progress s1 = poll_in_progress s" "\<forall>u. u \<noteq> call_actor a \<longrightarrow> actors s1 u = actors s u"
      "off1 \<longrightarrow> t \<notin> set P1" "quiet_calls off1 t now cs" for s1 P1 off1
  proof -
    have "filter (\<lambda>u. u \<notin> call_actor ` set cs) (filter (\<lambda>v. v \<noteq> call_actor a) R) = filter (\<lambda>u. u \<notin> call_actor ` set (a # cs)) R"
      by (auto intro: filter_cong)
    then obtain s2 P2 where s2: "do_calls cs s1 = Some s2" "sched_ok s2 now P2 (filter (\<lambda>u. u \<notin> call_actor ` set (a # cs)) R)"
        "calls s2 = calls s1" "poll_in_progress s2 = poll_in_progress s1" "\<forall>u. u \<notin> call_actor ` set cs \<longrightarrow> actors s2 u = actors s1 u"
      using Cons.IH [OF s1(2) _ s1(6,7) order_refl] Cons.prems(2) by auto
    moreover have "actors s2 u = actors s u" if "u \<notin> call_actor ` set (a # cs)" for u using s2(5) s1(5) that by simp
    ultimately show ?thesis using s1(1,3,4) by auto
  qed
  note ok = Cons.prems(1)
  show ?case
  proof (cases a)
    case (Delete u)
    have "t \<notin> set (remove1 u P)" if "off \<or> u = t"
      using that Cons.prems(3) queues_distinct [OF sched_okD(1) [OF ok]] by (auto dest: notin_set_remove1)
    then show ?thesis
      using step [of "actor_delete u s" "remove1 u P" "off \<or> u = t"] quiet_delete [OF ok Cons.prems(5), of u] Delete Cons.prems(4)
      by (simp add: delete_frame)
  next
    case (Timer_mod u secs d clock)
    with Cons.prems(4) have q: "secs \<noteq> 0" "clock = Some now" "quiet_calls (off \<and> u \<noteq> t) t now cs" by auto
    obtain s1 P1 where s1: "do_call a s = Some s1" "sched_ok s1 now P1 (filter (\<lambda>v. v \<noteq> u) R)" "set P1 = insert u (set P)"
        "calls s1 = calls s" "poll_in_progress s1 = poll_in_progress s" "\<forall>v. v \<noteq> u \<longrightarrow> actors s1 v = actors s v"
      using quiet_timer_mod [OF ok q(1) Cons.prems(5), of u d] Timer_mod q(2) by blast
    show ?thesis by (rule step [OF s1(1) _ s1(4,5) _ _ q(3)]) (use s1 Timer_mod Cons.prems(3) in auto)
  next
    case (Timer u secs cb d clock)
    with Cons.prems(4) have q: "u = t" "off" "secs \<noteq> 0" "clock = Some now" "quiet_calls False t now cs" by auto
    have "filter (\<lambda>v. v \<noteq> t) R = R" using Cons.prems(2) by (auto intro: filter_True)
    with quiet_timer [OF ok q(3) Cons.prems(5) _ Cons.prems(2), of cb d] Cons.prems(3) q Timer obtain s1 P1 where
      s1: "do_call a s = Some s1" "sched_ok s1 now P1 (filter (\<lambda>v. v \<noteq> call_actor a) R)" "calls s1 = calls s"
        "poll_in_progress s1 = poll_in_progress s" "\<forall>u. u \<noteq> call_actor a \<longrightarrow> actors s1 u = actors s u"
      by auto
    show ?thesis by (rule step [OF s1 _ q(5)]) simp
  qed (use Cons.prems(4) in simp_all)
qed

text \<open>The callbacks of the actors \<open>ts\<close>: the \<open>n\<close>-th callback run reads the clock \<open>clk n\<close>.\<close>

definition actor_calls :: "(nat \<Rightarrow> nat \<Rightarrow> nat \<Rightarrow> sched_call list) \<Rightarrow> sched \<Rightarrow> nat \<Rightarrow> nat \<Rightarrow> sched_call list" where
  "actor_calls cbs s t n = cbs (callback (actors s t)) (actor_data (actors s t)) n"

definition quiet_callbacks :: "(nat \<Rightarrow> nat \<Rightarrow> nat \<Rightarrow> sched_call list) \<Rightarrow> (nat \<Rightarrow> int) \<Rightarrow> sched \<Rightarrow> nat list \<Rightarrow> bool" where
  "quiet_callbacks cbs clk s ts \<longleftrightarrow> (\<forall>t \<in> set ts. \<forall>n. quiet_calls True t (clk n) (actor_calls cbs s t n))"

text \<open>The order in which a list of ready actors is run: an actor that a callback before its turn has deleted or restarted is
  left out.\<close>

function run_order :: "(nat \<Rightarrow> nat \<Rightarrow> nat \<Rightarrow> sched_call list) \<Rightarrow> sched \<Rightarrow> nat \<Rightarrow> nat list \<Rightarrow> nat list" where
  "run_order cbs s n [] = []"
| "run_order cbs s n (t # ts) =
     t # run_order cbs s (Suc n) (filter (\<lambda>u. u \<notin> call_actor ` set (actor_calls cbs s t n)) ts)"
  by pat_completeness auto
termination by (relation "measure (\<lambda>(cbs, s, n, ts). length ts)") (auto simp: less_Suc_eq_le)

lemma actor_calls_cong:
  assumes "\<And>t. t \<in> set ts \<Longrightarrow> callback (actors s' t) = callback (actors s t) \<and> actor_data (actors s' t) = actor_data (actors s t)"
  shows "quiet_callbacks cbs clk s' ts = quiet_callbacks cbs clk s ts" and "run_order cbs s' n ts = run_order cbs s n ts"
proof -
  show "quiet_callbacks cbs clk s' ts = quiet_callbacks cbs clk s ts"
    using assms by (simp add: quiet_callbacks_def actor_calls_def)
  show "run_order cbs s' n ts = run_order cbs s n ts"
    using assms by (induction cbs s n ts rule: run_order.induct) (simp_all add: actor_calls_def)
qed

lemma run_ready_result:
  assumes "sched_ok s c P R" "quiet_callbacks cbs clk s R" "mono clk" "c \<le> clk (length (calls s))"
  shows "\<exists>s' c' P'. run_ready cbs s = Some s' \<and> sched_ok s' c' P' [] \<and> calls s' = calls s @ run_order cbs s (length (calls s)) R \<and>
     c \<le> c' \<and> poll_in_progress s' = poll_in_progress s"
  using assms
proof (induction "length R" arbitrary: s c P R rule: less_induct)
  case less
  show ?case
  proof (cases R)
    case Nil
    then show ?thesis using less.prems(1) ready_empty [OF sched_okD(1) [OF less.prems(1)]] by (subst run_ready.simps) auto
  next
    case (Cons t ts)
    note ok = less.prems(1) [unfolded Cons]
    note q = sched_okD(1) [OF ok] and tr = take_ready_ok [OF ok]
    let ?n = "length (calls s)"
    let ?cs = "actor_calls cbs s t ?n" and ?R = "filter (\<lambda>u. u \<notin> call_actor ` set (actor_calls cbs s t (length (calls s)))) ts"
    have t: "t \<notin> set ts" "t \<notin> set P" using queues_distinct [OF q] by auto
    have quiet: "quiet_calls True t (clk ?n) ?cs" using less.prems(2) Cons by (simp add: quiet_callbacks_def)
    obtain s1 P1 where s1: "do_calls ?cs (take_ready s) = Some s1" "sched_ok s1 (clk ?n) P1 ?R"
        "calls s1 = calls (take_ready s)" "poll_in_progress s1 = poll_in_progress (take_ready s)"
        "\<forall>u. u \<notin> call_actor ` set ?cs \<longrightarrow> actors s1 u = actors (take_ready s) u"
      using quiet_calls_result [OF tr(1) t(1) _ quiet less.prems(4)] t(2) by blast
    have same: "callback (actors s1 u) = callback (actors s u) \<and> actor_data (actors s1 u) = actor_data (actors s u)"
      if "u \<in> set ?R" for u
      using s1(5) that by (simp add: tr(4,5))
    have "quiet_callbacks cbs clk s ?R" using less.prems(2) Cons by (simp add: quiet_callbacks_def)
    then have "quiet_callbacks cbs clk s1 ?R" using actor_calls_cong(1) [where ts = ?R, OF same] by blast
    moreover have "clk ?n \<le> clk (length (calls s1))" using less.prems(3) s1(3) tr(2) by (simp add: monoD)
    moreover have "length ?R < length R" using Cons by (simp add: less_Suc_eq_le)
    ultimately obtain s' c' P' where "run_ready cbs s1 = Some s'" "sched_ok s' c' P' []"
        "calls s' = calls s1 @ run_order cbs s1 (length (calls s1)) ?R" "clk ?n \<le> c'" "poll_in_progress s' = poll_in_progress s1"
      using less.hyps [OF _ s1(2) _ less.prems(3)] by blast
    moreover have "run_ready cbs s = run_ready cbs s1"
      using s1(1) ready_first [OF q] ready_empty [OF q] by (subst run_ready.simps) (simp add: actor_calls_def)
    moreover have "run_order cbs s1 (length (calls s1)) ?R = run_order cbs s (Suc ?n) ?R"
      using actor_calls_cong(2) [where ts = ?R, OF same] s1(3) tr(2) by simp
    ultimately show ?thesis using s1 tr less.prems(4) Cons by auto
  qed
qed

end
