(* ===== verification/Actor_Properties.thy ===== *)
theory Actor_Properties
  imports Actor_Invariant
begin

text \<open>
  What the scheduler guarantees: its invariant on every reachable state, that no wake-up is lost, that calls
  and polls return, where a delayed actor is put, and which callbacks a poll runs.
\<close>

text \<open>One timer set on the initial scheduler.\<close>

lemma sample_first: "\<exists>s. do_call (Timer 7 5 1 0 (Some 100)) sched_start = Some s \<and> sched_run s 100 \<and> sched_ok s 100 [7] [] \<and>
   idle s 8 \<and> due s 7 = 105"
proof -
  have ok: "sched_ok (actor_init 7 1 0 sched_start) 100 [] []" by (rule actor_init_ok [OF start_ok]) simp_all
  let ?s0 = "actor_init 7 1 0 sched_start"
  have st: "st ?s0 7 = ACTOR_NOTSCHEDULED" by (simp add: actor_init_def)
  then have q: "sched_queues ?s0 7 5 False (Some 100) [] [] = ([7], [])"
    by (simp add: sched_queues_def schedule_queues_def insert_due_def)
  obtain s where s: "do_call (Timer 7 5 1 0 (Some 100)) sched_start = Some s" "sched_ok s 100 [7] []"
    using schedule_private_ok [OF ok, of "Some 100" 7 5 False] q by (auto simp: actor_timer_def)
  moreover have "sched_run s 100"
    using sched_run.Call [OF sched_run.Start, of 100 "Timer 7 5 1 0 (Some 100)"] s(1) by (simp add: idle_def sched_start_def)
  moreover have "idle s 8" using idle_off [OF sched_okD(1) [OF s(2)]] by simp
  moreover have "due s 7 = 105"
  proof -
    obtain s' where "schedule_unlinked 7 5 False 100 ?s0 = Some s'"
      "actors s' = (actors ?s0)(7 := (actors ?s0 7)\<lparr>state := ACTOR_WAITING, ttschedule := 100 + uint (5 :: 32 word)\<rparr>)"
      using schedule_delayed [OF queuesD(1) [OF sched_okD(1) [OF ok]], of 7 5 _ 100] by auto
    then show ?thesis using s(1) st by (simp add: actor_timer_def actor_schedule_private_def)
  qed
  ultimately show ?thesis by blast
qed

subsection \<open>Properties\<close>

text \<open>C8. The scheduler's invariant. In every state reached by calls of the interface, by polls and by the
  calls of callbacks, there are a pending and a ready list such that the heap is well linked as exactly
  these two lists, the pending one is sorted by due time, and an actor is on the pending list if and
  only if its state is waiting and on the ready list if and only if it is scheduled.\<close>

theorem scheduler_invariant:
  assumes "sched_run s c"
  shows "\<exists>P R. lists_ok {pend_list, ready_list} (heap s) ((\<lambda>_. [])(pend_list := map Entry P, ready_list := map Entry R)) \<and>
     sorted (map (\<lambda>t. ttschedule (actors s t)) P) \<and>
     (\<forall>t. state (actors s t) = ACTOR_WAITING \<longleftrightarrow> t \<in> set P) \<and> (\<forall>t. state (actors s t) = ACTOR_SCHEDULED \<longleftrightarrow> t \<in> set R)"
  using sched_run_ok [OF assms] unfolding sched_ok_def queues_def queue_map_def anchors_def by blast

theorem scheduler_invariant_witness:
  "\<exists>s. do_call (Timer 7 5 1 0 (Some 100)) sched_start = Some s \<and>
     (\<exists>P R. lists_ok {pend_list, ready_list} (heap s) ((\<lambda>_. [])(pend_list := map Entry P, ready_list := map Entry R)) \<and>
        sorted (map (\<lambda>t. ttschedule (actors s t)) P) \<and> 7 \<in> set P)"
proof -
  obtain s where s: "do_call (Timer 7 5 1 0 (Some 100)) sched_start = Some s" "sched_run s 100" "sched_ok s 100 [7] []"
    using sample_first by blast
  have "state (actors s 7) = ACTOR_WAITING" using queuesD(3) [OF sched_okD(1) [OF s(3)], of 7] by simp
  with s(1) scheduler_invariant [OF s(2)] show ?thesis by blast
qed

text \<open>C13. No wake-up is lost. In every reachable state, while an actor waits, an alarm is set and goes off no
  later than the actor is due, so the caller is made to poll in time for it.\<close>

theorem no_wakeup_lost:
  assumes "sched_run s c" and "state (actors s t) = ACTOR_WAITING"
  shows "\<exists>d. alarm_at s = Some d \<and> d \<le> ttschedule (actors s t)"
proof -
  obtain P R where ok: "sched_ok s c P R" using sched_run_ok [OF assms(1)] by blast
  note q = sched_okD(1) [OF ok]
  have t: "t \<in> set P" using queuesD(3) [OF q] assms(2) by blast
  then obtain p ps where P: "P = p # ps" by (cases P) auto
  have "due s p \<le> due s t" using queuesD(2) [OF q] t P by auto
  with sched_okD(2) [OF ok] P show ?thesis by (force simp: alarm_set_def)
qed

theorem no_wakeup_lost_witness:
  "\<exists>s d. do_call (Timer 7 5 1 0 (Some 100)) sched_start = Some s \<and> alarm_at s = Some d \<and> d \<le> 105"
proof -
  obtain s where s: "do_call (Timer 7 5 1 0 (Some 100)) sched_start = Some s" "sched_run s 100" "sched_ok s 100 [7] []" "due s 7 = 105"
    using sample_first by blast
  have "state (actors s 7) = ACTOR_WAITING" using queuesD(3) [OF sched_okD(1) [OF s(3)], of 7] by simp
  with s no_wakeup_lost [OF s(2), of 7] show ?thesis by auto
qed

text \<open>C22. The scheduler never hangs. In every reachable state each call of the interface returns, the search of
  the pending list included, and the loop by which a poll moves the ripe actors ends with no failed assertion.\<close>

theorem scheduler_calls_return:
  assumes "sched_run s c" and "call_fits c s call" and "c \<le> now"
  shows "(\<exists>s'. do_call call s = Some s') \<and> (\<exists>s'. poll_begin now s = Some s')"
proof -
  obtain P R where ok: "sched_ok s c P R" using sched_run_ok [OF assms(1)] by blast
  from do_call_ok [OF ok assms(2)] poll_begin_ok [OF ok assms(3)] show ?thesis by blast
qed

theorem scheduler_calls_return_witness:
  "\<exists>s. do_call (Timer 7 5 1 0 (Some 100)) sched_start = Some s \<and>
     (\<exists>s'. do_call (Timer 8 3 2 0 (Some 101)) s = Some s') \<and> (\<exists>s'. poll_begin 106 s = Some s')"
proof -
  obtain s where s: "do_call (Timer 7 5 1 0 (Some 100)) sched_start = Some s" "sched_run s 100" "idle s 8"
    using sample_first by blast
  with scheduler_calls_return [OF s(2), of "Timer 8 3 2 0 (Some 101)" 106] show ?thesis by auto
qed

text \<open>Scheduling with a delay. An unscheduled actor is put behind the pending actors that are due no later
  than it and in front of the others, the ready list stays as it is, and the alarm is set for the actor if
  and only if it became the first of the pending list.\<close>

theorem delayed_schedule_position:
  assumes "sched_ok s c P R" and "state (actors s t) = ACTOR_NOTSCHEDULED" and "delay \<noteq> 0"
  shows "\<exists>s'. actor_schedule_private t delay head (Some now) s = Some s' \<and>
     lists_ok anchors (heap s') (queue_map
       (takeWhile (\<lambda>u. ttschedule (actors s u) \<le> now + uint delay) P @ t #
        dropWhile (\<lambda>u. ttschedule (actors s u) \<le> now + uint delay) P) R) \<and>
     actors s' = (actors s)(t := (actors s t)\<lparr>state := ACTOR_WAITING, ttschedule := now + uint delay\<rparr>) \<and>
     alarm_at s' = (if P = [] \<or> now + uint delay < ttschedule (actors s (hd P)) then Some (now + uint delay) else alarm_at s)"
proof -
  note q = sched_okD(1) [OF assms(1)]
  let ?f = "(due s)(t := now + uint delay)"
  have t: "t \<notin> set P" "t \<notin> set R" using queuesD(3,4) [OF q, of t] assms(2) by auto
  have e: "takeWhile (\<lambda>u. ?f u \<le> ?f t) P = takeWhile (\<lambda>u. due s u \<le> now + uint delay) P"
    "dropWhile (\<lambda>u. ?f u \<le> ?f t) P = dropWhile (\<lambda>u. due s u \<le> now + uint delay) P"
    using t(1) by (auto intro: takeWhile_cong dropWhile_cong)
  have h: "(P \<noteq> [] \<and> ?f (hd P) \<le> ?f t) \<longleftrightarrow> \<not> (P = [] \<or> now + uint delay < due s (hd P))"
    using t(1) by (cases P) auto
  obtain s' where s': "schedule_unlinked t delay head now s = Some s'"
      "lists_ok anchors (heap s') (queue_map (insert_due ?f t P) R)"
      "actors s' = (actors s)(t := (actors s t)\<lparr>state := ACTOR_WAITING, ttschedule := now + uint delay\<rparr>)"
      "alarm_at s' = (if P \<noteq> [] \<and> ?f (hd P) \<le> ?f t then alarm_at s else Some (now + uint delay))"
    using schedule_delayed [OF queuesD(1) [OF q] t assms(3) refl] by blast
  have "actor_schedule_private t delay head (Some now) s = Some s'"
    using s'(1) assms(2) by (simp add: actor_schedule_private_def)
  with s' show ?thesis unfolding insert_due_def e h by auto
qed


text \<open>C21. A poll runs what is due. Where no callback makes an actor ready (it may delete any actor, restart the timer of any
  actor with a delay and the clock of the callback, and set up its own timer anew), a poll returns, and the actors
  it has called are those that were ready and then the pending ones whose time has come, each once and
  in the order of the lists, without those that a callback before their turn has deleted or restarted. The ready list is
  empty afterwards and the invariant holds.\<close>

theorem poll_runs_due:
  assumes "sched_ok s c P R" and "\<not> poll_in_progress s" and "c \<le> now"
    and "ts = R @ takeWhile (\<lambda>t. ttschedule (actors s t) \<le> now) P"
    and "quiet_callbacks cbs clk s ts" and "mono clk" and "now \<le> clk (length (calls s))"
  shows "\<exists>s' c' P'. actor_poll cbs (Some now) s = Some s' \<and> calls s' = calls s @ run_order cbs s (length (calls s)) ts \<and>
     sched_ok s' c' P' [] \<and> \<not> poll_in_progress s'"
proof -
  obtain s1 where s1: "poll_begin now s = Some s1"
      "sched_ok s1 now (dropWhile (\<lambda>t. due s t \<le> now) P) (R @ takeWhile (\<lambda>t. due s t \<le> now) P)"
      "callback \<circ> actors s1 = callback \<circ> actors s" "actor_data \<circ> actors s1 = actor_data \<circ> actors s" "calls s1 = calls s"
    using poll_begin_ok [OF assms(1,3)] by blast
  have same: "callback (actors s1 t) = callback (actors s t) \<and> actor_data (actors s1 t) = actor_data (actors s t)" for t
    using s1(3,4) by (simp add: fun_eq_iff)
  have "quiet_callbacks cbs clk s1 ts" using assms(5) actor_calls_cong(1) [OF same] by blast
  then obtain s2 c' P' where "run_ready cbs s1 = Some s2" "sched_ok s2 c' P' []"
      "calls s2 = calls s1 @ run_order cbs s1 (length (calls s1)) ts"
    using run_ready_result [OF s1(2) _ assms(6)] assms(4,7) s1(5) by metis
  then show ?thesis using s1(1,5) assms(2) actor_calls_cong(2) [OF same] by (simp add: actor_poll_def) blast
qed

text \<open>Two timers that are due at the same time; the callback of the first deletes the second.\<close>

lemma sample_timer:
  assumes ok: "sched_ok s 100 P []" and t: "t \<notin> set P" and due: "\<forall>u \<in> set P. due s u = 105"
  shows "\<exists>s'. do_call (Timer t 5 cb 0 (Some 100)) s = Some s' \<and> sched_ok s' 100 (P @ [t]) [] \<and>
    actors s' = (actors s)(t := \<lparr>state = ACTOR_WAITING, actor_data = 0, callback = cb, ttschedule = 105\<rparr>) \<and>
    calls s' = calls s \<and> poll_in_progress s' = poll_in_progress s"
proof -
  let ?s = "actor_init t cb 0 s"
  have ok0: "sched_ok ?s 100 P []" by (rule actor_init_ok [OF ok t]) simp
  have st: "st ?s t = ACTOR_NOTSCHEDULED" by (simp add: actor_init_def)
  have "insert_due ((due ?s)(t := 105)) t P = P @ [t]"
    using t due by (auto simp: insert_due_def actor_init_def takeWhile_eq_all_conv)
  then have q: "sched_queues ?s t 5 False (Some 100) P [] = (P @ [t], [])"
    using t by (simp add: sched_queues_def schedule_queues_def st remove1_idem)
  obtain s' where s': "actor_schedule_private t 5 False (Some 100) ?s = Some s'" "sched_ok s' 100 (P @ [t]) []"
      "calls s' = calls ?s" "poll_in_progress s' = poll_in_progress ?s"
    using schedule_private_ok [OF ok0, of "Some 100" t 5 False] q by auto
  moreover have "actors s' = (actors ?s)(t := (actors ?s t)\<lparr>state := ACTOR_WAITING, ttschedule := 105\<rparr>)"
    using delayed_schedule_position [OF ok0 st, of 5 False 100] s'(1) by simp
  moreover have "(actors ?s t)\<lparr>state := ACTOR_WAITING, ttschedule := 105\<rparr> =
      \<lparr>state = ACTOR_WAITING, actor_data = 0, callback = cb, ttschedule = 105\<rparr>"
    by (rule actor.equality) (simp_all add: actor_init_def)
  ultimately show ?thesis by (simp add: actor_timer_def) (simp add: actor_init_def)
qed

theorem poll_runs_due_witness:
  "\<exists>s1 s2 s'. do_call (Timer 7 5 1 0 (Some 100)) sched_start = Some s1 \<and> do_call (Timer 8 5 2 0 (Some 100)) s1 = Some s2 \<and>
     actor_poll (\<lambda>cb d n. if cb = 1 then [Delete 8, Timer 7 10 1 0 (Some 105)] else []) (Some 105) s2 = Some s' \<and>
     calls s' = [7]"
proof -
  obtain s1 where s1: "do_call (Timer 7 5 1 0 (Some 100)) sched_start = Some s1" "sched_ok s1 100 [7] []"
      "actors s1 = (actors sched_start)(7 := \<lparr>state = ACTOR_WAITING, actor_data = 0, callback = 1, ttschedule = 105\<rparr>)"
      "calls s1 = []" "\<not> poll_in_progress s1"
    using sample_timer [OF start_ok, of 7 1] by (auto simp: sched_start_def)
  obtain s2 where s2: "do_call (Timer 8 5 2 0 (Some 100)) s1 = Some s2" "sched_ok s2 100 [7, 8] []"
      "actors s2 = (actors s1)(8 := \<lparr>state = ACTOR_WAITING, actor_data = 0, callback = 2, ttschedule = 105\<rparr>)"
      "calls s2 = []" "\<not> poll_in_progress s2"
    using sample_timer [OF s1(2), of 8 2] s1(3-5) by auto
  let ?cbs = "\<lambda>cb d n :: nat. if cb = (1 :: nat) then [Delete 8, Timer 7 10 1 0 (Some 105)] else []"
  have "quiet_callbacks ?cbs (\<lambda>_. 105) s2 [7, 8]" "run_order ?cbs s2 0 [7, 8] = [7]"
    using s1(3) s2(3) by (simp_all add: quiet_callbacks_def actor_calls_def)
  with poll_runs_due [OF s2(2,5), of 105 "[7, 8]" ?cbs "\<lambda>_. 105"] s1(1,3) s2(1,3,4) show ?thesis
    by (auto simp: mono_def)
qed

end
