(* ===== verification/Md5.thy ===== *)
theory Md5
  imports Iscsi_Prelude
begin

text \<open>
  The MD5 implementation of \<open>utils/md5.c\<close> and \<open>utils/md5.h\<close>: the context with its four state words, the
  64-bit byte count kept in two 32-bit words, and the input block; \<open>MD5Init\<close>, \<open>MD5Update\<close>, \<open>MD5Final\<close> and
  \<open>MD5Transform\<close>, whose 64 lines are data of the model. The input block is a list of 64 bytes that is only
  overwritten where the code overwrites it. At the end stands the digest as RFC 1321 defines it, in terms of the
  whole padded message.
\<close>

subsection \<open>The compression function\<close>

definition F1 :: "32 word \<Rightarrow> 32 word \<Rightarrow> 32 word \<Rightarrow> 32 word" where
  "F1 x y z = z XOR (x AND (y XOR z))"

definition F2 :: "32 word \<Rightarrow> 32 word \<Rightarrow> 32 word \<Rightarrow> 32 word" where
  "F2 x y z = F1 z x y"

definition F3 :: "32 word \<Rightarrow> 32 word \<Rightarrow> 32 word \<Rightarrow> 32 word" where
  "F3 x y z = x XOR y XOR z"

definition F4 :: "32 word \<Rightarrow> 32 word \<Rightarrow> 32 word \<Rightarrow> 32 word" where
  "F4 x y z = y XOR (x OR NOT z)"

text \<open>The four variables of \<open>MD5Transform\<close>.\<close>

datatype md5_var = Ra | Rb | Rc | Rd

type_synonym md5_vars = "32 word \<times> 32 word \<times> 32 word \<times> 32 word"

fun md5_get :: "md5_var \<Rightarrow> md5_vars \<Rightarrow> 32 word" where
  "md5_get Ra (a, b, c, d) = a"
| "md5_get Rb (a, b, c, d) = b"
| "md5_get Rc (a, b, c, d) = c"
| "md5_get Rd (a, b, c, d) = d"

fun md5_put :: "md5_var \<Rightarrow> 32 word \<Rightarrow> md5_vars \<Rightarrow> md5_vars" where
  "md5_put Ra x (a, b, c, d) = (x, b, c, d)"
| "md5_put Rb x (a, b, c, d) = (a, x, c, d)"
| "md5_put Rc x (a, b, c, d) = (a, b, x, d)"
| "md5_put Rd x (a, b, c, d) = (a, b, c, x)"

definition MD5STEP :: "(32 word \<Rightarrow> 32 word \<Rightarrow> 32 word \<Rightarrow> 32 word) \<Rightarrow> md5_var \<Rightarrow> md5_var \<Rightarrow> md5_var \<Rightarrow> md5_var \<Rightarrow>
    32 word \<Rightarrow> nat \<Rightarrow> md5_vars \<Rightarrow> md5_vars" where
  "MD5STEP f w x y z inp s v =
     (let t = md5_get w v + (f (md5_get x v) (md5_get y v) (md5_get z v) + inp)
      in md5_put w ((push_bit s t OR drop_bit (32 - s) t) + md5_get x v) v)"

text \<open>A line of \<open>MD5Transform\<close>: the function, the variables in their order, the index of the input word, the
  constant added to it, and the rotation.\<close>

datatype md5_line = Step "32 word \<Rightarrow> 32 word \<Rightarrow> 32 word \<Rightarrow> 32 word" md5_var md5_var md5_var md5_var nat "32 word" nat

fun do_line :: "32 word list \<Rightarrow> md5_line \<Rightarrow> md5_vars \<Rightarrow> md5_vars" where
  "do_line inp (Step f w x y z i k s) = MD5STEP f w x y z (inp ! i + k) s"

definition md5_lines :: "md5_line list" where
  "md5_lines =
     [Step F1 Ra Rb Rc Rd 0 0xd76aa478 7,
      Step F1 Rd Ra Rb Rc 1 0xe8c7b756 12,
      Step F1 Rc Rd Ra Rb 2 0x242070db 17,
      Step F1 Rb Rc Rd Ra 3 0xc1bdceee 22,
      Step F1 Ra Rb Rc Rd 4 0xf57c0faf 7,
      Step F1 Rd Ra Rb Rc 5 0x4787c62a 12,
      Step F1 Rc Rd Ra Rb 6 0xa8304613 17,
      Step F1 Rb Rc Rd Ra 7 0xfd469501 22,
      Step F1 Ra Rb Rc Rd 8 0x698098d8 7,
      Step F1 Rd Ra Rb Rc 9 0x8b44f7af 12,
      Step F1 Rc Rd Ra Rb 10 0xffff5bb1 17,
      Step F1 Rb Rc Rd Ra 11 0x895cd7be 22,
      Step F1 Ra Rb Rc Rd 12 0x6b901122 7,
      Step F1 Rd Ra Rb Rc 13 0xfd987193 12,
      Step F1 Rc Rd Ra Rb 14 0xa679438e 17,
      Step F1 Rb Rc Rd Ra 15 0x49b40821 22,
      Step F2 Ra Rb Rc Rd 1 0xf61e2562 5,
      Step F2 Rd Ra Rb Rc 6 0xc040b340 9,
      Step F2 Rc Rd Ra Rb 11 0x265e5a51 14,
      Step F2 Rb Rc Rd Ra 0 0xe9b6c7aa 20,
      Step F2 Ra Rb Rc Rd 5 0xd62f105d 5,
      Step F2 Rd Ra Rb Rc 10 0x02441453 9,
      Step F2 Rc Rd Ra Rb 15 0xd8a1e681 14,
      Step F2 Rb Rc Rd Ra 4 0xe7d3fbc8 20,
      Step F2 Ra Rb Rc Rd 9 0x21e1cde6 5,
      Step F2 Rd Ra Rb Rc 14 0xc33707d6 9,
      Step F2 Rc Rd Ra Rb 3 0xf4d50d87 14,
      Step F2 Rb Rc Rd Ra 8 0x455a14ed 20,
      Step F2 Ra Rb Rc Rd 13 0xa9e3e905 5,
      Step F2 Rd Ra Rb Rc 2 0xfcefa3f8 9,
      Step F2 Rc Rd Ra Rb 7 0x676f02d9 14,
      Step F2 Rb Rc Rd Ra 12 0x8d2a4c8a 20,
      Step F3 Ra Rb Rc Rd 5 0xfffa3942 4,
      Step F3 Rd Ra Rb Rc 8 0x8771f681 11,
      Step F3 Rc Rd Ra Rb 11 0x6d9d6122 16,
      Step F3 Rb Rc Rd Ra 14 0xfde5380c 23,
      Step F3 Ra Rb Rc Rd 1 0xa4beea44 4,
      Step F3 Rd Ra Rb Rc 4 0x4bdecfa9 11,
      Step F3 Rc Rd Ra Rb 7 0xf6bb4b60 16,
      Step F3 Rb Rc Rd Ra 10 0xbebfbc70 23,
      Step F3 Ra Rb Rc Rd 13 0x289b7ec6 4,
      Step F3 Rd Ra Rb Rc 0 0xeaa127fa 11,
      Step F3 Rc Rd Ra Rb 3 0xd4ef3085 16,
      Step F3 Rb Rc Rd Ra 6 0x04881d05 23,
      Step F3 Ra Rb Rc Rd 9 0xd9d4d039 4,
      Step F3 Rd Ra Rb Rc 12 0xe6db99e5 11,
      Step F3 Rc Rd Ra Rb 15 0x1fa27cf8 16,
      Step F3 Rb Rc Rd Ra 2 0xc4ac5665 23,
      Step F4 Ra Rb Rc Rd 0 0xf4292244 6,
      Step F4 Rd Ra Rb Rc 7 0x432aff97 10,
      Step F4 Rc Rd Ra Rb 14 0xab9423a7 15,
      Step F4 Rb Rc Rd Ra 5 0xfc93a039 21,
      Step F4 Ra Rb Rc Rd 12 0x655b59c3 6,
      Step F4 Rd Ra Rb Rc 3 0x8f0ccc92 10,
      Step F4 Rc Rd Ra Rb 10 0xffeff47d 15,
      Step F4 Rb Rc Rd Ra 1 0x85845dd1 21,
      Step F4 Ra Rb Rc Rd 8 0x6fa87e4f 6,
      Step F4 Rd Ra Rb Rc 15 0xfe2ce6e0 10,
      Step F4 Rc Rd Ra Rb 6 0xa3014314 15,
      Step F4 Rb Rc Rd Ra 13 0x4e0811a1 21,
      Step F4 Ra Rb Rc Rd 4 0xf7537e82 6,
      Step F4 Rd Ra Rb Rc 11 0xbd3af235 10,
      Step F4 Rc Rd Ra Rb 2 0x2ad7d2bb 15,
      Step F4 Rb Rc Rd Ra 9 0xeb86d391 21]"

definition MD5Transform :: "32 word list \<Rightarrow> 32 word list \<Rightarrow> 32 word list" where
  "MD5Transform buf inp =
     (case fold (do_line inp) md5_lines (buf ! 0, buf ! 1, buf ! 2, buf ! 3) of
        (a, b, c, d) \<Rightarrow> [buf ! 0 + a, buf ! 1 + b, buf ! 2 + c, buf ! 3 + d])"

subsection \<open>The context\<close>

text \<open>The input block is kept as its 64 bytes; the compression function reads it as 16 words, the first byte
  of a word being its least significant one.\<close>

record MD5Context =
  md5_buf :: "32 word list"
  md5_bytes :: "32 word \<times> 32 word"
  md5_in :: "byte list"

definition le_word :: "byte list \<Rightarrow> 32 word" where
  "le_word bs = ucast (bs ! 0) OR push_bit 8 (ucast (bs ! 1)) OR push_bit 16 (ucast (bs ! 2)) OR push_bit 24 (ucast (bs ! 3))"

fun le_words :: "byte list \<Rightarrow> 32 word list" where
  "le_words (a # b # c # d # bs) = le_word [a, b, c, d] # le_words bs"
| "le_words _ = []"

definition word_bytes :: "32 word \<Rightarrow> byte list" where
  "word_bytes w = map (\<lambda>n. ucast (drop_bit n w)) [0, 8, 16, 24]"

abbreviation memcpy_at :: "nat \<Rightarrow> 'a list \<Rightarrow> 'a list \<Rightarrow> 'a list" where
  "memcpy_at off xs dst \<equiv> overlay dst off xs"

definition MD5Init :: "MD5Context \<Rightarrow> MD5Context" where
  "MD5Init ctx = ctx\<lparr>md5_buf := [0x67452301, 0xefcdab89, 0x98badcfe, 0x10325476], md5_bytes := (0, 0)\<rparr>"

text \<open>The loop over whole blocks and the copy of what is left after it.\<close>

function update_blocks :: "byte list \<Rightarrow> MD5Context \<Rightarrow> MD5Context" where
  "update_blocks buf ctx =
     (if length buf \<ge> 64
      then let ctx = ctx\<lparr>md5_in := memcpy_at 0 (take 64 buf) (md5_in ctx)\<rparr>
           in update_blocks (drop 64 buf) (ctx\<lparr>md5_buf := MD5Transform (md5_buf ctx) (le_words (md5_in ctx))\<rparr>)
      else ctx\<lparr>md5_in := memcpy_at 0 buf (md5_in ctx)\<rparr>)"
  by auto
termination by (relation "measure (\<lambda>(buf, ctx). length buf)") auto

declare update_blocks.simps [simp del]

definition add_bytes :: "32 word \<times> 32 word \<Rightarrow> 32 word \<Rightarrow> 32 word \<times> 32 word" where
  "add_bytes b len = (fst b + len, if fst b + len < fst b then snd b + 1 else snd b)"

definition MD5Update :: "MD5Context \<Rightarrow> byte list \<Rightarrow> MD5Context" where
  "MD5Update ctx buf =
     (let t = fst (md5_bytes ctx);
          ctx = ctx\<lparr>md5_bytes := add_bytes (md5_bytes ctx) (of_nat (length buf))\<rparr>;
          t = 64 - unat (t AND 0x3f)
      in if t > length buf then ctx\<lparr>md5_in := memcpy_at (64 - t) buf (md5_in ctx)\<rparr>
         else
           let ctx = ctx\<lparr>md5_in := memcpy_at (64 - t) (take t buf) (md5_in ctx)\<rparr>;
               ctx = ctx\<lparr>md5_buf := MD5Transform (md5_buf ctx) (le_words (md5_in ctx))\<rparr>
           in update_blocks (drop t buf) ctx)"

definition MD5Final :: "MD5Context \<Rightarrow> byte list" where
  "MD5Final ctx =
     (let count = unat (fst (md5_bytes ctx) AND 0x3f);
          p = count + 1;
          inp = memcpy_at count [0x80] (md5_in ctx);
          (buf, inp) =
            (if 56 - 1 < count
             then let inp = memcpy_at p (replicate (63 - count) 0) inp
                  in (MD5Transform (md5_buf ctx) (le_words inp), memcpy_at 0 (replicate 56 0) inp)
             else (md5_buf ctx, memcpy_at p (replicate (56 - 1 - count) 0) inp));
          lo = push_bit 3 (fst (md5_bytes ctx));
          hi = push_bit 3 (snd (md5_bytes ctx)) OR drop_bit 29 (fst (md5_bytes ctx));
          buf = MD5Transform buf (take 14 (le_words inp) @ [lo, hi])
      in concat (map word_bytes buf))"

subsection \<open>The algorithm of RFC 1321\<close>

definition rfc_T :: "32 word list" where
  "rfc_T =
     [0xd76aa478, 0xe8c7b756, 0x242070db, 0xc1bdceee, 0xf57c0faf, 0x4787c62a, 0xa8304613, 0xfd469501,
      0x698098d8, 0x8b44f7af, 0xffff5bb1, 0x895cd7be, 0x6b901122, 0xfd987193, 0xa679438e, 0x49b40821,
      0xf61e2562, 0xc040b340, 0x265e5a51, 0xe9b6c7aa, 0xd62f105d, 0x02441453, 0xd8a1e681, 0xe7d3fbc8,
      0x21e1cde6, 0xc33707d6, 0xf4d50d87, 0x455a14ed, 0xa9e3e905, 0xfcefa3f8, 0x676f02d9, 0x8d2a4c8a,
      0xfffa3942, 0x8771f681, 0x6d9d6122, 0xfde5380c, 0xa4beea44, 0x4bdecfa9, 0xf6bb4b60, 0xbebfbc70,
      0x289b7ec6, 0xeaa127fa, 0xd4ef3085, 0x04881d05, 0xd9d4d039, 0xe6db99e5, 0x1fa27cf8, 0xc4ac5665,
      0xf4292244, 0x432aff97, 0xab9423a7, 0xfc93a039, 0x655b59c3, 0x8f0ccc92, 0xffeff47d, 0x85845dd1,
      0x6fa87e4f, 0xfe2ce6e0, 0xa3014314, 0x4e0811a1, 0xf7537e82, 0xbd3af235, 0x2ad7d2bb, 0xeb86d391]"

definition rfc_F :: "nat \<Rightarrow> 32 word \<Rightarrow> 32 word \<Rightarrow> 32 word \<Rightarrow> 32 word" where
  "rfc_F i x y z =
     (if i < 16 then (x AND y) OR (NOT x AND z)
      else if i < 32 then (x AND z) OR (y AND NOT z)
      else if i < 48 then x XOR y XOR z
      else y XOR (x OR NOT z))"

definition rfc_index :: "nat \<Rightarrow> nat" where
  "rfc_index i =
     (if i < 16 then i else if i < 32 then (5 * i + 1) mod 16 else if i < 48 then (3 * i + 5) mod 16 else (7 * i) mod 16)"

definition rfc_shift :: "nat \<Rightarrow> nat" where
  "rfc_shift i = [[7, 12, 17, 22], [5, 9, 14, 20], [4, 11, 16, 23], [6, 10, 15, 21]] ! (i div 16) ! (i mod 4)"

definition rotate_left :: "nat \<Rightarrow> 32 word \<Rightarrow> 32 word" where
  "rotate_left s w = push_bit s w OR drop_bit (32 - s) w"

text \<open>One of the 64 operations, after which the registers trade places.\<close>

definition rfc_step :: "32 word list \<Rightarrow> nat \<Rightarrow> 32 word \<times> 32 word \<times> 32 word \<times> 32 word \<Rightarrow> 32 word \<times> 32 word \<times> 32 word \<times> 32 word" where
  "rfc_step X i = (\<lambda>(a, b, c, d). (d, b + rotate_left (rfc_shift i) (a + rfc_F i b c d + X ! rfc_index i + rfc_T ! i), b, c))"

definition rfc_block :: "32 word list \<Rightarrow> 32 word list \<Rightarrow> 32 word list" where
  "rfc_block buf X =
     (case fold (rfc_step X) [0..<64] (buf ! 0, buf ! 1, buf ! 2, buf ! 3) of
        (a, b, c, d) \<Rightarrow> [buf ! 0 + a, buf ! 1 + b, buf ! 2 + c, buf ! 3 + d])"

fun rfc_blocks :: "32 word list \<Rightarrow> 32 word list \<Rightarrow> nat \<Rightarrow> 32 word list" where
  "rfc_blocks buf X 0 = buf"
| "rfc_blocks buf X (Suc n) = rfc_blocks (rfc_block buf (take 16 X)) (drop 16 X) n"

definition rfc_pad :: "byte list \<Rightarrow> byte list" where
  "rfc_pad m = m @ 0x80 # replicate ((119 - length m mod 64) mod 64) 0"

definition rfc_length :: "byte list \<Rightarrow> 32 word list" where
  "rfc_length m = [of_nat (8 * length m), of_nat (8 * length m div 2 ^ 32)]"

definition rfc_md5 :: "byte list \<Rightarrow> byte list" where
  "rfc_md5 m =
     (let X = le_words (rfc_pad m) @ rfc_length m
      in concat (map word_bytes
           (rfc_blocks [0x67452301, 0xefcdab89, 0x98badcfe, 0x10325476] X (length X div 16))))"

end
