(* ===== verification/Md5_Digest.thy ===== *)
theory Md5_Digest
  imports Md5
begin

text \<open>
  That the digest the code computes piece by piece is that of RFC 1321: the 64 lines of the compression
  function do the 64 operations of the RFC, \<open>MD5Update\<close> absorbs a message however it is cut
  (\<open>absorbed\<close>), the byte count carries from its low to its high word, and \<open>MD5Final\<close> pads as the RFC says.
\<close>

subsection \<open>The compression function is that of the RFC\<close>

definition line_step :: "32 word list \<Rightarrow> (32 word \<Rightarrow> 32 word \<Rightarrow> 32 word \<Rightarrow> 32 word) \<Rightarrow> nat \<Rightarrow> 32 word \<Rightarrow> nat \<Rightarrow> md5_vars \<Rightarrow> md5_vars" where
  "line_step X f i k s = (\<lambda>(a, b, c, d). (d, b + rotate_left s (a + f b c d + X ! i + k), b, c))"

fun line_rotating :: "32 word list \<Rightarrow> md5_line \<Rightarrow> md5_vars \<Rightarrow> md5_vars" where
  "line_rotating X (Step f w x y z i k s) = line_step X f i k s"

text \<open>Four lines name the variables in turn.\<close>

inductive lines_turn :: "md5_line list \<Rightarrow> bool" where
  no_lines: "lines_turn []"
| four_lines: "lines_turn ls \<Longrightarrow>
     lines_turn (Step f0 Ra Rb Rc Rd i0 k0 s0 # Step f1 Rd Ra Rb Rc i1 k1 s1 #
       Step f2 Rc Rd Ra Rb i2 k2 s2 # Step f3 Rb Rc Rd Ra i3 k3 s3 # ls)"

lemma lines_rotating:
  "lines_turn ls \<Longrightarrow> fold (do_line X) ls v = fold (line_rotating X) ls v"
proof (induction ls arbitrary: v rule: lines_turn.induct)
  case (four_lines ls f0 i0 k0 s0 f1 i1 k1 s1 f2 i2 k2 s2 f3 i3 k3 s3)
  obtain a b c d where v: "v = (a, b, c, d)" by (cases v)
  from four_lines.IH show ?case by (simp add: v line_step_def MD5STEP_def rotate_left_def Let_def ac_simps)
qed simp_all

lemma rfc_functions:
  "i < 16 \<Longrightarrow> rfc_F i = F1" "16 \<le> i \<Longrightarrow> i < 32 \<Longrightarrow> rfc_F i = F2"
  "32 \<le> i \<Longrightarrow> i < 48 \<Longrightarrow> rfc_F i = F3" "48 \<le> i \<Longrightarrow> rfc_F i = F4"
  by (intro ext bit_word_eqI; auto simp: rfc_F_def F1_def F2_def F3_def F4_def bit_simps)+

lemma rfc_step_line: "rfc_step X i = line_step X (rfc_F i) (rfc_index i) (rfc_T ! i) (rfc_shift i)"
  by (simp add: rfc_step_def line_step_def)

lemma lines_turn_md5: "lines_turn md5_lines"
  unfolding md5_lines_def by (intro lines_turn.intros)

lemma upt_64: "[0..<64] = [0, 1, 2, 3, 4, 5, 6, 7, 8, 9, 10, 11, 12, 13, 14, 15, 16, 17, 18, 19, 20, 21, 22, 23, 24, 25, 26, 27, 28,
   29, 30, 31, 32, 33, 34, 35, 36, 37, 38, 39, 40, 41, 42, 43, 44, 45, 46, 47, 48, 49, 50, 51, 52, 53, 54, 55, 56, 57, 58, 59, 60,
   61, 62, 63]"
  by (simp add: upt_rec)

lemma lines_rfc: "map (line_rotating X) md5_lines = map (rfc_step X) [0..<64]"
  unfolding upt_64 md5_lines_def
  by (simp add: rfc_step_line rfc_functions rfc_index_def rfc_shift_def rfc_T_def)

lemma fold_map_id: "fold f xs = fold id (map f xs)"
  by (simp add: fold_map comp_def)

lemma MD5Transform_rfc: "MD5Transform buf X = rfc_block buf X"
proof -
  have "fold (do_line X) md5_lines = fold (line_rotating X) md5_lines"
    by (rule ext) (rule lines_rotating [OF lines_turn_md5])
  also have "\<dots> = fold (rfc_step X) [0..<64]"
    using fold_map_id [of "line_rotating X" md5_lines] fold_map_id [of "rfc_step X" "[0..<64]"] lines_rfc by simp
  finally show ?thesis by (simp add: MD5Transform_def rfc_block_def)
qed

subsection \<open>Absorbing a message\<close>

text \<open>The state after all whole blocks of a message, and the bytes that are left.\<close>

function absorb :: "32 word list \<Rightarrow> byte list \<Rightarrow> 32 word list \<times> byte list" where
  "absorb buf xs =
     (if 64 \<le> length xs then absorb (MD5Transform buf (le_words (take 64 xs))) (drop 64 xs) else (buf, xs))"
  by auto
termination by (relation "measure (\<lambda>(buf, xs). length xs)") auto

declare absorb.simps [simp del]

lemma absorb_short: "length xs < 64 \<Longrightarrow> absorb buf xs = (buf, xs)"
  by (simp add: absorb.simps)

lemma absorb_block: "length xs = 64 \<Longrightarrow> absorb buf (xs @ ys) = absorb (MD5Transform buf (le_words xs)) ys"
  by (subst absorb.simps) simp

lemma absorb_append: "absorb buf (xs @ ys) = (case absorb buf xs of (buf', r) \<Rightarrow> absorb buf' (r @ ys))"
proof (induction buf xs rule: absorb.induct)
  case (1 buf xs)
  show ?case
  proof (cases "64 \<le> length xs")
    case True
    then have "absorb buf (xs @ ys) = absorb (MD5Transform buf (le_words (take 64 xs))) (drop 64 xs @ ys)"
      by (subst absorb.simps) simp
    also have "\<dots> = (case absorb (MD5Transform buf (le_words (take 64 xs))) (drop 64 xs) of (buf', r) \<Rightarrow> absorb buf' (r @ ys))"
      using 1 [OF True] .
    also have "absorb (MD5Transform buf (le_words (take 64 xs))) (drop 64 xs) = absorb buf xs"
      using True by (subst (2) absorb.simps) simp
    finally show ?thesis .
  next
    case False
    then show ?thesis by (simp add: absorb_short)
  qed
qed

lemma length_memcpy_at: "off + length xs \<le> length dst \<Longrightarrow> length (memcpy_at off xs dst) = length dst"
  by (simp add: overlay_def)

lemma take_memcpy_at: "off + length xs \<le> length dst \<Longrightarrow> take (off + length xs) (memcpy_at off xs dst) = take off dst @ xs"
  by (simp add: overlay_def)

lemma memcpy_at_all: "off + length xs = length dst \<Longrightarrow> memcpy_at off xs dst = take off dst @ xs"
  by (simp add: overlay_def)

lemma update_blocks_absorb:
  assumes "length (md5_in ctx) = 64"
  shows "length (md5_in (update_blocks buf ctx)) = 64 \<and> md5_bytes (update_blocks buf ctx) = md5_bytes ctx \<and>
    absorb (md5_buf ctx) buf = (md5_buf (update_blocks buf ctx), take (length buf mod 64) (md5_in (update_blocks buf ctx)))"
  using assms
proof (induction buf ctx rule: update_blocks.induct)
  case (1 buf ctx)
  show ?case
  proof (cases "64 \<le> length buf")
    case True
    have m: "memcpy_at 0 (take 64 buf) (md5_in ctx) = take 64 buf" using True "1.prems" by (simp add: memcpy_at_all)
    let ?ctx = "ctx\<lparr>md5_in := take 64 buf, md5_buf := MD5Transform (md5_buf ctx) (le_words (take 64 buf))\<rparr>"
    have u: "update_blocks buf ctx = update_blocks (drop 64 buf) ?ctx"
      using True by (subst update_blocks.simps) (simp add: Let_def m)
    have a: "absorb (md5_buf ctx) buf = absorb (md5_buf ?ctx) (drop 64 buf)"
      using True by (subst absorb.simps) simp
    have l: "(length buf - 64) mod 64 = length buf mod 64" using True by (simp add: le_mod_geq)
    show ?thesis using "1.IH" [OF True refl] True unfolding m u a by (simp add: l)
  next
    case False
    then show ?thesis
      using "1.prems" take_memcpy_at [of 0 buf "md5_in ctx"] length_memcpy_at [of 0 buf "md5_in ctx"]
      by (simp add: update_blocks.simps absorb_short)
  qed
qed

subsection \<open>The byte count\<close>

definition byte_count :: "MD5Context \<Rightarrow> nat" where
  "byte_count ctx = unat (fst (md5_bytes ctx)) + 2 ^ 32 * unat (snd (md5_bytes ctx))"

lemma unat_and_63: "unat (w AND 0x3f :: 32 word) = unat w mod 64"
proof -
  have "w AND 0x3f = take_bit 6 w" by (simp add: take_bit_eq_mask mask_eq_exp_minus_1)
  then show ?thesis by (simp only: unsigned_take_bit_eq) (simp add: take_bit_eq_mod)
qed

lemma carry_count:
  assumes "m \<le> (x :: nat)"
  shows "(x - m + m * ((h + 1) mod m)) mod (m * m) = (x + m * h) mod (m * m)"
proof -
  have "m * ((h + 1) mod m) = (m * (h + 1)) mod (m * m)" by (rule mult_mod_right)
  then have "(x - m + m * ((h + 1) mod m)) mod (m * m) = (x - m + m * (h + 1)) mod (m * m)" by (simp only: mod_add_right_eq)
  also have "x - m + m * (h + 1) = x + m * h" using assms by simp
  finally show ?thesis .
qed

lemma add_bytes_count:
  assumes "len < 2 ^ 32"
  shows "(unat (fst (add_bytes b (of_nat len))) + 2 ^ 32 * unat (snd (add_bytes b (of_nat len)))) mod 2 ^ 64 =
     (unat (fst b) + 2 ^ 32 * unat (snd b) + len) mod 2 ^ 64"
proof -
  have l: "unat (of_nat len :: 32 word) = len" using assms by (simp add: unat_of_nat)
  have lo: "unat (fst b) < 2 ^ 32" "unat (snd b) < 2 ^ 32"
    using unsigned_less [of "fst b"] unsigned_less [of "snd b"] by simp_all
  show ?thesis
  proof (cases "unat (fst b) + len < 2 ^ 32")
    case True
    then have "unat (fst b + of_nat len) = unat (fst b) + len" by (simp add: unat_word_ariths l)
    then show ?thesis by (simp add: add_bytes_def word_less_nat_alt ac_simps)
  next
    case False
    then have u: "unat (fst b + of_nat len) = unat (fst b) + len - 2 ^ 32"
      using lo assms by (simp add: unat_word_ariths l mod_if)
    then have "fst b + of_nat len < fst b" using assms False by (simp add: word_less_nat_alt)
    then have "add_bytes b (of_nat len) = (fst b + of_nat len, snd b + 1)" by (simp add: add_bytes_def)
    moreover have "unat (snd b + 1) = (unat (snd b) + 1) mod 2 ^ 32" by (simp add: unat_word_ariths)
    moreover have "(2 :: nat) ^ 64 = 2 ^ 32 * 2 ^ 32" by simp
    ultimately show ?thesis
      using carry_count [of "2 ^ 32" "unat (fst b) + len" "unat (snd b)"] u False by (simp only: fst_conv snd_conv ac_simps linorder_not_less)
  qed
qed

definition absorbed :: "MD5Context \<Rightarrow> byte list \<Rightarrow> bool" where
  "absorbed ctx m \<longleftrightarrow>
     length (md5_in ctx) = 64 \<and> byte_count ctx = length m mod 2 ^ 64 \<and>
     absorb [0x67452301, 0xefcdab89, 0x98badcfe, 0x10325476] m = (md5_buf ctx, take (length m mod 64) (md5_in ctx))"

lemma count_mod_64: "absorbed ctx m \<Longrightarrow> unat (fst (md5_bytes ctx)) mod 64 = length m mod 64"
proof -
  assume "absorbed ctx m"
  then have "byte_count ctx mod 64 = length m mod 2 ^ 64 mod 64" by (simp add: absorbed_def)
  also have "\<dots> = length m mod 64" by (simp add: mod_mod_cancel)
  finally show ?thesis by (simp add: byte_count_def mod_add_eq flip: mod_add_right_eq) 
qed

lemma MD5Init_absorbed: "length (md5_in ctx) = 64 \<Longrightarrow> absorbed (MD5Init ctx) []"
  by (simp add: absorbed_def MD5Init_def byte_count_def absorb_short)

lemma MD5Update_absorb:
  assumes l: "length (md5_in ctx) = 64" and k: "unat (fst (md5_bytes ctx)) mod 64 = k"
  shows "length (md5_in (MD5Update ctx b)) = 64 \<and>
    md5_bytes (MD5Update ctx b) = add_bytes (md5_bytes ctx) (of_nat (length b)) \<and>
    absorb (md5_buf ctx) (take k (md5_in ctx) @ b) =
      (md5_buf (MD5Update ctx b), take ((k + length b) mod 64) (md5_in (MD5Update ctx b)))"
proof -
  have k64: "k < 64" using k by auto
  have t: "64 - unat (fst (md5_bytes ctx) AND 0x3f) = 64 - k" "64 - (64 - k) = k" using k k64 by (simp_all add: unat_and_63)
  let ?b = "add_bytes (md5_bytes ctx) (of_nat (length b))"
  show ?thesis
  proof (cases "length b < 64 - k")
    case True
    then have "MD5Update ctx b = ctx\<lparr>md5_bytes := ?b, md5_in := memcpy_at k b (md5_in ctx)\<rparr>"
      by (simp only: MD5Update_def Let_def t if_True) simp
    then show ?thesis
      using True l take_memcpy_at [of k b "md5_in ctx"] length_memcpy_at [of k b "md5_in ctx"] by (simp add: absorb_short)
  next
    case False
    let ?in = "take k (md5_in ctx) @ take (64 - k) b"
    let ?ctx = "ctx\<lparr>md5_bytes := ?b, md5_in := ?in, md5_buf := MD5Transform (md5_buf ctx) (le_words ?in)\<rparr>"
    have m: "memcpy_at k (take (64 - k) b) (md5_in ctx) = ?in"
      using False l k64 by (intro memcpy_at_all) simp
    have u: "MD5Update ctx b = update_blocks (drop (64 - k) b) ?ctx"
      using False by (simp add: MD5Update_def Let_def t m del: One_nat_def)
    have len: "length ?in = 64" using False l k64 by simp
    have "take k (md5_in ctx) @ b = ?in @ drop (64 - k) b" by simp
    then have a: "absorb (md5_buf ctx) (take k (md5_in ctx) @ b) = absorb (md5_buf ?ctx) (drop (64 - k) b)"
      using absorb_block [OF len, of "md5_buf ctx" "drop (64 - k) b"] by simp
    have e: "length (drop (64 - k) b) mod 64 = (k + length b) mod 64"
    proof -
      have "k + length b = length (drop (64 - k) b) + 64" using False k64 by simp
      then show ?thesis by (metis mod_add_self2)
    qed
    show ?thesis
      using update_blocks_absorb [of ?ctx "drop (64 - k) b"] len unfolding u a e by simp
  qed
qed

lemma MD5Update_absorbed:
  assumes a: "absorbed ctx m" and b: "length b < 2 ^ 32"
  shows "absorbed (MD5Update ctx b) (m @ b)"
proof -
  let ?init = "[0x67452301, 0xefcdab89, 0x98badcfe, 0x10325476]"
  note k = count_mod_64 [OF a]
  have l: "length (md5_in ctx) = 64" using a by (simp add: absorbed_def)
  note u = MD5Update_absorb [OF l k, of b]
  have "absorb ?init (m @ b) = absorb (md5_buf ctx) (take (length m mod 64) (md5_in ctx) @ b)"
    using a absorb_append [of ?init m b] by (simp add: absorbed_def)
  moreover have "(length m mod 64 + length b) mod 64 = length (m @ b) mod 64" by (simp add: mod_add_left_eq)
  moreover have "byte_count (MD5Update ctx b) = length (m @ b) mod 2 ^ 64"
  proof -
    have lt: "byte_count c < 2 ^ 64" for c
    proof -
      have "unat (fst (md5_bytes c)) < 2 ^ 32" "unat (snd (md5_bytes c)) < 2 ^ 32"
        using unsigned_less [of "fst (md5_bytes c)"] unsigned_less [of "snd (md5_bytes c)"] by simp_all
      then show ?thesis by (simp add: byte_count_def)
    qed
    have "byte_count (MD5Update ctx b) mod 2 ^ 64 = (byte_count ctx + length b) mod 2 ^ 64"
      using add_bytes_count [OF b, of "md5_bytes ctx"] u by (simp only: byte_count_def)
    also have "\<dots> = length (m @ b) mod 2 ^ 64" using a by (simp add: absorbed_def mod_add_left_eq)
    finally show ?thesis using lt by simp
  qed
  ultimately show ?thesis using u by (simp add: absorbed_def)
qed

lemma updates_absorbed:
  "absorbed ctx m \<Longrightarrow> list_all (\<lambda>b. length b < 2 ^ 32) bs \<Longrightarrow> absorbed (fold (\<lambda>b ctx. MD5Update ctx b) bs ctx) (m @ concat bs)"
proof (induction bs arbitrary: ctx m)
  case (Cons b bs)
  then show ?case using Cons.IH [of "MD5Update ctx b" "m @ b"] MD5Update_absorbed [of ctx m b] by simp
qed simp

subsection \<open>The blocks of the RFC\<close>

lemma four_bytes: "length xs = 4 * Suc n \<Longrightarrow> \<exists>a b c d zs. xs = a # b # c # d # zs \<and> length zs = 4 * n"
  by (auto simp: length_Suc_conv numeral_eq_Suc)

lemma le_words_append: "length xs = 4 * n \<Longrightarrow> le_words (xs @ ys) = le_words xs @ le_words ys"
proof (induction n arbitrary: xs)
  case (Suc n)
  then obtain a b c d zs where "xs = a # b # c # d # zs" "length zs = 4 * n" using four_bytes by blast
  then show ?case using Suc.IH by simp
qed simp

lemma length_le_words: "length xs = 4 * n \<Longrightarrow> length (le_words xs) = n"
proof (induction n arbitrary: xs)
  case (Suc n)
  then obtain a b c d zs where "xs = a # b # c # d # zs" "length zs = 4 * n" using four_bytes by blast
  then show ?case using Suc.IH by simp
qed simp

lemma rfc_blocks_first:
  "length xs = 64 \<Longrightarrow> rfc_blocks buf (le_words (xs @ ys) @ zs) (Suc n) = rfc_blocks (MD5Transform buf (le_words xs)) (le_words ys @ zs) n"
  using le_words_append [of xs 16 ys] length_le_words [of xs 16] by (simp add: MD5Transform_rfc)

lemma rfc_blocks_absorb:
  "rfc_blocks buf (le_words (xs @ ys) @ zs) (length xs div 64 + n) =
     (case absorb buf xs of (buf', r) \<Rightarrow> rfc_blocks buf' (le_words (r @ ys) @ zs) n)"
proof (induction buf xs rule: absorb.induct)
  case (1 buf xs)
  show ?case
  proof (cases "64 \<le> length xs")
    case True
    have "rfc_blocks buf (le_words (xs @ ys) @ zs) (length xs div 64 + n) =
        rfc_blocks buf (le_words (take 64 xs @ drop 64 xs @ ys) @ zs) (Suc (length (drop 64 xs) div 64 + n))"
      using True by (simp add: le_div_geq append_assoc [symmetric] del: append_assoc)
    also have "\<dots> = rfc_blocks (MD5Transform buf (le_words (take 64 xs))) (le_words (drop 64 xs @ ys) @ zs) (length (drop 64 xs) div 64 + n)"
      using True by (intro rfc_blocks_first) simp
    finally show ?thesis using 1 [OF True] True by (subst absorb.simps) simp
  next
    case False
    then show ?thesis by (simp add: absorb_short)
  qed
qed

subsection \<open>The length field\<close>

lemma push_bit_times: "push_bit 3 (w :: 32 word) = 8 * w"
  by (simp add: push_bit_eq_mult)

lemma word_of_unat: "of_nat (unat (w :: 32 word)) = w"
  by simp

lemma unat_less_32: "unat (w :: 32 word) < 2 ^ 32"
  using unsigned_less [of w] by simp

lemma length_low:
  assumes "(unat (lo :: 32 word) + 2 ^ 32 * h) = n mod 2 ^ 64"
  shows "push_bit 3 lo = of_nat (8 * n)"
proof -
  have "unat lo = n mod 2 ^ 32"
  proof -
    have "unat lo = (unat lo + 2 ^ 32 * h) mod 2 ^ 32" using unat_less_32 [of lo] by simp
    also have "\<dots> = n mod 2 ^ 32" unfolding assms by (simp add: mod_mod_cancel)
    finally show ?thesis .
  qed
  moreover have "(of_nat (n mod 2 ^ 32) :: 32 word) = of_nat n" by (simp add: word_of_nat_eq_iff take_bit_eq_mod)
  ultimately have "lo = of_nat n" by (metis word_of_unat)
  then show ?thesis by (simp add: push_bit_times)
qed

lemma length_high:
  assumes "(unat (lo :: 32 word) + 2 ^ 32 * unat (hi :: 32 word)) = n mod 2 ^ 64"
  shows "push_bit 3 hi OR drop_bit 29 lo = of_nat (8 * n div 2 ^ 32)"
proof -
  have "push_bit 3 hi OR drop_bit 29 lo = push_bit 3 hi + drop_bit 29 lo"
    by (rule disjunctive_add [symmetric]) (auto simp: bit_simps dest: bit_imp_le_length)
  also have "\<dots> = of_nat (8 * unat hi + unat lo div 2 ^ 29)"
  proof -
    have "unat (drop_bit 29 lo) = unat lo div 2 ^ 29" by (simp add: drop_bit_eq_div unat_div)
    then have "drop_bit 29 lo = of_nat (unat lo div 2 ^ 29)" by (metis word_of_unat)
    then show ?thesis by (simp add: push_bit_times)
  qed
  also have "8 * unat hi + unat lo div 2 ^ 29 = 8 * (unat lo + 2 ^ 32 * unat hi) div 2 ^ 32"
    by simp
  also have "(of_nat (8 * (unat lo + 2 ^ 32 * unat hi) div 2 ^ 32) :: 32 word) = of_nat (8 * n div 2 ^ 32)"
  proof -
    have "8 * n = 8 * (n mod 2 ^ 64 + 2 ^ 64 * (n div 2 ^ 64))" by (simp only: mod_mult_div_eq)
    then have "8 * n = 8 * (n mod 2 ^ 64) + 2 ^ 32 * (2 ^ 35 * (n div 2 ^ 64))" by (simp only: distrib_left) simp
    then have "8 * n div 2 ^ 32 = 8 * (n mod 2 ^ 64) div 2 ^ 32 + 2 ^ 35 * (n div 2 ^ 64)" by simp
    moreover have "(of_nat (2 ^ 35 * (n div 2 ^ 64)) :: 32 word) = 0"
    proof -
      have "2 ^ 35 * (n div 2 ^ 64) = 2 ^ 32 * (8 * (n div 2 ^ 64))" by simp
      then show ?thesis by (simp only: word_of_nat_eq_0_iff) simp
    qed
    ultimately show ?thesis using assms by (simp only: of_nat_add add_0_right)
  qed
  finally show ?thesis .
qed

lemma pad_zeros:
  "k < 56 \<Longrightarrow> (119 - k) mod 64 = 55 - (k :: nat)" "\<not> k < 56 \<Longrightarrow> k < 64 \<Longrightarrow> (119 - k) mod 64 = 119 - (k :: nat)"
proof -
  assume "k < 56"
  then have "119 - k = 55 - k + 64" by simp
  then have "(119 - k) mod 64 = (55 - k) mod 64" by (metis mod_add_self2)
  then show "(119 - k) mod 64 = 55 - k" by simp
qed simp

lemma length_rfc_pad: "length (rfc_pad m) = 64 * (length m div 64 + (if length m mod 64 < 56 then 0 else 1)) + 56"
proof -
  obtain q k where m: "length m = 64 * q + k" and k: "k < 64"
    by (metis mult_div_mod_eq mod_less_divisor zero_less_numeral)
  then show ?thesis using pad_zeros [of k] by (cases "k < 56") (simp_all add: rfc_pad_def)
qed

lemma memcpy_zero:
  assumes "length dst = 64" "k + 1 + n \<le> 64"
  shows "memcpy_at (k + 1) (replicate n 0) (memcpy_at k [0x80] dst) = take k dst @ 0x80 # replicate n 0 @ drop (k + 1 + n) dst"
  using assms by (simp add: overlay_def add.commute)

lemma MD5Final_rfc:
  assumes a: "absorbed ctx m"
  shows "MD5Final ctx = rfc_md5 m"
proof -
  let ?init = "[0x67452301, 0xefcdab89, 0x98badcfe, 0x10325476] :: 32 word list"
  let ?k = "length m mod 64" and ?r = "take (length m mod 64) (md5_in ctx)"
  define tail :: "byte list" where "tail = 0x80 # replicate ((119 - ?k) mod 64) 0"
  define n where "n = (if ?k < 56 then 1 else 2 :: nat)"
  have l: "length (md5_in ctx) = 64" and bc: "byte_count ctx = length m mod 2 ^ 64"
    and ab: "absorb ?init m = (md5_buf ctx, ?r)" using a by (simp_all add: absorbed_def)
  have lr: "length ?r = ?k" using l by simp
  have words: "length (le_words (rfc_pad m)) = 16 * (length m div 64 + (if ?k < 56 then 0 else 1)) + 14"
    by (rule length_le_words) (simp add: length_rfc_pad)
  then have "length (le_words (rfc_pad m) @ rfc_length m) div 16 = length m div 64 + n"
    by (simp add: rfc_length_def n_def)
  then have rfc: "rfc_md5 m = concat (map word_bytes (rfc_blocks (md5_buf ctx) (le_words (?r @ tail) @ rfc_length m) n))"
    using rfc_blocks_absorb [of ?init m tail "rfc_length m" n] ab by (simp add: rfc_md5_def Let_def rfc_pad_def tail_def)
  have len: "rfc_length m = [push_bit 3 (fst (md5_bytes ctx)), push_bit 3 (snd (md5_bytes ctx)) OR drop_bit 29 (fst (md5_bytes ctx))]"
    using length_low [of "fst (md5_bytes ctx)" "unat (snd (md5_bytes ctx))" "length m"]
      length_high [of "fst (md5_bytes ctx)" "snd (md5_bytes ctx)" "length m"] bc
    by (simp add: rfc_length_def byte_count_def)
  have k: "unat (fst (md5_bytes ctx) AND 0x3f) = ?k" using count_mod_64 [OF a] by (simp only: unat_and_63)
  have kl: "?k < 64" by simp
  show ?thesis
  proof (cases "?k < 56")
    case True
    have t: "tail = 0x80 # replicate (55 - ?k) 0" using pad_zeros(1) [OF True] by (simp add: tail_def)
    have y: "length (?r @ tail) = 56" using True lr t by simp
    let ?in = "memcpy_at (?k + 1) (replicate (56 - 1 - ?k) 0) (memcpy_at ?k [0x80] (md5_in ctx))"
    have "?in = (?r @ tail) @ drop 56 (md5_in ctx)"
      using memcpy_zero [OF l, of ?k "55 - ?k"] True by (simp add: t)
    then have "take 14 (le_words ?in) = le_words (?r @ tail)"
      using le_words_append [of "?r @ tail" 14 "drop 56 (md5_in ctx)"] length_le_words [of "?r @ tail" 14] y by simp
    moreover have "length (le_words (?r @ tail)) = 14" using length_le_words [of "?r @ tail" 14] y by simp
    ultimately show ?thesis
      using True k unfolding rfc len MD5Final_def Let_def n_def by (simp add: MD5Transform_rfc)
  next
    case False
    have t: "?r @ tail = (?r @ 0x80 # replicate (63 - ?k) 0) @ replicate 56 0"
      using pad_zeros(2) [OF False kl] False kl by (simp add: tail_def flip: replicate_add)
    let ?b = "?r @ 0x80 # replicate (63 - ?k) 0"
    have b: "length ?b = 64" using False lr kl by simp
    let ?in = "memcpy_at (?k + 1) (replicate (63 - ?k) 0) (memcpy_at ?k [0x80] (md5_in ctx))"
    have i1: "?in = ?b" using memcpy_zero [OF l, of ?k "63 - ?k"] kl l by simp
    have "memcpy_at 0 (replicate 56 0) ?in = replicate 56 0 @ drop 56 ?b" using i1 by (simp add: overlay_def)
    then have i2: "take 14 (le_words (memcpy_at 0 (replicate 56 0) ?in)) = le_words (replicate 56 0)"
      using le_words_append [of "replicate 56 0" 14 "drop 56 ?b"] length_le_words [of "replicate 56 0" 14] by simp
    have "n = Suc 1" using False by (simp add: n_def)
    then have "rfc_md5 m = concat (map word_bytes
        (rfc_blocks (MD5Transform (md5_buf ctx) (le_words ?b)) (le_words (replicate 56 0) @ rfc_length m) 1))"
      using rfc rfc_blocks_first [OF b, of "md5_buf ctx" "replicate 56 0" "rfc_length m" 1] by (simp only: t)
    moreover have "length (le_words (replicate 56 0)) = 14" using length_le_words [of "replicate 56 0" 14] by simp
    ultimately show ?thesis
      using False k i1 i2 unfolding len MD5Final_def Let_def by (simp add: MD5Transform_rfc)
  qed
qed

text \<open>C12. The digest is that of RFC 1321. However a message is cut into pieces (each shorter than the range of the
  length argument), initialising a context, feeding it the pieces with \<open>MD5Update\<close> and closing it with
  \<open>MD5Final\<close> gives the MD5 digest of the whole message as the RFC defines it, whatever the context held before.\<close>

theorem md5_digest_is_rfc1321:
  assumes "list_all (\<lambda>b. length b < 2 ^ 32) bs" and "length (md5_in ctx) = 64"
  shows "MD5Final (fold (\<lambda>b ctx. MD5Update ctx b) bs (MD5Init ctx)) = rfc_md5 (concat bs)"
  using MD5Final_rfc [OF updates_absorbed [OF MD5Init_absorbed [OF assms(2)] assms(1)]] by simp

theorem md5_digest_is_rfc1321_witness:
  "MD5Final (fold (\<lambda>b ctx. MD5Update ctx b) [[0x61], [], [0x62, 0x63]]
     (MD5Init \<lparr>md5_buf = [], md5_bytes = (1, 2), md5_in = replicate 64 7\<rparr>)) = rfc_md5 [0x61, 0x62, 0x63]"
  using md5_digest_is_rfc1321 [of "[[0x61], [], [0x62, 0x63]]" "\<lparr>md5_buf = [], md5_bytes = (1, 2), md5_in = replicate 64 7\<rparr>"]
  by simp

end
