(* ===== verification/String_Buffer.thy ===== *)
theory String_Buffer
  imports Iscsi_Prelude
begin

text \<open>
  The growing character buffer of \<open>usr/local_strings.c\<close>, in which discovery collects the text of a
  SendTargets response. The buffer is a list of the allocated characters; a write outside it is a failure of
  the model. Buffers are never null pointers here.
\<close>

subsection \<open>Operations\<close>

record str_buffer =
  allocated_length :: nat
  data_length :: nat
  buffer :: string

text \<open>The flags of the first two operations tell whether memory can be had; \<open>str_enlarge_data\<close> also returns
  whether its result is \<open>ENOMEM\<close>. A write outside the allocated characters is the result \<open>None\<close>.\<close>

definition str_init_buffer :: "bool \<Rightarrow> nat \<Rightarrow> str_buffer" where
  "str_init_buffer can_alloc initial_allocation =
     (if initial_allocation \<noteq> 0 \<and> can_alloc
      then \<lparr>allocated_length = initial_allocation, data_length = 0, buffer = replicate initial_allocation NUL\<rparr>
      else \<lparr>allocated_length = 0, data_length = 0, buffer = []\<rparr>)"

definition str_free_buffer :: "str_buffer \<Rightarrow> str_buffer" where
  "str_free_buffer s = s\<lparr>buffer := [], allocated_length := 0, data_length := 0\<rparr>"

definition str_enlarge_data :: "bool \<Rightarrow> nat \<Rightarrow> str_buffer \<Rightarrow> str_buffer \<times> bool" where
  "str_enlarge_data can_alloc len s =
     (let s = s\<lparr>data_length := data_length s + len\<rparr>
      in if data_length s > allocated_length s
         then if \<not> can_alloc then (s, True)
              else (s\<lparr>buffer := buffer s @ replicate (data_length s - allocated_length s) NUL,
                      allocated_length := data_length s\<rparr>, False)
         else (s, False))"

definition str_write :: "nat \<Rightarrow> string \<Rightarrow> str_buffer \<Rightarrow> str_buffer option" where
  "str_write off xs s = (if off + length xs \<le> length (buffer s) then Some (s\<lparr>buffer := overlay (buffer s) off xs\<rparr>) else None)"

definition str_remove_initial :: "nat \<Rightarrow> str_buffer \<Rightarrow> str_buffer option" where
  "str_remove_initial len s =
     (if len \<noteq> 0
      then let amount = data_length s - len
           in case str_write 0 (take amount (drop len (buffer s))) s of
                None \<Rightarrow> None
              | Some s \<Rightarrow> str_write amount [NUL] (s\<lparr>data_length := amount\<rparr>)
      else Some s)"

definition str_truncate_buffer :: "nat \<Rightarrow> str_buffer \<Rightarrow> str_buffer option" where
  "str_truncate_buffer len s =
     (if data_length s = 0 then Some s
      else if len \<le> data_length s then str_write len [NUL] (s\<lparr>data_length := len\<rparr>)
      else if len \<le> allocated_length s
      then map_option (data_length_update (\<lambda>_. len)) (str_write (data_length s) (replicate (len - data_length s) NUL) s)
      else Some s)"

text \<open>The valid characters, from \<open>str_buffer_data\<close> on for \<open>str_data_length\<close>.\<close>

definition str_data :: "str_buffer \<Rightarrow> string" where
  "str_data s = take (data_length s) (buffer s)"

definition str_unused_length :: "str_buffer \<Rightarrow> nat" where
  "str_unused_length s = allocated_length s - data_length s"

subsection \<open>Well-formed buffers\<close>

definition str_ok :: "str_buffer \<Rightarrow> bool" where
  "str_ok s \<longleftrightarrow> length (buffer s) = allocated_length s \<and> data_length s \<le> allocated_length s"

lemma str_init_ok: "str_ok (str_init_buffer a n)" "str_data (str_init_buffer a n) = []"
  by (simp_all add: str_init_buffer_def str_ok_def str_data_def)

lemma str_write_ok:
  assumes "str_ok s" "off + length xs \<le> allocated_length s"
  shows "str_write off xs s = Some (s\<lparr>buffer := overlay (buffer s) off xs\<rparr>)"
    "str_ok (s\<lparr>buffer := overlay (buffer s) off xs\<rparr>)"
  using assms by (simp_all add: str_write_def str_ok_def length_overlay)

text \<open>Enlarging the buffer and storing what was received.\<close>

lemma str_enlarge_write:
  assumes "str_ok s"
  shows "\<exists>s' s''. str_enlarge_data True (length xs) s = (s', False) \<and> str_write (data_length s) xs s' = Some s'' \<and>
     str_ok s'' \<and> str_data s'' = str_data s @ xs"
proof -
  let ?s = "fst (str_enlarge_data True (length xs) s)"
  have e: "str_enlarge_data True (length xs) s = (?s, False)" "str_ok ?s" "data_length ?s = data_length s + length xs"
    "data_length s + length xs \<le> allocated_length ?s" "take (data_length s) (buffer ?s) = str_data s"
    using assms by (auto simp: str_enlarge_data_def Let_def str_ok_def str_data_def)
  note w = str_write_ok [OF e(2,4)]
  moreover have "str_data (?s\<lparr>buffer := overlay (buffer ?s) (data_length s) xs\<rparr>) = str_data s @ xs"
    using e assms by (simp add: str_data_def overlay_def str_ok_def)
  ultimately show ?thesis using e(1) by blast
qed

lemma str_remove_ok:
  assumes "str_ok s" "n \<le> data_length s"
  shows "\<exists>s'. str_remove_initial n s = Some s' \<and> str_ok s' \<and> str_data s' = drop n (str_data s)"
  using assms
  by (auto simp: str_remove_initial_def Let_def str_ok_def str_data_def str_write_def length_overlay overlay_def
      min_def take_drop)

lemma str_truncate_0:
  assumes "str_ok s"
  shows "\<exists>s'. str_truncate_buffer 0 s = Some s' \<and> str_ok s' \<and> str_data s' = []"
  using assms by (auto simp: str_truncate_buffer_def str_ok_def str_data_def str_write_def length_overlay)

text \<open>The operations on a string buffer, one after the other.\<close>

datatype str_op = Enlarge bool nat | Remove nat | Truncate nat | Free

fun do_str_op :: "str_op \<Rightarrow> str_buffer \<Rightarrow> str_buffer option" where
  "do_str_op (Enlarge a n) s = Some (fst (str_enlarge_data a n s))"
| "do_str_op (Remove n) s = str_remove_initial n s"
| "do_str_op (Truncate n) s = str_truncate_buffer n s"
| "do_str_op Free s = Some (str_free_buffer s)"

text \<open>Memory does not run out, nothing is removed from a buffer without memory, and a truncation is not to the
  full allocated length.\<close>

fun str_op_fits :: "str_op \<Rightarrow> str_buffer \<Rightarrow> bool" where
  "str_op_fits (Enlarge a n) s \<longleftrightarrow> a \<or> data_length s + n \<le> allocated_length s"
| "str_op_fits (Truncate n) s \<longleftrightarrow> n \<noteq> allocated_length s \<or> data_length s < n \<or> data_length s = 0"
| "str_op_fits (Remove n) s \<longleftrightarrow> n = 0 \<or> 0 < allocated_length s"
| "str_op_fits Free s \<longleftrightarrow> True"

lemma str_enlarge_ok_iff:
  assumes "str_ok s"
  shows "str_ok (fst (str_enlarge_data a n s)) \<longleftrightarrow> a \<or> data_length s + n \<le> allocated_length s"
  using assms by (auto simp: str_enlarge_data_def Let_def str_ok_def)

lemma str_truncate_ok_iff:
  assumes "str_ok s"
  shows "(\<exists>s'. str_truncate_buffer n s = Some s' \<and> str_ok s') \<longleftrightarrow>
    n \<noteq> allocated_length s \<or> data_length s < n \<or> data_length s = 0"
  using assms by (auto simp: str_truncate_buffer_def str_ok_def str_write_def length_overlay)

lemma str_remove_ok_iff:
  assumes "str_ok s"
  shows "(\<exists>s'. str_remove_initial n s = Some s' \<and> str_ok s') \<longleftrightarrow> n = 0 \<or> 0 < allocated_length s"
  using assms by (auto simp: str_remove_initial_def Let_def str_ok_def str_write_def length_overlay)

text \<open>C29. The string buffer stays well formed exactly when an operation fits. From a buffer whose recorded
  lengths match its memory, an operation returns without a write outside the memory and leaves such a buffer,
  except in three cases, and in these it does not: enlarging it when more memory is needed and cannot be had
  (the length of the data is raised all the same), truncating a buffer that is full to its own length, and
  removing bytes from a buffer that has no memory.\<close>

theorem str_buffer_well_formed:
  assumes "str_ok s"
  shows "(\<exists>s'. do_str_op oper s = Some s' \<and> str_ok s') \<longleftrightarrow> str_op_fits oper s"
proof (cases oper)
  case (Enlarge a n)
  with str_enlarge_ok_iff [OF assms] show ?thesis by simp
qed (use assms str_remove_ok_iff str_truncate_ok_iff in \<open>auto simp: str_free_buffer_def str_ok_def\<close>)

theorem str_buffer_well_formed_witness:
  "\<exists>s'. do_str_op (Remove 2) \<lparr>allocated_length = 4, data_length = 3, buffer = ''abcd''\<rparr> = Some s' \<and> str_ok s'"
  using str_buffer_well_formed [of "\<lparr>allocated_length = 4, data_length = 3, buffer = ''abcd''\<rparr>" "Remove 2"]
  by (simp add: str_ok_def)

end
