(* ===== verification/Discovery.thy ===== *)
theory Discovery
  imports String_Buffer Login_Params
begin

text \<open>
  SendTargets discovery (\<open>usr/discovery.c\<close>): \<open>add_portal\<close>, \<open>add_target_record\<close>, which splits the text of one
  target into portals, \<open>process_sendtargets_response\<close>, which finds the targets in the text received so far, and
  \<open>process_recvd_pdu\<close>. A pointer into the text is the list of the characters from it to the end that bounds it. The
  characters the code overwrites with NUL lie before every later pointer and are not read again. Of a node
  record only the members are kept that discovery sets itself; resolving an address and allocating a record are
  parameters. Log output is left out.
\<close>

subsection \<open>Records\<close>

definition TARGET_NAME_MAXLEN :: nat where "TARGET_NAME_MAXLEN = 255"
definition NI_MAXHOST :: nat where "NI_MAXHOST = 1025"
definition PORTAL_GROUP_TAG_UNKNOWN :: int where "PORTAL_GROUP_TAG_UNKNOWN = - 1"
definition ISCSI_LISTEN_PORT :: int where "ISCSI_LISTEN_PORT = 3260"

record discovery_rec =
  drec_type :: nat
  drec_address :: string
  drec_port :: int

text \<open>The members of \<open>node_rec\<close> that discovery itself sets.\<close>

record node_rec =
  rec_name :: string
  rec_tpgt :: int
  rec_port :: int
  rec_address :: string
  rec_disc_type :: nat
  rec_disc_port :: int
  rec_disc_address :: string

text \<open>The surroundings: whether \<open>resolve_address\<close> resolves a host and port, and whether \<open>calloc\<close> succeeds when
  so many records are on the list.\<close>

record disc_env =
  resolves :: "string \<Rightarrow> string option \<Rightarrow> bool"
  calloc_ok :: "nat \<Rightarrow> bool"

subsection \<open>One portal\<close>

definition strlcpy_to :: "string \<Rightarrow> nat \<Rightarrow> string" where
  "strlcpy_to src sz = (case fst (strlcpy src sz) of None \<Rightarrow> [] | Some d \<Rightarrow> d)"

definition number_or :: "int \<Rightarrow> string option \<Rightarrow> int" where
  "number_or dflt v = (case v of None \<Rightarrow> dflt | Some s \<Rightarrow> if s = [] then dflt else atoi s)"

definition portal_rec :: "discovery_rec \<Rightarrow> string \<Rightarrow> string \<Rightarrow> string option \<Rightarrow> string option \<Rightarrow> node_rec" where
  "portal_rec drec targetname address port tag =
     \<lparr>rec_name = strlcpy_to targetname TARGET_NAME_MAXLEN,
      rec_tpgt = number_or PORTAL_GROUP_TAG_UNKNOWN tag,
      rec_port = number_or ISCSI_LISTEN_PORT port,
      rec_address = strlcpy_to address NI_MAXHOST,
      rec_disc_type = drec_type drec, rec_disc_port = drec_port drec, rec_disc_address = drec_address drec\<rparr>"

text \<open>The result is the list of records and the return value.\<close>

definition add_portal :: "disc_env \<Rightarrow> discovery_rec \<Rightarrow> string \<Rightarrow> string \<Rightarrow> string option \<Rightarrow> string option \<Rightarrow>
    node_rec list \<Rightarrow> node_rec list \<times> bool" where
  "add_portal env drec targetname address port tag recs =
     (if \<not> resolves env address port then (recs, False)
      else if \<not> calloc_ok env (length recs) then (recs, False)
      else (recs @ [portal_rec drec targetname address port tag], True))"

text \<open>Address, port and tag of the line \<open>TargetAddress=...\<close>.\<close>

definition split_portal :: "string \<Rightarrow> string \<times> string option \<times> string option" where
  "split_portal line =
     (let (line, tag) = split_last CHR '','' line;
          (line, port) = split_last CHR '':'' line;
          address = drop 14 line
      in case address of
           [] \<Rightarrow> (address, port, tag)
         | c # _ \<Rightarrow>
             if c = CHR ''['' then (drop 15 (fst (split_last CHR '']'' line)), port, tag)
             else (address, port, tag))"

text \<open>The loop over the lines behind the name; \<open>pos\<close> is what lies between \<open>text\<close> and \<open>end\<close>.\<close>

function add_addresses :: "disc_env \<Rightarrow> discovery_rec \<Rightarrow> string \<Rightarrow> string \<Rightarrow> node_rec list \<Rightarrow> node_rec list \<times> bool" where
  "add_addresses env drec name pos recs =
     (if pos = [] then (recs, True)
      else
        let line = cstr pos;
            rest = drop (length line + 1) pos
        in if take 14 line = ''TargetAddress=''
           then case split_portal line of (address, port, tag) \<Rightarrow>
                (case add_portal env drec name address port tag recs of (recs, ok) \<Rightarrow>
                   if \<not> ok then (recs, False) else add_addresses env drec name rest recs)
           else add_addresses env drec name rest recs)"
  by auto
termination by (relation "measure (\<lambda>(env, drec, name, pos, recs). length pos)") auto

declare add_addresses.simps [simp del]

text \<open>\<open>seg\<close> are the characters from \<open>name\<close> to \<open>end\<close>.\<close>

definition add_target_record :: "disc_env \<Rightarrow> discovery_rec \<Rightarrow> string \<Rightarrow> node_rec list \<Rightarrow> node_rec list \<times> bool" where
  "add_target_record env drec seg recs =
     (let name = cstr seg;
          rest = dropWhile (\<lambda>c. c = NUL) (drop (length name) seg)
      in if length name > TARGET_NAME_MAXLEN then (recs, False)
         else if rest = [] then
           if drec_address drec = [] then (recs, False)
           else add_portal env drec name (drec_address drec) (Some (sdec (drec_port drec))) None recs
         else add_addresses env drec name rest recs)"

subsection \<open>The text of the responses\<close>

text \<open>The search for the last NUL, from the index \<open>n\<close> down to the start.\<close>

fun scan_back :: "string \<Rightarrow> nat \<Rightarrow> nat" where
  "scan_back d 0 = 0"
| "scan_back d (Suc n) = (if d ! Suc n \<noteq> NUL then scan_back d n else Suc n)"

lemma next_line_shorter:
  assumes "dropWhile (\<lambda>c. c = NUL) pos \<noteq> []"
  shows "length (dropWhile (\<lambda>c. c \<noteq> NUL) (dropWhile (\<lambda>c. c = NUL) pos)) < length pos"
proof -
  obtain c cs where c: "dropWhile (\<lambda>c. c = NUL) pos = c # cs" using assms by (cases "dropWhile (\<lambda>c. c = NUL) pos") auto
  then have "c \<noteq> NUL" using hd_dropWhile [OF assms] by simp
  then have "length (dropWhile (\<lambda>c. c \<noteq> NUL) (c # cs)) \<le> length cs" by (simp add: length_dropWhile_le)
  also have "length cs < length pos" using c length_dropWhile_le [of "\<lambda>c. c = NUL" pos] by simp
  finally show ?thesis by (simp add: c)
qed

text \<open>The loop over the records. \<open>pos\<close> is what lies between \<open>text\<close> and \<open>nul\<close>, \<open>record\<close> what lies between
  \<open>record\<close> and \<open>nul\<close>. The result \<open>Inl\<close> is a record that could not be added.\<close>

function find_records :: "disc_env \<Rightarrow> discovery_rec \<Rightarrow> string \<Rightarrow> string option \<Rightarrow> node_rec list \<Rightarrow>
    node_rec list + (node_rec list \<times> string option)" where
  "find_records env drec pos record recs =
     (let pos = dropWhile (\<lambda>c. c = NUL) pos
      in if pos = [] then Inr (recs, record)
         else if take 11 pos = ''TargetName='' then
           (case record of
              None \<Rightarrow> find_records env drec (dropWhile (\<lambda>c. c \<noteq> NUL) pos) (Some pos) recs
            | Some r \<Rightarrow>
                (case add_target_record env drec (drop 11 (take (length r - length pos) r)) recs of (recs, ok) \<Rightarrow>
                   if \<not> ok then Inl recs
                   else find_records env drec (dropWhile (\<lambda>c. c \<noteq> NUL) pos) (Some pos) recs))
         else find_records env drec (dropWhile (\<lambda>c. c \<noteq> NUL) pos) record recs)"
  by auto
termination
  by (relation "measure (\<lambda>(env, drec, pos, record, recs). length pos)")
    (auto intro!: next_line_shorter simp del: dropWhile_eq_Nil_conv)

declare find_records.simps [simp del]

definition process_sendtargets_response ::
  "disc_env \<Rightarrow> discovery_rec \<Rightarrow> bool \<Rightarrow> str_buffer \<Rightarrow> node_rec list \<Rightarrow> (str_buffer \<times> node_rec list) option" where
  "process_sendtargets_response env drec final sendtargets recs =
     (let start = str_data sendtargets
      in if start = [] then Some (sendtargets, recs)
         else
           let nul = scan_back start (length start - 1)
           in if nul = 0 then Some (sendtargets, recs)
              else
                case find_records env drec (take nul start) None recs of
                  Inl recs \<Rightarrow> map_option (\<lambda>b. (b, recs)) (str_truncate_buffer 0 sendtargets)
                | Inr (recs, None) \<Rightarrow> Some (sendtargets, recs)
                | Inr (recs, Some record) \<Rightarrow>
                    if final
                    then let (recs, ok) = add_target_record env drec (drop 11 record) recs
                         in map_option (\<lambda>b. (b, recs)) (str_truncate_buffer 0 sendtargets)
                    else map_option (\<lambda>b. (b, recs)) (str_remove_initial (nul - length record) sendtargets))"

subsection \<open>A received PDU\<close>

definition ISCSI_OP_TEXT_RSP :: byte where "ISCSI_OP_TEXT_RSP = 0x24"
definition ISCSI_FLAG_CMD_FINAL :: byte where "ISCSI_FLAG_CMD_FINAL = 0x80"
definition ISCSI_RESERVED_TAG :: "32 word" where "ISCSI_RESERVED_TAG = 0xffffffff"

record text_rsp =
  tr_opcode :: byte
  tr_flags :: byte
  tr_dlength :: "byte list"
  tr_ttt :: "32 word"

datatype recvd_result = RECVD_OK | DISCOVERY_NEED_RECONNECT

text \<open>The state of the exchange: the buffer, the records, and the flags \<open>active\<close> and \<open>valid_text\<close>.\<close>

record disc_state =
  sendtargets :: str_buffer
  found :: "node_rec list"
  active :: bool
  valid_text :: bool

text \<open>\<open>can_alloc\<close>: whether the buffer can be enlarged; \<open>sent\<close>: whether \<open>iterate_targets\<close> can send its request;
  \<open>data\<close>: the received data segment.\<close>

definition process_recvd_pdu :: "disc_env \<Rightarrow> discovery_rec \<Rightarrow> bool \<Rightarrow> bool \<Rightarrow> text_rsp \<Rightarrow> string \<Rightarrow> disc_state \<Rightarrow>
    (disc_state \<times> recvd_result) option" where
  "process_recvd_pdu env drec can_alloc sent pdu data st =
     (if tr_opcode pdu \<noteq> ISCSI_OP_TEXT_RSP then Some (st, DISCOVERY_NEED_RECONNECT)
      else
        let dlength = ntoh24 (tr_dlength pdu);
            final = (tr_flags pdu AND ISCSI_FLAG_CMD_FINAL \<noteq> 0 \<or> tr_ttt pdu = ISCSI_RESERVED_TAG);
            curr_data_length = data_length (sendtargets st)
        in case str_enlarge_data can_alloc dlength (sendtargets st) of
             (b, True) \<Rightarrow> Some (st\<lparr>sendtargets := b\<rparr>, RECVD_OK)
           | (b, False) \<Rightarrow>
               Option.bind (str_write curr_data_length (take dlength data) b) (\<lambda>b.
               Option.bind (process_sendtargets_response env drec final b (found st)) (\<lambda>(b, recs).
                 let st = st\<lparr>sendtargets := b, found := recs, valid_text := True\<rparr>
                 in if final then Some (st\<lparr>active := False\<rparr>, RECVD_OK)
                    else if \<not> sent then Some (st, DISCOVERY_NEED_RECONNECT)
                    else Some (st, RECVD_OK))))"

end
