(* ===== verification/Discovery_Text.thy ===== *)
theory Discovery_Text
  imports Discovery "HOL-Library.Sublist"
begin

text \<open>
  How the SendTargets text of a list of targets is read. \<open>targets_text\<close> is the text of a list of targets; the
  lemmas follow the code from one line over the lines of a target to a part of the text that may end anywhere.
\<close>

subsection \<open>The text of a list of targets\<close>

text \<open>A target with its name and the values of its \<open>TargetAddress\<close> keys.\<close>

type_synonym target_text = "string \<times> string list"

definition address_line :: "string \<Rightarrow> string" where
  "address_line a = ''TargetAddress='' @ a"

fun target_lines :: "target_text \<Rightarrow> string list" where
  "target_lines (n, ads) = (''TargetName='' @ n) # map address_line ads"

definition unlines_nul :: "string list \<Rightarrow> string" where
  "unlines_nul ls = concat (map (\<lambda>l. l @ [NUL]) ls)"

definition targets_text :: "target_text list \<Rightarrow> string" where
  "targets_text ts = unlines_nul (concat (map target_lines ts))"

text \<open>The records a target stands for.\<close>

definition address_portal :: "discovery_rec \<Rightarrow> string \<Rightarrow> string \<Rightarrow> node_rec" where
  "address_portal drec n a = (case split_portal (address_line a) of (address, port, tag) \<Rightarrow> portal_rec drec n address port tag)"

fun target_portals :: "discovery_rec \<Rightarrow> target_text \<Rightarrow> node_rec list" where
  "target_portals drec (n, ads) =
     (if ads = [] then [portal_rec drec n (drec_address drec) (Some (sdec (drec_port drec))) None]
      else map (address_portal drec n) ads)"

definition address_ok :: "disc_env \<Rightarrow> string \<Rightarrow> bool" where
  "address_ok env a \<longleftrightarrow> is_cstr a \<and> (case split_portal (address_line a) of (address, port, tag) \<Rightarrow> resolves env address port)"

fun target_ok :: "disc_env \<Rightarrow> discovery_rec \<Rightarrow> target_text \<Rightarrow> bool" where
  "target_ok env drec (n, ads) \<longleftrightarrow>
     is_cstr n \<and> length n \<le> TARGET_NAME_MAXLEN \<and> list_all (address_ok env) ads \<and> (\<forall>k. calloc_ok env k) \<and>
     drec_address drec \<noteq> [] \<and> resolves env (drec_address drec) (Some (sdec (drec_port drec)))"

lemma unlines_nul_simps [simp]:
  "unlines_nul [] = []" "unlines_nul (l # ls) = l @ NUL # unlines_nul ls" "unlines_nul (xs @ ys) = unlines_nul xs @ unlines_nul ys"
  by (simp_all add: unlines_nul_def)

subsection \<open>Adding one target\<close>

lemma cstr_line: "is_cstr l \<Longrightarrow> z = [] \<or> hd z = NUL \<Longrightarrow> cstr (l @ z) = l"
  by (cases z) auto

lemma is_cstr_address_line [simp]: "is_cstr (address_line a) = is_cstr a"
  by (simp add: address_line_def)

lemma take_address_line [simp]: "take 14 (address_line a) = ''TargetAddress=''"
  by (simp add: address_line_def)

definition addresses :: "string list \<Rightarrow> string" where
  "addresses ads = concat (map (\<lambda>a. NUL # address_line a) ads)"

lemma addresses_simps [simp]:
  "addresses [] = []" "addresses (a # ads) = NUL # address_line a @ addresses ads" "addresses (ads @ bs) = addresses ads @ addresses bs"
  by (simp_all add: addresses_def)

lemma addresses_hd: "addresses ads @ z = [] \<or> hd (addresses ads @ z) = NUL" if "z = [] \<or> hd z = NUL"
  using that by (cases ads) auto

lemma add_portal_ok:
  assumes "resolves env address port" "\<forall>k. calloc_ok env k"
  shows "add_portal env drec n address port tag recs = (recs @ [portal_rec drec n address port tag], True)"
  using assms by (simp add: add_portal_def)

lemma address_line_ne [simp]: "address_line a \<noteq> []"
  by (simp add: address_line_def)

lemma add_addresses_lines:
  assumes "list_all (address_ok env) (a # ads)" "\<forall>k. calloc_ok env k" "z = [] \<or> z = [NUL]"
  shows "add_addresses env drec n (address_line a @ addresses ads @ z) recs = (recs @ map (address_portal drec n) (a # ads), True)"
  using assms(1)
proof (induction ads arbitrary: a recs)
  case Nil
  obtain address port tag where p: "split_portal (address_line a) = (address, port, tag)" by (cases "split_portal (address_line a)")
  have "cstr (address_line a @ z) = address_line a" using Nil assms(3) by (intro cstr_line) (auto simp: address_ok_def)
  moreover have "drop (length (address_line a) + 1) (address_line a @ z) = []" using assms(3) by auto
  ultimately show ?case
    using Nil assms(2) p by (subst add_addresses.simps) (auto simp: Let_def address_ok_def add_portal_ok address_portal_def add_addresses.simps)
next
  case (Cons b ads)
  obtain address port tag where p: "split_portal (address_line a) = (address, port, tag)" by (cases "split_portal (address_line a)")
  have "cstr (address_line a @ addresses (b # ads) @ z) = address_line a"
    using Cons.prems by (intro cstr_line) (auto simp: address_ok_def)
  moreover have "drop (length (address_line a) + 1) (address_line a @ addresses (b # ads) @ z) = address_line b @ addresses ads @ z"
    by simp
  moreover have "add_addresses env drec n (address_line b @ addresses ads @ z) (recs @ [address_portal drec n a]) =
      (recs @ [address_portal drec n a] @ map (address_portal drec n) (b # ads), True)"
    using Cons.IH [of b] Cons.prems by simp
  ultimately show ?case
    using Cons.prems assms(2) p by (subst add_addresses.simps) (auto simp: Let_def address_ok_def add_portal_ok address_portal_def)
qed

lemma add_target_ok:
  assumes ok: "target_ok env drec (n, ads)" and z: "z = [] \<or> z = [NUL]"
  shows "add_target_record env drec (n @ addresses ads @ z) recs = (recs @ target_portals drec (n, ads), True)"
proof -
  have h: "addresses ads @ z = [] \<or> hd (addresses ads @ z) = NUL" by (rule addresses_hd) (use z in auto)
  have n: "cstr (n @ addresses ads @ z) = n" using ok by (intro cstr_line h) simp
  show ?thesis
  proof (cases ads)
    case Nil
    with ok z n show ?thesis by (auto simp: add_target_record_def Let_def add_portal_ok)
  next
    case (Cons a ads')
    have "hd (address_line a @ y) \<noteq> NUL" for y by (simp add: address_line_def)
    then have d: "dropWhile (\<lambda>c. c = NUL) (address_line a @ y) = address_line a @ y" for y
      by (simp add: address_line_def)
    show ?thesis
      using ok n d add_addresses_lines [of env a ads' z drec n recs] z Cons
      by (simp add: add_target_record_def Let_def)
  qed
qed

subsection \<open>Finding the records\<close>

text \<open>The characters of a target without the last NUL.\<close>

fun target_body :: "target_text \<Rightarrow> string" where
  "target_body (n, ads) = ''TargetName='' @ n @ addresses ads"

fun target_cstr :: "target_text \<Rightarrow> bool" where
  "target_cstr (n, ads) \<longleftrightarrow> is_cstr n \<and> list_all is_cstr ads"

lemma find_nul: "find_records env drec (NUL # pos) record recs = find_records env drec pos record recs"
  by (subst (1 2) find_records.simps) simp

lemma cut_line:
  assumes "is_cstr l" "z = [] \<or> hd z = NUL"
  shows "dropWhile (\<lambda>c. c \<noteq> NUL) (l @ z) = z"
  using assms
proof (induction l)
  case Nil
  then show ?case by (cases z) auto
qed auto

lemma find_line:
  assumes l: "is_cstr l" "l \<noteq> []" and z: "z = [] \<or> hd z = NUL" and t: "take 11 (l @ z) \<noteq> ''TargetName=''"
  shows "find_records env drec (l @ z) record recs = find_records env drec z record recs"
proof -
  have "dropWhile (\<lambda>c. c = NUL) (l @ z) = l @ z" using l by (cases l) auto
  then show ?thesis using l t cut_line [OF l(1) z] by (subst find_records.simps) (simp add: Let_def)
qed

lemma find_addresses:
  assumes "list_all is_cstr ads" "z = [] \<or> hd z = NUL"
  shows "find_records env drec (addresses ads @ z) record recs = find_records env drec z record recs"
  using assms(1)
proof (induction ads)
  case (Cons a ads)
  have "take 11 (address_line a @ addresses ads @ z) \<noteq> ''TargetName=''" by (simp add: address_line_def)
  with Cons show ?case
    using find_line [of "address_line a" "addresses ads @ z" env drec "record" recs] addresses_hd [OF assms(2), of ads]
    by (simp add: find_nul)
qed simp

lemma find_first:
  assumes "target_cstr (n, ads)" "z = [] \<or> hd z = NUL"
  shows "find_records env drec (target_body (n, ads) @ z) None recs = find_records env drec z (Some (target_body (n, ads) @ z)) recs"
proof -
  have "dropWhile (\<lambda>c. c \<noteq> NUL) (''TargetName='' @ n @ addresses ads @ z) = addresses ads @ z"
    using cut_line [of "''TargetName='' @ n" "addresses ads @ z"] addresses_hd [OF assms(2), of ads] assms(1) by simp
  then show ?thesis
    using assms find_addresses [of ads z] by (subst find_records.simps) (simp add: Let_def)
qed

lemma take_before: "take (length (b @ c # p) - length p) (b @ c # p) = b @ [c]"
  by simp

lemma find_named:
  assumes "take 11 pos = ''TargetName=''"
  shows "find_records env drec pos (Some r) recs =
    (case add_target_record env drec (drop 11 (take (length r - length pos) r)) recs of (recs, ok) \<Rightarrow>
       if \<not> ok then Inl recs else find_records env drec (dropWhile (\<lambda>c. c \<noteq> NUL) pos) (Some pos) recs)"
proof -
  have "dropWhile (\<lambda>c. c = NUL) pos = pos" "pos \<noteq> []" using assms by (cases pos; auto)+
  with assms show ?thesis by (subst find_records.simps) (simp add: Let_def)
qed

lemma find_next:
  assumes t: "target_cstr (n, ads)" and z: "z = [] \<or> hd z = NUL" and ok: "target_ok env drec (n0, as0)"
  shows "find_records env drec (target_body (n, ads) @ z) (Some (target_body (n0, as0) @ NUL # target_body (n, ads) @ z)) recs =
    find_records env drec z (Some (target_body (n, ads) @ z)) (recs @ target_portals drec (n0, as0))"
proof -
  have c: "dropWhile (\<lambda>c. c \<noteq> NUL) (''TargetName='' @ n @ addresses ads @ z) = addresses ads @ z"
    using cut_line [of "''TargetName='' @ n" "addresses ads @ z"] addresses_hd [OF z, of ads] t by simp
  let ?pos = "''TargetName='' @ n @ addresses ads @ z"
  let ?r = "target_body (n0, as0) @ NUL # ?pos"
  have "take (length ?r - length ?pos) ?r = target_body (n0, as0) @ [NUL]" by (rule take_before)
  then have seg: "drop 11 (take (length ?r - length ?pos) ?r) = n0 @ addresses as0 @ [NUL]" by simp
  have "find_records env drec ?pos (Some ?r) recs = find_records env drec (addresses ads @ z) (Some ?pos) (recs @ target_portals drec (n0, as0))"
    using add_target_ok [OF ok, of "[NUL]" recs] find_named [of ?pos env drec ?r recs, unfolded seg c] by simp
  also have "\<dots> = find_records env drec z (Some ?pos) (recs @ target_portals drec (n0, as0))"
    using t by (intro find_addresses z) simp
  finally show ?thesis by simp
qed

definition bodies :: "target_text list \<Rightarrow> string" where
  "bodies ts = concat (map (\<lambda>t. NUL # target_body t) ts)"

lemma bodies_simps [simp]: "bodies [] = []" "bodies (t # ts) = NUL # target_body t @ bodies ts"
  by (simp_all add: bodies_def)

lemma bodies_hd: "bodies ts = [] \<or> hd (bodies ts) = NUL"
  by (cases ts) auto

text \<open>All records but the last are added, and the last is left as the current one.\<close>

lemma find_rest:
  assumes "list_all target_cstr (t # ts)" "list_all (target_ok env drec) (butlast (t # ts))"
  shows "find_records env drec (bodies ts) (Some (target_body t @ bodies ts)) recs =
    Inr (recs @ concat (map (target_portals drec) (butlast (t # ts))), Some (target_body (last (t # ts))))"
  using assms
proof (induction ts arbitrary: t recs)
  case Nil
  show ?case by (subst find_records.simps) simp
next
  case (Cons u ts)
  obtain n ads where u: "u = (n, ads)" by (cases u)
  obtain n0 as0 where t: "t = (n0, as0)" by (cases t)
  have "find_records env drec (bodies (u # ts)) (Some (target_body t @ bodies (u # ts))) recs =
      find_records env drec (bodies ts) (Some (target_body u @ bodies ts)) (recs @ target_portals drec t)"
    using find_next [of n ads "bodies ts" env drec n0 as0 recs] Cons.prems bodies_hd [of ts]
    by (simp add: find_nul u t del: target_body.simps target_portals.simps target_ok.simps)
  then show ?case using Cons.IH [of u "recs @ target_portals drec t"] Cons.prems by (simp del: target_body.simps)
qed

lemma find_all:
  assumes "list_all target_cstr (t # ts)" "list_all (target_ok env drec) (butlast (t # ts))"
  shows "find_records env drec (target_body t @ bodies ts) None recs =
    Inr (recs @ concat (map (target_portals drec) (butlast (t # ts))), Some (target_body (last (t # ts))))"
  using find_rest [OF assms, of recs] find_first [of "fst t" "snd t" "bodies ts" env drec recs] assms(1) bodies_hd [of ts]
  by simp

subsection \<open>Prefixes of the text\<close>

lemma target_body_text: "unlines_nul (target_lines t) = target_body t @ [NUL]"
proof (cases t)
  case (Pair n ads)
  have "NUL # unlines_nul (map address_line ads) = addresses ads @ [NUL]" by (induction ads) auto
  then show ?thesis by (simp add: Pair)
qed

lemma targets_text_simps [simp]:
  "targets_text [] = []" "targets_text (t # ts) = target_body t @ NUL # targets_text ts"
  "targets_text (ts @ us) = targets_text ts @ targets_text us"
  by (simp_all add: targets_text_def target_body_text del: target_body.simps target_lines.simps)

lemma targets_text_bodies: "targets_text (t # ts) = target_body t @ bodies ts @ [NUL]"
  by (induction ts arbitrary: t) auto

lemma take_lines:
  assumes "m < length (concat (map target_lines ts))"
  obtains k j n ads where "k < length ts" "ts ! k = (n, ads)"
    "take (Suc m) (concat (map target_lines ts)) = concat (map target_lines (take k ts)) @ target_lines (n, take j ads)"
  using assms
proof (induction ts arbitrary: m thesis)
  case (Cons t ts)
  obtain n ads where t: "t = (n, ads)" by (cases t)
  show ?case
  proof (cases "m < length (target_lines t)")
    case True
    then have "take (Suc m) (concat (map target_lines (t # ts))) = target_lines (n, take m ads)"
      by (simp add: t take_map)
    then show ?thesis using Cons.prems(1) [of 0 n ads m] by (simp add: t)
  next
    case False
    define m' where "m' = m - length (target_lines t)"
    have m: "m = length (target_lines t) + m'" "m' < length (concat (map target_lines ts))"
      using False Cons.prems(2) by (simp_all add: m'_def)
    obtain k j n' ads' where k: "k < length ts" "ts ! k = (n', ads')"
      "take (Suc m') (concat (map target_lines ts)) = concat (map target_lines (take k ts)) @ target_lines (n', take j ads')"
      using Cons.IH [OF _ m(2)] by blast
    show ?thesis
      using Cons.prems(1) [of "Suc k" n' ads' j] k m(1) by simp
  qed
qed simp

lemma prefix_lines:
  assumes "prefix (p @ [NUL]) (unlines_nul ls)" "list_all is_cstr ls"
  obtains m where "m < length ls" "p @ [NUL] = unlines_nul (take (Suc m) ls)"
  using assms
proof (induction ls arbitrary: p thesis)
  case (Cons l ls)
  show ?case
  proof (cases "prefix (l @ [NUL]) (p @ [NUL])")
    case True
    then obtain q where q: "p @ [NUL] = l @ NUL # q" by (auto simp: prefix_def)
    show ?thesis
    proof (cases q rule: rev_cases)
      case Nil
      with q show ?thesis using Cons.prems(1) [of 0] by simp
    next
      case (snoc q' c)
      then have c: "c = NUL" using q by (metis append_Cons append_assoc last_snoc)
      have "prefix (q' @ [NUL]) (unlines_nul ls)" using Cons.prems(2) q snoc c by simp
      then obtain m where m: "m < length ls" "q' @ [NUL] = unlines_nul (take (Suc m) ls)"
        using Cons.IH [of q'] Cons.prems(3) by auto
      show ?thesis using Cons.prems(1) [of "Suc m"] m q snoc c by simp
    qed
  next
    case False
    have "prefix (p @ [NUL]) ((l @ [NUL]) @ unlines_nul ls)" using Cons.prems(2) by simp
    then have "prefix (p @ [NUL]) l" using False
      by (metis prefix_same_cases prefix_def prefix_order.order_antisym prefix_snoc append_assoc)
    then have "NUL \<in> set l" by (metis in_set_conv_decomp set_mono_prefix subsetD)
    then show ?thesis using Cons.prems(3) by (simp add: is_cstr_def)
  qed
qed simp

subsection \<open>Processing a part of the text\<close>

lemma scan_back_append: "n < length xs \<Longrightarrow> scan_back (xs @ ys) n = scan_back xs n"
  by (induction n) (auto simp: nth_append)

lemma scan_back_last: "is_cstr q \<Longrightarrow> p \<noteq> [] \<Longrightarrow> scan_back (p @ NUL # q) (length p + length q) = length p"
proof (induction q rule: rev_induct)
  case Nil
  then show ?case by (cases "length p") (auto simp: nth_append)
next
  case (snoc c q)
  from scan_back_append [of "length p + length q" "p @ NUL # q" "[c]"] snoc show ?case by (auto simp: nth_append)
qed

lemma scan_back_none: "is_cstr d \<Longrightarrow> n < length d \<Longrightarrow> scan_back d n = 0"
  by (induction n) (auto simp: is_cstr_def dest: nth_mem)

lemma target_ok_cstr: "target_ok env drec t \<Longrightarrow> target_cstr t"
  by (cases t) (auto simp: list_all_iff address_ok_def)

lemma target_lines_cstr: "target_cstr t \<Longrightarrow> list_all is_cstr (target_lines t)"
  by (cases t) (auto simp: list_all_iff)

lemma text_starts: "prefix w (targets_text ts) \<Longrightarrow> w \<noteq> [] \<Longrightarrow> hd w \<noteq> NUL"
proof (cases ts)
  case (Cons t ts')
  assume p: "prefix w (targets_text ts)" and w: "w \<noteq> []"
  have "targets_text ts \<noteq> []" "hd (targets_text ts) = CHR ''T''" by (cases t; simp add: Cons)+
  with p w show ?thesis by (cases w) (auto simp: prefix_def)
qed simp

text \<open>The complete lines of a part of the text are those of the first targets, the last of them perhaps without
  some of its addresses.\<close>

lemma text_part:
  assumes "prefix (p @ NUL # q) (targets_text ts)" "list_all target_cstr ts"
  obtains k n ads j where "k < length ts" "ts ! k = (n, ads)" "p = targets_text (take k ts) @ target_body (n, take j ads)"
proof -
  let ?ls = "concat (map target_lines ts)"
  have "prefix (p @ [NUL]) (unlines_nul ?ls)"
    using assms(1) prefix_order.trans [of "p @ [NUL]" "p @ NUL # q"] by (simp add: targets_text_def)
  moreover have "list_all is_cstr ?ls" using assms(2) target_lines_cstr unfolding list_all_iff set_concat set_map by blast
  ultimately obtain m where m: "m < length ?ls" "p @ [NUL] = unlines_nul (take (Suc m) ?ls)"
    by (rule prefix_lines)
  obtain k j n ads where k: "k < length ts" "ts ! k = (n, ads)"
    "take (Suc m) ?ls = concat (map target_lines (take k ts)) @ target_lines (n, take j ads)"
    by (rule take_lines [OF m(1)])
  have "p @ [NUL] = targets_text (take k ts) @ target_body (n, take j ads) @ [NUL]"
    using m(2) unfolding k(3) by (simp add: targets_text_def target_body_text del: target_body.simps target_lines.simps)
  then have "p = targets_text (take k ts) @ target_body (n, take j ads)" by simp
  with k show ?thesis using that by blast
qed

lemma targets_text_join:
  assumes "ts \<noteq> []"
  shows "targets_text ts @ target_body t = target_body (hd ts) @ bodies (tl ts @ [t])"
  using assms by (cases ts) (simp_all add: targets_text_bodies bodies_def del: targets_text_simps(2) target_body.simps)

lemma find_part:
  assumes "list_all target_cstr ts" "list_all (target_ok env drec) ts" "target_cstr t"
  shows "find_records env drec (targets_text ts @ target_body t) None recs =
    Inr (recs @ concat (map (target_portals drec) ts), Some (target_body t))"
proof (cases ts)
  case Nil
  then show ?thesis using find_all [of t "[]" env drec recs] assms(3) by simp
next
  case (Cons u us)
  have "find_records env drec (target_body u @ bodies (us @ [t])) None recs =
      Inr (recs @ concat (map (target_portals drec) (butlast (u # us @ [t]))), Some (target_body (last (u # us @ [t]))))"
    by (rule find_all) (use assms Cons in \<open>simp_all add: butlast_append\<close>)
  then show ?thesis using targets_text_join [of ts t] Cons by (simp add: butlast_append del: target_body.simps)
qed

lemma process_part:
  assumes s: "str_ok s" and d: "prefix (str_data s) (targets_text ts)" and ok: "list_all (target_ok env drec) ts"
    and ts: "ts \<noteq> []"
  shows "\<exists>s' k. process_sendtargets_response env drec False s recs = Some (s', recs @ concat (map (target_portals drec) (take k ts))) \<and>
    str_ok s' \<and> k < length ts \<and> str_data s = targets_text (take k ts) @ str_data s'"
proof (cases "NUL \<in> set (str_data s)")
  case False
  then have "str_data s = [] \<or> scan_back (str_data s) (length (str_data s) - 1) = 0"
    by (cases "str_data s = []") (auto intro: scan_back_none simp: is_cstr_def)
  then have "process_sendtargets_response env drec False s recs = Some (s, recs)"
    by (auto simp: process_sendtargets_response_def Let_def)
  then show ?thesis using s ts by (intro exI [of _ s] exI [of _ 0]) simp
next
  case True
  then obtain p q where w: "str_data s = p @ NUL # q" "is_cstr q" by (metis is_cstr_def split_list_last)
  have cs: "list_all target_cstr ts" using ok target_ok_cstr by (auto simp: list_all_iff)
  have p: "p \<noteq> []" using text_starts [OF d] w by auto
  obtain k n ads j where k: "k < length ts" "ts ! k = (n, ads)" "p = targets_text (take k ts) @ target_body (n, take j ads)"
    using text_part [of p q ts] d cs unfolding w by metis
  have "target_cstr (n, ads)" using cs k(1,2) by (metis list_all_iff nth_mem)
  then have t: "target_cstr (n, take j ads)" by (auto simp: list_all_iff dest: in_set_takeD)
  have nul: "scan_back (str_data s) (length (str_data s) - 1) = length p"
    using scan_back_last [OF w(2) p] by (simp add: w)
  have "find_records env drec p None recs = Inr (recs @ concat (map (target_portals drec) (take k ts)), Some (target_body (n, take j ads)))"
    unfolding k(3) by (rule find_part) (use cs ok t in \<open>auto simp: list_all_iff dest: in_set_takeD\<close>)
  then have "process_sendtargets_response env drec False s recs =
      map_option (\<lambda>b. (b, recs @ concat (map (target_portals drec) (take k ts))))
        (str_remove_initial (length p - length (target_body (n, take j ads))) s)"
    using nul p by (simp add: process_sendtargets_response_def Let_def w del: target_body.simps)
  moreover have "length p - length (target_body (n, take j ads)) = length (targets_text (take k ts))"
    by (simp add: k(3) del: target_body.simps)
  moreover have "length (targets_text (take k ts)) \<le> data_length s"
    using w s by (simp add: k(3) str_data_def str_ok_def del: target_body.simps) (metis length_append length_take le_add1 min.bounded_iff)
  from str_remove_ok [OF s this] obtain s' where "str_remove_initial (length (targets_text (take k ts))) s = Some s'" "str_ok s'"
    "str_data s' = drop (length (targets_text (take k ts))) (str_data s)" by blast
  moreover have "str_data s = targets_text (take k ts) @ drop (length (targets_text (take k ts))) (str_data s)"
    by (simp add: w k(3) del: target_body.simps)
  ultimately show ?thesis using k(1) by auto
qed

lemma process_final:
  assumes s: "str_ok s" and d: "str_data s = targets_text ts" and ok: "list_all (target_ok env drec) ts" and ts: "ts \<noteq> []"
  shows "\<exists>s'. process_sendtargets_response env drec True s recs = Some (s', recs @ concat (map (target_portals drec) ts)) \<and>
    str_ok s' \<and> str_data s' = []"
proof -
  obtain us n ads where us: "ts = us @ [(n, ads)]" using ts by (metis rev_exhaust surj_pair)
  let ?p = "targets_text us @ target_body (n, ads)"
  have cs: "list_all target_cstr ts" using ok target_ok_cstr by (auto simp: list_all_iff)
  have w: "str_data s = ?p @ [NUL]" using d by (simp add: us del: target_body.simps)
  have nul: "scan_back (str_data s) (length (str_data s) - 1) = length ?p"
    using scan_back_last [of "[]" ?p] by (simp add: w)
  have "target_body (n, ads) \<noteq> []" by simp
  have "find_records env drec ?p None recs = Inr (recs @ concat (map (target_portals drec) us), Some (target_body (n, ads)))"
    by (rule find_part) (use cs ok us in auto)
  moreover have "add_target_record env drec (drop 11 (target_body (n, ads))) r = (r @ target_portals drec (n, ads), True)" for r
  proof -
    have "target_ok env drec (n, ads)" using ok us by (simp del: target_ok.simps)
    then show ?thesis using add_target_ok [of env drec n ads "[]" r] by (simp del: target_portals.simps target_ok.simps)
  qed
  ultimately have "process_sendtargets_response env drec True s recs =
      map_option (\<lambda>b. (b, recs @ concat (map (target_portals drec) ts))) (str_truncate_buffer 0 s)"
    using nul \<open>target_body (n, ads) \<noteq> []\<close>
    by (simp add: process_sendtargets_response_def Let_def w us del: target_body.simps target_portals.simps)
  then show ?thesis using str_truncate_0 [OF s] by auto
qed

end
