(* ===== verification/Discovery_Properties.thy ===== *)
theory Discovery_Properties
  imports Discovery_Text
begin

text \<open>
  What discovery guarantees: a SendTargets response is understood in any division into PDUs, portals are taken
  apart as written, an IPv6 address without a port is not, and on any text the buffer is not overrun and the records fit their arrays.
\<close>

subsection \<open>The exchange\<close>

text \<open>The PDUs a discovery session receives while it is active. A need to reconnect ends it with \<open>None\<close>.\<close>

fun recv_pdus :: "disc_env \<Rightarrow> discovery_rec \<Rightarrow> (text_rsp \<times> string) list \<Rightarrow> disc_state \<Rightarrow> disc_state option" where
  "recv_pdus env drec [] st = Some st"
| "recv_pdus env drec ((pdu, data) # ps) st =
     (if \<not> active st then Some st
      else case process_recvd_pdu env drec True True pdu data st of
             Some (st, RECVD_OK) \<Rightarrow> recv_pdus env drec ps st
           | _ \<Rightarrow> None)"

definition text_pdu :: "bool \<Rightarrow> text_rsp \<times> string \<Rightarrow> bool" where
  "text_pdu final p \<longleftrightarrow> tr_opcode (fst p) = ISCSI_OP_TEXT_RSP \<and> ntoh24 (tr_dlength (fst p)) = length (snd p) \<and>
     (tr_flags (fst p) AND ISCSI_FLAG_CMD_FINAL \<noteq> 0 \<or> tr_ttt (fst p) = ISCSI_RESERVED_TAG) = final"

text \<open>What the buffer and the records are after a part of the text.\<close>

lemma recv_one:
  assumes "text_pdu final p" "str_ok (sendtargets st)"
  obtains b where "str_ok b" "str_data b = str_data (sendtargets st) @ snd p"
    "process_recvd_pdu env drec True True (fst p) (snd p) st =
       Option.bind (process_sendtargets_response env drec final b (found st)) (\<lambda>(b, recs).
         Some (st\<lparr>sendtargets := b, found := recs, valid_text := True, active := (\<not> final \<and> active st)\<rparr>, RECVD_OK))"
proof -
  obtain s' b where b: "str_enlarge_data True (length (snd p)) (sendtargets st) = (s', False)"
    "str_write (data_length (sendtargets st)) (snd p) s' = Some b" "str_ok b" "str_data b = str_data (sendtargets st) @ snd p"
    using str_enlarge_write [OF assms(2)] by blast
  have "process_recvd_pdu env drec True True (fst p) (snd p) st =
       Option.bind (process_sendtargets_response env drec final b (found st)) (\<lambda>(b, recs).
         Some (st\<lparr>sendtargets := b, found := recs, valid_text := True, active := (\<not> final \<and> active st)\<rparr>, RECVD_OK))"
    using assms(1) b(1,2) by (auto simp: process_recvd_pdu_def Let_def text_pdu_def bind_eq_Some_conv intro!: arg_cong2 [where f = Option.bind])
  with b(3,4) show ?thesis by (rule that)
qed

lemma recv_text:
  assumes "list_all (text_pdu False) ps" "text_pdu True p" "list_all (target_ok env drec) ts" "ts \<noteq> []"
    "str_ok (sendtargets st)" "active st" "str_data (sendtargets st) @ concat (map snd (ps @ [p])) = targets_text ts"
  shows "\<exists>st'. recv_pdus env drec (ps @ [p]) st = Some st' \<and> found st' = found st @ concat (map (target_portals drec) ts) \<and>
     \<not> active st' \<and> str_ok (sendtargets st') \<and> str_data (sendtargets st') = []"
  using assms
proof (induction ps arbitrary: ts st)
  case Nil
  obtain b where b: "str_ok b" "str_data b = str_data (sendtargets st) @ snd p"
    "process_recvd_pdu env drec True True (fst p) (snd p) st =
       Option.bind (process_sendtargets_response env drec True b (found st)) (\<lambda>(b, recs).
         Some (st\<lparr>sendtargets := b, found := recs, valid_text := True, active := (\<not> True \<and> active st)\<rparr>, RECVD_OK))"
    by (rule recv_one [OF Nil.prems(2,5)])
  moreover have "str_data b = targets_text ts" using b(2) Nil.prems(7) by simp
  ultimately show ?case
    using process_final [OF b(1) _ Nil.prems(3,4), of "found st"] Nil.prems(6) by (cases p) auto
next
  case (Cons q ps)
  have q: "text_pdu False q" using Cons.prems(1) by simp
  obtain b where b: "str_ok b" "str_data b = str_data (sendtargets st) @ snd q"
    "process_recvd_pdu env drec True True (fst q) (snd q) st =
       Option.bind (process_sendtargets_response env drec False b (found st)) (\<lambda>(b, recs).
         Some (st\<lparr>sendtargets := b, found := recs, valid_text := True, active := (\<not> False \<and> active st)\<rparr>, RECVD_OK))"
    by (rule recv_one [OF q Cons.prems(5)])
  have full: "str_data b @ concat (map snd (ps @ [p])) = targets_text ts" using b(2) Cons.prems(7) by simp
  then have "prefix (str_data b) (targets_text ts)" by (metis prefixI)
  from process_part [OF b(1) this Cons.prems(3,4), of "found st"] obtain s' k where
    k: "process_sendtargets_response env drec False b (found st) = Some (s', found st @ concat (map (target_portals drec) (take k ts)))"
      "str_ok s'" "k < length ts" "str_data b = targets_text (take k ts) @ str_data s'"
    by blast
  let ?st = "st\<lparr>sendtargets := s', found := found st @ concat (map (target_portals drec) (take k ts)), valid_text := True, active := True\<rparr>"
  have "targets_text ts = targets_text (take k ts) @ targets_text (drop k ts)"
    by (metis append_take_drop_id targets_text_simps(3))
  then have "str_data (sendtargets ?st) @ concat (map snd (ps @ [p])) = targets_text (drop k ts)"
    using full k(4) by simp
  moreover have "list_all (target_ok env drec) (drop k ts)" using Cons.prems(3) by (auto simp: list_all_iff dest: in_set_dropD)
  ultimately obtain st' where "recv_pdus env drec (ps @ [p]) ?st = Some st'"
    "found st' = found ?st @ concat (map (target_portals drec) (drop k ts))"
    "\<not> active st'" "str_ok (sendtargets st')" "str_data (sendtargets st') = []"
    using Cons.IH [of "drop k ts" ?st] Cons.prems k by auto
  moreover have "concat (map (target_portals drec) (take k ts)) @ concat (map (target_portals drec) (drop k ts)) = concat (map (target_portals drec) ts)"
    by (metis append_take_drop_id concat_append map_append)
  moreover have "recv_pdus env drec ((q # ps) @ [p]) st = recv_pdus env drec (ps @ [p]) ?st"
    using b(3) k(1) Cons.prems(6) by (cases q) simp
  ultimately show ?case by auto
qed

text \<open>C9. A SendTargets response is understood wherever it is cut. If the data of a sequence of text responses, only the
  last of which is final, together are the text of a list of acceptable targets (the names fit, the addresses resolve, a record can
  be allocated for each), in any division into PDUs, then the
  discovery session ends with exactly the records of these targets added, one for each address in the order of the text
  (or one for the discovery address where a target has none), and with an empty buffer.\<close>

theorem sendtargets_any_division:
  assumes "list_all (text_pdu False) ps" and "text_pdu True p" and "list_all (target_ok env drec) ts" and "ts \<noteq> []"
    and "concat (map snd (ps @ [p])) = targets_text ts"
    and "str_ok (sendtargets st)" and "str_data (sendtargets st) = []" and "active st"
  shows "\<exists>st'. recv_pdus env drec (ps @ [p]) st = Some st' \<and> found st' = found st @ concat (map (target_portals drec) ts) \<and>
     \<not> active st' \<and> str_data (sendtargets st') = []"
  using recv_text [OF assms(1-4,6,8)] assms(5,7) by auto

subsection \<open>Portals\<close>

lemma portal_of:
  "split_portal line = (case split_last CHR '','' line of (l, tag) \<Rightarrow> case split_last CHR '':'' l of (l, port) \<Rightarrow>
     if drop 14 l \<noteq> [] \<and> hd (drop 14 l) = CHR ''['' then (drop 15 (fst (split_last CHR '']'' l)), port, tag)
     else (drop 14 l, port, tag))"
  by (auto simp: split_portal_def Let_def split: prod.splits list.splits)

lemma split_port:
  assumes "CHR '':'' \<notin> set port" "CHR '','' \<notin> set port"
  shows "split_last CHR '':'' (address_line h @ '':'' @ port) = (address_line h, Some port)"
  using assms split_last_found [of "CHR '':''" port "address_line h"] by simp

lemma split_tag:
  assumes "CHR '','' \<notin> set tag"
  shows "split_last CHR '','' (address_line a @ '','' @ tag) = (address_line a, Some tag)"
  using assms split_last_found [of "CHR '',''" tag "address_line a"] by simp

lemma split_no_tag: "CHR '','' \<notin> set a \<Longrightarrow> split_last CHR '','' (address_line a) = (address_line a, None)"
  by (rule split_last_none) (auto simp: address_line_def)

lemma address_line_append: "address_line (a @ b) = address_line a @ b"
  by (simp add: address_line_def)

lemma length_address_line [simp]: "length (address_line a) = 14 + length a"
  by (simp add: address_line_def)

lemma drop_address_line [simp]: "drop 14 (address_line a) = a"
  by (simp add: address_line_def)

lemma plain_host: "plain h \<Longrightarrow> \<not> (h \<noteq> [] \<and> hd h = CHR ''['')"
  using plainD [of h] by (cases h) auto

lemma split_bracket:
  assumes "bracketed v6"
  shows "fst (split_last CHR '']'' (address_line (''['' @ v6 @ '']''))) = address_line (''['' @ v6)"
  using split_last_found [of "CHR '']''" "[]" "address_line (''['' @ v6)"] by (simp add: address_line_def)

lemma drop_bracket: "drop 15 (address_line (''['' @ v6)) = v6"
  by (simp add: address_line_def)

text \<open>The portal of a \<open>TargetAddress\<close> key with a port is taken apart as written, for a host name or IPv4 address and for
  an IPv6 address in brackets, with and without a portal group tag; a host name alone has no port and no tag.\<close>

theorem portal_taken_apart:
  assumes "plain host" and "plain port" and "plain tag" and "bracketed v6"
  shows "split_portal (address_line host) = (host, None, None) \<and>
    split_portal (address_line (host @ '','' @ tag)) = (host, None, Some tag) \<and>
    split_portal (address_line (host @ '':'' @ port)) = (host, Some port, None) \<and>
    split_portal (address_line (host @ '':'' @ port @ '','' @ tag)) = (host, Some port, Some tag) \<and>
    split_portal (address_line (''['' @ v6 @ '']:'' @ port)) = (v6, Some port, None) \<and>
    split_portal (address_line (''['' @ v6 @ '']:'' @ port @ '','' @ tag)) = (v6, Some port, Some tag)"
proof -
  note h = plainD [OF assms(1)] and p = plainD [OF assms(2)] and t = plainD [OF assms(3)] and v = bracketedD [OF assms(4)]
  have nc: "split_last CHR '':'' (address_line host) = (address_line host, None)"
    by (rule split_last_none) (use h in \<open>auto simp: address_line_def\<close>)
  have 1: "split_portal (address_line host) = (host, None, None)"
    using h nc plain_host [OF assms(1)] by (auto simp: portal_of split_no_tag)
  have 2: "split_portal (address_line (host @ '','' @ tag)) = (host, None, Some tag)"
    using t nc plain_host [OF assms(1)] split_tag [of tag host] by (auto simp: portal_of address_line_append [symmetric])
  have 3: "split_portal (address_line (host @ '':'' @ port)) = (host, Some port, None)"
    using h p plain_host [OF assms(1)] split_port [of port host] split_no_tag [of "host @ '':'' @ port"]
    by (auto simp: portal_of address_line_append [symmetric])
  have 4: "split_portal (address_line (host @ '':'' @ port @ '','' @ tag)) = (host, Some port, Some tag)"
    using h p t plain_host [OF assms(1)] split_port [of port host] split_tag [of tag "host @ '':'' @ port"]
    by (auto simp: portal_of address_line_append [symmetric])
  let ?b = "''['' @ v6 @ '']''"
  have b: "drop 15 (fst (split_last CHR '']'' (address_line ?b))) = v6" using split_bracket [OF assms(4)] drop_bracket by simp
  have 5: "split_portal (address_line (?b @ '':'' @ port)) = (v6, Some port, None)"
    using v p b split_port [of port ?b] split_no_tag [of "?b @ '':'' @ port"] by (simp add: portal_of address_line_append [symmetric])
  have 6: "split_portal (address_line (?b @ '':'' @ port @ '','' @ tag)) = (v6, Some port, Some tag)"
    using t p b split_port [of port ?b] split_tag [of tag "?b @ '':'' @ port"] by (simp add: portal_of address_line_append [symmetric])
  from 1 2 3 4 5 6 show ?thesis by simp
qed


text \<open>C33. An IPv6 address in brackets without a port is torn at its last colon: what is left of it becomes the host and
  the rest, with the closing bracket, the port. If that host and port do not resolve, the target is not recorded.\<close>

theorem portal_ipv6_needs_port:
  assumes "bracketed (a @ '':'' @ b)" and "CHR '':'' \<notin> set b" and "\<not> resolves env a (Some (b @ '']''))"
    and "is_cstr name" and "length name \<le> TARGET_NAME_MAXLEN" and "is_cstr a" and "is_cstr b"
  shows "split_portal (address_line (''['' @ a @ '':'' @ b @ '']'')) = (a, Some (b @ '']''), None) \<and>
    add_target_record env drec (name @ NUL # address_line (''['' @ a @ '':'' @ b @ '']'')) recs = (recs, False)"
proof -
  note v = bracketedD [OF assms(1)]
  have "split_last CHR '':'' (address_line (''['' @ a) @ '':'' @ b @ '']'') = (address_line (''['' @ a), Some (b @ '']''))"
    using assms(2) v by (intro split_port) auto
  moreover have "split_last CHR '']'' (address_line (''['' @ a)) = (address_line (''['' @ a), None)"
    by (rule split_last_none) (use v in \<open>auto simp: address_line_def\<close>)
  ultimately have s: "split_portal (address_line (''['' @ a @ '':'' @ b @ '']'')) = (a, Some (b @ '']''), None)"
    using v split_no_tag [of "''['' @ a @ '':'' @ b @ '']''"] drop_bracket [of a]
    by (simp add: portal_of address_line_append [symmetric])
  let ?l = "address_line (''['' @ a @ '':'' @ b @ '']'')"
  have l: "is_cstr ?l" "?l \<noteq> []" "hd ?l \<noteq> NUL" using assms(6,7) by (simp_all add: address_line_def)
  have d: "dropWhile (\<lambda>c. c = NUL) ?l = ?l" by (simp add: address_line_def)
  have "add_addresses env drec name ?l recs = (recs, False)"
    using s assms(3) l by (subst add_addresses.simps) (simp add: Let_def add_portal_def)
  then have "add_target_record env drec (name @ NUL # ?l) recs = (recs, False)"
    using assms(4,5) d l(2) by (simp add: add_target_record_def Let_def)
  with s show ?thesis by blast
qed

theorem portal_ipv6_needs_port_witness:
  "split_portal (address_line ''[fe80::1]'') = (''fe80:'', Some ''1]'', None) \<and>
   add_target_record \<lparr>resolves = (\<lambda>host port. host = ''fe80::1''), calloc_ok = (\<lambda>n. True)\<rparr>
     \<lparr>drec_type = 0, drec_address = [], drec_port = 0\<rparr> (''iqn.a'' @ NUL # address_line ''[fe80::1]'') [] = ([], False)"
  using portal_ipv6_needs_port [of "''fe80:''" "''1''" "\<lparr>resolves = (\<lambda>host port. host = ''fe80::1''), calloc_ok = (\<lambda>n. True)\<rparr>"
      "''iqn.a''" "\<lparr>drec_type = 0, drec_address = [], drec_port = 0\<rparr>" "[]"]
  by (simp add: bracketed_def TARGET_NAME_MAXLEN_def)

text \<open>A discovery text of two targets in two PDUs, cut inside a key.\<close>

definition sample_disc_env :: disc_env where
  "sample_disc_env = \<lparr>resolves = (\<lambda>host port. True), calloc_ok = (\<lambda>n. True)\<rparr>"

definition sample_drec :: discovery_rec where
  "sample_drec = \<lparr>drec_type = 0, drec_address = ''10.0.0.9'', drec_port = 3260\<rparr>"

definition sample_text_pdu :: "bool \<Rightarrow> string \<Rightarrow> text_rsp \<times> string" where
  "sample_text_pdu final data =
     (\<lparr>tr_opcode = ISCSI_OP_TEXT_RSP, tr_flags = if final then ISCSI_FLAG_CMD_FINAL else 0,
       tr_dlength = hton24 (length data), tr_ttt = 5\<rparr>, data)"

definition sample_targets :: "target_text list" where
  "sample_targets = [(''iqn.a'', [''10.0.0.1:3261,2'']), (''iqn.b'', [])]"

definition sample_disc_state :: disc_state where
  "sample_disc_state = \<lparr>sendtargets = str_init_buffer True 0, found = [], active = True, valid_text = False\<rparr>"

lemma sample_text_pdu_ok: "length data < 2 ^ 24 \<Longrightarrow> text_pdu final (sample_text_pdu final data)"
  by (auto simp: text_pdu_def sample_text_pdu_def ntoh24_hton24 ISCSI_FLAG_CMD_FINAL_def ISCSI_RESERVED_TAG_def)

lemma sample_targets_ok: "list_all (target_ok sample_disc_env sample_drec) sample_targets"
  by (simp add: sample_targets_def sample_disc_env_def sample_drec_def address_ok_def TARGET_NAME_MAXLEN_def
      split: prod.splits)

lemma sample_length: "length (targets_text sample_targets) < 2 ^ 24"
  by (simp add: sample_targets_def address_line_def)

theorem sendtargets_any_division_witness:
  "\<exists>st'. recv_pdus sample_disc_env sample_drec
       [sample_text_pdu False (take 20 (targets_text sample_targets)), sample_text_pdu True (drop 20 (targets_text sample_targets))]
       sample_disc_state = Some st' \<and>
     map rec_name (found st') = [''iqn.a'', ''iqn.b''] \<and> map rec_address (found st') = [''10.0.0.1'', ''10.0.0.9'']"
proof -
  let ?a = "take 20 (targets_text sample_targets)" and ?b = "drop 20 (targets_text sample_targets)"
  have l: "length ?a < 2 ^ 24" "length ?b < 2 ^ 24" using sample_length by simp_all
  have st: "str_ok (sendtargets sample_disc_state)" "str_data (sendtargets sample_disc_state) = []" "active sample_disc_state"
    by (simp_all add: sample_disc_state_def str_init_ok)
  have c: "concat (map snd ([sample_text_pdu False ?a] @ [sample_text_pdu True ?b])) = targets_text sample_targets"
    by (simp add: sample_text_pdu_def)
  have p: "list_all (text_pdu False) [sample_text_pdu False ?a]" using sample_text_pdu_ok [OF l(1)] by simp
  have "found sample_disc_state = []" "sample_targets \<noteq> []" by (simp_all add: sample_disc_state_def sample_targets_def)
  with sendtargets_any_division [OF p sample_text_pdu_ok [OF l(2)] sample_targets_ok _ c st]
  obtain st' where st': "recv_pdus sample_disc_env sample_drec ([sample_text_pdu False ?a] @ [sample_text_pdu True ?b]) sample_disc_state = Some st'"
    "found st' = concat (map (target_portals sample_drec) sample_targets)"
    by auto
  have "split_portal (address_line ''10.0.0.1:3261,2'') = (''10.0.0.1'', Some ''3261'', Some ''2'')"
    using split_tag [of "''2''" "''10.0.0.1:3261''"] split_port [of "''3261''" "''10.0.0.1''"]
    by (simp add: portal_of address_line_append [symmetric])
  then have "map rec_name (concat (map (target_portals sample_drec) sample_targets)) = [''iqn.a'', ''iqn.b'']"
    "map rec_address (concat (map (target_portals sample_drec) sample_targets)) = [''10.0.0.1'', ''10.0.0.9'']"
    by (simp_all add: sample_targets_def address_portal_def portal_rec_def strlcpy_to_def strlcpy_eq sample_drec_def
        TARGET_NAME_MAXLEN_def NI_MAXHOST_def)
  with st' show ?thesis by auto
qed

subsection \<open>What a text can lead to\<close>

text \<open>The records of any text fit the arrays of \<open>node_rec\<close>. The address of the discovery record is copied as it is, from an
  array of the same size.\<close>

definition rec_fits :: "node_rec \<Rightarrow> bool" where
  "rec_fits r \<longleftrightarrow> length (rec_name r) < TARGET_NAME_MAXLEN \<and> length (rec_address r) < NI_MAXHOST \<and>
     length (rec_disc_address r) < NI_MAXHOST"

definition drec_fits :: "discovery_rec \<Rightarrow> bool" where
  "drec_fits drec \<longleftrightarrow> length (drec_address drec) < NI_MAXHOST"

lemma portal_rec_fits: "drec_fits drec \<Longrightarrow> rec_fits (portal_rec drec n a p t)"
  by (simp add: drec_fits_def rec_fits_def portal_rec_def strlcpy_to_def strlcpy_eq TARGET_NAME_MAXLEN_def NI_MAXHOST_def min_less_iff_disj)

lemma add_portal_fits: "drec_fits drec \<Longrightarrow> list_all rec_fits recs \<Longrightarrow> list_all rec_fits (fst (add_portal env drec n a p t recs))"
  by (simp add: add_portal_def portal_rec_fits)

lemma add_addresses_fits: "drec_fits drec \<Longrightarrow> list_all rec_fits recs \<Longrightarrow> list_all rec_fits (fst (add_addresses env drec n pos recs))"
proof (induction env drec n pos recs rule: add_addresses.induct)
  case (1 env drec n pos recs)
  show ?case
    using "1.prems" "1.IH" add_portal_fits [OF "1.prems"]
    by (subst add_addresses.simps) (auto simp: Let_def split: prod.splits, (metis fst_conv)+)
qed

lemma add_target_fits: "drec_fits drec \<Longrightarrow> list_all rec_fits recs \<Longrightarrow> list_all rec_fits (fst (add_target_record env drec seg recs))"
  by (simp add: add_target_record_def Let_def add_portal_fits add_addresses_fits)

definition found_recs :: "node_rec list + (node_rec list \<times> string option) \<Rightarrow> node_rec list" where
  "found_recs r = (case r of Inl recs \<Rightarrow> recs | Inr (recs, _) \<Rightarrow> recs)"

lemma find_records_fits:
  "drec_fits drec \<Longrightarrow> list_all rec_fits recs \<Longrightarrow> list_all rec_fits (found_recs (find_records env drec pos r recs))"
proof (induction env drec pos r recs rule: find_records.induct)
  case (1 env drec pos r recs)
  let ?p = "dropWhile (\<lambda>c. c = NUL) pos"
  show ?case
  proof (cases "?p = []")
    case True
    then show ?thesis using "1.prems" by (subst find_records.simps) (simp add: Let_def found_recs_def)
  next
    case False
    show ?thesis
    proof (cases "take 11 ?p = ''TargetName=''")
      case named: True
      show ?thesis
      proof (cases r)
        case None
        then show ?thesis using "1.IH"(1) [OF refl False named None] "1.prems" False named by (subst find_records.simps) (simp add: Let_def del: dropWhile_eq_Nil_conv)
      next
        case (Some q)
        obtain recs' ok where a: "add_target_record env drec (drop 11 (take (length q - length ?p) q)) recs = (recs', ok)" by fastforce
        have "list_all rec_fits recs'" using add_target_fits [OF "1.prems", of env "drop 11 (take (length q - length ?p) q)"] a by simp
        then show ?thesis using "1.IH"(2) [OF refl False named Some a [symmetric]] "1.prems"(1) a False named Some
          by (subst find_records.simps) (auto simp: Let_def found_recs_def simp del: dropWhile_eq_Nil_conv)
      qed
    next
      case False
      then show ?thesis using "1.IH"(3) [OF refl \<open>?p \<noteq> []\<close> False] "1.prems" \<open>?p \<noteq> []\<close> by (subst find_records.simps) (simp add: Let_def del: dropWhile_eq_Nil_conv)
    qed
  qed
qed

lemma scan_back_le: "scan_back d n \<le> n"
  by (induction n) auto

text \<open>Processing the text in the buffer writes only inside its memory.\<close>

lemma process_sendtargets_safe:
  assumes "str_ok b" "drec_fits drec" "list_all rec_fits recs"
  shows "\<exists>b' recs'. process_sendtargets_response env drec final b recs = Some (b', recs') \<and> str_ok b' \<and> list_all rec_fits recs'"
proof -
  let ?d = "str_data b" and ?n = "scan_back (str_data b) (length (str_data b) - 1)"
  have n: "?n \<le> data_length b" using scan_back_le [of ?d "length ?d - 1"] by (simp add: str_data_def)
  obtain b0 where t: "str_truncate_buffer 0 b = Some b0" "str_ok b0" using str_truncate_0 [OF assms(1)] by blast
  have r: "\<exists>b1. str_remove_initial (?n - k) b = Some b1 \<and> str_ok b1" for k
    using str_remove_ok [OF assms(1) le_trans [OF diff_le_self n]] by blast
  have a: "list_all rec_fits rs'" if "list_all rec_fits rs" "add_target_record env drec seg rs = (rs', ok)" for rs rs' seg ok
    using add_target_fits [OF assms(2) that(1), of env seg] that(2) by simp
  have f: "list_all rec_fits (found_recs (find_records env drec (take ?n ?d) None recs))"
    by (rule find_records_fits [OF assms(2,3)])
  show ?thesis
  proof (cases "find_records env drec (take ?n ?d) None recs")
    case (Inl rs)
    with f t assms show ?thesis by (auto simp: process_sendtargets_response_def found_recs_def Let_def)
  next
    case (Inr x)
    obtain rs rec where x: "x = (rs, rec)" by force
    obtain rs' ok where add: "add_target_record env drec (drop 11 (the rec)) rs = (rs', ok)" by force
    have rs: "list_all rec_fits rs" "list_all rec_fits rs'" using f Inr x a [OF _ add] by (simp_all add: found_recs_def)
    obtain b1 where b1: "str_remove_initial (?n - length (the rec)) b = Some b1" "str_ok b1" using r by blast
    show ?thesis
      using Inr x rs t b1 assms add by (cases rec) (auto simp: process_sendtargets_response_def Let_def)
  qed
qed

lemma enlarged_write:
  assumes "str_ok s" "str_enlarge_data can_alloc n s = (s', False)" "length xs \<le> n"
  shows "\<exists>s''. str_write (data_length s) xs s' = Some s'' \<and> str_ok s''"
  using assms by (auto simp: str_enlarge_data_def Let_def str_ok_def str_write_def length_overlay split: if_splits)

text \<open>C23. Whatever a target sends, and wherever it is cut, processing a PDU of a discovery session returns without a write
  outside the buffer of the text, and every record it leaves on the list fits the arrays of a node record: the name has
  room for its terminating NUL in 255 characters, the address and the discovery address in 1025. The buffer stays well
  formed as long as it could be enlarged when it had to be.\<close>

theorem discovery_records_fit:
  assumes "list_all rec_fits (found st)" and "str_ok (sendtargets st)" and "drec_fits drec"
  shows "\<exists>st' r. process_recvd_pdu env drec can_alloc sent pdu data st = Some (st', r) \<and> list_all rec_fits (found st') \<and>
    (can_alloc \<longrightarrow> str_ok (sendtargets st'))"
proof (cases "tr_opcode pdu = ISCSI_OP_TEXT_RSP")
  case True
  let ?n = "ntoh24 (tr_dlength pdu)"
  obtain b full where e: "str_enlarge_data can_alloc ?n (sendtargets st) = (b, full)" by force
  show ?thesis
  proof (cases full)
    case True
    then have "\<not> can_alloc" using e by (auto simp: str_enlarge_data_def Let_def split: if_splits)
    then show ?thesis using e True assms(1) \<open>tr_opcode pdu = _\<close> by (simp add: process_recvd_pdu_def)
  next
    case False
    with e obtain b1 where b1: "str_write (data_length (sendtargets st)) (take ?n data) b = Some b1" "str_ok b1"
      using enlarged_write [OF assms(2), of can_alloc ?n b "take ?n data"] by auto
    define final where "final = (tr_flags pdu AND ISCSI_FLAG_CMD_FINAL \<noteq> 0 \<or> tr_ttt pdu = ISCSI_RESERVED_TAG)"
    obtain b2 rs where b2: "process_sendtargets_response env drec final b1 (found st) = Some (b2, rs)" "str_ok b2" "list_all rec_fits rs"
      using process_sendtargets_safe [OF b1(2) assms(3,1)] by blast
    show ?thesis unfolding process_recvd_pdu_def Let_def final_def [symmetric]
      using e False b1 b2 \<open>tr_opcode pdu = _\<close> by simp
  qed
qed (use assms in \<open>simp add: process_recvd_pdu_def\<close>)

theorem discovery_records_fit_witness:
  "\<exists>st' r. process_recvd_pdu sample_disc_env sample_drec True True (fst (sample_text_pdu True (targets_text sample_targets)))
      (targets_text sample_targets) sample_disc_state = Some (st', r) \<and> length (found st') = 2 \<and> list_all rec_fits (found st')"
proof -
  let ?p = "sample_text_pdu True (targets_text sample_targets)"
  have p: "text_pdu True ?p" by (rule sample_text_pdu_ok [OF sample_length])
  have st: "str_ok (sendtargets sample_disc_state)" "str_data (sendtargets sample_disc_state) = []" "active sample_disc_state"
    "found sample_disc_state = []" "snd ?p = targets_text sample_targets" "sample_targets \<noteq> []"
    by (simp_all add: sample_disc_state_def str_init_ok sample_text_pdu_def sample_targets_def)
  obtain st' where "recv_pdus sample_disc_env sample_drec [?p] sample_disc_state = Some st'"
    "found st' = concat (map (target_portals sample_drec) sample_targets)"
    using recv_text [of "[]" ?p sample_disc_env sample_drec sample_targets sample_disc_state] p sample_targets_ok st by auto
  moreover have "length (concat (map (target_portals sample_drec) sample_targets)) = 2"
    by (simp add: sample_targets_def)
  moreover obtain st2 r where q: "process_recvd_pdu sample_disc_env sample_drec True True (fst ?p) (snd ?p) sample_disc_state = Some (st2, r)"
    "list_all rec_fits (found st2)"
    using discovery_records_fit [of sample_disc_state sample_drec sample_disc_env True True "fst ?p" "snd ?p"] st
    by (auto simp: drec_fits_def sample_drec_def NI_MAXHOST_def)
  ultimately have "length (found st2) = 2"
    using st(3) by (cases ?p) (auto split: option.splits recvd_result.splits)
  with q st(5) show ?thesis by auto
qed

text \<open>A name of the greatest accepted length loses its last character.\<close>

lemma longest_name_cut:
  assumes "length name = TARGET_NAME_MAXLEN"
  shows "rec_name (portal_rec drec name a p t) = butlast name"
  using assms by (simp add: portal_rec_def strlcpy_to_def strlcpy_eq butlast_conv_take TARGET_NAME_MAXLEN_def)

end
