(* ===== verification/Discovery_Session.thy ===== *)
theory Discovery_Session
  imports Iscsi_Codes Login_Exchange
begin

text \<open>
  How a discovery session is created (\<open>iscsi_create_session\<close> in \<open>usr/discovery.c\<close>): the loop over connection and
  login attempts with its three labels, the delay before an attempt, and what follows from the result of a
  login. The results of the calls an attempt makes are the input, one record for each attempt.
\<close>

subsection \<open>Definitions\<close>

text \<open>The members of the session and its connection that the function uses, its local count of failed logins, and
  the seconds it has slept before the attempts.\<close>

record create_state =
  reopen_cnt :: int
  conn_saddr :: sockaddr
  failback_saddr :: sockaddr
  sess_cmdsn :: nat
  sess_itt :: nat
  sess_tag :: int
  login_failures :: nat
  slept :: "nat list"

text \<open>What the calls of one attempt return: \<open>iscsi_create_leading_conn\<close>, \<open>iscsi_session_set_params\<close>, \<open>iscsi_login\<close> with the
  status and the address it leaves, \<open>iscsi_session_set_neg_params\<close>, \<open>start_conn\<close> and \<open>iscsi_wait_for_login\<close>.\<close>

record attempt =
  leading_rc :: int
  set_params_rc :: int
  login_status :: iscsi_login_status
  status_class :: byte
  status_detail :: byte
  new_saddr :: sockaddr
  neg_params_rc :: int
  start_ok :: bool
  wait_rc :: int

text \<open>The capabilities \<open>CAP_TEXT_NEGO\<close> and \<open>CAP_LOGIN_OFFLOAD\<close> of the transport.\<close>

record transport_caps =
  text_nego :: bool
  login_offload :: bool

definition login_delay :: "nat \<Rightarrow> nat" where
  "login_delay n =
     (if n = 0 then 0 else if n < 10 then 1 else if n < 20 then 2 else if n < 26 then 5 else if n < 34 then 15 else 60)"

datatype create_label = SET_ADDRESS | RECONNECT | REDIRECT_RECONNECT

text \<open>From a label to the attempt: \<open>Inl\<close> is the end with an error.\<close>

definition redirect_reconnect :: "create_state \<Rightarrow> int + create_state" where
  "redirect_reconnect st =
     Inr (st\<lparr>sess_cmdsn := 1, sess_itt := 1, sess_tag := - 1,
            slept := slept st @ [login_delay (login_failures st)]\<rparr>)"

definition reconnect :: "create_state \<Rightarrow> int + create_state" where
  "reconnect st =
     (let st = st\<lparr>reopen_cnt := reopen_cnt st - 1\<rparr>
      in if reopen_cnt st < 0 then Inl ISCSI_ERR_PDU_TIMEOUT else redirect_reconnect st)"

definition set_address :: "create_state \<Rightarrow> int + create_state" where
  "set_address st = reconnect (st\<lparr>conn_saddr := failback_saddr st\<rparr>)"

fun enter_label :: "create_label \<Rightarrow> create_state \<Rightarrow> int + create_state" where
  "enter_label SET_ADDRESS st = set_address st"
| "enter_label RECONNECT st = reconnect st"
| "enter_label REDIRECT_RECONNECT st = redirect_reconnect st"

text \<open>From \<open>start_conn\<close> to the end of the function.\<close>

definition start_conn :: "attempt \<Rightarrow> int" where
  "start_conn a =
     (if neg_params_rc a \<noteq> 0 then ISCSI_ERR_INTERNAL
      else if \<not> start_ok a then ISCSI_ERR_INTERNAL
      else wait_rc a)"

text \<open>The switch over the status class of a login that went through.\<close>

definition check_login_class :: "transport_caps \<Rightarrow> attempt \<Rightarrow> create_state \<Rightarrow> int + create_label \<times> create_state" where
  "check_login_class caps a st =
     (if status_class a = ISCSI_STATUS_CLS_SUCCESS then Inl (if text_nego caps then start_conn a else 0)
      else if status_class a = ISCSI_STATUS_CLS_REDIRECT then
        if status_detail a = ISCSI_LOGIN_STATUS_TGT_MOVED_TEMP then Inr (REDIRECT_RECONNECT, st)
        else if status_detail a = ISCSI_LOGIN_STATUS_TGT_MOVED_PERM
        then Inr (REDIRECT_RECONNECT, st\<lparr>failback_saddr := conn_saddr st\<rparr>)
        else Inr (SET_ADDRESS, st)
      else if status_class a = ISCSI_STATUS_CLS_INITIATOR_ERR then
        Inl (if status_detail a = ISCSI_LOGIN_STATUS_AUTH_FAILED \<or> status_detail a = ISCSI_LOGIN_STATUS_TGT_FORBIDDEN
             then ISCSI_ERR_LOGIN_AUTH_FAILED else ISCSI_ERR_FATAL_LOGIN)
      else Inr (RECONNECT, st\<lparr>login_failures := login_failures st + 1\<rparr>))"

definition try_login :: "transport_caps \<Rightarrow> attempt \<Rightarrow> create_state \<Rightarrow> int + create_label \<times> create_state" where
  "try_login caps a st =
     (if leading_rc a \<noteq> 0 then Inr (RECONNECT, st\<lparr>login_failures := login_failures st + 1\<rparr>)
      else if text_nego caps \<and> set_params_rc a \<noteq> 0 then Inl ISCSI_ERR_INTERNAL
      else if login_offload caps then Inl (start_conn a)
      else
        let st = st\<lparr>conn_saddr := new_saddr a\<rparr>
        in if login_status a = LOGIN_OK \<or> login_status a = LOGIN_REDIRECT then check_login_class caps a st
           else if login_status a = LOGIN_IO_ERROR \<or> login_status a = LOGIN_REDIRECTION_FAILED
           then Inr (SET_ADDRESS, st\<lparr>login_failures := login_failures st + 1\<rparr>)
           else Inl ISCSI_ERR_FATAL_LOGIN)"

text \<open>The loop over the attempts still to come; \<open>None\<close> when they end before the loop does.\<close>

fun create_loop :: "transport_caps \<Rightarrow> create_label \<Rightarrow> create_state \<Rightarrow> attempt list \<Rightarrow> int option" where
  "create_loop caps l st as' =
     (case enter_label l st of
        Inl rc \<Rightarrow> Some rc
      | Inr st \<Rightarrow>
          (case as' of
             [] \<Rightarrow> None
           | a # as' \<Rightarrow>
               (case try_login caps a st of
                  Inl rc \<Rightarrow> Some rc
                | Inr (l, st) \<Rightarrow> create_loop caps l st as')))"

declare create_loop.simps [simp del]

definition iscsi_create_session :: "transport_caps \<Rightarrow> create_state \<Rightarrow> attempt list \<Rightarrow> int option" where
  "iscsi_create_session caps st as' = create_loop caps SET_ADDRESS (st\<lparr>login_failures := 0\<rparr>) as'"

subsection \<open>The number of attempts\<close>

definition redirected :: "attempt \<Rightarrow> bool" where
  "redirected a \<longleftrightarrow> leading_rc a = 0 \<and> (login_status a = LOGIN_OK \<or> login_status a = LOGIN_REDIRECT) \<and>
     status_class a = ISCSI_STATUS_CLS_REDIRECT \<and>
     (status_detail a = ISCSI_LOGIN_STATUS_TGT_MOVED_TEMP \<or> status_detail a = ISCSI_LOGIN_STATUS_TGT_MOVED_PERM)"

lemma try_login_next:
  assumes "try_login caps a st = Inr (l, st')"
  shows "reopen_cnt st' = reopen_cnt st" and "l = REDIRECT_RECONNECT \<Longrightarrow> redirected a"
  using assms by (auto simp: try_login_def check_login_class_def redirected_def Let_def split: if_splits)

text \<open>How many attempts a label leaves.\<close>

definition attempts_left :: "create_label \<Rightarrow> create_state \<Rightarrow> nat" where
  "attempts_left l st = nat (reopen_cnt st) + (if l = REDIRECT_RECONNECT then 1 else 0)"

lemma enter_label_Inr:
  assumes "enter_label l st = Inr st'"
  shows "attempts_left l st = Suc (nat (reopen_cnt st'))"
  using assms by (cases l) (auto simp: attempts_left_def set_address_def reconnect_def redirect_reconnect_def split: if_splits)

lemma create_loop_returns:
  "attempts_left l st + length (filter redirected as') \<le> length as' \<Longrightarrow> \<exists>rc. create_loop caps l st as' = Some rc"
proof (induction as' arbitrary: l st)
  case Nil
  then have "enter_label l st = Inl ISCSI_ERR_PDU_TIMEOUT"
    by (cases l) (auto simp: attempts_left_def set_address_def reconnect_def)
  then show ?case by (simp add: create_loop.simps)
next
  case (Cons a as')
  show ?case
  proof (cases "enter_label l st")
    case (Inr st1)
    show ?thesis
    proof (cases "try_login caps a st1")
      case (Inr r)
      obtain l2 st2 where r: "try_login caps a st1 = Inr (l2, st2)" using Inr by (cases r) auto
      have "attempts_left l2 st2 + length (filter redirected as') \<le> length as'"
        using try_login_next [OF r] enter_label_Inr [OF \<open>enter_label l st = Inr st1\<close>] Cons.prems
        by (auto simp: attempts_left_def split: if_splits)
      from Cons.IH [OF this] show ?thesis using \<open>enter_label l st = Inr st1\<close> r by (subst create_loop.simps) simp
    qed (use Inr in \<open>simp add: create_loop.simps\<close>)
  qed (simp add: create_loop.simps)
qed

subsection \<open>Properties\<close>

text \<open>C24. Creating a discovery session gives up after a bounded number of failed attempts. If there are more attempts than the
  reopen count and the redirections among them, the function returns; so with no redirections it makes at most as
  many attempts as the reopen count allows.\<close>

theorem create_session_returns:
  assumes "nat (reopen_cnt st) + length (filter redirected as') \<le> length as'"
  shows "\<exists>rc. iscsi_create_session caps st as' = Some rc"
  unfolding iscsi_create_session_def
  by (rule create_loop_returns) (use assms in \<open>simp add: attempts_left_def\<close>)

definition sample_attempt :: "byte \<Rightarrow> byte \<Rightarrow> attempt" where
  "sample_attempt class detail =
     \<lparr>leading_rc = 0, set_params_rc = 0, login_status = LOGIN_OK, status_class = class, status_detail = detail, new_saddr = [1],
      neg_params_rc = 0, start_ok = True, wait_rc = 0\<rparr>"

definition sample_create_state :: create_state where
  "sample_create_state =
     \<lparr>reopen_cnt = 2, conn_saddr = [], failback_saddr = [], sess_cmdsn = 0, sess_itt = 0, sess_tag = 0, login_failures = 0, slept = []\<rparr>"

theorem create_session_returns_witness:
  "\<exists>rc. iscsi_create_session \<lparr>text_nego = True, login_offload = False\<rparr> sample_create_state
     [sample_attempt ISCSI_STATUS_CLS_TARGET_ERR 0, sample_attempt ISCSI_STATUS_CLS_TARGET_ERR 1] = Some rc"
  by (rule create_session_returns)
    (simp add: sample_create_state_def sample_attempt_def redirected_def ISCSI_STATUS_CLS_TARGET_ERR_def ISCSI_STATUS_CLS_REDIRECT_def)

text \<open>C30. Redirections are not counted. A portal that answers every login with a temporary redirection keeps the function
  connecting for ever: however many attempts there are, it has not returned.\<close>

theorem redirections_unbounded:
  assumes "0 < reopen_cnt st" and "redirected a" and "\<not> login_offload caps" and "set_params_rc a = 0"
  shows "iscsi_create_session caps st (replicate n a) = None"
proof -
  have step: "\<exists>st'. try_login caps a st = Inr (REDIRECT_RECONNECT, st')" for st
    using assms(2-4) by (auto simp: try_login_def redirected_def check_login_class_def Let_def ISCSI_STATUS_CLS_SUCCESS_def ISCSI_STATUS_CLS_REDIRECT_def)
  have loop: "create_loop caps REDIRECT_RECONNECT st (replicate k a) = None" for st k
  proof (induction k arbitrary: st)
    case 0
    show ?case by (simp add: create_loop.simps redirect_reconnect_def)
  next
    case (Suc k)
    obtain st1 where "redirect_reconnect st = Inr st1" by (simp add: redirect_reconnect_def)
    then show ?case using Suc step [of st1] by (subst create_loop.simps) auto
  qed
  obtain st1 where s: "set_address (st\<lparr>login_failures := 0\<rparr>) = Inr st1"
    using assms(1) by (auto simp: set_address_def reconnect_def redirect_reconnect_def)
  show ?thesis
  proof (cases n)
    case 0
    then show ?thesis using s by (simp add: iscsi_create_session_def create_loop.simps)
  next
    case (Suc m)
    then show ?thesis using s step [of st1] loop unfolding iscsi_create_session_def
      by (subst create_loop.simps) auto
  qed
qed

theorem redirections_unbounded_witness:
  "iscsi_create_session \<lparr>text_nego = False, login_offload = False\<rparr> sample_create_state
     (replicate 1000 (sample_attempt ISCSI_STATUS_CLS_REDIRECT ISCSI_LOGIN_STATUS_TGT_MOVED_TEMP)) = None"
  by (rule redirections_unbounded) (simp_all add: sample_create_state_def sample_attempt_def redirected_def)

end
