(* ===== verification/Spec2Isabelle.thy ===== *)
theory Spec2Isabelle
  imports Session_Properties Actor_Properties Md5_Digest Discovery_Properties Discovery_Session
begin

text \<open>
  A verification library for the login, the sessions and the discovery of open-iscsi.

  \<^bold>\<open>The program.\<close> The daemon \<open>iscsid\<close> keeps a session with each target. A request of the command line tool makes
  it create a session (\<open>usr/initiator.c\<close>) from a node record (\<open>usr/config.h\<close>, \<open>usr/initiator_common.c\<close>), connect it, and log it
  in: the login (\<open>usr/login.c\<close>) exchanges texts of \<open>key=value\<close> pairs with the target, in stages, and hands the keys of the security
  stage to the authentication client (\<open>usr/auth.c\<close>), which runs CHAP with the digests of a library. What happens later
  reaches a session as events of the kernel (\<open>usr/netlink.c\<close>) and as timers and event contexts of the scheduler (\<open>usr/actor.c\<close>),
  whose lists are those of \<open>include/list.h\<close>. Discovery (\<open>usr/discovery.c\<close>) logs in with the same login code in blocking form and
  collects the SendTargets text of a target in a string buffer (\<open>usr/local_strings.c\<close>).

  \<^bold>\<open>Conventions.\<close> A struct is a \<open>record\<close>, an enum a \<open>datatype\<close> or its numbers, a function of the source a definition
  of the same name on explicit state. Fixed-width integers are words where they can wrap, otherwise \<open>int\<close> or \<open>nat\<close>. Fallible code
  returns a status as in the source, or \<open>option\<close> where \<open>None\<close> is a write outside memory, a failed assertion or a loop that does not
  return. Code outside the repository and calls into the system are parameters: the digests and the random bytes
  (\<open>auth_env\<close>), name resolution and allocation (\<open>login_env\<close>, \<open>disc_env\<close>), and what the kernel and the network answer to each call of
  a handler (\<open>kenv\<close>). Effects on the outside are recorded in the trace of a session. Log output is left out.

  \<^bold>\<open>Theories.\<close>

  \<^item> \<open>Iscsi_Prelude\<close>, \<open>Iscsi_Codes\<close>: shared lemmas on lists, C strings and words, the collections \<open>buffer_simps\<close> and \<open>acl_frame\<close>
    and the return codes of \<open>include/iscsi_err.h\<close>.
  \<^item> \<open>Sys_Strings\<close>: \<open>strlcpy\<close> and \<open>strlcat\<close> of \<open>utils/sysdeps/sysdeps.c\<close> and the printing and reading of numbers.
  \<^item> \<open>Auth_Text\<close>, \<open>Auth_Keys\<close>, \<open>Auth_Client\<close>: all of \<open>usr/auth.c\<close>, from the text encodings over the key blocks (locale
    \<open>key_store\<close>) to the handshake. \<open>Auth_Steps\<close>, \<open>Auth_Invariant\<close>, \<open>Auth_View\<close> (locale \<open>key_map_impl\<close>), \<open>Auth_Handshake\<close> and
    \<open>Auth_Progress\<close> hold the invariant of a client over every sequence of calls (\<open>acl_run\<close>), the view of a key block as a map, the
    three messages of a login with an honest target, and the progress of a dialogue. \<open>Auth_Properties\<close>: the status pass means that the
    peer knew its secret, an honest login completes, a dialogue is bounded.
  \<^item> \<open>Login_Text\<close>, \<open>Login_Params\<close>, \<open>Login_Exchange\<close>: \<open>usr/login.c\<close>. The text of a PDU, the negotiated parameters and the redirection
    address, responses, requests and the blocking login \<open>iscsi_login\<close>, which runs on a list of sends and polls.
    \<open>Login_Auth\<close> (locales \<open>param_view\<close>, \<open>digest_free_view\<close>, \<open>client_free_view\<close>, \<open>text_scan\<close>) carries the run of the client through
    a login, \<open>Login_Message\<close> reads a text of pairs back, \<open>Login_Honest\<close> follows a login with an honest target.
    \<open>Login_Properties\<close>: soundness and completion of the login, the order of the stages, digests, the layout of
    requests, redirection addresses, and what a login leaves in memory.
  \<^item> \<open>Session_Params\<close>, \<open>Session\<close>: transports (\<open>usr/transport.c\<close>, \<open>usr/iser.c\<close>, \<open>usr/cxgbi.c\<close>, \<open>usr/be2iscsi.c\<close>), the parameters of a
    session (\<open>usr/initiator_common.c\<close>) and every handler of \<open>usr/initiator.c\<close>, with the event handler of \<open>usr/netlink.c\<close>.
    \<open>session_step\<close> is one event, \<open>session_run\<close> a sequence of them. \<open>Session_Invariant\<close> and \<open>Session_Handlers\<close> (locale
    \<open>session_runs\<close>) show that every handler keeps the invariant and the balance of requests and answers, \<open>Session_Auth\<close> that it
    keeps the authentication of the target, \<open>Session_Login\<close> that the login by events follows the blocking one.
    \<open>Session_Properties\<close> states the results; \<open>Session_Sample\<close> has the node on which their hypotheses hold.
  \<^item> \<open>Kernel_List\<close> (locale \<open>op_simulation\<close>), \<open>Actor\<close>, \<open>Actor_Invariant\<close>, \<open>Actor_Properties\<close>: the lists of
    \<open>include/list.h\<close> on a heap of pointers, the scheduler on top of them, its invariant in every reachable state, that no wake-up is
    lost and what a poll runs.
  \<^item> \<open>String_Buffer\<close>, \<open>Discovery\<close>, \<open>Discovery_Text\<close>, \<open>Discovery_Properties\<close>, \<open>Discovery_Session\<close>: the string buffer, the SendTargets
    part of \<open>usr/discovery.c\<close>, how the text of a list of targets is read in any division into PDUs, that the records fit and the
    buffer is not overrun, and the loop that creates a discovery session.
  \<^item> \<open>Iscsi_Timer\<close>, \<open>Md5\<close>, \<open>Md5_Digest\<close>: \<open>usr/iscsi_timer.c\<close>, and \<open>utils/md5.c\<close> with its equality to the digest of RFC 1321.

  \<^bold>\<open>Loops and bounds.\<close> The loops over texts and lists are recursive functions with termination proofs. The loops that follow
  pointers in the scheduler are partial functions; that they return is proved for every reachable state. The blocking login and the
  creation of a discovery session run on a list of events; the latter is proved to return within the reopen count where
  the portal does not redirect, and not to return where it always does. There is no fuel.

  \<^bold>\<open>Hypotheses.\<close> Digests have the lengths of the algorithms (\<open>digest_lengths\<close>). The properties of whole runs of a session take a
  kernel that stops and destroys what it is told to (\<open>kernel_obeys\<close>), events that report neither the removal of the
  host nor an unbinding that was not asked for (\<open>event_fits\<close>), and a transport that does not do the login itself; the
  handlers themselves are modelled for every answer of the kernel and for such transports as well. The property of a poll takes callbacks
  that make no actor ready (\<open>quiet_callbacks\<close>); the invariant of the scheduler holds for all callbacks.

  \<^bold>\<open>Not modelled.\<close> The record database (\<open>usr/idbm.c\<close>), the command line tool and its helpers (\<open>usr/iscsiadm.c\<close>,
  \<open>usr/session_mgmt.c\<close>, \<open>usr/session_info.c\<close>, \<open>usr/host.c\<close>, \<open>usr/flashnode.c\<close>, \<open>usr/iscsid_req.c\<close>), the start of the daemon, its loop and its
  sockets (\<open>usr/iscsid.c\<close>, \<open>usr/iscsistart.c\<close>, \<open>usr/event_poll.c\<close>, \<open>usr/discoveryd.c\<close>, most of \<open>usr/mgmt_ipc.c\<close> and \<open>usr/netlink.c\<close>),
  the transfer of bytes (\<open>usr/io.c\<close>), sysfs (\<open>usr/sysfs.c\<close>, \<open>usr/iscsi_sysfs.c\<close>), interfaces (\<open>usr/iface.c\<close>) and output (\<open>usr/log.c\<close>,
  the error tables) are files, sockets, system calls or printing. Firmware tables (\<open>utils/fwparam_ibft\<close>), the network stack
  \<open>iscsiuio\<close> and the library \<open>libopeniscsiusr\<close> are programs of their own. Of discovery, iSNS, firmware and offloaded discovery and the
  socket handling around the exchange are left out.
\<close>

end
